(* ===== verification/Prelude.thy ===== *)
theory Prelude
  imports Main "HOL-Library.Word" "HOL-Library.Monad_Syntax" "HOL-Library.Multiset"
begin

text \<open>
  Shared vocabulary of the development: the machine types of the Rust sources, the checked
  and saturating integer operations they call, the outcome layer (a Rust panic is
  \<open>None\<close>, a Rust \<open>Result\<close> is a sum whose left injection is the error),
  the standard containers the sources use (an ordered map, a priority queue, a hash map whose
  iteration order matters) and the \<open>{:020}\<close> formatting of sequence numbers.
\<close>

named_theorems coinext_defs \<open>definitions that proofs about a component unfold\<close>
named_theorems coinext_inv \<open>preservation lemmas of the component invariants\<close>

section \<open>Machine integers\<close>

type_synonym u64 = "64 word"
type_synonym unix_nanos = u64

text \<open>
  Signed 64-bit and 128-bit values are mathematical integers; the sources only ever combine
  them with the checked or saturating operations below, whose range tests are explicit.
\<close>

definition in_i64 :: "int \<Rightarrow> bool" where
  "in_i64 x \<longleftrightarrow> - (2 ^ 63) \<le> x \<and> x < 2 ^ 63"

definition in_i128 :: "int \<Rightarrow> bool" where
  "in_i128 x \<longleftrightarrow> - (2 ^ 127) \<le> x \<and> x < 2 ^ 127"

definition i64_checked :: "int \<Rightarrow> int option" where
  "i64_checked x = (if in_i64 x then Some x else None)"

definition i128_checked :: "int \<Rightarrow> int option" where
  "i128_checked x = (if in_i128 x then Some x else None)"

definition i64_saturate :: "int \<Rightarrow> int" where
  "i64_saturate x = max (- (2 ^ 63)) (min (2 ^ 63 - 1) x)"

text \<open>Rust's integer division truncates towards zero.\<close>

definition int_quot :: "int \<Rightarrow> int \<Rightarrow> int" where
  "int_quot a b = (let q = \<bar>a\<bar> div \<bar>b\<bar> in if (a < 0) = (b < 0) then q else - q)"

lemma i64_checked_Some [simp]: "i64_checked x = Some y \<longleftrightarrow> in_i64 x \<and> y = x"
  by (auto simp: i64_checked_def)

lemma i64_checked_None [simp]: "i64_checked x = None \<longleftrightarrow> \<not> in_i64 x"
  by (auto simp: i64_checked_def)

lemma i128_checked_Some [simp]: "i128_checked x = Some y \<longleftrightarrow> in_i128 x \<and> y = x"
  by (auto simp: i128_checked_def)

lemma i128_checked_None [simp]: "i128_checked x = None \<longleftrightarrow> \<not> in_i128 x"
  by (auto simp: i128_checked_def)

lemma in_i64_saturate [simp]: "in_i64 (i64_saturate x)"
  by (auto simp: in_i64_def i64_saturate_def)

lemma i64_saturate_id: "in_i64 x \<Longrightarrow> i64_saturate x = x"
  by (auto simp: in_i64_def i64_saturate_def)

lemma int_quot_nonneg: "0 \<le> a \<Longrightarrow> 0 < b \<Longrightarrow> int_quot a b = a div b"
  by (simp add: int_quot_def)

text \<open>Unsigned 64-bit time arithmetic saturates at the largest value.\<close>

definition u64_saturating_add :: "u64 \<Rightarrow> u64 \<Rightarrow> u64" where
  "u64_saturating_add a b = (if unat a + unat b < 2 ^ 64 then a + b else - 1)"

lemma unat_u64_saturating_add:
  "unat (u64_saturating_add a b) = min (unat a + unat b) (2 ^ 64 - 1)"
proof (cases "unat a + unat b < 2 ^ 64")
  case True
  then show ?thesis
    by (simp add: u64_saturating_add_def unat_word_ariths)
next
  case False
  then show ?thesis
    by (simp add: u64_saturating_add_def unsigned_minus_1_eq_mask mask_eq_exp_minus_1)
qed

lemma u64_saturating_add_ge: "a \<le> u64_saturating_add a b"
proof -
  have "unat a \<le> 2 ^ 64 - 1"
    using unsigned_less [of a, where ?'a = nat] by simp
  then show ?thesis
    by (simp add: word_le_nat_alt unat_u64_saturating_add)
qed

section \<open>Panics and results\<close>

text \<open>
  \<open>None\<close> of the outer option is a panic; it propagates through
  \<^const>\<open>Option.bind\<close> and the \<open>do\<close> notation. A Rust
  \<open>Result\<close> is the sum \<open>'e + 'a\<close>.
\<close>

abbreviation Err :: "'e \<Rightarrow> 'e + 'a" where "Err \<equiv> Inl"
abbreviation Ok :: "'a \<Rightarrow> 'e + 'a" where "Ok \<equiv> Inr"

definition result_ok :: "'e + 'a \<Rightarrow> 'a option" where
  "result_ok r = (case r of Inl _ \<Rightarrow> None | Inr x \<Rightarrow> Some x)"

definition is_ok :: "'e + 'a \<Rightarrow> bool" where
  "is_ok r = (case r of Inl _ \<Rightarrow> False | Inr _ \<Rightarrow> True)"

definition unwrap_or :: "'e + 'a \<Rightarrow> 'a \<Rightarrow> 'a" where
  "unwrap_or r d = (case r of Inl _ \<Rightarrow> d | Inr x \<Rightarrow> x)"

definition result_bind :: "'e + 'a \<Rightarrow> ('a \<Rightarrow> 'e + 'b) \<Rightarrow> 'e + 'b" where
  "result_bind r f = (case r of Inl e \<Rightarrow> Inl e | Inr x \<Rightarrow> f x)"

definition ok_or :: "'a option \<Rightarrow> 'e \<Rightarrow> 'e + 'a" where
  "ok_or x e = (case x of None \<Rightarrow> Inl e | Some y \<Rightarrow> Inr y)"

lemma result_simps [simp]:
  "result_ok (Inl e) = None" "result_ok (Inr x) = Some x"
  "is_ok (Inl e) = False" "is_ok (Inr x) = True"
  "unwrap_or (Inl e) d = d" "unwrap_or (Inr x) d = x"
  "result_bind (Inl e) f = Inl e" "result_bind (Inr x) f = f x"
  "ok_or None e = Inl e" "ok_or (Some y) e = Inr y"
  by (simp_all add: result_ok_def is_ok_def unwrap_or_def result_bind_def ok_or_def)

lemma result_bind_Inr: "result_bind r f = Inr y \<longleftrightarrow> (\<exists>x. r = Inr x \<and> f x = Inr y)"
  by (cases r) auto

lemma is_ok_iff: "is_ok r \<longleftrightarrow> (\<exists>x. r = Inr x)"
  by (cases r) auto

lemma ok_or_Inr [simp]: "ok_or x e = Inr y \<longleftrightarrow> x = Some y"
  by (cases x) auto

lemma bind_eq_Some: "Option.bind x f = Some y \<longleftrightarrow> (\<exists>z. x = Some z \<and> f z = Some y)"
  by (cases x) auto

lemma bind_eq_None: "Option.bind x f = None \<longleftrightarrow> x = None \<or> (\<exists>z. x = Some z \<and> f z = None)"
  by (cases x) auto

lemma case_sum_eq_iff:
  "(case r of Inl e \<Rightarrow> f e | Inr x \<Rightarrow> g x) = y \<longleftrightarrow>
     (\<exists>e. r = Inl e \<and> f e = y) \<or> (\<exists>x. r = Inr x \<and> g x = y)"
  by (cases r) auto

lemma case_option_eq_iff:
  "(case r of None \<Rightarrow> a | Some x \<Rightarrow> g x) = y \<longleftrightarrow> (r = None \<and> a = y) \<or> (\<exists>x. r = Some x \<and> g x = y)"
  by (cases r) auto

text \<open>A loop over a list whose body may panic.\<close>

fun fold_opt :: "('a \<Rightarrow> 's \<Rightarrow> 's option) \<Rightarrow> 'a list \<Rightarrow> 's \<Rightarrow> 's option" where
  "fold_opt f [] s = Some s"
| "fold_opt f (x # xs) s = Option.bind (f x s) (fold_opt f xs)"

lemma fold_opt_append: "fold_opt f (xs @ ys) s = Option.bind (fold_opt f xs s) (fold_opt f ys)"
  by (induction xs arbitrary: s) (auto split: bind_split)

lemma fold_opt_inv:
  assumes "fold_opt f xs s = Some t" "P s"
    and "\<And>x s t. x \<in> set xs \<Longrightarrow> P s \<Longrightarrow> f x s = Some t \<Longrightarrow> P t"
  shows "P t"
  using assms by (induction xs arbitrary: s) (auto simp: bind_eq_Some)

section \<open>Ordered maps\<close>

text \<open>
  A \<open>BTreeMap\<close> is its in-order list of entries: keys strictly increasing. The map it
  stands for is \<^const>\<open>map_of\<close> of that list.
\<close>

fun btm_insert :: "'k::linorder \<Rightarrow> 'v \<Rightarrow> ('k \<times> 'v) list \<Rightarrow> ('k \<times> 'v) list" where
  "btm_insert k v [] = [(k, v)]"
| "btm_insert k v ((k', v') # m) =
     (if k < k' then (k, v) # (k', v') # m
      else if k = k' then (k, v) # m
      else (k', v') # btm_insert k v m)"

fun btm_remove :: "'k::linorder \<Rightarrow> ('k \<times> 'v) list \<Rightarrow> ('k \<times> 'v) list" where
  "btm_remove k [] = []"
| "btm_remove k ((k', v') # m) =
     (if k < k' then (k', v') # m
      else if k = k' then m
      else (k', v') # btm_remove k m)"

definition btm_ok :: "('k::linorder \<times> 'v) list \<Rightarrow> bool" where
  "btm_ok m \<longleftrightarrow> sorted_wrt (<) (map fst m)"

lemma btm_ok_Nil [simp]: "btm_ok []"
  by (simp add: btm_ok_def)

lemma btm_ok_Cons: "btm_ok ((k, v) # m) \<longleftrightarrow> (\<forall>x \<in> set m. k < fst x) \<and> btm_ok m"
  by (auto simp: btm_ok_def)

lemma set_fst_btm_insert: "fst ` set (btm_insert k v m) = insert k (fst ` set m)"
  by (induction k v m rule: btm_insert.induct) auto

lemma set_btm_remove: "set (btm_remove k m) \<subseteq> set m"
  by (induction k m rule: btm_remove.induct) auto

lemma btm_ok_insert [intro]: "btm_ok m \<Longrightarrow> btm_ok (btm_insert k v m)"
proof (induction k v m rule: btm_insert.induct)
  case (2 k v k' v' m)
  have "\<forall>x \<in> set (btm_insert k v m). k' < fst x" if "k' < k"
    using 2(2) that set_fst_btm_insert [of k v m] by (fastforce simp: btm_ok_Cons)
  then show ?case using 2 by (auto simp: btm_ok_Cons)
qed (simp add: btm_ok_def)

lemma btm_ok_remove [intro]: "btm_ok m \<Longrightarrow> btm_ok (btm_remove k m)"
proof (induction k m rule: btm_remove.induct)
  case (2 k k' v' m)
  then show ?case using set_btm_remove [of k m] by (auto simp: btm_ok_Cons)
qed simp

lemma map_of_btm_None: "(\<forall>x \<in> set m. (k::'k::linorder) < fst x) \<Longrightarrow> map_of m k = None"
  by (auto simp: map_of_eq_None_iff)

lemma map_of_btm_insert: "map_of (btm_insert k v m) = (map_of m)(k \<mapsto> v)"
  by (induction k v m rule: btm_insert.induct) (auto simp: fun_eq_iff)

lemma map_of_btm_remove: "btm_ok m \<Longrightarrow> map_of (btm_remove k m) = (map_of m)(k := None)"
proof (induction k m rule: btm_remove.induct)
  case (2 k k' v' m)
  then have later: "\<forall>x \<in> set m. k' < fst x" and ok: "btm_ok m" by (auto simp: btm_ok_Cons)
  then have "map_of m k' = None" by (intro map_of_btm_None)
  moreover have "map_of m k = None" if "k < k'"
    using later that by (intro map_of_btm_None) (auto intro: less_trans)
  ultimately show ?case using 2(1) ok by (auto simp: fun_eq_iff)
qed simp

lemma btm_hd_least: "btm_ok ((k, v) # m) \<Longrightarrow> x \<in> set ((k, v) # m) \<Longrightarrow> k \<le> fst x"
  by (auto simp: btm_ok_Cons intro: less_imp_le)

lemma btm_last_greatest: "btm_ok m \<Longrightarrow> x \<in> set m \<Longrightarrow> fst x \<le> fst (last m)"
  by (induction m) (auto simp: btm_ok_Cons intro: less_imp_le)

section \<open>Priority queues\<close>

text \<open>
  A \<open>BinaryHeap\<close> whose elements have pairwise different keys pops them in key order, so
  its observable state is the list of its elements sorted by key.
\<close>

definition pq_push :: "('a \<Rightarrow> 'k::linorder) \<Rightarrow> 'a \<Rightarrow> 'a list \<Rightarrow> 'a list" where
  "pq_push f x h = insort_key f x h"

lemma mset_pq_push [simp]: "mset (pq_push f x h) = add_mset x (mset h)"
  by (simp add: pq_push_def)

lemma set_pq_push [simp]: "set (pq_push f x h) = insert x (set h)"
  by (simp add: pq_push_def set_insort_key)

lemma length_pq_push [simp]: "length (pq_push f x h) = Suc (length h)"
  by (simp add: pq_push_def)

lemma sorted_pq_push [simp]: "sorted (map f (pq_push f x h)) \<longleftrightarrow> sorted (map f h)"
  by (simp add: pq_push_def sorted_insort_key)

section \<open>Hash maps whose iteration order is observed\<close>

text \<open>
  A \<open>HashMap\<close> that is only looked up is a HOL map. One that is also iterated is an
  association list with distinct keys; the iteration visits a permutation of it, and that
  permutation is a parameter of the functions that iterate.
\<close>

fun hm_insert :: "'k \<Rightarrow> 'v \<Rightarrow> ('k \<times> 'v) list \<Rightarrow> ('k \<times> 'v) list" where
  "hm_insert k v [] = [(k, v)]"
| "hm_insert k v ((k', v') # m) =
     (if k = k' then (k, v) # m else (k', v') # hm_insert k v m)"

lemma map_of_hm_insert [simp]: "map_of (hm_insert k v m) = (map_of m)(k \<mapsto> v)"
  by (induction k v m rule: hm_insert.induct) (auto simp: fun_eq_iff)

lemma set_fst_hm_insert [simp]: "fst ` set (hm_insert k v m) = insert k (fst ` set m)"
  by (induction k v m rule: hm_insert.induct) auto

lemma distinct_hm_insert [simp]:
  "distinct (map fst m) \<Longrightarrow> distinct (map fst (hm_insert k v m))"
proof (induction k v m rule: hm_insert.induct)
  case (2 k v k' v' m)
  have "k' \<notin> fst ` set (hm_insert k v m)" if "k \<noteq> k'"
    using 2(2) that by simp
  with 2 show ?case by auto
qed simp

section \<open>Zero-padded sequence numbers\<close>

definition digit_char :: "nat \<Rightarrow> char" where
  "digit_char d = char_of (48 + d)"

fun show_nat :: "nat \<Rightarrow> string" where
  "show_nat n = (if n < 10 then [digit_char n] else show_nat (n div 10) @ [digit_char (n mod 10)])"

declare show_nat.simps [simp del]

text \<open>\<open>{:020}\<close>: pad with zeros on the left to at least twenty characters.\<close>

definition fmt020 :: "nat \<Rightarrow> string" where
  "fmt020 n = replicate (20 - length (show_nat n)) (CHR ''0'') @ show_nat n"

definition char_digit :: "char \<Rightarrow> nat" where
  "char_digit c = of_char c - 48"

definition read_nat :: "string \<Rightarrow> nat" where
  "read_nat s = foldl (\<lambda>a c. 10 * a + char_digit c) 0 s"

lemma char_digit_digit_char: "d < 10 \<Longrightarrow> char_digit (digit_char d) = d"
  by (simp add: char_digit_def digit_char_def)

lemma read_nat_show_nat [simp]: "read_nat (show_nat n) = n"
proof (induction n rule: show_nat.induct)
  case (1 n)
  show ?case
  proof (cases "n < 10")
    case True
    then show ?thesis by (simp add: show_nat.simps [of n] read_nat_def char_digit_digit_char)
  next
    case False
    with 1 show ?thesis
      by (simp add: show_nat.simps [of n] read_nat_def char_digit_digit_char)
  qed
qed

lemma read_nat_zeros: "read_nat (replicate k (CHR ''0'') @ s) = read_nat s"
  by (induction k) (simp_all add: read_nat_def char_digit_def)

lemma read_nat_fmt020 [simp]: "read_nat (fmt020 n) = n"
  by (simp add: fmt020_def read_nat_zeros)

lemma fmt020_inject [simp]: "fmt020 m = fmt020 n \<longleftrightarrow> m = n"
  by (metis read_nat_fmt020)

end
