(* ===== verification/Decimal.thy ===== *)
theory Decimal
  imports Prelude Complex_Main
begin

text \<open>
  The decimal type every monetary computation of the sources goes through is
  \<open>rust_decimal::Decimal\<close>, a package outside the repository. Its data is its documented
  value set: an integer of less than 96 bits and a scale of at most 28, standing for the
  integer divided by a power of ten. Its operations are a parameter: the record
  \<open>dec_ops\<close>, an argument of every definition that computes with decimals, with
  \<open>None\<close> for the documented panics (overflow, division by zero). The locale
  \<open>decimal_lib\<close> collects the documented behaviour the sources rely on, and
  \<open>rdec\<close> is an instance that satisfies it.
\<close>

section \<open>Values\<close>

record decimal =
  mantissa :: int
  scale :: nat

definition dval :: "decimal \<Rightarrow> rat" where
  "dval d = of_int (mantissa d) / 10 ^ scale d"

definition wf_dec :: "decimal \<Rightarrow> bool" where
  "wf_dec d \<longleftrightarrow> \<bar>mantissa d\<bar> < 2 ^ 96 \<and> scale d \<le> 28"

definition representable :: "rat \<Rightarrow> bool" where
  "representable q \<longleftrightarrow> (\<exists>d. wf_dec d \<and> dval d = q)"

definition dec_int :: "int \<Rightarrow> decimal" where
  "dec_int n = \<lparr>mantissa = n, scale = 0\<rparr>"

definition dec_new :: "int \<Rightarrow> nat \<Rightarrow> decimal" where
  "dec_new n s = \<lparr>mantissa = n, scale = s\<rparr>"

definition dec_zero :: decimal where "dec_zero = dec_int 0"

definition dec_one :: decimal where "dec_one = dec_int 1"

definition dec_is_zero :: "decimal \<Rightarrow> bool" where
  "dec_is_zero d \<longleftrightarrow> mantissa d = 0"

lemma dval_dec_int [simp]: "dval (dec_int n) = of_int n"
  by (simp add: dval_def dec_int_def)

lemma dval_consts [simp]: "dval dec_zero = 0" "dval dec_one = 1"
  by (simp_all add: dec_zero_def dec_one_def)

lemma dec_is_zero_iff: "dec_is_zero d \<longleftrightarrow> dval d = 0"
  by (simp add: dec_is_zero_def dval_def)

lemma dval_nonneg_iff: "0 \<le> dval d \<longleftrightarrow> 0 \<le> mantissa d"
  by (simp add: dval_def pos_le_divide_eq)

lemma dval_pos_iff: "0 < dval d \<longleftrightarrow> 0 < mantissa d"
  by (simp add: dval_def pos_less_divide_eq)

lemma wf_dec_consts [simp]: "wf_dec dec_zero" "wf_dec dec_one"
  by (simp_all add: wf_dec_def dec_zero_def dec_one_def dec_int_def)

lemma wf_dec_int: "\<bar>n\<bar> < 2 ^ 96 \<Longrightarrow> wf_dec (dec_int n)"
  by (simp add: wf_dec_def dec_int_def)

lemma representable_dval [simp]: "wf_dec d \<Longrightarrow> representable (dval d)"
  by (auto simp: representable_def)

lemma representableI: "\<bar>m\<bar> < 2 ^ 96 \<Longrightarrow> s \<le> 28 \<Longrightarrow> representable (of_int m / 10 ^ s)"
  unfolding representable_def
  by (intro exI [of _ "\<lparr>mantissa = m, scale = s\<rparr>"]) (simp add: wf_dec_def dval_def)

lemma representable_0 [simp]: "representable 0"
  using representable_dval [of dec_zero] by simp

lemma dec_eq_iff: "scale a = scale b \<Longrightarrow> dval a = dval b \<longleftrightarrow> a = b"
  by (cases a; cases b) (simp add: dval_def)

section \<open>Rounding\<close>

text \<open>Banker's rounding: to the nearest integer, ties to the even one.\<close>

definition round_half_even :: "rat \<Rightarrow> int" where
  "round_half_even q =
     (let f = \<lfloor>q\<rfloor>; r = q - of_int f
      in if r < 1 / 2 then f else if 1 / 2 < r then f + 1
         else if even f then f else f + 1)"

definition round_to_zero :: "rat \<Rightarrow> int" where
  "round_to_zero q = (if 0 \<le> q then \<lfloor>q\<rfloor> else \<lceil>q\<rceil>)"

lemma round_half_even_of_int [simp]: "round_half_even (of_int n) = n"
  by (simp add: round_half_even_def)

lemma round_half_even_numeral [simp]:
  "round_half_even (numeral n) = numeral n" "round_half_even 0 = 0" "round_half_even 1 = 1"
  using round_half_even_of_int [of "numeral n"] round_half_even_of_int [of 0]
    round_half_even_of_int [of 1] by simp_all

lemma round_to_zero_of_int [simp]: "round_to_zero (of_int n) = n"
  by (simp add: round_to_zero_def)

lemma round_half_even_nonneg: "0 \<le> q \<Longrightarrow> 0 \<le> round_half_even q"
  by (simp add: round_half_even_def Let_def)

lemma round_half_even_error: "\<bar>of_int (round_half_even q) - q\<bar> \<le> 1 / 2"
proof -
  have "of_int \<lfloor>q\<rfloor> \<le> q" "q < of_int \<lfloor>q\<rfloor> + 1" by linarith+
  then show ?thesis by (auto simp: round_half_even_def Let_def)
qed

lemma round_half_even_le: "q \<le> of_int n \<Longrightarrow> round_half_even q \<le> n"
proof (cases "q = of_int n")
  case False
  assume "q \<le> of_int n"
  with False have "\<lfloor>q\<rfloor> < n" by (simp add: floor_less_iff)
  then show ?thesis by (simp add: round_half_even_def Let_def)
qed simp

lemma round_half_even_ge: "of_int n \<le> q \<Longrightarrow> n \<le> round_half_even q"
proof -
  assume "of_int n \<le> q"
  then have "n \<le> \<lfloor>q\<rfloor>" by (simp add: le_floor_iff)
  then show ?thesis by (simp add: round_half_even_def Let_def)
qed

lemma round_half_even_mono: "p \<le> q \<Longrightarrow> round_half_even p \<le> round_half_even q"
proof -
  assume le: "p \<le> q"
  show ?thesis
  proof (cases "\<lfloor>p\<rfloor> = \<lfloor>q\<rfloor>")
    case True
    then show ?thesis using le by (auto simp: round_half_even_def Let_def)
  next
    case False
    then have "\<lfloor>p\<rfloor> + 1 \<le> \<lfloor>q\<rfloor>" using floor_mono [OF le] by simp
    then show ?thesis by (auto simp: round_half_even_def Let_def)
  qed
qed

lemma round_half_even_minus: "round_half_even (- q) = - round_half_even q"
proof (cases "q = of_int \<lfloor>q\<rfloor>")
  case True
  then show ?thesis by (metis of_int_minus round_half_even_of_int)
next
  case False
  then have "\<lfloor>- q\<rfloor> = - \<lfloor>q\<rfloor> - 1" by linarith
  then show ?thesis by (auto simp: round_half_even_def Let_def)
qed

section \<open>Operations\<close>

record dec_ops =
  d_le :: "decimal \<Rightarrow> decimal \<Rightarrow> bool"
  d_neg :: "decimal \<Rightarrow> decimal"
  d_abs :: "decimal \<Rightarrow> decimal"
  d_add :: "decimal \<Rightarrow> decimal \<Rightarrow> decimal option"
  d_sub :: "decimal \<Rightarrow> decimal \<Rightarrow> decimal option"
  d_mul :: "decimal \<Rightarrow> decimal \<Rightarrow> decimal option"
  d_div :: "decimal \<Rightarrow> decimal \<Rightarrow> decimal option"
  d_round_dp :: "decimal \<Rightarrow> nat \<Rightarrow> decimal"
  d_round_to_zero :: "decimal \<Rightarrow> nat \<Rightarrow> decimal"
  d_rescale :: "decimal \<Rightarrow> nat \<Rightarrow> decimal"
  d_from_i128_with_scale :: "int \<Rightarrow> nat \<Rightarrow> decimal option"

text \<open>Rust derives the other comparisons, \<open>max\<close> and \<open>min\<close> from the total order.\<close>

definition d_lt :: "dec_ops \<Rightarrow> decimal \<Rightarrow> decimal \<Rightarrow> bool" where
  "d_lt D a b \<longleftrightarrow> \<not> d_le D b a"

definition d_max :: "dec_ops \<Rightarrow> decimal \<Rightarrow> decimal \<Rightarrow> decimal" where
  "d_max D a b = (if d_le D a b then b else a)"

definition d_min :: "dec_ops \<Rightarrow> decimal \<Rightarrow> decimal \<Rightarrow> decimal" where
  "d_min D a b = (if d_le D a b then a else b)"

text \<open>
  The documented laws: comparison is numeric, negation and absolute value act on the integer,
  an arithmetic operation is exact whenever the exact result is representable, division by
  zero panics, rounding follows the named strategy, and rescaling to a larger scale keeps the
  value and reaches the requested scale exactly when the integer still fits.
\<close>

locale decimal_lib =
  fixes D :: dec_ops
  assumes le_iff: "d_le D a b \<longleftrightarrow> dval a \<le> dval b"
    and neg_eq: "d_neg D a = a\<lparr>mantissa := - mantissa a\<rparr>"
    and abs_eq: "d_abs D a = a\<lparr>mantissa := \<bar>mantissa a\<bar>\<rparr>"
    and from_i128_eq: "d_from_i128_with_scale D m s =
      (if \<bar>m\<bar> < 2 ^ 96 \<and> s \<le> 28 then Some \<lparr>mantissa = m, scale = s\<rparr> else None)"
    and add_wf: "wf_dec a \<Longrightarrow> wf_dec b \<Longrightarrow> d_add D a b = Some r \<Longrightarrow> wf_dec r"
    and sub_wf: "wf_dec a \<Longrightarrow> wf_dec b \<Longrightarrow> d_sub D a b = Some r \<Longrightarrow> wf_dec r"
    and mul_wf: "wf_dec a \<Longrightarrow> wf_dec b \<Longrightarrow> d_mul D a b = Some r \<Longrightarrow> wf_dec r"
    and div_wf: "wf_dec a \<Longrightarrow> wf_dec b \<Longrightarrow> d_div D a b = Some r \<Longrightarrow> wf_dec r"
    and add_exact: "wf_dec a \<Longrightarrow> wf_dec b \<Longrightarrow> representable (dval a + dval b) \<Longrightarrow>
      \<exists>r. d_add D a b = Some r \<and> dval r = dval a + dval b"
    and sub_exact: "wf_dec a \<Longrightarrow> wf_dec b \<Longrightarrow> representable (dval a - dval b) \<Longrightarrow>
      \<exists>r. d_sub D a b = Some r \<and> dval r = dval a - dval b"
    and mul_exact: "wf_dec a \<Longrightarrow> wf_dec b \<Longrightarrow> representable (dval a * dval b) \<Longrightarrow>
      \<exists>r. d_mul D a b = Some r \<and> dval r = dval a * dval b"
    and div_exact: "wf_dec a \<Longrightarrow> wf_dec b \<Longrightarrow> dval b \<noteq> 0 \<Longrightarrow> representable (dval a / dval b) \<Longrightarrow>
      \<exists>r. d_div D a b = Some r \<and> dval r = dval a / dval b"
    and div_zero: "dval b = 0 \<Longrightarrow> d_div D a b = None"
    and round_dp_wf: "wf_dec a \<Longrightarrow> wf_dec (d_round_dp D a n)"
    and round_dp_scale: "scale (d_round_dp D a n) \<le> n"
    and round_dp_val:
      "dval (d_round_dp D a n) = of_int (round_half_even (dval a * 10 ^ n)) / 10 ^ n"
    and round_to_zero_wf: "wf_dec a \<Longrightarrow> wf_dec (d_round_to_zero D a n)"
    and round_to_zero_scale: "scale (d_round_to_zero D a n) \<le> n"
    and round_to_zero_val:
      "dval (d_round_to_zero D a n) = of_int (round_to_zero (dval a * 10 ^ n)) / 10 ^ n"
    and rescale_wf: "wf_dec a \<Longrightarrow> wf_dec (d_rescale D a n)"
    and rescale_val: "scale a \<le> n \<Longrightarrow> dval (d_rescale D a n) = dval a"
    and rescale_scale: "scale a \<le> n \<Longrightarrow> n \<le> 28 \<Longrightarrow>
      \<bar>mantissa a\<bar> * 10 ^ (n - scale a) < 2 ^ 96 \<Longrightarrow> scale (d_rescale D a n) = n"
begin

lemma lt_iff: "d_lt D a b \<longleftrightarrow> dval a < dval b"
  by (auto simp: d_lt_def le_iff)

lemma dval_neg [simp]: "dval (d_neg D a) = - dval a"
  by (simp add: neg_eq dval_def)

lemma dval_abs [simp]: "dval (d_abs D a) = \<bar>dval a\<bar>"
  by (simp add: abs_eq dval_def abs_divide)

lemma wf_neg [simp]: "wf_dec (d_neg D a) \<longleftrightarrow> wf_dec a"
  by (simp add: neg_eq wf_dec_def)

lemma wf_abs [simp]: "wf_dec (d_abs D a) \<longleftrightarrow> wf_dec a"
  by (simp add: abs_eq wf_dec_def)

lemma dval_max [simp]: "dval (d_max D a b) = max (dval a) (dval b)"
  by (auto simp: d_max_def le_iff)

lemma dval_min [simp]: "dval (d_min D a b) = min (dval a) (dval b)"
  by (auto simp: d_min_def le_iff)

lemma wf_max: "wf_dec a \<Longrightarrow> wf_dec b \<Longrightarrow> wf_dec (d_max D a b)"
  by (simp add: d_max_def)

lemma wf_min: "wf_dec a \<Longrightarrow> wf_dec b \<Longrightarrow> wf_dec (d_min D a b)"
  by (simp add: d_min_def)

lemma add_ok:
  assumes "wf_dec a" "wf_dec b" "representable (dval a + dval b)"
  obtains r where "d_add D a b = Some r" "wf_dec r" "dval r = dval a + dval b"
  using add_exact [OF assms] add_wf [OF assms(1,2)] by blast

lemma sub_ok:
  assumes "wf_dec a" "wf_dec b" "representable (dval a - dval b)"
  obtains r where "d_sub D a b = Some r" "wf_dec r" "dval r = dval a - dval b"
  using sub_exact [OF assms] sub_wf [OF assms(1,2)] by blast

lemma mul_ok:
  assumes "wf_dec a" "wf_dec b" "representable (dval a * dval b)"
  obtains r where "d_mul D a b = Some r" "wf_dec r" "dval r = dval a * dval b"
  using mul_exact [OF assms] mul_wf [OF assms(1,2)] by blast

lemma div_ok:
  assumes "wf_dec a" "wf_dec b" "dval b \<noteq> 0" "representable (dval a / dval b)"
  obtains r where "d_div D a b = Some r" "wf_dec r" "dval r = dval a / dval b"
  using div_exact [OF assms] div_wf [OF assms(1,2)] by blast

end

section \<open>An instance of the laws\<close>

text \<open>Integer division rounded to nearest, ties to even; the divisor is positive.\<close>

definition rhe_div :: "int \<Rightarrow> int \<Rightarrow> int" where
  "rhe_div a b =
     (let q = a div b; r = a mod b
      in if 2 * r < b then q else if b < 2 * r then q + 1
         else if even q then q else q + 1)"

definition tz_div :: "int \<Rightarrow> int \<Rightarrow> int" where
  "tz_div a b = (if 0 \<le> a then a div b else - ((- a) div b))"

text \<open>The value \<open>m / 10 ^ s\<close> at the largest scale, from \<open>k\<close> down, at which it fits.\<close>

fun fit_at :: "int \<Rightarrow> nat \<Rightarrow> nat \<Rightarrow> decimal option" where
  "fit_at m s k =
     (let m' = rhe_div m (10 ^ (s - k))
      in if \<bar>m'\<bar> < 2 ^ 96 then Some \<lparr>mantissa = m', scale = k\<rparr>
         else if k = 0 then None else fit_at m s (k - 1))"

declare fit_at.simps [simp del]

definition fit :: "int \<Rightarrow> nat \<Rightarrow> decimal option" where
  "fit m s = fit_at m s (min s 28)"

fun grow :: "int \<Rightarrow> nat \<Rightarrow> nat \<Rightarrow> decimal" where
  "grow m s 0 = \<lparr>mantissa = m, scale = s\<rparr>"
| "grow m s (Suc k) =
     (if s < 28 \<and> \<bar>m * 10\<bar> < 2 ^ 96 then grow (m * 10) (Suc s) k
      else \<lparr>mantissa = m, scale = s\<rparr>)"

definition rdec :: dec_ops where
  "rdec = \<lparr>
     d_le = (\<lambda>a b. mantissa a * 10 ^ scale b \<le> mantissa b * 10 ^ scale a),
     d_neg = (\<lambda>a. a\<lparr>mantissa := - mantissa a\<rparr>),
     d_abs = (\<lambda>a. a\<lparr>mantissa := \<bar>mantissa a\<bar>\<rparr>),
     d_add = (\<lambda>a b. fit (mantissa a * 10 ^ (max (scale a) (scale b) - scale a)
                         + mantissa b * 10 ^ (max (scale a) (scale b) - scale b))
                        (max (scale a) (scale b))),
     d_sub = (\<lambda>a b. fit (mantissa a * 10 ^ (max (scale a) (scale b) - scale a)
                         - mantissa b * 10 ^ (max (scale a) (scale b) - scale b))
                        (max (scale a) (scale b))),
     d_mul = (\<lambda>a b. fit (mantissa a * mantissa b) (scale a + scale b)),
     d_div = (\<lambda>a b. if mantissa b = 0 then None
                    else fit (rhe_div (sgn (mantissa b) * mantissa a * 10 ^ (28 + scale b))
                                      (\<bar>mantissa b\<bar> * 10 ^ scale a)) 28),
     d_round_dp = (\<lambda>a n. if scale a \<le> n then a
                         else \<lparr>mantissa = rhe_div (mantissa a) (10 ^ (scale a - n)), scale = n\<rparr>),
     d_round_to_zero = (\<lambda>a n. if scale a \<le> n then a
                         else \<lparr>mantissa = tz_div (mantissa a) (10 ^ (scale a - n)), scale = n\<rparr>),
     d_rescale = (\<lambda>a n. if n < scale a
                        then \<lparr>mantissa = rhe_div (mantissa a) (10 ^ (scale a - n)), scale = n\<rparr>
                        else grow (mantissa a) (scale a) (n - scale a)),
     d_from_i128_with_scale = (\<lambda>m s. if \<bar>m\<bar> < 2 ^ 96 \<and> s \<le> 28
                                     then Some \<lparr>mantissa = m, scale = s\<rparr> else None)\<rparr>"


subsection \<open>Rounding lemmas of the instance\<close>

lemma rhe_div_eq:
  assumes "0 < b"
  shows "rhe_div a b = round_half_even (of_int a / of_int b)"
proof -
  let ?q = "a div b" and ?r = "a mod b"
  have fl: "\<lfloor>of_int a / of_int b :: rat\<rfloor> = ?q"
    by (rule floor_divide_of_int_eq)
  have "of_int a = of_int ?q * of_int b + (of_int ?r :: rat)"
    by (metis div_mult_mod_eq of_int_add of_int_mult)
  with assms have rem: "of_int a / of_int b - of_int ?q = (of_int ?r / of_int b :: rat)"
    by (simp add: field_simps)
  have "2 * ?r < b \<longleftrightarrow> of_int (2 * ?r) < (of_int b :: rat)"
    and "b < 2 * ?r \<longleftrightarrow> (of_int b :: rat) < of_int (2 * ?r)"
    by (simp_all only: of_int_less_iff)
  with assms have "of_int ?r / of_int b < (1 / 2 :: rat) \<longleftrightarrow> 2 * ?r < b"
    and "(1 / 2 :: rat) < of_int ?r / of_int b \<longleftrightarrow> b < 2 * ?r"
    by (simp_all add: field_simps)
  then show ?thesis
    unfolding rhe_div_def round_half_even_def Let_def fl rem by simp
qed

lemma abs_rhe_div_le:
  assumes "0 < b"
  shows "\<bar>rhe_div a b\<bar> \<le> \<bar>a\<bar>"
proof (cases "b = 1 \<or> a = 0")
  case True
  with assms show ?thesis by (auto simp: rhe_div_def)
next
  case False
  with assms have b: "2 \<le> b" and a: "1 \<le> \<bar>a\<bar>" by linarith+
  have "(of_int 2 :: rat) \<le> of_int b" and a': "(of_int 1 :: rat) \<le> of_int \<bar>a\<bar>"
    using a b by (simp_all only: of_int_le_iff)
  then have "of_int \<bar>a\<bar> / of_int b \<le> (of_int \<bar>a\<bar> / 2 :: rat)"
    by (intro divide_left_mono) auto
  moreover have "\<bar>of_int a / of_int b :: rat\<bar> = of_int \<bar>a\<bar> / of_int b"
    using assms by (simp add: abs_divide)
  ultimately have "\<bar>of_int a / of_int b :: rat\<bar> \<le> of_int \<bar>a\<bar> / 2"
    by (simp only:)
  moreover have "\<bar>of_int (rhe_div a b) - of_int a / of_int b :: rat\<bar> \<le> 1 / 2"
    using round_half_even_error rhe_div_eq [OF assms] by simp
  ultimately have "\<bar>of_int (rhe_div a b) :: rat\<bar> \<le> of_int \<bar>a\<bar> / 2 + 1 / 2"
    by linarith
  also have "\<dots> \<le> of_int \<bar>a\<bar>"
    using a' by simp
  finally have "(of_int \<bar>rhe_div a b\<bar> :: rat) \<le> of_int \<bar>a\<bar>" by simp
  then show ?thesis by (simp only: of_int_le_iff)
qed

lemma rhe_div_exact: "0 < b \<Longrightarrow> rhe_div (c * b) b = c"
  by (simp add: rhe_div_def)

lemma tz_div_eq:
  assumes "0 < b"
  shows "tz_div a b = round_to_zero (of_int a / of_int b)"
proof (cases "0 \<le> a")
  case True
  with assms show ?thesis
    by (simp add: tz_div_def round_to_zero_def floor_divide_of_int_eq)
next
  case False
  have "\<lceil>of_int a / of_int b :: rat\<rceil> = - \<lfloor>of_int (- a) / of_int b :: rat\<rfloor>"
    by (simp add: ceiling_def)
  also have "\<dots> = - ((- a) div b)"
    by (simp only: floor_divide_of_int_eq)
  finally have "\<lceil>of_int a / of_int b :: rat\<rceil> = - ((- a) div b)" .
  moreover have "\<not> 0 \<le> (of_int a / of_int b :: rat)"
    using False assms by (simp add: zero_le_divide_iff)
  ultimately show ?thesis
    using False by (simp add: tz_div_def round_to_zero_def)
qed

lemma abs_tz_div_le:
  assumes "0 < b"
  shows "\<bar>tz_div a b\<bar> \<le> \<bar>a\<bar>"
proof -
  have "0 \<le> \<bar>a\<bar> div b" "\<bar>a\<bar> div b \<le> \<bar>a\<bar>"
    using assms zdiv_mono2 [of "\<bar>a\<bar>" 1 b] by (simp_all add: pos_imp_zdiv_nonneg_iff)
  moreover have "\<bar>tz_div a b\<bar> = \<bar>a\<bar> div b \<or> \<bar>tz_div a b\<bar> = \<bar>\<bar>a\<bar> div b\<bar>"
    by (auto simp: tz_div_def)
  ultimately show ?thesis by linarith
qed

lemma rpow10_diff: "j \<le> k \<Longrightarrow> (10 :: rat) ^ (k - j) = 10 ^ k / 10 ^ j"
  by (rule power_diff) simp_all

lemma pow10_pos: "0 < (10 :: int) ^ k"
  by simp

lemma of_int_pow10: "of_int (10 ^ k) = (10 ^ k :: rat)"
  by simp

lemma scaled_val: "k \<le> s \<Longrightarrow> of_int m / 10 ^ (s - k) = of_int m / 10 ^ s * (10 ^ k :: rat)"
  by (simp add: rpow10_diff)

subsection \<open>Fitting a value into 96 bits\<close>

lemma fit_at_wf: "k \<le> 28 \<Longrightarrow> fit_at m s k = Some r \<Longrightarrow> wf_dec r"
proof (induction k arbitrary: r)
  case 0
  then show ?case
    by (subst (asm) fit_at.simps) (auto simp: Let_def wf_dec_def split: if_splits)
next
  case (Suc k)
  from Suc.prems(2) show ?case
    by (subst (asm) fit_at.simps)
      (use Suc in \<open>auto simp: Let_def wf_dec_def split: if_splits\<close>)
qed

lemma fit_at_exact:
  assumes fits: "\<bar>n\<bar> < 2 ^ 96" and val: "of_int m / 10 ^ s = (of_int n / 10 ^ j :: rat)"
    and "j \<le> k" "k \<le> s"
  shows "\<exists>r. fit_at m s k = Some r \<and> dval r = of_int m / 10 ^ s"
  using \<open>j \<le> k\<close> \<open>k \<le> s\<close>
proof (induction k)
  case 0
  then have "j = 0" by simp
  have "of_int m = (of_int n * 10 ^ s :: rat)"
    using val \<open>j = 0\<close> by (simp add: field_simps)
  then have "m = n * 10 ^ s"
    by (metis of_int_eq_iff of_int_mult of_int_pow10)
  with fits show ?case
    by (subst fit_at.simps) (simp add: rhe_div_exact dval_def)
next
  case (Suc k)
  let ?c = "n * 10 ^ (Suc k - j)"
  have "of_int m = (of_int (?c * 10 ^ (s - Suc k)) :: rat)"
    using val Suc.prems by (simp add: field_simps rpow10_diff)
  then have m: "m = ?c * 10 ^ (s - Suc k)" by (simp only: of_int_eq_iff)
  have dec: "rhe_div m (10 ^ (s - Suc k)) = ?c"
    unfolding m by (rule rhe_div_exact) simp
  show ?case
  proof (cases "\<bar>?c\<bar> < 2 ^ 96")
    case True
    moreover have "of_int ?c / 10 ^ Suc k = (of_int m / 10 ^ s :: rat)"
      using val Suc.prems by (simp add: field_simps rpow10_diff del: power_Suc)
    ultimately show ?thesis
      by (subst fit_at.simps) (simp add: dec dval_def Let_def del: of_int_mult power_Suc)
  next
    case False
    with fits have "j \<noteq> Suc k" by auto
    with Suc.prems have "j \<le> k" "k \<le> s" by simp_all
    with Suc.IH False show ?thesis
      by (subst fit_at.simps) (simp add: dec Let_def)
  qed
qed

lemma fit_wf: "fit m s = Some r \<Longrightarrow> wf_dec r"
  unfolding fit_def by (rule fit_at_wf) simp_all

lemma fit_exact:
  assumes "representable (of_int m / 10 ^ s)"
  shows "\<exists>r. fit m s = Some r \<and> dval r = of_int m / 10 ^ s"
proof -
  from assms obtain d where d: "wf_dec d" "dval d = of_int m / 10 ^ s"
    by (auto simp: representable_def)
  show ?thesis
  proof (cases "scale d \<le> s")
    case True
    with d show ?thesis
      unfolding fit_def
      by (intro fit_at_exact [of "mantissa d" m s "scale d"]) (auto simp: wf_dec_def dval_def)
  next
    case False
    with d(2) have "of_int (mantissa d) = (of_int (m * 10 ^ (scale d - s)) :: rat)"
      by (simp add: dval_def field_simps rpow10_diff)
    then have "mantissa d = m * 10 ^ (scale d - s)" by (simp only: of_int_eq_iff)
    then have "\<bar>m\<bar> \<le> \<bar>mantissa d\<bar>"
      by (simp add: abs_mult) (metis abs_ge_zero mult.right_neutral mult_left_mono one_le_numeral
          one_le_power)
    with d False show ?thesis
      unfolding fit_def
      by (intro fit_at_exact [of m m s s]) (auto simp: wf_dec_def)
  qed
qed

subsection \<open>Growing the scale\<close>

lemma grow_val: "dval (grow m s k) = of_int m / 10 ^ s"
  by (induction m s k rule: grow.induct) (auto simp: dval_def)

lemma grow_wf: "\<bar>m\<bar> < 2 ^ 96 \<Longrightarrow> s \<le> 28 \<Longrightarrow> wf_dec (grow m s k)"
  by (induction m s k rule: grow.induct) (auto simp: wf_dec_def)

lemma grow_scale: "s + k \<le> 28 \<Longrightarrow> \<bar>m\<bar> * 10 ^ k < 2 ^ 96 \<Longrightarrow> scale (grow m s k) = s + k"
proof (induction m s k rule: grow.induct)
  case (2 m s k)
  have "\<bar>m * 10\<bar> * 1 \<le> \<bar>m * 10\<bar> * 10 ^ k"
    by (intro mult_left_mono) simp_all
  moreover have "\<bar>m * 10\<bar> * 10 ^ k < 2 ^ 96"
    using 2(3) by (simp add: abs_mult mult.assoc)
  ultimately show ?case
    using 2 by (simp add: abs_mult)
qed simp

subsection \<open>The instance satisfies the laws\<close>

lemma rdec_sum_val:
  "dval a + dval b = of_int (mantissa a * 10 ^ (max (scale a) (scale b) - scale a)
     + mantissa b * 10 ^ (max (scale a) (scale b) - scale b)) / 10 ^ max (scale a) (scale b)"
  by (simp add: dval_def max_def rpow10_diff field_simps)

lemma rdec_diff_val:
  "dval a - dval b = of_int (mantissa a * 10 ^ (max (scale a) (scale b) - scale a)
     - mantissa b * 10 ^ (max (scale a) (scale b) - scale b)) / 10 ^ max (scale a) (scale b)"
  by (simp add: dval_def max_def rpow10_diff field_simps)

lemma rdec_prod_val:
  "dval a * dval b = of_int (mantissa a * mantissa b) / 10 ^ (scale a + scale b)"
  by (simp add: dval_def power_add)

lemma rdec_quot_val:
  assumes "mantissa b \<noteq> 0" and "representable (dval a / dval b)"
  shows "of_int (rhe_div (sgn (mantissa b) * mantissa a * 10 ^ (28 + scale b))
    (\<bar>mantissa b\<bar> * 10 ^ scale a)) / 10 ^ 28 = dval a / dval b"
proof -
  let ?n = "sgn (mantissa b) * mantissa a * 10 ^ (28 + scale b)"
  let ?d = "\<bar>mantissa b\<bar> * 10 ^ scale a"
  from assms(2) obtain c where c: "wf_dec c" "dval c = dval a / dval b"
    by (auto simp: representable_def)
  have d: "0 < ?d" using assms(1) by simp
  have "(of_int (sgn (mantissa b)) / of_int \<bar>mantissa b\<bar> :: rat) = 1 / of_int (mantissa b)"
    using assms(1) by (cases "mantissa b > 0") (auto simp: sgn_if)
  moreover have "of_int ?n / of_int ?d = of_int (sgn (mantissa b)) / of_int \<bar>mantissa b\<bar> *
      (of_int (mantissa a) * 10 ^ (28 + scale b) / (10 ^ scale a :: rat))"
    by simp
  ultimately have "of_int ?n / of_int ?d = 1 / of_int (mantissa b) *
      (of_int (mantissa a) * 10 ^ (28 + scale b) / (10 ^ scale a :: rat))"
    by (simp only:)
  also have "\<dots> = dval c * 10 ^ 28"
    by (simp add: c(2) dval_def [of a] dval_def [of b] power_add mult_ac)
  also have "\<dots> = of_int (mantissa c * 10 ^ (28 - scale c))"
    using c(1) by (simp add: wf_dec_def dval_def rpow10_diff)
  finally have "rhe_div ?n ?d = mantissa c * 10 ^ (28 - scale c)"
    by (simp only: rhe_div_eq [OF d] round_half_even_of_int)
  then show ?thesis
    using c(1) by (simp add: wf_dec_def dval_def [of c] rpow10_diff flip: c(2))
qed

interpretation rd: decimal_lib rdec
proof
  fix a b :: decimal
  have "mantissa a * 10 ^ scale b \<le> mantissa b * 10 ^ scale a \<longleftrightarrow>
      (of_int (mantissa a * 10 ^ scale b) :: rat) \<le> of_int (mantissa b * 10 ^ scale a)"
    by (simp only: of_int_le_iff)
  then show "d_le rdec a b \<longleftrightarrow> dval a \<le> dval b"
    by (simp add: rdec_def dval_def field_simps)
  show "wf_dec a \<Longrightarrow> wf_dec b \<Longrightarrow> representable (dval a + dval b) \<Longrightarrow>
      \<exists>r. d_add rdec a b = Some r \<and> dval r = dval a + dval b"
    unfolding rdec_sum_val by (simp only: rdec_def dec_ops.simps fit_exact)
  show "wf_dec a \<Longrightarrow> wf_dec b \<Longrightarrow> representable (dval a - dval b) \<Longrightarrow>
      \<exists>r. d_sub rdec a b = Some r \<and> dval r = dval a - dval b"
    unfolding rdec_diff_val by (simp only: rdec_def dec_ops.simps fit_exact)
  show "wf_dec a \<Longrightarrow> wf_dec b \<Longrightarrow> representable (dval a * dval b) \<Longrightarrow>
      \<exists>r. d_mul rdec a b = Some r \<and> dval r = dval a * dval b"
    unfolding rdec_prod_val by (simp only: rdec_def dec_ops.simps fit_exact)
  show "\<exists>r. d_div rdec a b = Some r \<and> dval r = dval a / dval b"
    if "wf_dec a" "wf_dec b" "dval b \<noteq> 0" "representable (dval a / dval b)"
  proof -
    from that(3) have nz: "mantissa b \<noteq> 0" by (auto simp: dval_def)
    note val = rdec_quot_val [OF nz that(4)]
    show ?thesis
      using fit_exact [of _ 28, unfolded val] that(4) nz val
      by (simp add: rdec_def) (metis val fit_exact)
  qed
  show "dval b = 0 \<Longrightarrow> d_div rdec a b = None"
    by (simp add: rdec_def dval_def)
next
  fix a :: decimal and n :: nat
  show "dval (d_round_dp rdec a n) = of_int (round_half_even (dval a * 10 ^ n)) / 10 ^ n"
  proof (cases "scale a \<le> n")
    case True
    then have "dval a * 10 ^ n = of_int (mantissa a * 10 ^ (n - scale a))"
      by (simp add: dval_def rpow10_diff)
    with True show ?thesis
      by (simp add: rdec_def del: of_int_mult) (simp add: dval_def rpow10_diff)
  next
    case False
    then show ?thesis
      using rhe_div_eq [OF pow10_pos, of "mantissa a" "scale a - n"]
      by (simp add: rdec_def dval_def rpow10_diff)
  qed
  show "dval (d_round_to_zero rdec a n) = of_int (round_to_zero (dval a * 10 ^ n)) / 10 ^ n"
  proof (cases "scale a \<le> n")
    case True
    then have "dval a * 10 ^ n = of_int (mantissa a * 10 ^ (n - scale a))"
      by (simp add: dval_def rpow10_diff)
    with True show ?thesis
      by (simp add: rdec_def del: of_int_mult) (simp add: dval_def rpow10_diff)
  next
    case False
    then show ?thesis
      using tz_div_eq [OF pow10_pos, of "mantissa a" "scale a - n"]
      by (simp add: rdec_def dval_def rpow10_diff)
  qed
  show "wf_dec (d_round_dp rdec a n)" if "wf_dec a"
    using that abs_rhe_div_le [OF pow10_pos, of "mantissa a" "scale a - n"]
    by (auto simp: rdec_def wf_dec_def)
  show "wf_dec (d_round_to_zero rdec a n)" if "wf_dec a"
    using that abs_tz_div_le [OF pow10_pos, of "mantissa a" "scale a - n"]
    by (auto simp: rdec_def wf_dec_def)
  show "wf_dec (d_rescale rdec a n)" if "wf_dec a"
    using that abs_rhe_div_le [OF pow10_pos, of "mantissa a" "scale a - n"]
      grow_wf [of "mantissa a" "scale a" "n - scale a"]
    by (auto simp: rdec_def wf_dec_def)
  show "scale a \<le> n \<Longrightarrow> dval (d_rescale rdec a n) = dval a"
    by (simp add: rdec_def grow_val dval_def [of a])
  show "scale a \<le> n \<Longrightarrow> n \<le> 28 \<Longrightarrow> \<bar>mantissa a\<bar> * 10 ^ (n - scale a) < 2 ^ 96 \<Longrightarrow>
      scale (d_rescale rdec a n) = n"
    using grow_scale [of "scale a" "n - scale a" "mantissa a"] by (simp add: rdec_def)
qed (auto simp: rdec_def dest: fit_wf split: if_splits)

end
