(* ===== verification/Value.thy ===== *)
theory Value
  imports Decimal
begin

text \<open>
  \<open>foundation/crates/coinext-core/src/error.rs\<close> and \<open>value.rs\<close>: the shared error
  type and the fixed-precision values \<open>Price\<close>, \<open>Quantity\<close>, \<open>Currency\<close> and
  \<open>Money\<close>. An error carries the data of its variant except the formatted diagnostic text.
  \<open>Display\<close> is left out; the float views (\<open>as_f64\<close>) are in \<open>Lake\<close>.
\<close>

section \<open>Errors\<close>

datatype model_error =
    NotFinite
  | OutOfRange
  | Negative
  | Overflow
  | CurrencyMismatch string string
  | PrecisionMismatch nat nat
  | InvalidTransition
  | Invalid

type_synonym 'a mresult = "model_error + 'a"

section \<open>Precision and quantization\<close>

definition MAX_PRECISION :: nat where
  "MAX_PRECISION = 18"

definition check_precision :: "nat \<Rightarrow> unit mresult" where
  "check_precision precision = (if MAX_PRECISION < precision then Err OutOfRange else Ok ())"

definition quantize :: "dec_ops \<Rightarrow> decimal \<Rightarrow> nat \<Rightarrow> int mresult" where
  "quantize D d precision = result_bind (check_precision precision) (\<lambda>_.
     let q = d_rescale D (d_round_dp D d precision) precision
     in if scale q \<noteq> precision then Err OutOfRange else Ok (mantissa q))"

text \<open>\<open>i64::try_from\<close> of the mantissa.\<close>

definition i64_try_from :: "int \<Rightarrow> int mresult" where
  "i64_try_from m = (if in_i64 m then Ok m else Err OutOfRange)"

section \<open>Price\<close>

datatype price = Price (p_raw: int) (p_prec: nat)

text \<open>The derived \<open>Ord\<close> compares the fields in declaration order.\<close>

instantiation price :: linorder
begin

definition less_eq_price :: "price \<Rightarrow> price \<Rightarrow> bool" where
  "less_eq_price a b \<longleftrightarrow> p_raw a < p_raw b \<or> (p_raw a = p_raw b \<and> p_prec a \<le> p_prec b)"

definition less_price :: "price \<Rightarrow> price \<Rightarrow> bool" where
  "less_price a b \<longleftrightarrow> p_raw a < p_raw b \<or> (p_raw a = p_raw b \<and> p_prec a < p_prec b)"

instance
  by standard (auto simp: less_eq_price_def less_price_def price.expand)

end

definition price_from_raw :: "int \<Rightarrow> nat \<Rightarrow> price mresult" where
  "price_from_raw raw precision = result_bind (check_precision precision) (\<lambda>_.
     if raw < 0 then Err Negative else Ok (Price raw precision))"

definition price_from_decimal :: "dec_ops \<Rightarrow> decimal \<Rightarrow> nat \<Rightarrow> price mresult" where
  "price_from_decimal D d precision =
     result_bind (quantize D d precision) (\<lambda>m.
     result_bind (i64_try_from m) (\<lambda>raw. price_from_raw raw precision))"

text \<open>
  The float entry points test \<open>is_finite\<close> and convert with
  \<open>Decimal::from_f64_retain\<close>; both are arguments, over any type of floats.
\<close>

definition price_from_f64 ::
  "('f \<Rightarrow> bool) \<Rightarrow> ('f \<Rightarrow> decimal option) \<Rightarrow> dec_ops \<Rightarrow> 'f \<Rightarrow> nat \<Rightarrow> price mresult" where
  "price_from_f64 is_finite from_f64_retain D v precision =
     (if \<not> is_finite v then Err NotFinite
      else result_bind (ok_or (from_f64_retain v) OutOfRange)
             (\<lambda>d. price_from_decimal D d precision))"

definition price_zero :: "nat \<Rightarrow> price" where
  "price_zero precision = Price 0 precision"

definition price_is_zero :: "price \<Rightarrow> bool" where
  "price_is_zero p \<longleftrightarrow> p_raw p = 0"

definition price_as_decimal :: "dec_ops \<Rightarrow> price \<Rightarrow> decimal option" where
  "price_as_decimal D p = d_from_i128_with_scale D (p_raw p) (p_prec p)"

definition price_same_precision :: "price \<Rightarrow> price \<Rightarrow> unit mresult" where
  "price_same_precision a b =
     (if p_prec a \<noteq> p_prec b then Err (PrecisionMismatch (p_prec a) (p_prec b)) else Ok ())"

definition price_checked_add :: "price \<Rightarrow> price \<Rightarrow> price mresult" where
  "price_checked_add a b = result_bind (price_same_precision a b) (\<lambda>_.
     result_bind (ok_or (i64_checked (p_raw a + p_raw b)) Overflow)
       (\<lambda>raw. Ok (Price raw (p_prec a))))"

definition price_checked_sub :: "price \<Rightarrow> price \<Rightarrow> price mresult" where
  "price_checked_sub a b = result_bind (price_same_precision a b) (\<lambda>_.
     result_bind (ok_or (i64_checked (p_raw a - p_raw b)) Overflow)
       (\<lambda>raw. Ok (Price raw (p_prec a))))"

section \<open>Quantity\<close>

datatype quantity = Quantity (q_raw: int) (q_prec: nat)

instantiation quantity :: linorder
begin

definition less_eq_quantity :: "quantity \<Rightarrow> quantity \<Rightarrow> bool" where
  "less_eq_quantity a b \<longleftrightarrow> q_raw a < q_raw b \<or> (q_raw a = q_raw b \<and> q_prec a \<le> q_prec b)"

definition less_quantity :: "quantity \<Rightarrow> quantity \<Rightarrow> bool" where
  "less_quantity a b \<longleftrightarrow> q_raw a < q_raw b \<or> (q_raw a = q_raw b \<and> q_prec a < q_prec b)"

instance
  by standard (auto simp: less_eq_quantity_def less_quantity_def quantity.expand)

end

definition qty_from_raw :: "int \<Rightarrow> nat \<Rightarrow> quantity mresult" where
  "qty_from_raw raw precision = result_bind (check_precision precision) (\<lambda>_.
     if raw < 0 then Err Negative else Ok (Quantity raw precision))"

definition qty_from_decimal :: "dec_ops \<Rightarrow> decimal \<Rightarrow> nat \<Rightarrow> quantity mresult" where
  "qty_from_decimal D d precision =
     (if mantissa d < 0 \<and> \<not> dec_is_zero d then Err Negative
      else result_bind (quantize D d precision) (\<lambda>m.
           result_bind (i64_try_from m) (\<lambda>raw. qty_from_raw raw precision)))"

definition qty_from_f64 ::
  "('f \<Rightarrow> bool) \<Rightarrow> ('f \<Rightarrow> decimal option) \<Rightarrow> dec_ops \<Rightarrow> 'f \<Rightarrow> nat \<Rightarrow> quantity mresult" where
  "qty_from_f64 is_finite from_f64_retain D v precision =
     (if \<not> is_finite v then Err NotFinite
      else result_bind (ok_or (from_f64_retain v) OutOfRange)
             (\<lambda>d. qty_from_decimal D d precision))"

definition qty_zero :: "nat \<Rightarrow> quantity" where
  "qty_zero precision = Quantity 0 precision"

definition qty_is_zero :: "quantity \<Rightarrow> bool" where
  "qty_is_zero q \<longleftrightarrow> q_raw q = 0"

definition qty_is_positive :: "quantity \<Rightarrow> bool" where
  "qty_is_positive q \<longleftrightarrow> 0 < q_raw q"

definition qty_as_decimal :: "dec_ops \<Rightarrow> quantity \<Rightarrow> decimal option" where
  "qty_as_decimal D q = d_from_i128_with_scale D (q_raw q) (q_prec q)"

definition qty_same_precision :: "quantity \<Rightarrow> quantity \<Rightarrow> unit mresult" where
  "qty_same_precision a b =
     (if q_prec a \<noteq> q_prec b then Err (PrecisionMismatch (q_prec a) (q_prec b)) else Ok ())"

definition qty_checked_add :: "quantity \<Rightarrow> quantity \<Rightarrow> quantity mresult" where
  "qty_checked_add a b = result_bind (qty_same_precision a b) (\<lambda>_.
     result_bind (ok_or (i64_checked (q_raw a + q_raw b)) Overflow)
       (\<lambda>raw. qty_from_raw raw (q_prec a)))"

definition qty_checked_sub :: "quantity \<Rightarrow> quantity \<Rightarrow> quantity mresult" where
  "qty_checked_sub a b = result_bind (qty_same_precision a b) (\<lambda>_.
     result_bind (ok_or (i64_checked (q_raw a - q_raw b)) Overflow)
       (\<lambda>raw. qty_from_raw (max raw 0) (q_prec a)))"

section \<open>Currency\<close>

text \<open>The code is an array of eight bytes, padded with zero bytes.\<close>

datatype currency = Currency (c_bytes: string) (c_prec: nat)

definition currency_new :: "string \<Rightarrow> nat \<Rightarrow> currency mresult" where
  "currency_new code precision = result_bind (check_precision precision) (\<lambda>_.
     if code = [] \<or> 8 < length code then Err Invalid
     else Ok (Currency (code @ replicate (8 - length code) (CHR 0x00)) precision))"

definition currency_code :: "currency \<Rightarrow> string" where
  "currency_code c = takeWhile (\<lambda>b. b \<noteq> CHR 0x00) (c_bytes c)"

section \<open>Money\<close>

datatype money = Money (m_amount: int) (m_ccy: currency)

definition money_from_raw :: "int \<Rightarrow> currency \<Rightarrow> money" where
  "money_from_raw amount ccy = Money amount ccy"

definition money_from_decimal :: "dec_ops \<Rightarrow> decimal \<Rightarrow> currency \<Rightarrow> money mresult" where
  "money_from_decimal D d ccy =
     result_bind (quantize D d (c_prec ccy)) (\<lambda>amount. Ok (Money amount ccy))"

definition money_zero :: "currency \<Rightarrow> money" where
  "money_zero ccy = Money 0 ccy"

definition money_is_zero :: "money \<Rightarrow> bool" where
  "money_is_zero m \<longleftrightarrow> m_amount m = 0"

definition money_amount :: "dec_ops \<Rightarrow> money \<Rightarrow> decimal option" where
  "money_amount D m = d_from_i128_with_scale D (m_amount m) (c_prec (m_ccy m))"

definition money_same_currency :: "money \<Rightarrow> money \<Rightarrow> unit mresult" where
  "money_same_currency a b =
     (if m_ccy a \<noteq> m_ccy b
      then Err (CurrencyMismatch (currency_code (m_ccy a)) (currency_code (m_ccy b)))
      else Ok ())"

definition money_checked_add :: "money \<Rightarrow> money \<Rightarrow> money mresult" where
  "money_checked_add a b = result_bind (money_same_currency a b) (\<lambda>_.
     result_bind (ok_or (i128_checked (m_amount a + m_amount b)) Overflow)
       (\<lambda>amount. Ok (Money amount (m_ccy a))))"

definition money_checked_sub :: "money \<Rightarrow> money \<Rightarrow> money mresult" where
  "money_checked_sub a b = result_bind (money_same_currency a b) (\<lambda>_.
     result_bind (ok_or (i128_checked (m_amount a - m_amount b)) Overflow)
       (\<lambda>amount. Ok (Money amount (m_ccy a))))"

section \<open>Well-formed values\<close>

definition valid_price :: "price \<Rightarrow> bool" where
  "valid_price p \<longleftrightarrow> 0 \<le> p_raw p \<and> in_i64 (p_raw p) \<and> p_prec p \<le> MAX_PRECISION"

definition valid_qty :: "quantity \<Rightarrow> bool" where
  "valid_qty q \<longleftrightarrow> 0 \<le> q_raw q \<and> in_i64 (q_raw q) \<and> q_prec q \<le> MAX_PRECISION"

definition valid_currency :: "currency \<Rightarrow> bool" where
  "valid_currency c \<longleftrightarrow> length (c_bytes c) = 8 \<and> c_prec c \<le> MAX_PRECISION"

definition valid_money :: "money \<Rightarrow> bool" where
  "valid_money m \<longleftrightarrow> in_i128 (m_amount m) \<and> valid_currency (m_ccy m)"

text \<open>The number a value stands for.\<close>

definition price_val :: "price \<Rightarrow> rat" where
  "price_val p = of_int (p_raw p) / 10 ^ p_prec p"

definition qty_val :: "quantity \<Rightarrow> rat" where
  "qty_val q = of_int (q_raw q) / 10 ^ q_prec q"

definition money_val :: "money \<Rightarrow> rat" where
  "money_val m = of_int (m_amount m) / 10 ^ c_prec (m_ccy m)"

lemmas value_defs =
  check_precision_def i64_try_from_def price_from_raw_def price_from_decimal_def
  price_same_precision_def price_checked_add_def price_checked_sub_def
  qty_from_raw_def qty_from_decimal_def qty_same_precision_def qty_checked_add_def
  qty_checked_sub_def money_from_decimal_def money_same_currency_def
  money_checked_add_def money_checked_sub_def MAX_PRECISION_def

lemmas valid_defs = valid_price_def valid_qty_def valid_money_def valid_currency_def

section \<open>Constructors and arithmetic keep values well-formed\<close>

lemma price_from_raw_Ok:
  "price_from_raw raw prec = Ok p \<longleftrightarrow> prec \<le> MAX_PRECISION \<and> 0 \<le> raw \<and> p = Price raw prec"
  by (auto simp: value_defs)

lemma qty_from_raw_Ok:
  "qty_from_raw raw prec = Ok q \<longleftrightarrow> prec \<le> MAX_PRECISION \<and> 0 \<le> raw \<and> q = Quantity raw prec"
  by (auto simp: value_defs)

lemma price_from_decimal_valid: "price_from_decimal D d prec = Ok p \<Longrightarrow> valid_price p \<and> p_prec p = prec"
  by (auto simp: price_from_decimal_def result_bind_Inr price_from_raw_Ok i64_try_from_def
      valid_price_def split: if_splits)

lemma qty_from_decimal_valid: "qty_from_decimal D d prec = Ok q \<Longrightarrow> valid_qty q \<and> q_prec q = prec"
  by (auto simp: qty_from_decimal_def result_bind_Inr qty_from_raw_Ok i64_try_from_def
      valid_qty_def split: if_splits)

lemma valid_price_zero [simp]: "prec \<le> MAX_PRECISION \<Longrightarrow> valid_price (price_zero prec)"
  by (simp add: valid_price_def price_zero_def in_i64_def)

lemma valid_qty_zero [simp]: "prec \<le> MAX_PRECISION \<Longrightarrow> valid_qty (qty_zero prec)"
  by (simp add: valid_qty_def qty_zero_def in_i64_def)

lemma qty_zero_sel [simp]: "q_raw (qty_zero n) = 0" "q_prec (qty_zero n) = n"
  by (simp_all add: qty_zero_def)

lemma price_zero_sel [simp]: "p_raw (price_zero n) = 0" "p_prec (price_zero n) = n"
  by (simp_all add: price_zero_def)

lemma price_checked_add_Ok:
  "price_checked_add a b = Ok c \<longleftrightarrow>
     p_prec a = p_prec b \<and> in_i64 (p_raw a + p_raw b) \<and> c = Price (p_raw a + p_raw b) (p_prec a)"
  by (auto simp: price_checked_add_def price_same_precision_def result_bind_Inr split: if_splits)

lemma price_checked_sub_Ok:
  "price_checked_sub a b = Ok c \<longleftrightarrow>
     p_prec a = p_prec b \<and> in_i64 (p_raw a - p_raw b) \<and> c = Price (p_raw a - p_raw b) (p_prec a)"
  by (auto simp: price_checked_sub_def price_same_precision_def result_bind_Inr split: if_splits)

lemma qty_checked_add_Ok:
  "qty_checked_add a b = Ok c \<longleftrightarrow>
     q_prec a = q_prec b \<and> q_prec a \<le> MAX_PRECISION \<and> in_i64 (q_raw a + q_raw b) \<and>
     0 \<le> q_raw a + q_raw b \<and> c = Quantity (q_raw a + q_raw b) (q_prec a)"
  by (auto simp: qty_checked_add_def qty_same_precision_def result_bind_Inr qty_from_raw_Ok
      split: if_splits)

lemma qty_checked_sub_Ok:
  "qty_checked_sub a b = Ok c \<longleftrightarrow>
     q_prec a = q_prec b \<and> q_prec a \<le> MAX_PRECISION \<and> in_i64 (q_raw a - q_raw b) \<and>
     c = Quantity (max (q_raw a - q_raw b) 0) (q_prec a)"
  by (auto simp: qty_checked_sub_def qty_same_precision_def result_bind_Inr qty_from_raw_Ok
      split: if_splits)

lemma qty_checked_add_valid:
  "valid_qty a \<Longrightarrow> valid_qty b \<Longrightarrow> qty_checked_add a b = Ok c \<Longrightarrow> valid_qty c"
  by (auto simp: qty_checked_add_Ok valid_qty_def)

lemma qty_checked_sub_valid:
  "valid_qty a \<Longrightarrow> valid_qty b \<Longrightarrow> qty_checked_sub a b = Ok c \<Longrightarrow> valid_qty c"
  by (auto simp: qty_checked_sub_Ok valid_qty_def in_i64_def)

lemma qty_checked_sub_total:
  "valid_qty a \<Longrightarrow> valid_qty b \<Longrightarrow> q_prec a = q_prec b \<Longrightarrow>
     qty_checked_sub a b = Ok (Quantity (max (q_raw a - q_raw b) 0) (q_prec a))"
  by (subst qty_checked_sub_Ok) (auto simp: valid_qty_def in_i64_def)

lemma i64_fits_dec: "in_i64 n \<Longrightarrow> \<bar>n\<bar> < 2 ^ 96"
  by (auto simp: in_i64_def)

section \<open>Decimal conversions\<close>

context decimal_lib
begin

lemma quantize_spec:
  assumes "wf_dec d"
  shows "quantize D d prec =
    (if prec \<le> MAX_PRECISION \<and> \<bar>round_half_even (dval d * 10 ^ prec)\<bar> < 2 ^ 96
     then Ok (round_half_even (dval d * 10 ^ prec)) else Err OutOfRange)"
proof (cases "prec \<le> MAX_PRECISION")
  case False
  then show ?thesis by (simp add: quantize_def check_precision_def)
next
  case True
  let ?m = "round_half_even (dval d * 10 ^ prec)"
  define a where "a = d_round_dp D d prec"
  define q where "q = d_rescale D a prec"
  have a: "wf_dec a" "scale a \<le> prec" "dval a = of_int ?m / 10 ^ prec"
    using assms by (simp_all add: a_def round_dp_wf round_dp_scale round_dp_val)
  have q: "wf_dec q" "dval q = of_int ?m / 10 ^ prec"
    using a by (simp_all add: q_def rescale_wf rescale_val)
  have man: "mantissa q = ?m" if "scale q = prec"
    using q(2) that by (simp add: dval_def)
  have "of_int (mantissa a * 10 ^ (prec - scale a)) = (of_int ?m :: rat)"
    using a by (simp add: dval_def rpow10_diff field_simps)
  then have "mantissa a * 10 ^ (prec - scale a) = ?m" by (simp only: of_int_eq_iff)
  then have "\<bar>mantissa a\<bar> * 10 ^ (prec - scale a) = \<bar>?m\<bar>"
    by (metis abs_mult abs_numeral power_abs)
  then have "scale q = prec" if "\<bar>?m\<bar> < 2 ^ 96"
    using that True a by (simp add: q_def rescale_scale MAX_PRECISION_def)
  moreover have "\<bar>?m\<bar> < 2 ^ 96" if "scale q = prec"
    using q(1) man [OF that] by (simp add: wf_dec_def)
  ultimately show ?thesis
    using True man by (auto simp: quantize_def check_precision_def Let_def simp flip: a_def q_def)
qed

lemma quantize_scaled:
  assumes "\<bar>m\<bar> < 2 ^ 96" "wf_dec d" "dval d = of_int m / 10 ^ prec" "prec \<le> MAX_PRECISION"
  shows "quantize D d prec = Ok m"
  using assms by (simp add: quantize_spec)

lemma as_decimal_price [simp]:
  "valid_price p \<Longrightarrow> price_as_decimal D p = Some \<lparr>mantissa = p_raw p, scale = p_prec p\<rparr>"
  by (simp add: in_i64_def price_as_decimal_def from_i128_eq valid_price_def MAX_PRECISION_def)

lemma as_decimal_qty [simp]:
  "valid_qty q \<Longrightarrow> qty_as_decimal D q = Some \<lparr>mantissa = q_raw q, scale = q_prec q\<rparr>"
  by (simp add: in_i64_def qty_as_decimal_def from_i128_eq valid_qty_def MAX_PRECISION_def)

lemma money_amount_eq:
  "valid_money m \<Longrightarrow> \<bar>m_amount m\<bar> < 2 ^ 96 \<Longrightarrow>
     money_amount D m = Some \<lparr>mantissa = m_amount m, scale = c_prec (m_ccy m)\<rparr>"
  by (simp add: money_amount_def from_i128_eq valid_money_def valid_currency_def MAX_PRECISION_def)

lemma price_from_decimal_scaled:
  assumes "valid_price p" "wf_dec d" "dval d = price_val p"
  shows "price_from_decimal D d (p_prec p) = Ok p"
proof -
  have "quantize D d (p_prec p) = Ok (p_raw p)"
    using assms by (intro quantize_scaled) (auto simp: in_i64_def valid_price_def price_val_def)
  with assms(1) show ?thesis
    by (simp add: price_from_decimal_def i64_try_from_def valid_price_def price_from_raw_Ok)
qed

lemma price_from_decimal_spec:
  assumes "wf_dec d" "prec \<le> MAX_PRECISION" "0 \<le> dval d" "in_i64 (round_half_even (dval d * 10 ^ prec))"
  shows "price_from_decimal D d prec = Ok (Price (round_half_even (dval d * 10 ^ prec)) prec)"
proof -
  have "0 \<le> round_half_even (dval d * 10 ^ prec)"
    using assms(3) by (simp add: round_half_even_nonneg)
  then show ?thesis
    using assms i64_fits_dec [OF assms(4)]
    by (simp add: price_from_decimal_def quantize_spec i64_try_from_def price_from_raw_Ok)
qed

lemma qty_from_decimal_scaled:
  assumes "valid_qty q" "wf_dec d" "dval d = qty_val q"
  shows "qty_from_decimal D d (q_prec q) = Ok q"
proof -
  have "quantize D d (q_prec q) = Ok (q_raw q)"
    using assms by (intro quantize_scaled) (auto simp: in_i64_def valid_qty_def qty_val_def)
  moreover have "0 \<le> dval d"
    using assms by (simp add: qty_val_def valid_qty_def)
  then have "\<not> mantissa d < 0"
    by (simp add: dval_nonneg_iff)
  ultimately show ?thesis
    using assms(1) by (simp add: qty_from_decimal_def i64_try_from_def valid_qty_def qty_from_raw_Ok)
qed

lemma money_from_decimal_scaled:
  assumes "valid_money m" "\<bar>m_amount m\<bar> < 2 ^ 96" "wf_dec d" "dval d = money_val m"
  shows "money_from_decimal D d (m_ccy m) = Ok m"
  using assms
  by (simp add: money_from_decimal_def quantize_scaled money_val_def valid_money_def valid_currency_def)

end

lemma wf_dec_price: "valid_price p \<Longrightarrow> wf_dec \<lparr>mantissa = p_raw p, scale = p_prec p\<rparr>"
  by (simp add: in_i64_def wf_dec_def valid_price_def MAX_PRECISION_def)

lemma wf_dec_qty: "valid_qty q \<Longrightarrow> wf_dec \<lparr>mantissa = q_raw q, scale = q_prec q\<rparr>"
  by (simp add: in_i64_def wf_dec_def valid_qty_def MAX_PRECISION_def)

lemma dval_price [simp]: "dval \<lparr>mantissa = p_raw p, scale = p_prec p\<rparr> = price_val p"
  by (simp add: dval_def price_val_def)

lemma dval_qty [simp]: "dval \<lparr>mantissa = q_raw q, scale = q_prec q\<rparr> = qty_val q"
  by (simp add: dval_def qty_val_def)

lemma dval_money [simp]: "dval \<lparr>mantissa = m_amount m, scale = c_prec (m_ccy m)\<rparr> = money_val m"
  by (simp add: dval_def money_val_def)

context decimal_lib
begin

lemma qty_as_decimal_val:
  "qty_as_decimal D q = Some d \<Longrightarrow> wf_dec d \<and> dval d = qty_val q"
  by (auto simp: qty_as_decimal_def from_i128_eq wf_dec_def split: if_split_asm)

end

lemma qty_val_nonneg: "valid_qty q \<Longrightarrow> 0 \<le> qty_val q"
  by (simp add: valid_qty_def qty_val_def)

lemma qty_val_zero_iff [simp]: "qty_val q = 0 \<longleftrightarrow> q_raw q = 0"
  by (simp add: qty_val_def)

lemma qty_val_le_iff: "q_prec a = q_prec b \<Longrightarrow> qty_val a \<le> qty_val b \<longleftrightarrow> q_raw a \<le> q_raw b"
  by (simp add: qty_val_def divide_le_cancel)

lemma price_val_le_iff: "p_prec a = p_prec b \<Longrightarrow> price_val a \<le> price_val b \<longleftrightarrow> p_raw a \<le> p_raw b"
  by (simp add: price_val_def divide_le_cancel)

lemma price_le_iff: "p_prec a = p_prec b \<Longrightarrow> a \<le> b \<longleftrightarrow> price_val a \<le> price_val b"
  by (auto simp: price_val_le_iff less_eq_price_def)

end
