(* ===== verification/Clock.thy ===== *)
theory Clock
  imports Prelude "HOL-Library.Product_Lexorder"
begin

text \<open>
  \<open>foundation/crates/coinext-core/src/time.rs\<close> and \<open>clock.rs\<close>: nanosecond
  timestamps, the backtest clock with its timer heap, and the wall clock's timer book. The
  locale \<open>timer_clock\<close> is the contract of the \<open>Clock\<close> trait for registering and
  peeking timers, \<open>cancellable_clock\<close> adds cancellation; the backtest clock satisfies
  both, the wall clock the first.
\<close>

section \<open>Timestamps\<close>

definition saturating_add_ns :: "unix_nanos \<Rightarrow> u64 \<Rightarrow> unix_nanos" where
  "saturating_add_ns t ns = u64_saturating_add t ns"

text \<open>\<open>from_datetime\<close> on whole seconds (clamped at the epoch) and the sub-second nanoseconds.\<close>

definition nanos_from_secs :: "int \<Rightarrow> u64 \<Rightarrow> unix_nanos" where
  "nanos_from_secs secs nanos =
     (let s = max secs 0
      in u64_saturating_add
           (if s * 1000000000 < 2 ^ 64 then of_int (s * 1000000000) else - 1) nanos)"

section \<open>The backtest clock\<close>

type_synonym timer_id = u64

record timer_event =
  te_id :: timer_id
  te_name :: string
  te_ts :: unix_nanos

record historical_clock =
  hc_now :: unix_nanos
  hc_heap :: "(unix_nanos \<times> timer_id) list"
  hc_cancelled :: "timer_id set"
  hc_names :: "timer_id \<rightharpoonup> string"
  hc_next_id :: u64

definition hclock_new :: "unix_nanos \<Rightarrow> historical_clock" where
  "hclock_new start = \<lparr>hc_now = start, hc_heap = [], hc_cancelled = {},
     hc_names = Map.empty, hc_next_id = 1\<rparr>"

definition advance_to :: "unix_nanos \<Rightarrow> historical_clock \<Rightarrow> historical_clock" where
  "advance_to ts c = (if hc_now c < ts then c\<lparr>hc_now := ts\<rparr> else c)"

fun pop_due_loop ::
  "unix_nanos \<Rightarrow> (unix_nanos \<times> timer_id) list \<Rightarrow> timer_id set \<Rightarrow> (timer_id \<rightharpoonup> string)
   \<Rightarrow> timer_event list \<times> (unix_nanos \<times> timer_id) list \<times> timer_id set \<times> (timer_id \<rightharpoonup> string)"
  where
  "pop_due_loop frontier [] cancelled names = ([], [], cancelled, names)"
| "pop_due_loop frontier ((ts, i) # heap) cancelled names =
     (if frontier < ts then ([], (ts, i) # heap, cancelled, names)
      else if i \<in> cancelled
      then pop_due_loop frontier heap (cancelled - {i}) (names(i := None))
      else let name = (case names i of None \<Rightarrow> [] | Some n \<Rightarrow> n);
               (out, rest) = pop_due_loop frontier heap cancelled (names(i := None))
           in (\<lparr>te_id = i, te_name = name, te_ts = ts\<rparr> # out, rest))"

definition pop_due :: "unix_nanos \<Rightarrow> historical_clock \<Rightarrow> timer_event list \<times> historical_clock" where
  "pop_due frontier c =
     (case pop_due_loop frontier (hc_heap c) (hc_cancelled c) (hc_names c) of
        (out, heap, cancelled, names) \<Rightarrow>
          (out, c\<lparr>hc_heap := heap, hc_cancelled := cancelled, hc_names := names\<rparr>))"

definition set_timer ::
  "string \<Rightarrow> unix_nanos \<Rightarrow> historical_clock \<Rightarrow> timer_id \<times> historical_clock" where
  "set_timer name at c =
     (hc_next_id c,
      c\<lparr>hc_next_id := hc_next_id c + 1,
        hc_heap := pq_push (\<lambda>x. x) (at, hc_next_id c) (hc_heap c),
        hc_names := (hc_names c)(hc_next_id c \<mapsto> name)\<rparr>)"

definition cancel_timer :: "timer_id \<Rightarrow> historical_clock \<Rightarrow> historical_clock" where
  "cancel_timer i c = c\<lparr>hc_cancelled := insert i (hc_cancelled c)\<rparr>"

definition least :: "unix_nanos list \<Rightarrow> unix_nanos option" where
  "least xs = (if xs = [] then None else Some (Min (set xs)))"

definition peek_next_timer :: "historical_clock \<Rightarrow> unix_nanos option" where
  "peek_next_timer c =
     least (map fst (filter (\<lambda>x. snd x \<notin> hc_cancelled c) (hc_heap c)))"

section \<open>The wall clock's timer book\<close>

record system_clock =
  sc_heap :: "(unix_nanos \<times> timer_id) list"
  sc_next_id :: u64

definition sclock_new :: system_clock where
  "sclock_new = \<lparr>sc_heap = [], sc_next_id = 1\<rparr>"

definition sclock_set_timer ::
  "string \<Rightarrow> unix_nanos \<Rightarrow> system_clock \<Rightarrow> timer_id \<times> system_clock" where
  "sclock_set_timer name at c =
     (sc_next_id c,
      c\<lparr>sc_next_id := sc_next_id c + 1,
        sc_heap := pq_push (\<lambda>x. x) (at, sc_next_id c) (sc_heap c)\<rparr>)"

definition sclock_cancel_timer :: "timer_id \<Rightarrow> system_clock \<Rightarrow> system_clock" where
  "sclock_cancel_timer i c = c"

definition sclock_peek_next_timer :: "system_clock \<Rightarrow> unix_nanos option" where
  "sclock_peek_next_timer c = (case sc_heap c of [] \<Rightarrow> None | (ts, i) # _ \<Rightarrow> Some ts)"

section \<open>The contract of the clock trait\<close>

locale timer_clock =
  fixes set_t :: "string \<Rightarrow> unix_nanos \<Rightarrow> 'c \<Rightarrow> timer_id \<times> 'c"
    and peek :: "'c \<Rightarrow> unix_nanos option"
    and pending :: "'c \<Rightarrow> (unix_nanos \<times> timer_id) set"
    and inv :: "'c \<Rightarrow> bool"
    and room :: "'c \<Rightarrow> bool"
  assumes pending_finite: "finite (pending c)"
    and set_t_inv: "inv c \<Longrightarrow> room c \<Longrightarrow> inv (snd (set_t name at c))"
    and set_t_pending: "inv c \<Longrightarrow> room c \<Longrightarrow>
      pending (snd (set_t name at c)) = insert (at, fst (set_t name at c)) (pending c)"
    and set_t_fresh: "inv c \<Longrightarrow> room c \<Longrightarrow> (t, fst (set_t name at c)) \<notin> pending c"
    and peek_eq: "inv c \<Longrightarrow>
      peek c = (if pending c = {} then None else Some (Min (fst ` pending c)))"
begin

lemma peek_after_set:
  assumes "inv c" "room c"
  shows "peek (snd (set_t name at c)) =
    Some (case peek c of None \<Rightarrow> at | Some t \<Rightarrow> min at t)"
proof -
  let ?c = "snd (set_t name at c)"
  have "pending ?c = insert (at, fst (set_t name at c)) (pending c)" "inv ?c"
    using assms by (simp_all add: set_t_pending set_t_inv)
  then show ?thesis
    using assms(1) pending_finite [of c] by (simp add: peek_eq)
qed

end

locale cancellable_clock = timer_clock +
  fixes cancel :: "timer_id \<Rightarrow> 'a \<Rightarrow> 'a"
    and issued :: "'a \<Rightarrow> timer_id \<Rightarrow> bool"
  assumes cancel_inv: "inv c \<Longrightarrow> issued c i \<Longrightarrow> inv (cancel i c)"
    and cancel_pending: "pending (cancel i c) = {x \<in> pending c. snd x \<noteq> i}"
begin

lemma cancel_other:
  assumes "inv c" "issued c i" "peek c = Some t" "(t, j) \<in> pending c" "j \<noteq> i"
  shows "peek (cancel i c) = Some t"
proof -
  have eq: "fst ` {x \<in> pending c. snd x \<noteq> i} \<subseteq> fst ` pending c" by auto
  have t: "t = Min (fst ` pending c)" using assms(1,3) by (auto simp: peek_eq split: if_splits)
  have some: "(t, j) \<in> {x \<in> pending c. snd x \<noteq> i}" using assms(4,5) by simp
  then have mem: "t \<in> fst ` {x \<in> pending c. snd x \<noteq> i}" by force
  have "Min (fst ` {x \<in> pending c. snd x \<noteq> i}) = t"
  proof (rule Min_eqI)
    fix y assume "y \<in> fst ` {x \<in> pending c. snd x \<noteq> i}"
    with eq have "y \<in> fst ` pending c" by blast
    then show "t \<le> y" unfolding t using pending_finite by simp
  qed (use mem pending_finite in auto)
  moreover have "pending (cancel i c) \<noteq> {}" using some by (auto simp: cancel_pending)
  ultimately show ?thesis
    using assms(1,2) by (simp add: peek_eq cancel_inv cancel_pending)
qed

end

section \<open>The backtest clock satisfies it\<close>

definition hc_pending :: "historical_clock \<Rightarrow> (unix_nanos \<times> timer_id) set" where
  "hc_pending c = {x \<in> set (hc_heap c). snd x \<notin> hc_cancelled c}"

definition hc_inv :: "historical_clock \<Rightarrow> bool" where
  "hc_inv c \<longleftrightarrow> sorted (hc_heap c) \<and> distinct (map snd (hc_heap c)) \<and>
     (\<forall>x \<in> set (hc_heap c). snd x < hc_next_id c) \<and>
     (\<forall>i \<in> hc_cancelled c. i < hc_next_id c)"

definition hc_room :: "historical_clock \<Rightarrow> bool" where
  "hc_room c \<longleftrightarrow> hc_next_id c < - 1"

definition hc_issued :: "historical_clock \<Rightarrow> timer_id \<Rightarrow> bool" where
  "hc_issued c i \<longleftrightarrow> i < hc_next_id c"

lemma least_eq: "least xs = (if set xs = {} then None else Some (Min (set xs)))"
  by (simp add: least_def)

lemma word_less_add_one: "(n :: u64) < - 1 \<Longrightarrow> n < n + 1"
  by unat_arith

lemma word_less_Suc_mono: "(n :: u64) < - 1 \<Longrightarrow> i < n \<Longrightarrow> i < n + 1"
  using word_less_add_one [of n] by (rule less_trans [rotated])

lemma distinct_pq_push_snd:
  "distinct (map snd (pq_push (\<lambda>x. x) (t, i) h)) \<longleftrightarrow> i \<notin> snd ` set h \<and> distinct (map snd h)"
proof -
  have "mset (map snd (pq_push (\<lambda>x. x) (t, i) h)) = mset (i # map snd h)"
    by simp
  from mset_eq_imp_distinct_iff [OF this] show ?thesis by simp
qed

lemma hclock_new_inv: "hc_inv (hclock_new t)"
  by (simp add: hc_inv_def hclock_new_def)

lemma set_timer_inv: "hc_inv c \<Longrightarrow> hc_room c \<Longrightarrow> hc_inv (snd (set_timer nm at c))"
  using sorted_pq_push [of "\<lambda>x. x"]
  by (auto simp: hc_inv_def hc_room_def set_timer_def distinct_pq_push_snd word_less_add_one
      intro: word_less_Suc_mono)

interpretation hclk: cancellable_clock set_timer peek_next_timer hc_pending hc_inv hc_room
  cancel_timer hc_issued
proof
  fix c :: historical_clock
  show "finite (hc_pending c)" by (simp add: hc_pending_def)
  show "peek_next_timer c = (if hc_pending c = {} then None else Some (Min (fst ` hc_pending c)))"
    by (auto simp: peek_next_timer_def least_eq hc_pending_def)
next
  fix c :: historical_clock and nm at
  assume inv: "hc_inv c" and room: "hc_room c"
  then show "hc_inv (snd (set_timer nm at c))" by (rule set_timer_inv)
  show "hc_pending (snd (set_timer nm at c)) = insert (at, fst (set_timer nm at c)) (hc_pending c)"
    using inv by (auto simp: hc_pending_def set_timer_def hc_inv_def)
  show "(t, fst (set_timer nm at c)) \<notin> hc_pending c" for t
    using inv by (auto simp: hc_pending_def set_timer_def hc_inv_def)
next
  fix c :: historical_clock and i
  show "hc_inv c \<Longrightarrow> hc_issued c i \<Longrightarrow> hc_inv (cancel_timer i c)"
    by (auto simp: hc_inv_def hc_issued_def cancel_timer_def)
  show "hc_pending (cancel_timer i c) = {x \<in> hc_pending c. snd x \<noteq> i}"
    by (auto simp: hc_pending_def cancel_timer_def)
qed

section \<open>The wall clock satisfies the first part\<close>

definition sc_inv :: "system_clock \<Rightarrow> bool" where
  "sc_inv c \<longleftrightarrow> sorted (sc_heap c) \<and> (\<forall>x \<in> set (sc_heap c). snd x < sc_next_id c)"

interpretation sclk: timer_clock sclock_set_timer sclock_peek_next_timer "\<lambda>c. set (sc_heap c)"
  sc_inv "\<lambda>c. sc_next_id c < - 1"
proof
  fix c :: system_clock and nm at
  show "finite (set (sc_heap c))" by simp
  assume inv: "sc_inv c"
  show "sclock_peek_next_timer c =
      (if set (sc_heap c) = {} then None else Some (Min (fst ` set (sc_heap c))))"
  proof (cases "sc_heap c")
    case (Cons x xs)
    with inv have "Min (fst ` set (sc_heap c)) = fst x"
      by (intro Min_eqI) (auto simp: sc_inv_def less_eq_prod_def)
    with Cons show ?thesis by (simp add: sclock_peek_next_timer_def split: prod.split)
  qed (simp add: sclock_peek_next_timer_def)
  show "(t, fst (sclock_set_timer nm at c)) \<notin> set (sc_heap c)" for t
    using inv by (auto simp: sc_inv_def sclock_set_timer_def)
  show "set (sc_heap (snd (sclock_set_timer nm at c))) =
      insert (at, fst (sclock_set_timer nm at c)) (set (sc_heap c))"
    by (simp add: sclock_set_timer_def)
  assume "sc_next_id c < - 1"
  with inv show "sc_inv (snd (sclock_set_timer nm at c))"
    using sorted_pq_push [of "\<lambda>x. x"]
    by (auto simp: sc_inv_def sclock_set_timer_def word_less_add_one intro: word_less_Suc_mono)
qed

section \<open>Firing timers\<close>

text \<open>What one call of the loop returns, in closed form.\<close>

definition fire :: "(timer_id \<rightharpoonup> string) \<Rightarrow> unix_nanos \<times> timer_id \<Rightarrow> timer_event" where
  "fire names x = \<lparr>te_id = snd x,
     te_name = (case names (snd x) of None \<Rightarrow> [] | Some n \<Rightarrow> n), te_ts = fst x\<rparr>"

lemma fire_cong: "names (snd x) = names' (snd x) \<Longrightarrow> fire names x = fire names' x"
  by (simp add: fire_def)

lemma pop_due_loop_eq:
  assumes "sorted h" and "distinct (map snd h)"
  shows "pop_due_loop f h c n =
    (map (fire n) (filter (\<lambda>x. fst x \<le> f \<and> snd x \<notin> c) h),
     filter (\<lambda>x. f < fst x) h,
     c - snd ` {x \<in> set h. fst x \<le> f},
     n |` (- (snd ` {x \<in> set h. fst x \<le> f})))"
  using assms
proof (induction h arbitrary: c n)
  case Nil
  then show ?case by simp
next
  case (Cons x h)
  obtain ts i where x: "x = (ts, i)" by (cases x)
  have ts_le: "ts \<le> fst y" if "y \<in> set h" for y
    using Cons.prems(1) that x by (auto simp: less_eq_prod_def)
  have fresh: "i \<notin> snd ` set h" using Cons.prems(2) x by auto
  note IH = Cons.IH [OF sorted_wrt.simps(2) [THEN iffD1, OF Cons.prems(1), THEN conjunct2]]
  show ?case
  proof (cases "f < ts")
    case True
    then have "f < fst y" if "y \<in> set h" for y using ts_le [OF that] by simp
    then have late: "f < fst y" if "y \<in> set (x # h)" for y using True x that by (cases y) auto
    then have none: "{y \<in> set (x # h). fst y \<le> f} = {}" using leD by blast
    have "filter (\<lambda>x. fst x \<le> f \<and> snd x \<notin> c) (x # h) = []"
      "filter (\<lambda>x. f < fst x) (x # h) = x # h"
      using late by (auto simp: filter_empty_conv filter_id_conv not_le [symmetric] simp del: filter.simps)
    then show ?thesis unfolding none using True x by (simp del: filter.simps)
  next
    case False
    then have "{y \<in> set (x # h). fst y \<le> f} = insert x {y \<in> set h. fst y \<le> f}"
      using x by (auto simp: not_less)
    then have due: "snd ` {y \<in> set (x # h). fst y \<le> f} = insert i (snd ` {y \<in> set h. fst y \<le> f})"
      by (simp only: image_insert) (simp add: x)
    have restrict: "n(i := None) |` (- (snd ` {y \<in> set h. fst y \<le> f})) =
        n |` (- (snd ` {y \<in> set (x # h). fst y \<le> f}))"
      unfolding due by (auto simp: fun_eq_iff restrict_map_def)
    have names: "map (fire (n(i := None))) (filter P h) = map (fire n) (filter P h)" for P
      using fresh by (intro map_cong refl fire_cong) auto
    have live: "filter (\<lambda>x. fst x \<le> f \<and> snd x \<notin> c - {i}) h =
        filter (\<lambda>x. fst x \<le> f \<and> snd x \<notin> c) h"
      using fresh by (intro filter_cong) (auto simp: image_iff)
    have dist: "distinct (map snd h)" using Cons.prems(2) by simp
    show ?thesis
    proof (cases "i \<in> c")
      case True
      have "pop_due_loop f (x # h) c n = pop_due_loop f h (c - {i}) (n(i := None))"
        using False True x by simp
      moreover have "filter (\<lambda>x. fst x \<le> f \<and> snd x \<notin> c) (x # h) =
          filter (\<lambda>x. fst x \<le> f \<and> snd x \<notin> c) h" "filter (\<lambda>x. f < fst x) (x # h) = filter (\<lambda>x. f < fst x) h"
        using False True x by simp_all
      moreover have "c - snd ` {y \<in> set (x # h). fst y \<le> f} = c - {i} - snd ` {y \<in> set h. fst y \<le> f}"
        unfolding due by blast
      ultimately show ?thesis by (simp only: IH [OF dist] names live restrict)
    next
      case nc: False
      have "pop_due_loop f (x # h) c n =
          (case pop_due_loop f h c (n(i := None)) of (out, rest) \<Rightarrow> (fire n x # out, rest))"
        using False nc x by (simp add: fire_def)
      moreover have "filter (\<lambda>x. fst x \<le> f \<and> snd x \<notin> c) (x # h) =
          x # filter (\<lambda>x. fst x \<le> f \<and> snd x \<notin> c) h" "filter (\<lambda>x. f < fst x) (x # h) = filter (\<lambda>x. f < fst x) h"
        using False nc x by simp_all
      moreover have "c - snd ` {y \<in> set (x # h). fst y \<le> f} = c - snd ` {y \<in> set h. fst y \<le> f}"
        unfolding due using nc by blast
      ultimately show ?thesis
        by (simp only: IH [OF dist] names restrict prod.case list.map)
    qed
  qed
qed

lemma pop_due_eq:
  assumes "hc_inv c"
  shows "pop_due f c =
    (map (fire (hc_names c)) (filter (\<lambda>x. fst x \<le> f \<and> snd x \<notin> hc_cancelled c) (hc_heap c)),
     c\<lparr>hc_heap := filter (\<lambda>x. f < fst x) (hc_heap c),
       hc_cancelled := hc_cancelled c - snd ` {x \<in> set (hc_heap c). fst x \<le> f},
       hc_names := hc_names c |` (- (snd ` {x \<in> set (hc_heap c). fst x \<le> f}))\<rparr>)"
  using assms by (simp add: pop_due_def hc_inv_def pop_due_loop_eq)

lemma pop_due_inv: "hc_inv c \<Longrightarrow> hc_inv (snd (pop_due f c))"
  by (auto simp: pop_due_eq) (auto simp: hc_inv_def sorted_wrt_filter distinct_map_filter)

lemma pop_due_pending:
  assumes "hc_inv c"
  shows "hc_pending (snd (pop_due f c)) = {x \<in> hc_pending c. f < fst x}"
proof -
  have "snd x \<noteq> snd y" if "x \<in> set (hc_heap c)" "y \<in> set (hc_heap c)" "x \<noteq> y" for x y
    using assms that by (auto simp: hc_inv_def distinct_map dest: inj_onD)
  then have "snd x \<notin> snd ` {x \<in> set (hc_heap c). fst x \<le> f}"
    if "x \<in> set (hc_heap c)" "f < fst x" for x
    using that by (metis (no_types, lifting) imageE leD mem_Collect_eq)
  then show ?thesis using assms by (auto simp: pop_due_eq hc_pending_def)
qed

lemma pop_due_fired:
  assumes "hc_inv c"
  shows "(\<lambda>e. (te_ts e, te_id e)) ` set (fst (pop_due f c)) = {x \<in> hc_pending c. fst x \<le> f}"
proof -
  have "(\<lambda>e. (te_ts e, te_id e)) (fire n x) = x" for n x by (simp add: fire_def)
  then show ?thesis
    using assms by (simp add: pop_due_eq hc_pending_def image_image) auto
qed

lemma pop_due_sorted:
  assumes "hc_inv c"
  shows "sorted (map te_ts (fst (pop_due f c))) \<and> distinct (map te_id (fst (pop_due f c)))"
proof -
  let ?due = "filter (\<lambda>x. fst x \<le> f \<and> snd x \<notin> hc_cancelled c) (hc_heap c)"
  have "te_ts \<circ> fire (hc_names c) = fst" "te_id \<circ> fire (hc_names c) = snd"
    by (auto simp: fire_def)
  moreover have "sorted (map fst ?due)"
    using assms unfolding hc_inv_def sorted_map
    by (intro sorted_wrt_filter, elim conjE sorted_wrt_mono_rel [rotated]) (auto simp: less_eq_prod_def)
  ultimately show ?thesis
    using assms by (simp add: pop_due_eq) (simp add: hc_inv_def distinct_map_filter)
qed

lemma pop_due_now [simp]: "hc_now (snd (pop_due f c)) = hc_now c"
  by (simp add: pop_due_def split: prod.split)

lemma advance_to_now: "hc_now (advance_to ts c) = max (hc_now c) ts"
  by (auto simp: advance_to_def max_def)

lemma advance_to_timers [simp]:
  "hc_heap (advance_to ts c) = hc_heap c" "hc_cancelled (advance_to ts c) = hc_cancelled c"
  "hc_names (advance_to ts c) = hc_names c" "hc_next_id (advance_to ts c) = hc_next_id c"
  by (simp_all add: advance_to_def)

lemma advance_to_inv [simp]: "hc_inv (advance_to ts c) \<longleftrightarrow> hc_inv c"
  by (simp add: hc_inv_def)

end
