(* ===== verification/Domain.thy ===== *)
theory Domain
  imports Value Clock
begin

text \<open>
  The plain data of \<open>foundation/crates/coinext-model/src\<close>: \<open>enums.rs\<close>,
  \<open>identifiers.rs\<close>, \<open>instrument.rs\<close>, \<open>fill.rs\<close>, \<open>market_data.rs\<close>
  and \<open>account.rs\<close>. The string newtypes are strings; an object of the
  \<open>Instrument\<close> trait is a record with one field per trait method, built by one
  definition per implementing struct. Serialization
  derives are left out.
\<close>

section \<open>Enumerations\<close>

datatype asset_class = Spot | Perp | Future | AssetEquity | AssetOption

datatype option_right = Call | Put

definition intrinsic :: "dec_ops \<Rightarrow> option_right \<Rightarrow> decimal \<Rightarrow> decimal \<Rightarrow> decimal option" where
  "intrinsic D right spot strike = do {
     v \<leftarrow> (case right of Call \<Rightarrow> d_sub D spot strike | Put \<Rightarrow> d_sub D strike spot);
     Some (d_max D v dec_zero) }"

datatype order_side = Buy | Sell

fun side_sign :: "order_side \<Rightarrow> int" where
  "side_sign Buy = 1"
| "side_sign Sell = - 1"

fun side_opposite :: "order_side \<Rightarrow> order_side" where
  "side_opposite Buy = Sell"
| "side_opposite Sell = Buy"

datatype order_type = Market | Limit | StopMarket | StopLimit | MarketIfTouched | TrailingStopMarket

datatype time_in_force = Gtc | Ioc | Fok | Gtd | Day

datatype order_status =
    Initialized
  | Denied
  | Submitted
  | Accepted
  | PendingUpdate
  | PendingCancel
  | PartiallyFilled
  | Filled
  | Canceled
  | Expired
  | Rejected

definition status_is_terminal :: "order_status \<Rightarrow> bool" where
  "status_is_terminal s \<longleftrightarrow> s \<in> {Denied, Filled, Canceled, Expired, Rejected}"

datatype liquidity_side = Maker | Taker

datatype position_side = Long | Short | Flat

datatype price_type = PtBid | PtAsk | PtMid | PtLast

datatype bar_aggregation = AggTick | AggSecond | AggMinute | AggHour | AggDay

datatype aggregation_source = Internal | External

datatype book_action = BookAdd | BookUpdate | BookDelete | BookClear

section \<open>Identifiers\<close>

type_synonym symbol = string
type_synonym venue = string
type_synonym client_order_id = string
type_synonym venue_order_id = string
type_synonym strategy_id = string
type_synonym trade_id = string
type_synonym position_id = string
type_synonym account_id = string

datatype instrument_id = InstrumentId (ii_symbol: symbol) (ii_venue: venue)

text \<open>\<open>str::rsplit_once\<close>: split at the last occurrence of the separator.\<close>

definition rsplit_once :: "char \<Rightarrow> string \<Rightarrow> (string \<times> string) option" where
  "rsplit_once c s =
     (case dropWhile (\<lambda>x. x \<noteq> c) (rev s) of
        [] \<Rightarrow> None
      | _ # pre \<Rightarrow> Some (rev pre, rev (takeWhile (\<lambda>x. x \<noteq> c) (rev s))))"

definition instrument_id_parse :: "string \<Rightarrow> instrument_id option" where
  "instrument_id_parse s =
     map_option (\<lambda>(sym, ven). InstrumentId sym ven) (rsplit_once (CHR ''.'') s)"

definition instrument_id_display :: "instrument_id \<Rightarrow> string" where
  "instrument_id_display i = ii_symbol i @ ''.'' @ ii_venue i"

section \<open>Instruments\<close>

record currency_pair =
  cp_id :: instrument_id
  cp_base :: currency
  cp_quote :: currency
  cp_price_precision :: nat
  cp_size_precision :: nat
  cp_price_increment :: price
  cp_size_increment :: quantity
  cp_min_notional :: "money option"
  cp_maker_fee :: decimal
  cp_taker_fee :: decimal

record crypto_perpetual =
  pp_id :: instrument_id
  pp_base :: currency
  pp_quote :: currency
  pp_settlement :: currency
  pp_price_precision :: nat
  pp_size_precision :: nat
  pp_price_increment :: price
  pp_size_increment :: quantity
  pp_min_notional :: "money option"
  pp_multiplier :: quantity
  pp_maker_fee :: decimal
  pp_taker_fee :: decimal
  pp_is_inverse :: bool
  pp_funding_interval_ns :: u64

record equity_share =
  eq_id :: instrument_id
  eq_currency :: currency
  eq_price_precision :: nat
  eq_size_precision :: nat
  eq_price_increment :: price
  eq_size_increment :: quantity
  eq_min_notional :: "money option"
  eq_maker_fee :: decimal
  eq_taker_fee :: decimal

record futures_contract =
  fu_id :: instrument_id
  fu_underlying :: "instrument_id option"
  fu_quote :: currency
  fu_settlement :: currency
  fu_price_precision :: nat
  fu_size_precision :: nat
  fu_price_increment :: price
  fu_size_increment :: quantity
  fu_min_notional :: "money option"
  fu_multiplier :: quantity
  fu_maker_fee :: decimal
  fu_taker_fee :: decimal
  fu_expiry_ns :: unix_nanos

record option_contract =
  op_id :: instrument_id
  op_underlying :: instrument_id
  op_quote :: currency
  op_settlement :: currency
  op_price_precision :: nat
  op_size_precision :: nat
  op_price_increment :: price
  op_size_increment :: quantity
  op_min_notional :: "money option"
  op_multiplier :: quantity
  op_maker_fee :: decimal
  op_taker_fee :: decimal
  op_strike :: price
  op_right :: option_right
  op_expiry_ns :: unix_nanos

text \<open>
  A \<open>dyn Instrument\<close> is what its accessor methods answer. Each struct's
  \<open>impl Instrument\<close> is one definition; the defaults of the trait stand for the methods
  an impl does not override.
\<close>

record instrument =
  inst_id :: instrument_id
  inst_asset_class :: asset_class
  inst_base_currency :: currency
  inst_quote_currency :: currency
  inst_settlement_currency :: currency
  inst_price_precision :: nat
  inst_size_precision :: nat
  inst_price_increment :: price
  inst_size_increment :: quantity
  inst_min_notional :: "money option"
  inst_multiplier :: quantity
  inst_maker_fee :: decimal
  inst_taker_fee :: decimal
  inst_is_inverse :: bool
  inst_expiry_ns :: "unix_nanos option"
  inst_strike :: "price option"
  inst_option_right :: "option_right option"
  inst_underlying :: "instrument_id option"

text \<open>\<open>Quantity::from_raw(1, 0).expect(..)\<close>.\<close>

definition unit_multiplier :: quantity where
  "unit_multiplier = Quantity 1 0"

definition currency_pair_dyn :: "currency_pair \<Rightarrow> instrument" where
  "currency_pair_dyn i =
     \<lparr>inst_id = cp_id i, inst_asset_class = Spot, inst_base_currency = cp_base i,
      inst_quote_currency = cp_quote i, inst_settlement_currency = cp_quote i,
      inst_price_precision = cp_price_precision i, inst_size_precision = cp_size_precision i,
      inst_price_increment = cp_price_increment i, inst_size_increment = cp_size_increment i,
      inst_min_notional = cp_min_notional i, inst_multiplier = unit_multiplier,
      inst_maker_fee = cp_maker_fee i, inst_taker_fee = cp_taker_fee i,
      inst_is_inverse = False, inst_expiry_ns = None, inst_strike = None,
      inst_option_right = None, inst_underlying = None\<rparr>"

definition crypto_perpetual_dyn :: "crypto_perpetual \<Rightarrow> instrument" where
  "crypto_perpetual_dyn i =
     \<lparr>inst_id = pp_id i, inst_asset_class = Perp, inst_base_currency = pp_base i,
      inst_quote_currency = pp_quote i, inst_settlement_currency = pp_settlement i,
      inst_price_precision = pp_price_precision i, inst_size_precision = pp_size_precision i,
      inst_price_increment = pp_price_increment i, inst_size_increment = pp_size_increment i,
      inst_min_notional = pp_min_notional i, inst_multiplier = pp_multiplier i,
      inst_maker_fee = pp_maker_fee i, inst_taker_fee = pp_taker_fee i,
      inst_is_inverse = pp_is_inverse i, inst_expiry_ns = None, inst_strike = None,
      inst_option_right = None, inst_underlying = None\<rparr>"

definition equity_dyn :: "equity_share \<Rightarrow> instrument" where
  "equity_dyn i =
     \<lparr>inst_id = eq_id i, inst_asset_class = AssetEquity, inst_base_currency = eq_currency i,
      inst_quote_currency = eq_currency i, inst_settlement_currency = eq_currency i,
      inst_price_precision = eq_price_precision i, inst_size_precision = eq_size_precision i,
      inst_price_increment = eq_price_increment i, inst_size_increment = eq_size_increment i,
      inst_min_notional = eq_min_notional i, inst_multiplier = unit_multiplier,
      inst_maker_fee = eq_maker_fee i, inst_taker_fee = eq_taker_fee i,
      inst_is_inverse = False, inst_expiry_ns = None, inst_strike = None,
      inst_option_right = None, inst_underlying = None\<rparr>"

definition futures_contract_dyn :: "futures_contract \<Rightarrow> instrument" where
  "futures_contract_dyn i =
     \<lparr>inst_id = fu_id i, inst_asset_class = Future, inst_base_currency = fu_quote i,
      inst_quote_currency = fu_quote i, inst_settlement_currency = fu_settlement i,
      inst_price_precision = fu_price_precision i, inst_size_precision = fu_size_precision i,
      inst_price_increment = fu_price_increment i, inst_size_increment = fu_size_increment i,
      inst_min_notional = fu_min_notional i, inst_multiplier = fu_multiplier i,
      inst_maker_fee = fu_maker_fee i, inst_taker_fee = fu_taker_fee i,
      inst_is_inverse = False, inst_expiry_ns = Some (fu_expiry_ns i), inst_strike = None,
      inst_option_right = None, inst_underlying = fu_underlying i\<rparr>"

definition option_contract_dyn :: "option_contract \<Rightarrow> instrument" where
  "option_contract_dyn i =
     \<lparr>inst_id = op_id i, inst_asset_class = AssetOption, inst_base_currency = op_quote i,
      inst_quote_currency = op_quote i, inst_settlement_currency = op_settlement i,
      inst_price_precision = op_price_precision i, inst_size_precision = op_size_precision i,
      inst_price_increment = op_price_increment i, inst_size_increment = op_size_increment i,
      inst_min_notional = op_min_notional i, inst_multiplier = op_multiplier i,
      inst_maker_fee = op_maker_fee i, inst_taker_fee = op_taker_fee i,
      inst_is_inverse = False, inst_expiry_ns = Some (op_expiry_ns i), inst_strike = Some (op_strike i),
      inst_option_right = Some (op_right i), inst_underlying = Some (op_underlying i)\<rparr>"

definition make_price :: "dec_ops \<Rightarrow> instrument \<Rightarrow> decimal \<Rightarrow> price mresult" where
  "make_price D i d = price_from_decimal D d (inst_price_precision i)"

definition make_qty :: "dec_ops \<Rightarrow> instrument \<Rightarrow> decimal \<Rightarrow> quantity mresult" where
  "make_qty D i d = qty_from_decimal D d (inst_size_precision i)"

section \<open>Fills and market data\<close>

record fill =
  f_trade_id :: trade_id
  f_client_order_id :: client_order_id
  f_venue_order_id :: venue_order_id
  f_instrument_id :: instrument_id
  f_side :: order_side
  f_last_px :: price
  f_last_qty :: quantity
  f_fee :: money
  f_liquidity :: liquidity_side
  f_ts_event :: unix_nanos
  f_ts_init :: unix_nanos

record quote_tick =
  qt_instrument_id :: instrument_id
  qt_bid :: price
  qt_ask :: price
  qt_bid_size :: quantity
  qt_ask_size :: quantity
  qt_ts_event :: unix_nanos
  qt_ts_init :: unix_nanos

definition quote_mid :: "quote_tick \<Rightarrow> price" where
  "quote_mid q =
     (let sum = i64_saturate (p_raw (qt_bid q) + p_raw (qt_ask q))
      in unwrap_or (price_from_raw (int_quot sum 2) (p_prec (qt_bid q))) (qt_bid q))"

record trade_tick =
  tt_instrument_id :: instrument_id
  tt_price :: price
  tt_size :: quantity
  tt_aggressor :: order_side
  tt_trade_id :: trade_id
  tt_ts_event :: unix_nanos
  tt_ts_init :: unix_nanos

record order_book_delta =
  bd_instrument_id :: instrument_id
  bd_action :: book_action
  bd_side :: order_side
  bd_price :: price
  bd_size :: quantity
  bd_sequence :: u64
  bd_ts_event :: unix_nanos
  bd_ts_init :: unix_nanos

record bar_spec =
  bs_step :: nat
  bs_aggregation :: bar_aggregation
  bs_price_type :: price_type

record bar_type =
  bt_instrument_id :: instrument_id
  bt_spec :: bar_spec
  bt_source :: aggregation_source

record bar =
  b_bar_type :: bar_type
  b_open :: price
  b_high :: price
  b_low :: price
  b_close :: price
  b_volume :: quantity
  b_ts_event :: unix_nanos
  b_ts_init :: unix_nanos

datatype market_event =
    MQuote quote_tick
  | MTrade trade_tick
  | MDelta order_book_delta
  | MBar bar

fun mev_ts_event :: "market_event \<Rightarrow> unix_nanos" where
  "mev_ts_event (MQuote q) = qt_ts_event q"
| "mev_ts_event (MTrade t) = tt_ts_event t"
| "mev_ts_event (MDelta d) = bd_ts_event d"
| "mev_ts_event (MBar b) = b_ts_event b"

fun mev_instrument_id :: "market_event \<Rightarrow> instrument_id" where
  "mev_instrument_id (MQuote q) = qt_instrument_id q"
| "mev_instrument_id (MTrade t) = tt_instrument_id t"
| "mev_instrument_id (MDelta d) = bd_instrument_id d"
| "mev_instrument_id (MBar b) = bt_instrument_id (b_bar_type b)"

section \<open>Accounts\<close>

record account_state =
  acc_id :: account_id
  acc_balances :: "currency \<rightharpoonup> money"
  acc_margin_used :: money

definition account_new :: "account_id \<Rightarrow> currency \<Rightarrow> account_state" where
  "account_new i margin_ccy =
     \<lparr>acc_id = i, acc_balances = Map.empty, acc_margin_used = money_zero margin_ccy\<rparr>"

definition account_balance :: "account_state \<Rightarrow> currency \<Rightarrow> money" where
  "account_balance a ccy = (case acc_balances a ccy of Some m \<Rightarrow> m | None \<Rightarrow> money_zero ccy)"

definition account_set_balance :: "money \<Rightarrow> account_state \<Rightarrow> account_state" where
  "account_set_balance m a = a\<lparr>acc_balances := (acc_balances a)(m_ccy m \<mapsto> m)\<rparr>"

definition account_adjust :: "money \<Rightarrow> account_state \<Rightarrow> account_state mresult" where
  "account_adjust delta a =
     result_bind (money_checked_add (account_balance a (m_ccy delta)) delta)
       (\<lambda>m. Ok (a\<lparr>acc_balances := (acc_balances a)(m_ccy delta \<mapsto> m)\<rparr>))"

section \<open>Facts about the data\<close>

lemma unit_multiplier_from_raw: "qty_from_raw 1 0 = Ok unit_multiplier"
  by (simp add: qty_from_raw_def check_precision_def unit_multiplier_def)

lemma side_opposite_opposite [simp]: "side_opposite (side_opposite s) = s"
  by (cases s) simp_all

lemma side_sign_opposite [simp]: "side_sign (side_opposite s) = - side_sign s"
  by (cases s) simp_all

lemma rsplit_once_append:
  assumes "c \<notin> set ven"
  shows "rsplit_once c (pre @ [c] @ ven) = Some (pre, ven)"
proof -
  have "dropWhile (\<lambda>x. x \<noteq> c) (rev ven @ c # rev pre) = dropWhile (\<lambda>x. x \<noteq> c) (c # rev pre)"
    using assms by (intro dropWhile_append2) auto
  moreover have "takeWhile (\<lambda>x. x \<noteq> c) (rev ven @ c # rev pre) = rev ven @ takeWhile (\<lambda>x. x \<noteq> c) (c # rev pre)"
    using assms by (intro takeWhile_append2) auto
  ultimately show ?thesis by (simp add: rsplit_once_def)
qed

lemma parse_display:
  "CHR ''.'' \<notin> set (ii_venue i) \<Longrightarrow> instrument_id_parse (instrument_id_display i) = Some i"
  using rsplit_once_append [of "CHR ''.''" "ii_venue i" "ii_symbol i"]
  by (simp add: instrument_id_parse_def instrument_id_display_def)

lemma rsplit_once_Some:
  assumes "rsplit_once c s = Some (a, b)"
  shows "s = a @ [c] @ b \<and> c \<notin> set b"
proof -
  let ?t = "takeWhile (\<lambda>x. x \<noteq> c) (rev s)" and ?d = "dropWhile (\<lambda>x. x \<noteq> c) (rev s)"
  obtain x pre where d: "?d = x # pre" and a: "a = rev pre" and b: "b = rev ?t"
    using assms by (auto simp: rsplit_once_def split: list.splits)
  have x: "x = c" using d dropWhile_eq_Cons_conv [of "\<lambda>x. x \<noteq> c" "rev s"] by auto
  have "rev s = ?t @ ?d" by simp
  then have "s = rev ?d @ rev ?t" by (metis rev_append rev_rev_ident)
  moreover have "c \<notin> set b" unfolding b using set_takeWhileD by fastforce
  ultimately show ?thesis using d x a b by simp
qed

lemma quote_mid_between:
  assumes "valid_price (qt_bid q)" "valid_price (qt_ask q)" "p_prec (qt_bid q) = p_prec (qt_ask q)"
    and "in_i64 (p_raw (qt_bid q) + p_raw (qt_ask q))" "qt_bid q \<le> qt_ask q"
  shows "qt_bid q \<le> quote_mid q \<and> quote_mid q \<le> qt_ask q"
proof -
  let ?b = "p_raw (qt_bid q)" and ?a = "p_raw (qt_ask q)"
  have nn: "0 \<le> ?b" "0 \<le> ?a" "p_prec (qt_bid q) \<le> MAX_PRECISION"
    using assms by (simp_all add: valid_price_def)
  then have "price_from_raw ((?b + ?a) div 2) (p_prec (qt_bid q)) =
      Ok (Price ((?b + ?a) div 2) (p_prec (qt_bid q)))"
    by (simp add: price_from_raw_Ok)
  then have "quote_mid q = Price ((?b + ?a) div 2) (p_prec (qt_bid q))"
    using nn assms(4) by (simp add: quote_mid_def i64_saturate_id int_quot_nonneg)
  moreover have "?b \<le> ?a" using assms(5) by (auto simp: less_eq_price_def)
  ultimately show ?thesis using assms(3) by (auto simp: less_eq_price_def)
qed

end
