(* ===== verification/Book.thy ===== *)
theory Book
  imports Domain
begin

text \<open>
  \<open>foundation/crates/coinext-model/src/order_book.rs\<close>: the L2 order book folded from
  deltas. The two \<open>BTreeMap<i64, Quantity>\<close> sides are sorted association lists. The book
  is shown to refine a partial function from side and raw price to size, and a snapshot boundary
  (\<open>Clear\<close>) to make everything applied before it irrelevant.
\<close>

section \<open>State and operations\<close>

record order_book =
  ob_instrument_id :: instrument_id
  ob_bids :: "(int \<times> quantity) list"
  ob_asks :: "(int \<times> quantity) list"
  ob_precision :: nat
  ob_last_sequence :: u64
  ob_seq_set :: bool
  ob_ts_last :: unix_nanos

definition book_new :: "instrument_id \<Rightarrow> order_book" where
  "book_new i =
     \<lparr>ob_instrument_id = i, ob_bids = [], ob_asks = [], ob_precision = 0,
      ob_last_sequence = 0, ob_seq_set = False, ob_ts_last = 0\<rparr>"

definition book_side :: "order_side \<Rightarrow> order_book \<Rightarrow> (int \<times> quantity) list" where
  "book_side s b = (case s of Buy \<Rightarrow> ob_bids b | Sell \<Rightarrow> ob_asks b)"

text \<open>\<open>side_mut\<close>: update the side a delta names.\<close>

definition book_side_mut ::
  "order_side \<Rightarrow> ((int \<times> quantity) list \<Rightarrow> (int \<times> quantity) list) \<Rightarrow> order_book \<Rightarrow> order_book" where
  "book_side_mut s f b =
     (case s of Buy \<Rightarrow> b\<lparr>ob_bids := f (ob_bids b)\<rparr> | Sell \<Rightarrow> b\<lparr>ob_asks := f (ob_asks b)\<rparr>)"

definition book_action_apply :: "order_book_delta \<Rightarrow> order_book \<Rightarrow> order_book" where
  "book_action_apply d b =
     (case bd_action d of
        BookClear \<Rightarrow> b\<lparr>ob_bids := [], ob_asks := []\<rparr>
      | BookDelete \<Rightarrow> book_side_mut (bd_side d) (btm_remove (p_raw (bd_price d))) b
      | _ \<Rightarrow> book_side_mut (bd_side d)
               (if q_raw (bd_size d) = 0 then btm_remove (p_raw (bd_price d))
                else btm_insert (p_raw (bd_price d)) (bd_size d)) b)"

definition book_apply :: "order_book_delta \<Rightarrow> order_book \<Rightarrow> bool \<times> order_book" where
  "book_apply d b =
     (let is_clear = (bd_action d = BookClear)
      in if \<not> is_clear \<and> ob_seq_set b \<and> bd_sequence d < ob_last_sequence b then (False, b)
         else let b1 = (if ob_precision b = 0 then b\<lparr>ob_precision := p_prec (bd_price d)\<rparr> else b);
                  b2 = book_action_apply d b1
              in (True, b2\<lparr>ob_last_sequence := (if is_clear then bd_sequence d
                                                else max (ob_last_sequence b2) (bd_sequence d)),
                           ob_seq_set := True, ob_ts_last := bd_ts_event d\<rparr>))"

definition book_price :: "order_book \<Rightarrow> int \<Rightarrow> price" where
  "book_price b raw = unwrap_or (price_from_raw raw (ob_precision b)) (price_zero (ob_precision b))"

definition best_bid :: "order_book \<Rightarrow> (price \<times> quantity) option" where
  "best_bid b = (case rev (ob_bids b) of [] \<Rightarrow> None | (raw, q) # _ \<Rightarrow> Some (book_price b raw, q))"

definition best_ask :: "order_book \<Rightarrow> (price \<times> quantity) option" where
  "best_ask b = (case ob_asks b of [] \<Rightarrow> None | (raw, q) # _ \<Rightarrow> Some (book_price b raw, q))"

definition book_mid :: "order_book \<Rightarrow> price option" where
  "book_mid b =
     (case (best_bid b, best_ask b) of
        (Some (bid, _), Some (ask, _)) \<Rightarrow>
          (let sum = i64_saturate (p_raw bid + p_raw ask)
           in Some (unwrap_or (price_from_raw (int_quot sum 2) (ob_precision b)) bid))
      | _ \<Rightarrow> None)"

definition book_spread :: "order_book \<Rightarrow> price option" where
  "book_spread b =
     (case (best_bid b, best_ask b) of
        (Some (bid, _), Some (ask, _)) \<Rightarrow>
          (let raw = i64_saturate (p_raw ask - p_raw bid)
           in Some (unwrap_or (price_from_raw raw (ob_precision b)) (price_zero (ob_precision b))))
      | _ \<Rightarrow> None)"

definition book_bids :: "order_book \<Rightarrow> (price \<times> quantity) list" where
  "book_bids b = map (\<lambda>(raw, q). (book_price b raw, q)) (rev (ob_bids b))"

definition book_asks :: "order_book \<Rightarrow> (price \<times> quantity) list" where
  "book_asks b = map (\<lambda>(raw, q). (book_price b raw, q)) (ob_asks b)"

definition book_is_empty :: "order_book \<Rightarrow> bool" where
  "book_is_empty b \<longleftrightarrow> ob_bids b = [] \<and> ob_asks b = []"

definition level_count :: "order_book \<Rightarrow> nat" where
  "level_count b = length (ob_bids b) + length (ob_asks b)"

definition to_quote :: "unix_nanos \<Rightarrow> order_book \<Rightarrow> quote_tick option" where
  "to_quote ts_init b =
     (case (best_bid b, best_ask b) of
        (Some (bid, bid_size), Some (ask, ask_size)) \<Rightarrow>
          Some \<lparr>qt_instrument_id = ob_instrument_id b, qt_bid = bid, qt_ask = ask,
                qt_bid_size = bid_size, qt_ask_size = ask_size,
                qt_ts_event = ob_ts_last b, qt_ts_init = ts_init\<rparr>
      | _ \<Rightarrow> None)"

text \<open>A stream of deltas, folded in order.\<close>

fun book_apply_all :: "order_book_delta list \<Rightarrow> order_book \<Rightarrow> order_book" where
  "book_apply_all [] b = b"
| "book_apply_all (d # ds) b = book_apply_all ds (snd (book_apply d b))"

section \<open>Abstract book and invariant\<close>

text \<open>The abstract book: for each side, the size resting at each raw price.\<close>

type_synonym abs_book = "order_side \<Rightarrow> int \<rightharpoonup> quantity"

definition abs_book :: "order_book \<Rightarrow> abs_book" where
  "abs_book b s = map_of (book_side s b)"

text \<open>What the delta feed means, on the abstract book.\<close>

definition abs_delta :: "order_book_delta \<Rightarrow> abs_book \<Rightarrow> abs_book" where
  "abs_delta d a =
     (if bd_action d = BookClear then (\<lambda>_. Map.empty)
      else a(bd_side d := (a (bd_side d))(p_raw (bd_price d) :=
             (if bd_action d = BookDelete \<or> q_raw (bd_size d) = 0 then None else Some (bd_size d)))))"

definition book_stale :: "order_book_delta \<Rightarrow> order_book \<Rightarrow> bool" where
  "book_stale d b \<longleftrightarrow>
     bd_action d \<noteq> BookClear \<and> ob_seq_set b \<and> bd_sequence d < ob_last_sequence b"

definition book_ok :: "order_book \<Rightarrow> bool" where
  "book_ok b \<longleftrightarrow>
     (\<forall>s. btm_ok (book_side s b) \<and> (\<forall>x \<in> set (book_side s b). q_raw (snd x) \<noteq> 0))"

lemma book_side_upd [simp]:
  "book_side s (b\<lparr>ob_precision := p\<rparr>) = book_side s b"
  "book_side s (b\<lparr>ob_last_sequence := n\<rparr>) = book_side s b"
  "book_side s (b\<lparr>ob_seq_set := f\<rparr>) = book_side s b"
  "book_side s (b\<lparr>ob_ts_last := t\<rparr>) = book_side s b"
  by (simp_all add: book_side_def split: order_side.splits)

lemma book_side_side_mut [simp]:
  "book_side s (book_side_mut s' f b) = (if s = s' then f (book_side s b) else book_side s b)"
  by (simp add: book_side_def book_side_mut_def split: order_side.splits)

lemma book_side_mut_sel [simp]:
  "ob_precision (book_side_mut s f b) = ob_precision b"
  "ob_last_sequence (book_side_mut s f b) = ob_last_sequence b"
  "ob_seq_set (book_side_mut s f b) = ob_seq_set b"
  by (simp_all add: book_side_mut_def split: order_side.splits)

lemma book_side_clear [simp]: "book_side s (b\<lparr>ob_bids := [], ob_asks := []\<rparr>) = []"
  by (simp add: book_side_def split: order_side.splits)

text \<open>The levels of a side after an action, and after an accepted delta.\<close>

lemma book_side_action:
  "book_side s (book_action_apply d b) =
     (if bd_action d = BookClear then []
      else if s \<noteq> bd_side d then book_side s b
      else if bd_action d = BookDelete \<or> q_raw (bd_size d) = 0
        then btm_remove (p_raw (bd_price d)) (book_side s b)
      else btm_insert (p_raw (bd_price d)) (bd_size d) (book_side s b))"
  by (cases "bd_action d") (simp_all add: book_action_apply_def)

lemma book_apply_stale: "book_stale d b \<Longrightarrow> book_apply d b = (False, b)"
  by (simp add: book_apply_def book_stale_def)

lemma book_apply_accepts: "fst (book_apply d b) \<longleftrightarrow> \<not> book_stale d b"
  by (simp add: book_apply_def book_stale_def Let_def)

lemma book_side_apply:
  "\<not> book_stale d b \<Longrightarrow> book_side s (snd (book_apply d b)) = book_side s (book_action_apply d b)"
  by (auto simp: book_apply_def book_stale_def Let_def book_side_action)

lemma book_ok_new: "book_ok (book_new i)"
  by (simp add: book_ok_def book_new_def book_side_def split: order_side.splits)

lemma btm_insert_sub: "set (btm_insert k v m) \<subseteq> insert (k, v) (set m)"
  by (induction k v m rule: btm_insert.induct) auto

lemma book_ok_apply [coinext_inv]: "book_ok b \<Longrightarrow> book_ok (snd (book_apply d b))"
proof (cases "book_stale d b")
  case False
  assume "book_ok b"
  then have ok: "btm_ok (book_side s b)" "\<forall>x \<in> set (book_side s b). q_raw (snd x) \<noteq> 0" for s
    by (auto simp: book_ok_def)
  have "btm_ok (book_side s (book_action_apply d b)) \<and>
      (\<forall>x \<in> set (book_side s (book_action_apply d b)). q_raw (snd x) \<noteq> 0)" for s
    using ok [of s] set_btm_remove [of "p_raw (bd_price d)" "book_side s b"]
      btm_insert_sub [of "p_raw (bd_price d)" "bd_size d" "book_side s b"]
    by (auto simp: book_side_action)
  with False show ?thesis by (simp add: book_ok_def book_side_apply)
qed (simp add: book_apply_stale)

lemma book_ok_apply_all: "book_ok b \<Longrightarrow> book_ok (book_apply_all ds b)"
  by (induction ds arbitrary: b) (simp_all add: book_ok_apply)

section \<open>Refinement and snapshots\<close>

lemma abs_book_apply:
  assumes "book_ok b"
  shows "abs_book (snd (book_apply d b)) =
    (if book_stale d b then abs_book b else abs_delta d (abs_book b))"
proof (cases "book_stale d b")
  case False
  have "abs_book (snd (book_apply d b)) s = abs_delta d (abs_book b) s" for s
    using assms False
    by (auto simp: abs_book_def book_side_apply book_side_action abs_delta_def book_ok_def
        map_of_btm_insert map_of_btm_remove)
  with False show ?thesis by (simp add: fun_eq_iff)
qed (simp add: book_apply_stale)

text \<open>Two books a snapshot boundary has made alike stay alike.\<close>

definition book_alike :: "order_book \<Rightarrow> order_book \<Rightarrow> bool" where
  "book_alike a b \<longleftrightarrow> (\<forall>s. book_side s a = book_side s b) \<and>
     ob_last_sequence a = ob_last_sequence b \<and> ob_seq_set a = ob_seq_set b"

lemma book_apply_seq:
  "\<not> book_stale d b \<Longrightarrow> ob_seq_set (snd (book_apply d b)) \<and>
     ob_last_sequence (snd (book_apply d b)) =
       (if bd_action d = BookClear then bd_sequence d else max (ob_last_sequence b) (bd_sequence d))"
  by (cases "bd_action d") (auto simp: book_apply_def book_stale_def Let_def book_action_apply_def)

lemma book_alike_apply:
  assumes "book_alike a b"
  shows "book_alike (snd (book_apply d a)) (snd (book_apply d b))"
proof (cases "book_stale d a")
  case True
  moreover from True assms have "book_stale d b" by (simp add: book_stale_def book_alike_def)
  ultimately show ?thesis using assms by (simp add: book_apply_stale)
next
  case False
  moreover from False assms have "\<not> book_stale d b" by (simp add: book_stale_def book_alike_def)
  ultimately show ?thesis using assms
    by (simp add: book_alike_def book_apply_seq book_side_apply book_side_action)
qed

lemma book_alike_apply_all:
  "book_alike a b \<Longrightarrow> book_alike (book_apply_all ds a) (book_apply_all ds b)"
  by (induction ds arbitrary: a b) (simp_all add: book_alike_apply)

lemma book_alike_clear:
  assumes "bd_action d = BookClear"
  shows "book_alike (snd (book_apply d a)) (snd (book_apply d b))"
proof -
  have "\<not> book_stale d a" "\<not> book_stale d b" using assms by (simp_all add: book_stale_def)
  then show ?thesis
    using assms by (simp add: book_alike_def book_apply_seq book_side_apply book_side_action)
qed

lemma book_sequence_monotone:
  "bd_action d \<noteq> BookClear \<Longrightarrow> ob_last_sequence b \<le> ob_last_sequence (snd (book_apply d b))"
  by (cases "book_stale d b") (simp_all add: book_apply_stale book_apply_seq)

section \<open>Top of book\<close>

lemma book_price_raw:
  "0 \<le> raw \<Longrightarrow> ob_precision b \<le> MAX_PRECISION \<Longrightarrow> book_price b raw = Price raw (ob_precision b)"
  by (simp add: book_price_def price_from_raw_def check_precision_def)

lemma best_bid_Some:
  assumes "book_ok b" "best_bid b = Some (p, q)"
  shows "\<exists>raw. p = book_price b raw \<and> abs_book b Buy raw = Some q \<and>
    (\<forall>raw' \<in> dom (abs_book b Buy). raw' \<le> raw)"
proof -
  obtain raw pre where pre: "ob_bids b = pre @ [(raw, q)]" and p: "p = book_price b raw"
    using assms(2) by (auto simp: best_bid_def split: list.splits)
  have ok: "btm_ok (ob_bids b)" using assms(1) by (metis book_ok_def book_side_def order_side.simps(3))
  have "fst x \<le> raw" if "x \<in> set (ob_bids b)" for x
    using btm_last_greatest [OF ok that] pre by simp
  moreover have "map_of (ob_bids b) raw = Some q"
    using ok pre by (intro map_of_is_SomeI) (auto simp: btm_ok_def strict_sorted_iff)
  ultimately show ?thesis using p
    by (intro exI [of _ raw]) (auto simp: abs_book_def book_side_def dest: map_of_SomeD)
qed

lemma best_ask_Some:
  assumes "book_ok b" "best_ask b = Some (p, q)"
  shows "\<exists>raw. p = book_price b raw \<and> abs_book b Sell raw = Some q \<and>
    (\<forall>raw' \<in> dom (abs_book b Sell). raw \<le> raw')"
proof -
  obtain raw post where post: "ob_asks b = (raw, q) # post" and p: "p = book_price b raw"
    using assms(2) by (auto simp: best_ask_def split: list.splits)
  have ok: "btm_ok (ob_asks b)" using assms(1) by (metis book_ok_def book_side_def order_side.simps(4))
  have "raw \<le> fst x" if "x \<in> set (ob_asks b)" for x
    using btm_hd_least [of raw q post x] ok that post by simp
  then have "\<forall>raw' \<in> dom (map_of (ob_asks b)). raw \<le> raw'" by (auto dest: map_of_SomeD)
  moreover have "map_of (ob_asks b) raw = Some q" using post by simp
  ultimately show ?thesis using p by (auto simp: abs_book_def book_side_def)
qed

lemma best_bid_None: "best_bid b = None \<longleftrightarrow> abs_book b Buy = Map.empty"
  by (auto simp: best_bid_def abs_book_def book_side_def split: list.splits)

lemma best_ask_None: "best_ask b = None \<longleftrightarrow> abs_book b Sell = Map.empty"
  by (auto simp: best_ask_def abs_book_def book_side_def split: list.splits)

section \<open>Properties\<close>

text \<open>
  C29: the order book refines the abstract map of levels. A stale delta (older than the last
  applied one and not a snapshot boundary) is refused and changes nothing; any other delta is
  accepted and changes the levels exactly as the delta says, and the level maps stay ordered and
  free of empty levels.
\<close>

theorem book_refines_levels:
  assumes "book_ok b"
  shows "book_ok (snd (book_apply d b)) \<and>
    (fst (book_apply d b) \<longleftrightarrow> \<not> book_stale d b) \<and>
    (if book_stale d b then snd (book_apply d b) = b
     else abs_book (snd (book_apply d b)) = abs_delta d (abs_book b))"
  using assms
  by (simp_all add: book_ok_apply book_apply_accepts book_apply_stale abs_book_apply)

definition sample_delta :: "book_action \<Rightarrow> order_side \<Rightarrow> int \<Rightarrow> int \<Rightarrow> u64 \<Rightarrow> order_book_delta" where
  "sample_delta act sd px sz sq =
     \<lparr>bd_instrument_id = InstrumentId ''BTCUSDT'' ''BINANCE'', bd_action = act, bd_side = sd,
      bd_price = Price px 2, bd_size = Quantity sz 3, bd_sequence = sq, bd_ts_event = 7,
      bd_ts_init = 7\<rparr>"

definition sample_book :: order_book where
  "sample_book = book_apply_all
     [sample_delta BookClear Buy 0 0 5, sample_delta BookAdd Buy 100 4 5,
      sample_delta BookAdd Buy 101 2 6, sample_delta BookAdd Sell 104 3 7]
     (book_new (InstrumentId ''BTCUSDT'' ''BINANCE''))"

lemma sample_book_ok: "book_ok sample_book"
  by (simp add: sample_book_def book_ok_apply_all book_ok_new del: book_apply_all.simps)

lemma sample_book_eq: "sample_book =
  \<lparr>ob_instrument_id = InstrumentId ''BTCUSDT'' ''BINANCE'',
   ob_bids = [(100, Quantity 4 3), (101, Quantity 2 3)], ob_asks = [(104, Quantity 3 3)],
   ob_precision = 2, ob_last_sequence = 7, ob_seq_set = True, ob_ts_last = 7\<rparr>"
  by (simp add: sample_book_def book_new_def book_apply_def sample_delta_def book_action_apply_def
      book_side_mut_def Let_def max_def)

theorem book_refines_levels_witness:
  "book_ok (snd (book_apply (sample_delta BookUpdate Buy 101 0 8) sample_book)) \<and>
   abs_book (snd (book_apply (sample_delta BookUpdate Buy 101 0 8) sample_book)) Buy 101 = None \<and>
   snd (book_apply (sample_delta BookUpdate Buy 101 0 3) sample_book) = sample_book"
proof -
  have "\<not> book_stale (sample_delta BookUpdate Buy 101 0 8) sample_book"
    "book_stale (sample_delta BookUpdate Buy 101 0 3) sample_book"
    by (simp_all add: book_stale_def sample_delta_def sample_book_eq)
  with book_refines_levels [OF sample_book_ok] show ?thesis
    by (simp add: abs_delta_def sample_delta_def)
qed

text \<open>
  A \<open>Clear\<close> delta is a snapshot boundary. Whatever two books held before, the same
  \<open>Clear\<close> followed by the same deltas leaves them with the same levels on both sides and
  the same sequence position, so a resynchronised book does not depend on its past.
\<close>

theorem book_snapshot_boundary:
  assumes "bd_action c = BookClear"
  shows "abs_book (book_apply_all (c # ds) a) = abs_book (book_apply_all (c # ds) b) \<and>
    ob_last_sequence (book_apply_all (c # ds) a) = ob_last_sequence (book_apply_all (c # ds) b)"
  using book_alike_apply_all [OF book_alike_clear [OF assms, of a b], of ds]
  by (simp add: book_alike_def abs_book_def fun_eq_iff)

theorem book_snapshot_boundary_witness:
  "abs_book (book_apply_all [sample_delta BookClear Buy 0 0 2, sample_delta BookAdd Buy 90 1 3]
     sample_book) Buy 101 = None"
  using book_snapshot_boundary [of "sample_delta BookClear Buy 0 0 2"
      "[sample_delta BookAdd Buy 90 1 3]" sample_book "book_new (InstrumentId ''A'' ''B'')"]
  by (simp add: sample_delta_def book_new_def book_apply_def book_action_apply_def
      book_side_mut_def Let_def abs_book_def book_side_def)

text \<open>
  The best bid is the highest bid level and the best ask the lowest ask level, with the size
  resting there; a side answers \<open>None\<close> exactly when it has no level.
\<close>

theorem book_top_extremal:
  assumes "book_ok b" "ob_precision b \<le> MAX_PRECISION" "\<forall>s. \<forall>r \<in> dom (abs_book b s). 0 \<le> r"
  shows "(case best_bid b of
      None \<Rightarrow> abs_book b Buy = Map.empty
    | Some (p, q) \<Rightarrow> abs_book b Buy (p_raw p) = Some q \<and> (\<forall>r \<in> dom (abs_book b Buy). r \<le> p_raw p)) \<and>
    (case best_ask b of
      None \<Rightarrow> abs_book b Sell = Map.empty
    | Some (p, q) \<Rightarrow> abs_book b Sell (p_raw p) = Some q \<and> (\<forall>r \<in> dom (abs_book b Sell). p_raw p \<le> r))"
proof -
  have raw: "p_raw (book_price b r) = r" if "abs_book b s r = Some q" for s r q
    using assms(2,3) that by (subst book_price_raw) (auto simp: domI)
  have "abs_book b Buy (p_raw p) = Some q \<and> (\<forall>r \<in> dom (abs_book b Buy). r \<le> p_raw p)"
    if "best_bid b = Some (p, q)" for p q
    using best_bid_Some [OF assms(1) that] raw by auto
  moreover have "abs_book b Sell (p_raw p) = Some q \<and> (\<forall>r \<in> dom (abs_book b Sell). p_raw p \<le> r)"
    if "best_ask b = Some (p, q)" for p q
    using best_ask_Some [OF assms(1) that] raw by auto
  ultimately show ?thesis
    using best_bid_None [of b] best_ask_None [of b] by (simp split: option.splits prod.splits)
qed

lemma sample_book_levels:
  "\<forall>s. \<forall>r \<in> dom (abs_book sample_book s). 0 \<le> r"
  by (auto simp: sample_book_eq abs_book_def book_side_def split: order_side.splits if_splits)

theorem book_top_extremal_witness:
  "best_bid sample_book = Some (Price 101 2, Quantity 2 3) \<and>
   abs_book sample_book Buy 101 = Some (Quantity 2 3)"
proof -
  have best: "best_bid sample_book = Some (Price 101 2, Quantity 2 3)"
    by (simp add: sample_book_eq best_bid_def book_price_def price_from_raw_def
        check_precision_def MAX_PRECISION_def)
  moreover have "ob_precision sample_book \<le> MAX_PRECISION"
    by (simp add: sample_book_eq MAX_PRECISION_def)
  ultimately show ?thesis
    using book_top_extremal [OF sample_book_ok _ sample_book_levels] by simp
qed

end
