(* ===== verification/Order.thy ===== *)
theory Order
  imports Domain
begin

text \<open>
  \<open>foundation/crates/coinext-model/src/order.rs\<close>: the event-sourced \<open>Order\<close>. The
  transition table of the module is the inductive relation \<open>fsm\<close>; the code's guards are
  proved to implement it, failed events to leave the order untouched, and the recorded events
  to rebuild the order they came from.
\<close>

section \<open>Data\<close>

text \<open>
  A formatted reason is its template with the arguments it prints; plain texts have no arguments.
\<close>

datatype reason_arg = RQty quantity | RPrice price | RDec decimal | RStr string

datatype reason = Reason string "reason_arg list"

record order_flags =
  fl_post_only :: bool
  fl_reduce_only :: bool
  fl_display_qty :: "quantity option"

definition flags_default :: order_flags where
  "flags_default = \<lparr>fl_post_only = False, fl_reduce_only = False, fl_display_qty = None\<rparr>"

datatype order_event =
    EvInitialized client_order_id instrument_id order_side order_type quantity
      "price option" "price option" time_in_force order_flags unix_nanos
  | EvSubmitted unix_nanos
  | EvAccepted venue_order_id unix_nanos
  | EvPendingUpdate unix_nanos
  | EvUpdated "quantity option" "price option" unix_nanos
  | EvPendingCancel unix_nanos
  | EvPartiallyFilled fill
  | EvFilled fill
  | EvDenied reason unix_nanos
  | EvRejected reason unix_nanos
  | EvCanceled unix_nanos
  | EvExpired unix_nanos

record order =
  o_strategy_id :: strategy_id
  o_client_order_id :: client_order_id
  o_venue_order_id :: "venue_order_id option"
  o_instrument_id :: instrument_id
  o_side :: order_side
  o_order_type :: order_type
  o_quantity :: quantity
  o_price :: "price option"
  o_trigger :: "price option"
  o_tif :: time_in_force
  o_flags :: order_flags
  o_status :: order_status
  o_filled_qty :: quantity
  o_avg_px :: "price option"
  o_ts_init :: unix_nanos
  o_ts_last :: unix_nanos
  o_events :: "order_event list"

definition order_new ::
  "strategy_id \<Rightarrow> client_order_id \<Rightarrow> instrument_id \<Rightarrow> order_side \<Rightarrow> order_type \<Rightarrow> quantity \<Rightarrow>
   price option \<Rightarrow> price option \<Rightarrow> time_in_force \<Rightarrow> order_flags \<Rightarrow> unix_nanos \<Rightarrow> order" where
  "order_new strat coid iid side otype qty px trig tif flags ts =
     \<lparr>o_strategy_id = strat, o_client_order_id = coid, o_venue_order_id = None,
      o_instrument_id = iid, o_side = side, o_order_type = otype, o_quantity = qty,
      o_price = px, o_trigger = trig, o_tif = tif, o_flags = flags, o_status = Initialized,
      o_filled_qty = qty_zero (q_prec qty), o_avg_px = None, o_ts_init = ts, o_ts_last = ts,
      o_events = [EvInitialized coid iid side otype qty px trig tif flags ts]\<rparr>"

definition leaves_qty :: "order \<Rightarrow> quantity" where
  "leaves_qty o' = unwrap_or (qty_checked_sub (o_quantity o') (o_filled_qty o'))
                            (qty_zero (q_prec (o_quantity o')))"

definition order_is_terminal :: "order \<Rightarrow> bool" where
  "order_is_terminal o' = status_is_terminal (o_status o')"

definition order_ensure :: "order \<Rightarrow> order_status list \<Rightarrow> unit mresult" where
  "order_ensure o' allowed = (if o_status o' \<in> set allowed then Ok () else Err InvalidTransition)"

section \<open>Transitions\<close>

text \<open>
  \<open>Order::apply_fill\<close>: decimal arithmetic may panic (\<open>None\<close>), conversions may fail
  with an error; the result carries the order as it is left behind.
\<close>

definition order_avg :: "dec_ops \<Rightarrow> fill \<Rightarrow> quantity \<Rightarrow> order \<Rightarrow> decimal option" where
  "order_avg D fl new_filled o' = do {
     prev_notional \<leftarrow> (case o_avg_px o' of
         Some p \<Rightarrow> do { a \<leftarrow> price_as_decimal D p; b \<leftarrow> qty_as_decimal D (o_filled_qty o'); d_mul D a b }
       | None \<Rightarrow> Some dec_zero);
     px \<leftarrow> price_as_decimal D (f_last_px fl);
     qty \<leftarrow> qty_as_decimal D (f_last_qty fl);
     add_notional \<leftarrow> d_mul D px qty;
     total_qty \<leftarrow> qty_as_decimal D new_filled;
     if dec_is_zero total_qty then Some px
     else do { s \<leftarrow> d_add D prev_notional add_notional; d_div D s total_qty } }"

definition order_apply_fill :: "dec_ops \<Rightarrow> fill \<Rightarrow> order \<Rightarrow> (unit mresult \<times> order) option" where
  "order_apply_fill D fl o' =
     (case qty_checked_add (o_filled_qty o') (f_last_qty fl) of
        Inl e \<Rightarrow> Some (Err e, o')
      | Inr new_filled \<Rightarrow> do {
          avg \<leftarrow> order_avg D fl new_filled o';
          case price_from_decimal D avg (p_prec (f_last_px fl)) of
            Inl e \<Rightarrow> Some (Err e, o')
          | Inr p \<Rightarrow> Some (Ok (), o'\<lparr>o_avg_px := Some p, o_filled_qty := new_filled\<rparr>) })"

text \<open>A guarded status change: \<open>self.ensure(..)?\<close> followed by the assignments.\<close>

definition order_guard ::
  "order \<Rightarrow> order_status list \<Rightarrow> (order \<Rightarrow> (unit mresult \<times> order) option) \<Rightarrow> (unit mresult \<times> order) option" where
  "order_guard o' allowed f =
     (case order_ensure o' allowed of Inl e \<Rightarrow> Some (Err e, o') | Inr _ \<Rightarrow> f o')"

definition order_goto :: "order_status \<Rightarrow> unix_nanos \<Rightarrow> order \<Rightarrow> (unit mresult \<times> order) option" where
  "order_goto s ts o' = Some (Ok (), o'\<lparr>o_status := s, o_ts_last := ts\<rparr>)"

definition order_on_fill :: "dec_ops \<Rightarrow> fill \<Rightarrow> order \<Rightarrow> (unit mresult \<times> order) option" where
  "order_on_fill D fl o' = do {
     (r, o1) \<leftarrow> order_apply_fill D fl o';
     case r of
       Inl e \<Rightarrow> Some (Err e, o1)
     | Inr _ \<Rightarrow> order_goto (if qty_is_zero (leaves_qty o1) then Filled else PartiallyFilled)
                  (f_ts_event fl) o1 }"

definition order_on_updated ::
  "quantity option \<Rightarrow> price option \<Rightarrow> unix_nanos \<Rightarrow> order \<Rightarrow> (unit mresult \<times> order) option" where
  "order_on_updated q p ts o' =
     (let o1 = (case q of Some x \<Rightarrow> o'\<lparr>o_quantity := x\<rparr> | None \<Rightarrow> o');
          o2 = (case p of Some x \<Rightarrow> o1\<lparr>o_price := Some x\<rparr> | None \<Rightarrow> o1)
      in order_goto (if qty_is_positive (o_filled_qty o2) then PartiallyFilled else Accepted) ts o2)"

text \<open>The match of \<open>Order::apply\<close>, before the event is appended to the log.\<close>

fun order_transition :: "dec_ops \<Rightarrow> order_event \<Rightarrow> order \<Rightarrow> (unit mresult \<times> order) option" where
  "order_transition D (EvInitialized _ _ _ _ _ _ _ _ _ _) o' = Some (Err InvalidTransition, o')"
| "order_transition D (EvSubmitted ts) o' =
     order_guard o' [Initialized] (order_goto Submitted ts)"
| "order_transition D (EvAccepted void ts) o' =
     order_guard o' [Submitted]
       (\<lambda>o'. order_goto Accepted ts (o'\<lparr>o_venue_order_id := Some void\<rparr>))"
| "order_transition D (EvPendingUpdate ts) o' =
     order_guard o' [Accepted, PartiallyFilled] (order_goto PendingUpdate ts)"
| "order_transition D (EvUpdated q p ts) o' =
     order_guard o' [PendingUpdate] (order_on_updated q p ts)"
| "order_transition D (EvPendingCancel ts) o' =
     order_guard o' [Accepted, PartiallyFilled, PendingUpdate] (order_goto PendingCancel ts)"
| "order_transition D (EvPartiallyFilled fl) o' =
     order_guard o' [Accepted, PartiallyFilled, PendingUpdate] (order_on_fill D fl)"
| "order_transition D (EvFilled fl) o' =
     order_guard o' [Accepted, PartiallyFilled, PendingUpdate] (order_on_fill D fl)"
| "order_transition D (EvDenied _ ts) o' = order_guard o' [Initialized] (order_goto Denied ts)"
| "order_transition D (EvRejected _ ts) o' =
     order_guard o' [Submitted, PendingUpdate] (order_goto Rejected ts)"
| "order_transition D (EvCanceled ts) o' =
     order_guard o' [Accepted, PartiallyFilled, PendingCancel] (order_goto Canceled ts)"
| "order_transition D (EvExpired ts) o' =
     order_guard o' [Accepted, PartiallyFilled] (order_goto Expired ts)"

definition order_apply :: "dec_ops \<Rightarrow> order_event \<Rightarrow> order \<Rightarrow> (unit mresult \<times> order) option" where
  "order_apply D ev o' = do {
     (r, o1) \<leftarrow> order_transition D ev o';
     case r of
       Inl e \<Rightarrow> Some (Err e, o1)
     | Inr _ \<Rightarrow> Some (Ok (), o1\<lparr>o_events := o_events o1 @ [ev]\<rparr>) }"

section \<open>The transition table\<close>

text \<open>The table of the module header: event, status before, status after.\<close>

inductive fsm :: "order_status \<Rightarrow> order_event \<Rightarrow> order_status \<Rightarrow> bool" where
  submitted: "fsm Initialized (EvSubmitted ts) Submitted"
| accepted: "fsm Submitted (EvAccepted void ts) Accepted"
| pending_update: "s \<in> {Accepted, PartiallyFilled} \<Longrightarrow> fsm s (EvPendingUpdate ts) PendingUpdate"
| updated: "s \<in> {Accepted, PartiallyFilled} \<Longrightarrow> fsm PendingUpdate (EvUpdated q p ts) s"
| pending_cancel: "s \<in> {Accepted, PartiallyFilled, PendingUpdate} \<Longrightarrow>
    fsm s (EvPendingCancel ts) PendingCancel"
| partially_filled: "s \<in> {Accepted, PartiallyFilled, PendingUpdate} \<Longrightarrow>
    t \<in> {PartiallyFilled, Filled} \<Longrightarrow> fsm s (EvPartiallyFilled fl) t"
| filled: "s \<in> {Accepted, PartiallyFilled, PendingUpdate} \<Longrightarrow>
    t \<in> {PartiallyFilled, Filled} \<Longrightarrow> fsm s (EvFilled fl) t"
| canceled: "s \<in> {Accepted, PartiallyFilled, PendingCancel} \<Longrightarrow> fsm s (EvCanceled ts) Canceled"
| expired: "s \<in> {Accepted, PartiallyFilled} \<Longrightarrow> fsm s (EvExpired ts) Expired"
| rejected: "s \<in> {Submitted, PendingUpdate} \<Longrightarrow> fsm s (EvRejected rs ts) Rejected"
| denied: "fsm Initialized (EvDenied rs ts) Denied"

inductive_simps fsm_simps:
  "fsm s (EvInitialized coid iid side otype qty px trig tif flags ts) t"
  "fsm s (EvSubmitted ts) t" "fsm s (EvAccepted void ts) t" "fsm s (EvPendingUpdate ts) t"
  "fsm s (EvUpdated q p ts) t" "fsm s (EvPendingCancel ts) t" "fsm s (EvPartiallyFilled fl) t"
  "fsm s (EvFilled fl) t" "fsm s (EvDenied rs ts) t" "fsm s (EvRejected rs ts) t"
  "fsm s (EvCanceled ts) t" "fsm s (EvExpired ts) t"

text \<open>Runs of a fresh order: every event applied with success.\<close>

inductive order_reach :: "dec_ops \<Rightarrow> order \<Rightarrow> bool" for D where
  fresh: "order_reach D (order_new strat coid iid side otype qty px trig tif flags ts)"
| step: "order_reach D o1 \<Longrightarrow> order_apply D ev o1 = Some (Ok (), o2) \<Longrightarrow> order_reach D o2"

text \<open>Rebuilding an order from a recorded log.\<close>

fun order_fold :: "dec_ops \<Rightarrow> order_event list \<Rightarrow> order \<Rightarrow> order mresult option" where
  "order_fold D [] o' = Some (Ok o')"
| "order_fold D (ev # evs) o' = do {
     (r, o1) \<leftarrow> order_apply D ev o';
     case r of Inl e \<Rightarrow> Some (Err e) | Inr _ \<Rightarrow> order_fold D evs o1 }"

fun order_replay :: "dec_ops \<Rightarrow> strategy_id \<Rightarrow> order_event list \<Rightarrow> order mresult option" where
  "order_replay D strat (EvInitialized coid iid side otype qty px trig tif flags ts # evs) =
     order_fold D evs (order_new strat coid iid side otype qty px trig tif flags ts)"
| "order_replay D strat _ = Some (Err Invalid)"

section \<open>Facts about single events\<close>

lemma order_guard_Ok:
  "order_guard o1 A f = Some (Inr u, o2) \<longleftrightarrow> o_status o1 \<in> set A \<and> f o1 = Some (Inr u, o2)"
  by (simp add: order_guard_def order_ensure_def)

lemma order_guard_Err:
  "order_guard o1 A f = Some (Inl e, o2) \<longleftrightarrow>
     (if o_status o1 \<in> set A then f o1 = Some (Inl e, o2) else e = InvalidTransition \<and> o2 = o1)"
  by (auto simp: order_guard_def order_ensure_def)

lemma order_goto_eq: "order_goto s ts o1 = Some (r, o2) \<longleftrightarrow>
    r = Ok () \<and> o2 = o1\<lparr>o_status := s, o_ts_last := ts\<rparr>"
  by (auto simp: order_goto_def)

lemma order_on_updated_eq: "order_on_updated q p ts o1 = Some (r, o2) \<longleftrightarrow>
    r = Ok () \<and> o2 = o1\<lparr>o_quantity := (case q of Some x \<Rightarrow> x | None \<Rightarrow> o_quantity o1),
      o_price := (case p of Some x \<Rightarrow> Some x | None \<Rightarrow> o_price o1),
      o_status := (if qty_is_positive (o_filled_qty o1) then PartiallyFilled else Accepted),
      o_ts_last := ts\<rparr>"
  by (cases q; cases p) (auto simp: order_on_updated_def order_goto_eq Let_def)

lemma order_apply_fill_Err: "order_apply_fill D fl o1 = Some (Inl e, o2) \<Longrightarrow> o2 = o1"
  by (cases "qty_checked_add (o_filled_qty o1) (f_last_qty fl)")
    (auto simp: order_apply_fill_def bind_eq_Some case_sum_eq_iff)

lemma order_apply_fill_Ok:
  assumes "order_apply_fill D fl o1 = Some (Inr u, o2)"
  obtains n p avg where "qty_checked_add (o_filled_qty o1) (f_last_qty fl) = Ok n"
    "order_avg D fl n o1 = Some avg" "price_from_decimal D avg (p_prec (f_last_px fl)) = Ok p"
    "o2 = o1\<lparr>o_avg_px := Some p, o_filled_qty := n\<rparr>"
  using assms
  by (cases "qty_checked_add (o_filled_qty o1) (f_last_qty fl)")
    (auto simp: order_apply_fill_def bind_eq_Some case_sum_eq_iff)

lemma order_on_fill_Err: "order_on_fill D fl o1 = Some (Inl e, o2) \<Longrightarrow> o2 = o1"
  by (auto simp: order_on_fill_def bind_eq_Some order_goto_eq case_sum_eq_iff
      dest: order_apply_fill_Err)

lemma order_on_fill_Ok:
  assumes "order_on_fill D fl o1 = Some (Inr u, o2)"
  obtains n p avg where "qty_checked_add (o_filled_qty o1) (f_last_qty fl) = Ok n"
    "order_avg D fl n o1 = Some avg" "price_from_decimal D avg (p_prec (f_last_px fl)) = Ok p"
    "o2 = o1\<lparr>o_avg_px := Some p, o_filled_qty := n,
             o_status := (if qty_is_zero (leaves_qty (o1\<lparr>o_filled_qty := n\<rparr>)) then Filled
                          else PartiallyFilled),
             o_ts_last := f_ts_event fl\<rparr>"
proof -
  obtain o' where o': "order_apply_fill D fl o1 = Some (Ok (), o')"
    and o2: "o2 = o'\<lparr>o_status := (if qty_is_zero (leaves_qty o') then Filled else PartiallyFilled),
               o_ts_last := f_ts_event fl\<rparr>"
    using assms by (auto simp: order_on_fill_def bind_eq_Some order_goto_eq case_sum_eq_iff)
  from o' that show thesis
    by (rule order_apply_fill_Ok) (simp_all add: o2 leaves_qty_def)
qed

lemmas order_step_simps = order_guard_Ok order_guard_Err order_goto_eq order_on_updated_eq

lemma order_transition_Err: "order_transition D ev o1 = Some (Inl e, o2) \<Longrightarrow> o2 = o1"
  by (cases ev) (auto simp: order_step_simps dest: order_on_fill_Err split: if_split_asm)

lemma order_transition_fsm:
  "order_transition D ev o1 = Some (Inr u, o2) \<Longrightarrow> fsm (o_status o1) ev (o_status o2)"
  by (cases ev) (auto simp: order_step_simps intro: fsm.intros elim!: order_on_fill_Ok)

lemma order_transition_illegal:
  assumes "\<nexists>t. fsm (o_status o1) ev t"
  shows "order_transition D ev o1 = Some (Err InvalidTransition, o1)"
  by (cases ev) (use assms in \<open>auto simp: order_guard_Err fsm_simps\<close>)

lemma order_apply_Err: "order_apply D ev o1 = Some (Inl e, o2) \<Longrightarrow> o2 = o1"
  by (auto simp: order_apply_def bind_eq_Some case_sum_eq_iff dest: order_transition_Err)

lemma order_apply_OkE:
  assumes "order_apply D ev o1 = Some (Inr u, o2)"
  obtains o' where "order_transition D ev o1 = Some (Ok (), o')"
    "o2 = o'\<lparr>o_events := o_events o' @ [ev]\<rparr>"
  using assms by (auto simp: order_apply_def bind_eq_Some case_sum_eq_iff)

lemma order_apply_fsm:
  "order_apply D ev o1 = Some (Ok u, o2) \<Longrightarrow> fsm (o_status o1) ev (o_status o2)"
  by (erule order_apply_OkE) (auto dest: order_transition_fsm)

lemma order_apply_illegal:
  "\<nexists>t. fsm (o_status o1) ev t \<Longrightarrow> order_apply D ev o1 = Some (Err InvalidTransition, o1)"
  by (simp add: order_apply_def order_transition_illegal)

text \<open>An event other than a fill that the table allows is never refused and never panics.\<close>

definition is_fill_event :: "order_event \<Rightarrow> bool" where
  "is_fill_event ev = (case ev of EvPartiallyFilled _ \<Rightarrow> True | EvFilled _ \<Rightarrow> True | _ \<Rightarrow> False)"

lemma order_apply_legal:
  assumes "fsm (o_status o1) ev t" "\<not> is_fill_event ev"
  shows "\<exists>o2. order_apply D ev o1 = Some (Ok (), o2)"
  using assms
  by (cases rule: fsm.cases)
    (auto simp: order_apply_def order_guard_def order_ensure_def order_goto_def
      order_on_updated_def is_fill_event_def Let_def)

lemma order_events_snoc:
  "order_apply D ev o1 = Some (Ok u, o2) \<Longrightarrow> o_events o2 = o_events o1 @ [ev]"
proof (erule order_apply_OkE)
  fix o' assume "order_transition D ev o1 = Some (Ok (), o')" "o2 = o'\<lparr>o_events := o_events o' @ [ev]\<rparr>"
  moreover from this(1) have "o_events o' = o_events o1"
    by (cases ev)
      (auto simp: order_step_simps elim!: order_on_fill_Ok)
  ultimately show ?thesis by simp
qed

text \<open>The identity of an order and its side, type and flags never change.\<close>

definition order_static ::
  "order \<Rightarrow> strategy_id \<times> client_order_id \<times> instrument_id \<times> order_side \<times> order_type \<times> time_in_force \<times> price option" where
  "order_static o' = (o_strategy_id o', o_client_order_id o', o_instrument_id o', o_side o',
     o_order_type o', o_tif o', o_trigger o')"

lemma order_apply_static:
  "order_apply D ev o1 = Some (r, o2) \<Longrightarrow> order_static o2 = order_static o1"
proof (cases r)
  case (Inr u)
  assume "order_apply D ev o1 = Some (r, o2)"
  with Inr obtain o' where "order_transition D ev o1 = Some (Ok (), o')"
    "o2 = o'\<lparr>o_events := o_events o' @ [ev]\<rparr>" by (auto elim: order_apply_OkE)
  then show ?thesis
    by (cases ev)
      (auto simp: order_step_simps order_static_def elim!: order_on_fill_Ok)
qed (auto dest: order_apply_Err)

section \<open>Event sourcing\<close>

lemma order_fold_append:
  "order_fold D (xs @ ys) o1 =
     (case order_fold D xs o1 of None \<Rightarrow> None | Some (Inl e) \<Rightarrow> Some (Inl e)
      | Some (Inr o2) \<Rightarrow> order_fold D ys o2)"
  by (induction xs arbitrary: o1) (auto split: option.splits sum.splits bind_split)

lemma order_replay_reach:
  "order_reach D o1 \<Longrightarrow> \<exists>coid iid side otype qty px trig tif flags ts evs.
     o_events o1 = EvInitialized coid iid side otype qty px trig tif flags ts # evs \<and>
     order_fold D evs (order_new (o_strategy_id o1) coid iid side otype qty px trig tif flags ts) =
       Some (Ok o1)"
proof (induction rule: order_reach.induct)
  case (step o1 ev o2)
  then obtain coid iid side otype qty px trig tif flags ts evs where
    evs: "o_events o1 = EvInitialized coid iid side otype qty px trig tif flags ts # evs" and
    fold: "order_fold D evs (order_new (o_strategy_id o1) coid iid side otype qty px trig tif flags ts) =
       Some (Ok o1)" by blast
  have "o_strategy_id o2 = o_strategy_id o1"
    using order_apply_static [OF step(2)] by (simp add: order_static_def)
  with evs fold step(2) order_events_snoc [OF step(2)] show ?case
    by (simp add: order_fold_append)
qed (simp add: order_new_def)

section \<open>Quantities\<close>

definition event_fill_qty :: "order_event \<Rightarrow> quantity option" where
  "event_fill_qty ev = (case ev of EvPartiallyFilled fl \<Rightarrow> Some (f_last_qty fl)
     | EvFilled fl \<Rightarrow> Some (f_last_qty fl) | _ \<Rightarrow> None)"

definition logged_fills :: "order \<Rightarrow> quantity list" where
  "logged_fills o' = List.map_filter event_fill_qty (o_events o')"

lemma order_apply_filled:
  assumes "order_apply D ev o1 = Some (Ok u, o2)"
  shows "case event_fill_qty ev of
      None \<Rightarrow> o_filled_qty o2 = o_filled_qty o1
    | Some q \<Rightarrow> qty_checked_add (o_filled_qty o1) q = Ok (o_filled_qty o2)"
proof -
  obtain o' where "order_transition D ev o1 = Some (Ok (), o')"
    "o2 = o'\<lparr>o_events := o_events o' @ [ev]\<rparr>" using assms by (auto elim: order_apply_OkE)
  then show ?thesis
    by (cases ev)
      (auto simp: order_step_simps event_fill_qty_def elim!: order_on_fill_Ok)
qed

lemma order_filled_log:
  "order_reach D o1 \<Longrightarrow>
     q_raw (o_filled_qty o1) = sum_list (map q_raw (logged_fills o1)) \<and>
     (\<forall>q \<in> set (logged_fills o1). q_prec q = q_prec (o_filled_qty o1)) \<and>
     0 \<le> q_raw (o_filled_qty o1)"
proof (induction rule: order_reach.induct)
  case (step o1 ev o2)
  have "logged_fills o2 = logged_fills o1 @ (case event_fill_qty ev of None \<Rightarrow> [] | Some q \<Rightarrow> [q])"
    using order_events_snoc [OF step(2)]
    by (simp add: logged_fills_def map_filter_def split: option.splits)
  with step.IH order_apply_filled [OF step(2)] show ?case
    by (auto simp: qty_checked_add_Ok split: option.splits)
qed (simp add: order_new_def logged_fills_def map_filter_def event_fill_qty_def)

lemma order_status_filled:
  "order_reach D o1 \<Longrightarrow> o_status o1 = Filled \<Longrightarrow> qty_is_zero (leaves_qty o1)"
proof (induction rule: order_reach.induct)
  case (step o1 ev o2)
  obtain o' where o': "order_transition D ev o1 = Some (Ok (), o')"
    "o2 = o'\<lparr>o_events := o_events o' @ [ev]\<rparr>" using step(2) by (auto elim: order_apply_OkE)
  with step(4) have "qty_is_zero (leaves_qty o')"
    by (cases ev)
      (auto simp: order_step_simps leaves_qty_def elim!: order_on_fill_Ok split: if_split_asm)
  with o' show ?case by (simp add: leaves_qty_def)
qed (simp add: order_new_def)

lemma leaves_qty_eq:
  "valid_qty (o_quantity o1) \<Longrightarrow> valid_qty (o_filled_qty o1) \<Longrightarrow>
   q_prec (o_filled_qty o1) = q_prec (o_quantity o1) \<Longrightarrow>
   leaves_qty o1 = Quantity (max (q_raw (o_quantity o1) - q_raw (o_filled_qty o1)) 0) (q_prec (o_quantity o1))"
  by (simp add: leaves_qty_def qty_checked_sub_total)

section \<open>Average price\<close>

text \<open>The volume-weighted average price of an order after one more fill.\<close>

definition vwap :: "order \<Rightarrow> fill \<Rightarrow> rat" where
  "vwap o1 fl =
     ((case o_avg_px o1 of Some p \<Rightarrow> price_val p * qty_val (o_filled_qty o1) | None \<Rightarrow> 0)
       + price_val (f_last_px fl) * qty_val (f_last_qty fl))
     / (qty_val (o_filled_qty o1) + qty_val (f_last_qty fl))"

text \<open>
  The values the averaging passes through are representable decimals, and the rounded average
  fits a price.
\<close>

definition vwap_fits :: "order \<Rightarrow> fill \<Rightarrow> bool" where
  "vwap_fits o1 fl \<longleftrightarrow>
     (case o_avg_px o1 of
        Some p \<Rightarrow> valid_price p \<and> representable (price_val p * qty_val (o_filled_qty o1)) \<and>
          representable (price_val p * qty_val (o_filled_qty o1)
            + price_val (f_last_px fl) * qty_val (f_last_qty fl))
      | None \<Rightarrow> True) \<and>
     representable (price_val (f_last_px fl) * qty_val (f_last_qty fl)) \<and>
     representable (vwap o1 fl) \<and>
     in_i64 (round_half_even (vwap o1 fl * 10 ^ p_prec (f_last_px fl)))"

lemma valid_qty_sum:
  "valid_qty a \<Longrightarrow> valid_qty b \<Longrightarrow> q_prec a = q_prec b \<Longrightarrow> in_i64 (q_raw a + q_raw b) \<Longrightarrow>
   valid_qty (Quantity (q_raw a + q_raw b) (q_prec a))"
  by (simp add: valid_qty_def)

lemma qty_val_sum:
  "q_prec a = q_prec b \<Longrightarrow> qty_val (Quantity (q_raw a + q_raw b) (q_prec a)) = qty_val a + qty_val b"
  by (simp add: qty_val_def add_divide_distrib)

lemma price_val_nonneg: "valid_price p \<Longrightarrow> 0 \<le> price_val p"
  by (simp add: valid_price_def price_val_def)

lemma vwap_nonneg:
  assumes "valid_qty (o_filled_qty o1)" "valid_qty (f_last_qty fl)" "valid_price (f_last_px fl)"
    "vwap_fits o1 fl"
  shows "0 \<le> vwap o1 fl"
  using assms
  by (auto simp: vwap_def vwap_fits_def price_val_nonneg qty_val_nonneg split: option.splits)

context decimal_lib
begin

lemma order_avg_vwap:
  assumes "valid_qty (o_filled_qty o1)" "valid_qty (f_last_qty fl)" "valid_price (f_last_px fl)"
    "valid_qty n" "qty_val n = qty_val (o_filled_qty o1) + qty_val (f_last_qty fl)" "0 < qty_val n"
    "vwap_fits o1 fl"
  obtains a where "order_avg D fl n o1 = Some a" "wf_dec a" "dval a = vwap o1 fl"
proof -
  let ?px = "\<lparr>mantissa = p_raw (f_last_px fl), scale = p_prec (f_last_px fl)\<rparr>"
  let ?q = "\<lparr>mantissa = q_raw (f_last_qty fl), scale = q_prec (f_last_qty fl)\<rparr>"
  let ?n = "\<lparr>mantissa = q_raw n, scale = q_prec n\<rparr>"
  let ?old = "case o_avg_px o1 of Some p \<Rightarrow> price_val p * qty_val (o_filled_qty o1) | None \<Rightarrow> 0"
  have wf: "wf_dec ?px" "wf_dec ?q" "wf_dec ?n" using assms by (simp_all add: wf_dec_price wf_dec_qty)
  obtain add where add: "d_mul D ?px ?q = Some add" "wf_dec add"
    "dval add = price_val (f_last_px fl) * qty_val (f_last_qty fl)"
    using mul_ok [OF wf(1,2)] assms(7) by (auto simp: vwap_fits_def)
  obtain prev where prev: "(case o_avg_px o1 of
         Some p \<Rightarrow> do { a \<leftarrow> price_as_decimal D p; b \<leftarrow> qty_as_decimal D (o_filled_qty o1); d_mul D a b }
       | None \<Rightarrow> Some dec_zero) = Some prev" "wf_dec prev" "dval prev = ?old"
  proof (cases "o_avg_px o1")
    case (Some p)
    then have p: "valid_price p" "representable (price_val p * qty_val (o_filled_qty o1))"
      using assms(7) by (auto simp: vwap_fits_def)
    show ?thesis
      using mul_ok [OF wf_dec_price [OF p(1)] wf_dec_qty [OF assms(1)]] p assms(1) Some that by auto
  qed (use that in simp)
  have rep: "representable (dval prev + dval add)"
    using assms(7) prev(3) add(3) by (auto simp: vwap_fits_def split: option.splits)
  obtain s where s: "d_add D prev add = Some s" "wf_dec s" "dval s = dval prev + dval add"
    using add_ok [OF prev(2) add(2) rep] .
  have v: "dval s / dval ?n = vwap o1 fl"
    using s(3) prev(3) add(3) assms(5) by (simp add: vwap_def)
  have nz: "dval ?n \<noteq> 0" using assms(6) by (auto simp: qty_val_def)
  obtain a where a: "d_div D s ?n = Some a" "wf_dec a" "dval a = vwap o1 fl"
    using div_ok [OF s(2) wf(3) nz] v assms(7) by (auto simp: vwap_fits_def)
  have "order_avg D fl n o1 = Some a"
    unfolding order_avg_def prev(1)
    using assms(2-4) add(1) s(1) a(1) nz by (simp add: dec_is_zero_iff)
  with a that show thesis by blast
qed

lemma order_apply_fill_vwap:
  assumes "valid_qty (o_filled_qty o1)" "valid_qty (f_last_qty fl)" "valid_price (f_last_px fl)"
    "q_prec (f_last_qty fl) = q_prec (o_filled_qty o1)" "qty_is_positive (f_last_qty fl)"
    "in_i64 (q_raw (o_filled_qty o1) + q_raw (f_last_qty fl))" "vwap_fits o1 fl"
  shows "order_apply_fill D fl o1 = Some (Ok (), o1\<lparr>
    o_avg_px := Some (Price (round_half_even (vwap o1 fl * 10 ^ p_prec (f_last_px fl))) (p_prec (f_last_px fl))),
    o_filled_qty := Quantity (q_raw (o_filled_qty o1) + q_raw (f_last_qty fl)) (q_prec (o_filled_qty o1))\<rparr>)"
proof -
  let ?n = "Quantity (q_raw (o_filled_qty o1) + q_raw (f_last_qty fl)) (q_prec (o_filled_qty o1))"
  have n: "qty_checked_add (o_filled_qty o1) (f_last_qty fl) = Ok ?n"
    using assms by (subst qty_checked_add_Ok) (auto simp: valid_qty_def)
  have vn: "valid_qty ?n" using valid_qty_sum [OF assms(1,2)] assms(4,6) by simp
  have val: "qty_val ?n = qty_val (o_filled_qty o1) + qty_val (f_last_qty fl)"
    using qty_val_sum [of "o_filled_qty o1" "f_last_qty fl"] assms(4) by simp
  have pos: "0 < qty_val ?n"
    using assms(1,5) by (simp add: qty_val_def qty_is_positive_def valid_qty_def)
  obtain a where a: "order_avg D fl ?n o1 = Some a" "wf_dec a" "dval a = vwap o1 fl"
    using order_avg_vwap [OF assms(1-3) vn val pos assms(7)] .
  have "price_from_decimal D a (p_prec (f_last_px fl)) =
      Ok (Price (round_half_even (vwap o1 fl * 10 ^ p_prec (f_last_px fl))) (p_prec (f_last_px fl)))"
    using a(2,3) assms vwap_nonneg [OF assms(1-3,7)]
    by (subst price_from_decimal_spec) (auto simp: vwap_fits_def valid_price_def)
  with n a show ?thesis by (simp add: order_apply_fill_def)
qed

end

section \<open>Properties\<close>


definition sample_order :: order where
  "sample_order = order_new ''s1'' ''s1-1'' (InstrumentId ''BTCUSDT'' ''BINANCE'') Buy Limit
     (Quantity 5 0) (Some (Price 1000 2)) None Gtc flags_default 1"

definition sample_fill :: "int \<Rightarrow> int \<Rightarrow> fill" where
  "sample_fill px q =
     \<lparr>f_trade_id = ''t1'', f_client_order_id = ''s1-1'', f_venue_order_id = ''v1'',
      f_instrument_id = InstrumentId ''BTCUSDT'' ''BINANCE'', f_side = Buy,
      f_last_px = Price px 2, f_last_qty = Quantity q 0,
      f_fee = Money 0 (Currency ''USDT'' 2), f_liquidity = Taker, f_ts_event = 3, f_ts_init = 3\<rparr>"

lemma sample_fill_sel [simp]:
  "f_last_px (sample_fill px q) = Price px 2" "f_last_qty (sample_fill px q) = Quantity q 0"
  "f_ts_event (sample_fill px q) = 3"
  by (simp_all add: sample_fill_def)

lemma sample_submit:
  "order_apply D (EvSubmitted 2) sample_order =
     Some (Ok (), sample_order\<lparr>o_status := Submitted, o_ts_last := 2,
       o_events := o_events sample_order @ [EvSubmitted 2]\<rparr>)"
  by (simp add: order_apply_def order_guard_def order_ensure_def order_goto_def sample_order_def
      order_new_def)


text \<open>
  Terminal statuses are absorbing: no event changes a denied, filled, canceled, expired or
  rejected order, and the attempt is reported as an invalid transition.
\<close>

theorem order_terminal_absorbing:
  assumes "order_is_terminal o1"
  shows "order_apply D ev o1 = Some (Err InvalidTransition, o1)"
proof (rule order_apply_illegal)
  show "\<nexists>t. fsm (o_status o1) ev t"
    using assms by (cases ev) (auto simp: order_is_terminal_def status_is_terminal_def fsm_simps)
qed

theorem order_terminal_absorbing_witness:
  "order_apply rdec (EvSubmitted 9) (sample_order\<lparr>o_status := Canceled\<rparr>) =
     Some (Err InvalidTransition, sample_order\<lparr>o_status := Canceled\<rparr>)"
  by (rule order_terminal_absorbing) (simp add: order_is_terminal_def status_is_terminal_def)

text \<open>
  An order is the fold of its events. Replaying the log recorded by any order that a sequence
  of successful events produced rebuilds exactly that order.
\<close>

theorem order_replay_rebuilds:
  assumes "order_reach D o1"
  shows "order_replay D (o_strategy_id o1) (o_events o1) = Some (Ok o1)"
  using order_replay_reach [OF assms] by auto

lemma sample_reach:
  "order_reach rdec (sample_order\<lparr>o_status := Submitted, o_ts_last := 2,
       o_events := o_events sample_order @ [EvSubmitted 2]\<rparr>)"
  using order_reach.step [OF _ sample_submit] order_reach.fresh by (metis sample_order_def)

theorem order_replay_rebuilds_witness:
  "order_replay rdec ''s1'' (o_events sample_order @ [EvSubmitted 2]) =
     Some (Ok (sample_order\<lparr>o_status := Submitted, o_ts_last := 2,
       o_events := o_events sample_order @ [EvSubmitted 2]\<rparr>))"
  using order_replay_rebuilds [OF sample_reach] by (simp add: sample_order_def order_new_def)

text \<open>
  Fill accounting. For every order a run can produce, the filled quantity is the sum of the
  quantities of the fills in its log, all at one precision; and an order is only ever
  \<open>Filled\<close> when nothing is left to fill.
\<close>

theorem order_fill_accounting:
  assumes "order_reach D o1"
  shows "q_raw (o_filled_qty o1) = sum_list (map q_raw (logged_fills o1)) \<and>
    (\<forall>q \<in> set (logged_fills o1). q_prec q = q_prec (o_filled_qty o1)) \<and>
    0 \<le> q_raw (o_filled_qty o1) \<and>
    (o_status o1 = Filled \<longrightarrow> qty_is_zero (leaves_qty o1))"
  using order_filled_log [OF assms] order_status_filled [OF assms] by simp

theorem order_fill_accounting_witness:
  "q_raw (o_filled_qty sample_order) = sum_list (map q_raw (logged_fills sample_order))"
  using order_fill_accounting [OF order_reach.fresh] by (simp add: sample_order_def)

text \<open>
  A positive fill whose arithmetic stays representable adds its quantity and makes the average
  price the exact volume-weighted average, rounded half to even at the fill price's precision.
\<close>

theorem order_fill_vwap:
  assumes "decimal_lib D"
    and "valid_qty (o_filled_qty o1)" "valid_qty (f_last_qty fl)" "valid_price (f_last_px fl)"
    and "q_prec (f_last_qty fl) = q_prec (o_filled_qty o1)" "qty_is_positive (f_last_qty fl)"
    and "in_i64 (q_raw (o_filled_qty o1) + q_raw (f_last_qty fl))" "vwap_fits o1 fl"
  shows "order_apply_fill D fl o1 = Some (Ok (), o1\<lparr>
    o_avg_px := Some (Price (round_half_even (vwap o1 fl * 10 ^ p_prec (f_last_px fl))) (p_prec (f_last_px fl))),
    o_filled_qty := Quantity (q_raw (o_filled_qty o1) + q_raw (f_last_qty fl)) (q_prec (o_filled_qty o1))\<rparr>)"
  using decimal_lib.order_apply_fill_vwap [OF assms] .

lemma sample_partial_fits:
  "vwap_fits (sample_order\<lparr>o_avg_px := Some (Price 1000 2), o_filled_qty := Quantity 1 0\<rparr>)
     (sample_fill 1003 2) \<and>
   vwap (sample_order\<lparr>o_avg_px := Some (Price 1000 2), o_filled_qty := Quantity 1 0\<rparr>)
     (sample_fill 1003 2) = 1002 / 100"
proof -
  let ?o = "sample_order\<lparr>o_avg_px := Some (Price 1000 2), o_filled_qty := Quantity 1 0\<rparr>"
  have v: "vwap ?o (sample_fill 1003 2) = of_int 1002 / 10 ^ 2"
    by (simp add: vwap_def price_val_def qty_val_def field_simps)
  have "representable (of_int 1000 / 10 ^ 2)" "representable (of_int 2006 / 10 ^ 2)"
    "representable (of_int 3006 / 10 ^ 2)" "representable (of_int 1002 / 10 ^ 2)"
    by (rule representableI; simp)+
  then show ?thesis
    unfolding vwap_fits_def v
    by (simp add: price_val_def qty_val_def valid_price_def in_i64_def
        MAX_PRECISION_def)
qed

theorem order_fill_vwap_witness:
  "\<exists>o2. order_apply_fill rdec (sample_fill 1003 2)
      (sample_order\<lparr>o_avg_px := Some (Price 1000 2), o_filled_qty := Quantity 1 0\<rparr>) = Some (Ok (), o2) \<and>
     o_avg_px o2 = Some (Price 1002 2) \<and> o_filled_qty o2 = Quantity 3 0"
  using order_fill_vwap [OF rd.decimal_lib_axioms _ _ _ _ _ _ sample_partial_fits [THEN conjunct1]]
  by (simp add: sample_partial_fits [THEN conjunct2] valid_qty_def valid_price_def in_i64_def
      MAX_PRECISION_def qty_is_positive_def)

end
