(* ===== verification/Position.thy ===== *)
theory Position
  imports Domain
begin

text \<open>
  \<open>foundation/crates/coinext-model/src/position.rs\<close>: the net position folded from fills,
  its realized and unrealized PnL, funding and notional. Every decimal operation may panic, so
  the operations live in the option type; a fallible conversion in the middle of
  \<open>apply_fill\<close> returns the position as it is left behind.
\<close>

section \<open>State and operations\<close>

record position =
  ps_position_id :: position_id
  ps_instrument_id :: instrument_id
  ps_side :: position_side
  ps_quantity :: quantity
  ps_avg_px_open :: price
  ps_realized_pnl :: money
  ps_size_precision :: nat
  ps_price_precision :: nat

definition position_flat ::
  "position_id \<Rightarrow> instrument_id \<Rightarrow> nat \<Rightarrow> nat \<Rightarrow> currency \<Rightarrow> position" where
  "position_flat pid iid price_precision size_precision settlement =
     \<lparr>ps_position_id = pid, ps_instrument_id = iid, ps_side = Flat,
      ps_quantity = qty_zero size_precision, ps_avg_px_open = price_zero price_precision,
      ps_realized_pnl = money_zero settlement, ps_size_precision = size_precision,
      ps_price_precision = price_precision\<rparr>"

definition position_signed :: "dec_ops \<Rightarrow> position \<Rightarrow> decimal option" where
  "position_signed D p =
     (case ps_side p of
        Long \<Rightarrow> qty_as_decimal D (ps_quantity p)
      | Short \<Rightarrow> map_option (d_neg D) (qty_as_decimal D (ps_quantity p))
      | Flat \<Rightarrow> Some dec_zero)"

definition pnl_per_qty ::
  "dec_ops \<Rightarrow> bool \<Rightarrow> decimal \<Rightarrow> decimal \<Rightarrow> decimal \<Rightarrow> decimal option" where
  "pnl_per_qty D is_inverse entry exit multiplier =
     (if dec_is_zero entry then Some dec_zero
      else if is_inverse then do {
        a \<leftarrow> d_div D dec_one entry;
        b \<leftarrow> d_div D dec_one exit;
        c \<leftarrow> d_sub D a b;
        d_mul D multiplier c }
      else do { c \<leftarrow> d_sub D exit entry; d_mul D multiplier c })"

text \<open>The average entry price when a fill adds to a position in the same direction.\<close>

definition increase_avg ::
  "dec_ops \<Rightarrow> decimal \<Rightarrow> decimal \<Rightarrow> decimal \<Rightarrow> decimal \<Rightarrow> decimal option" where
  "increase_avg D avg_open cur_abs fill_px fill_qty = do {
     denom \<leftarrow> d_add D cur_abs fill_qty;
     if dec_is_zero denom then Some fill_px
     else do {
       a \<leftarrow> d_mul D avg_open cur_abs;
       b \<leftarrow> d_mul D fill_px fill_qty;
       s \<leftarrow> d_add D a b;
       d_div D s denom } }"

text \<open>
  The three-way branch of \<open>apply_fill\<close>: the PnL realized by the fill before fees, and the
  new average entry price.
\<close>

definition fill_effect ::
  "dec_ops \<Rightarrow> bool \<Rightarrow> decimal \<Rightarrow> decimal \<Rightarrow> decimal \<Rightarrow> decimal \<Rightarrow> decimal \<Rightarrow> decimal \<Rightarrow>
   (decimal \<times> decimal) option" where
  "fill_effect D is_inverse multiplier avg_open cur_signed fill_signed fill_px fill_qty =
     (if dec_is_zero cur_signed then Some (dec_zero, fill_px)
      else if d_lt D dec_zero cur_signed \<longleftrightarrow> d_lt D dec_zero fill_signed then do {
        a \<leftarrow> increase_avg D avg_open (d_abs D cur_signed) fill_px fill_qty;
        Some (dec_zero, a) }
      else do {
        let cur_abs = d_abs D cur_signed;
        let reduce = d_min D cur_abs fill_qty;
        let dir = (if d_lt D dec_zero cur_signed then dec_one else d_neg D dec_one);
        a \<leftarrow> d_mul D dir reduce;
        b \<leftarrow> pnl_per_qty D is_inverse avg_open fill_px multiplier;
        c \<leftarrow> d_mul D a b;
        r \<leftarrow> d_add D dec_zero c;
        Some (r, if d_lt D cur_abs fill_qty then fill_px else avg_open) })"

text \<open>Crediting the realized amount: a zero amount is skipped, a failed conversion is an error.\<close>

definition credit_realized ::
  "dec_ops \<Rightarrow> decimal \<Rightarrow> currency \<Rightarrow> position \<Rightarrow> position mresult" where
  "credit_realized D realized settle p =
     (if dec_is_zero realized then Ok p
      else result_bind (money_from_decimal D realized settle) (\<lambda>add.
           result_bind (money_checked_add (ps_realized_pnl p) add) (\<lambda>m.
           Ok (p\<lparr>ps_realized_pnl := m\<rparr>))))"

definition side_of :: "dec_ops \<Rightarrow> decimal \<Rightarrow> position_side" where
  "side_of D s = (if dec_is_zero s then Flat else if d_lt D dec_zero s then Long else Short)"

text \<open>The assignments of side, quantity and average, each in source order.\<close>

definition resize ::
  "dec_ops \<Rightarrow> decimal \<Rightarrow> decimal \<Rightarrow> position \<Rightarrow> unit mresult \<times> position" where
  "resize D new_signed new_avg p =
     (let p1 = p\<lparr>ps_side := side_of D new_signed\<rparr>
      in case qty_from_decimal D (d_abs D new_signed) (ps_size_precision p) of
           Inl e \<Rightarrow> (Err e, p1)
         | Inr q \<Rightarrow>
             (let p2 = p1\<lparr>ps_quantity := q\<rparr>
              in if ps_side p2 = Flat
                 then (Ok (), p2\<lparr>ps_avg_px_open := price_zero (ps_price_precision p)\<rparr>)
                 else case price_from_decimal D new_avg (ps_price_precision p) of
                        Inl e \<Rightarrow> (Err e, p2)
                      | Inr a \<Rightarrow> (Ok (), p2\<lparr>ps_avg_px_open := a\<rparr>)))"

definition position_apply_fill ::
  "dec_ops \<Rightarrow> fill \<Rightarrow> instrument \<Rightarrow> position \<Rightarrow> (unit mresult \<times> position) option" where
  "position_apply_fill D f inst p = do {
     let settle = inst_settlement_currency inst;
     multiplier \<leftarrow> qty_as_decimal D (inst_multiplier inst);
     fill_px \<leftarrow> price_as_decimal D (f_last_px f);
     fill_qty \<leftarrow> qty_as_decimal D (f_last_qty f);
     fill_signed \<leftarrow> d_mul D (dec_int (side_sign (f_side f))) fill_qty;
     cur_signed \<leftarrow> position_signed D p;
     new_signed \<leftarrow> d_add D cur_signed fill_signed;
     avg_open \<leftarrow> price_as_decimal D (ps_avg_px_open p);
     (realized, new_avg) \<leftarrow>
       fill_effect D (inst_is_inverse inst) multiplier avg_open cur_signed fill_signed fill_px fill_qty;
     realized' \<leftarrow> (if m_ccy (f_fee f) = settle
                   then do { fee \<leftarrow> money_amount D (f_fee f); d_sub D realized fee }
                   else Some realized);
     case credit_realized D realized' settle p of
       Inl e \<Rightarrow> Some (Err e, p)
     | Inr p1 \<Rightarrow> Some (resize D new_signed new_avg p1) }"

definition apply_funding ::
  "dec_ops \<Rightarrow> decimal \<Rightarrow> price \<Rightarrow> instrument \<Rightarrow> position \<Rightarrow> (unit mresult \<times> position) option" where
  "apply_funding D rate mark inst p =
     (if ps_side p = Flat then Some (Ok (), p)
      else do {
        multiplier \<leftarrow> qty_as_decimal D (inst_multiplier inst);
        mark_d \<leftarrow> price_as_decimal D mark;
        notional \<leftarrow> (if inst_is_inverse inst
           then if dec_is_zero mark_d then Some dec_zero
                else do { s \<leftarrow> position_signed D p; a \<leftarrow> d_mul D s multiplier; d_div D a mark_d }
           else do { s \<leftarrow> position_signed D p; a \<leftarrow> d_mul D s mark_d; d_mul D a multiplier });
        x \<leftarrow> d_mul D notional rate;
        case result_bind (money_from_decimal D (d_neg D x) (inst_settlement_currency inst))
               (money_checked_add (ps_realized_pnl p)) of
          Inl e \<Rightarrow> Some (Err e, p)
        | Inr m \<Rightarrow> Some (Ok (), p\<lparr>ps_realized_pnl := m\<rparr>) })"

definition unrealized_pnl :: "dec_ops \<Rightarrow> price \<Rightarrow> instrument \<Rightarrow> position \<Rightarrow> money option" where
  "unrealized_pnl D mark inst p =
     (let settle = inst_settlement_currency inst
      in if ps_side p = Flat then Some (money_zero settle)
         else do {
           multiplier \<leftarrow> qty_as_decimal D (inst_multiplier inst);
           let dir = (if ps_side p = Long then dec_one else d_neg D dec_one);
           entry \<leftarrow> price_as_decimal D (ps_avg_px_open p);
           exit \<leftarrow> price_as_decimal D mark;
           per \<leftarrow> pnl_per_qty D (inst_is_inverse inst) entry exit multiplier;
           qty \<leftarrow> qty_as_decimal D (ps_quantity p);
           a \<leftarrow> d_mul D dir qty;
           pnl \<leftarrow> d_mul D a per;
           Some (unwrap_or (money_from_decimal D pnl settle) (money_zero settle)) })"

definition position_notional :: "dec_ops \<Rightarrow> price \<Rightarrow> instrument \<Rightarrow> position \<Rightarrow> money option" where
  "position_notional D mark inst p = do {
     let settle = inst_settlement_currency inst;
     multiplier \<leftarrow> qty_as_decimal D (inst_multiplier inst);
     qty \<leftarrow> qty_as_decimal D (ps_quantity p);
     mark_d \<leftarrow> price_as_decimal D mark;
     v \<leftarrow> (if inst_is_inverse inst
           then if dec_is_zero mark_d then Some dec_zero
                else do { a \<leftarrow> d_mul D qty multiplier; d_div D a mark_d }
           else do { a \<leftarrow> d_mul D qty mark_d; d_mul D a multiplier });
     Some (unwrap_or (money_from_decimal D v settle) (money_zero settle)) }"

section \<open>Signed size\<close>

definition signed_raw :: "position \<Rightarrow> int" where
  "signed_raw p = (case ps_side p of Long \<Rightarrow> q_raw (ps_quantity p) | Short \<Rightarrow> - q_raw (ps_quantity p)
     | Flat \<Rightarrow> 0)"

definition position_ok :: "position \<Rightarrow> bool" where
  "position_ok p \<longleftrightarrow> valid_qty (ps_quantity p) \<and> q_prec (ps_quantity p) = ps_size_precision p \<and>
     valid_price (ps_avg_px_open p) \<and> p_prec (ps_avg_px_open p) = ps_price_precision p \<and>
     (ps_side p = Flat \<longleftrightarrow> q_raw (ps_quantity p) = 0)"

lemma position_flat_ok:
  "pp \<le> MAX_PRECISION \<Longrightarrow> sp \<le> MAX_PRECISION \<Longrightarrow> position_ok (position_flat pid iid pp sp c)"
  by (simp add: position_ok_def position_flat_def)

lemma signed_raw_flat [simp]: "signed_raw (position_flat pid iid pp sp c) = 0"
  by (simp add: signed_raw_def position_flat_def)

lemma signed_raw_bound: "position_ok p \<Longrightarrow> \<bar>signed_raw p\<bar> < 2 ^ 63"
  by (auto simp: position_ok_def signed_raw_def valid_qty_def in_i64_def split: position_side.splits)

lemma signed_raw_zero_iff: "position_ok p \<Longrightarrow> signed_raw p = 0 \<longleftrightarrow> ps_side p = Flat"
  by (auto simp: position_ok_def signed_raw_def split: position_side.splits)

lemma signed_raw_abs:
  "position_ok p \<Longrightarrow> of_int \<bar>signed_raw p\<bar> / 10 ^ ps_size_precision p = qty_val (ps_quantity p)"
  by (auto simp: position_ok_def signed_raw_def qty_val_def valid_qty_def split: position_side.splits)

lemma credit_realized_Ok:
  "credit_realized D r c p = Ok p' \<Longrightarrow> \<exists>m. p' = p\<lparr>ps_realized_pnl := m\<rparr>"
  by (auto simp: credit_realized_def result_bind_Inr split: if_split_asm
      intro: exI [of _ "ps_realized_pnl p"])

lemma position_apply_fill_Ok:
  assumes "position_apply_fill D f inst p = Some (Inr u, p')"
  obtains multiplier fill_px fill_qty fill_signed cur_signed new_signed avg_open realized new_avg realized' m
  where "qty_as_decimal D (inst_multiplier inst) = Some multiplier"
    "price_as_decimal D (f_last_px f) = Some fill_px" "qty_as_decimal D (f_last_qty f) = Some fill_qty"
    "d_mul D (dec_int (side_sign (f_side f))) fill_qty = Some fill_signed"
    "position_signed D p = Some cur_signed" "d_add D cur_signed fill_signed = Some new_signed"
    "price_as_decimal D (ps_avg_px_open p) = Some avg_open"
    "fill_effect D (inst_is_inverse inst) multiplier avg_open cur_signed fill_signed fill_px fill_qty =
       Some (realized, new_avg)"
    "(if m_ccy (f_fee f) = inst_settlement_currency inst
      then do { fee \<leftarrow> money_amount D (f_fee f); d_sub D realized fee } else Some realized) = Some realized'"
    "credit_realized D realized' (inst_settlement_currency inst) p = Ok (p\<lparr>ps_realized_pnl := m\<rparr>)"
    "resize D new_signed new_avg (p\<lparr>ps_realized_pnl := m\<rparr>) = (Ok (), p')"
proof -
  let ?settle = "inst_settlement_currency inst"
  from assms obtain multiplier fill_px fill_qty fill_signed cur_signed new_signed avg_open
      realized new_avg realized' p1
    where r: "qty_as_decimal D (inst_multiplier inst) = Some multiplier"
      "price_as_decimal D (f_last_px f) = Some fill_px" "qty_as_decimal D (f_last_qty f) = Some fill_qty"
      "d_mul D (dec_int (side_sign (f_side f))) fill_qty = Some fill_signed"
      "position_signed D p = Some cur_signed" "d_add D cur_signed fill_signed = Some new_signed"
      "price_as_decimal D (ps_avg_px_open p) = Some avg_open"
      "fill_effect D (inst_is_inverse inst) multiplier avg_open cur_signed fill_signed fill_px fill_qty =
         Some (realized, new_avg)"
      "(if m_ccy (f_fee f) = ?settle
        then do { fee \<leftarrow> money_amount D (f_fee f); d_sub D realized fee } else Some realized) = Some realized'"
    and cr: "credit_realized D realized' ?settle p = Ok p1"
    and rs: "resize D new_signed new_avg p1 = (Ok (), p')"
    unfolding position_apply_fill_def Let_def
    by (auto simp: bind_eq_Some case_sum_eq_iff)
  obtain m where "p1 = p\<lparr>ps_realized_pnl := m\<rparr>" using credit_realized_Ok [OF cr] ..
  with cr rs r that show thesis by blast
qed

context decimal_lib
begin

lemma position_signed_val:
  assumes "position_ok p"
  obtains d where "position_signed D p = Some d" "wf_dec d"
    "dval d = of_int (signed_raw p) / 10 ^ ps_size_precision p"
proof (cases "ps_side p")
  case Long
  then show thesis
    using assms that [OF _ wf_dec_qty [of "ps_quantity p"]]
    by (simp add: position_signed_def signed_raw_def position_ok_def qty_val_def del: dval_qty)
      (simp add: dval_def)
next
  case Short
  then show thesis
    using assms that [of "d_neg D \<lparr>mantissa = q_raw (ps_quantity p), scale = q_prec (ps_quantity p)\<rparr>"]
      wf_dec_qty [of "ps_quantity p"]
    by (simp add: position_signed_def signed_raw_def position_ok_def del: dval_qty)
      (simp add: dval_def)
next
  case Flat
  then show thesis
    using that [of dec_zero] by (auto simp: position_signed_def signed_raw_def)
qed

lemma fill_signed_val:
  assumes "valid_qty q"
  obtains d where "d_mul D (dec_int (side_sign sd)) \<lparr>mantissa = q_raw q, scale = q_prec q\<rparr> = Some d"
    "wf_dec d" "dval d = of_int (side_sign sd * q_raw q) / 10 ^ q_prec q"
proof -
  let ?m = "side_sign sd * q_raw q"
  have sd: "\<bar>side_sign sd\<bar> < 2 ^ 96" by (cases sd) simp_all
  have m: "\<bar>?m\<bar> < 2 ^ 96" using assms by (cases sd) (auto simp: valid_qty_def in_i64_def)
  have val: "dval (dec_int (side_sign sd)) * dval \<lparr>mantissa = q_raw q, scale = q_prec q\<rparr> =
      of_int ?m / 10 ^ q_prec q"
    by (simp add: qty_val_def)
  have rep: "representable (of_int ?m / 10 ^ q_prec q)"
    using m assms by (intro representableI) (auto simp: valid_qty_def MAX_PRECISION_def)
  show thesis
    using mul_ok [OF wf_dec_int [OF sd] wf_dec_qty [OF assms]] val rep that by metis
qed

lemma signed_sum_val:
  assumes "wf_dec a" "wf_dec b" "dval a = of_int m / 10 ^ s" "dval b = of_int n / 10 ^ s"
    "\<bar>m\<bar> < 2 ^ 63" "\<bar>n\<bar> < 2 ^ 63" "s \<le> MAX_PRECISION"
  obtains d where "d_add D a b = Some d" "wf_dec d" "dval d = of_int (m + n) / 10 ^ s"
proof -
  have sum: "dval a + dval b = of_int (m + n) / 10 ^ s"
    using assms by (simp add: add_divide_distrib)
  have rep: "representable (of_int (m + n) / 10 ^ s)"
    using assms by (intro representableI) (auto simp: MAX_PRECISION_def)
  show thesis using add_ok [OF assms(1,2)] sum rep that by metis
qed

lemma side_of_val: "dval d = of_int m / 10 ^ s \<Longrightarrow>
  side_of D d = (if m = 0 then Flat else if 0 < m then Long else Short)"
  by (auto simp: side_of_def dec_is_zero_iff lt_iff zero_less_divide_iff)

lemma qty_from_decimal_exact:
  assumes "wf_dec d" "dval d = of_int m / 10 ^ s" "qty_from_decimal D d s = Ok q"
  shows "q = Quantity m s"
proof -
  from assms(3) obtain k where "quantize D d s = Ok k" "q = Quantity k s"
    by (auto simp: qty_from_decimal_def result_bind_Inr i64_try_from_def qty_from_raw_Ok
        split: if_split_asm)
  moreover from this(1) have "k = m"
    using quantize_spec [OF assms(1)] assms(2) by (simp split: if_split_asm)
  ultimately show ?thesis by simp
qed

lemma resize_Ok:
  assumes "resize D n a p = (Inr u, p')" "wf_dec n" "dval n = of_int m / 10 ^ ps_size_precision p"
    "ps_price_precision p \<le> MAX_PRECISION"
  shows "position_ok p' \<and> signed_raw p' = m \<and> ps_realized_pnl p' = ps_realized_pnl p"
proof -
  let ?s = "ps_size_precision p"
  have val: "dval (d_abs D n) = of_int \<bar>m\<bar> / 10 ^ ?s" using assms(3) by (simp add: abs_divide)
  obtain q where q: "qty_from_decimal D (d_abs D n) ?s = Ok q"
    using assms(1) by (auto simp: resize_def Let_def case_sum_eq_iff)
  have qv: "valid_qty q" "q = Quantity \<bar>m\<bar> ?s"
    using qty_from_decimal_valid [OF q] qty_from_decimal_exact [OF _ val q] assms(2) by auto
  show ?thesis
  proof (cases "m = 0")
    case True
    then have "p' = p\<lparr>ps_side := Flat, ps_quantity := q, ps_avg_px_open := price_zero (ps_price_precision p)\<rparr>"
      using assms(1) q side_of_val [OF assms(3)] by (auto simp: resize_def Let_def)
    then show ?thesis using True qv assms(4) by (simp add: position_ok_def signed_raw_def)
  next
    case False
    then have nf: "side_of D n \<noteq> Flat" using side_of_val [OF assms(3)] by simp
    obtain b where b: "price_from_decimal D a (ps_price_precision p) = Ok b"
      "p' = p\<lparr>ps_side := side_of D n, ps_quantity := q, ps_avg_px_open := b\<rparr>"
      using assms(1) q nf by (auto simp: resize_def Let_def case_sum_eq_iff split: if_split_asm)
    then show ?thesis
      using False qv nf side_of_val [OF assms(3)] price_from_decimal_valid [OF b(1)]
      by (auto simp: position_ok_def signed_raw_def)
  qed
qed

lemma apply_fill_size:
  assumes "position_ok p" "valid_qty (f_last_qty f)" "q_prec (f_last_qty f) = ps_size_precision p"
    "position_apply_fill D f inst p = Some (Inr u, p')"
  shows "position_ok p' \<and>
    signed_raw p' = signed_raw p + side_sign (f_side f) * q_raw (f_last_qty f)"
proof -
  let ?q = "f_last_qty f" and ?m = "side_sign (f_side f) * q_raw (f_last_qty f)"
  obtain fs cs ns na m where
    fs: "d_mul D (dec_int (side_sign (f_side f))) \<lparr>mantissa = q_raw ?q, scale = q_prec ?q\<rparr> = Some fs" and
    cs: "position_signed D p = Some cs" and ns: "d_add D cs fs = Some ns" and
    res: "resize D ns na (p\<lparr>ps_realized_pnl := m\<rparr>) = (Ok (), p')"
    using position_apply_fill_Ok [OF assms(4)] assms(2) by (metis as_decimal_qty option.inject)
  have fsv: "wf_dec fs" "dval fs = of_int ?m / 10 ^ ps_size_precision p"
    using fill_signed_val [OF assms(2), of "f_side f"] fs assms(3) by auto
  have csv: "wf_dec cs" "dval cs = of_int (signed_raw p) / 10 ^ ps_size_precision p"
    using position_signed_val [OF assms(1)] cs by auto
  have mb: "\<bar>?m\<bar> < 2 ^ 63"
    using assms(2) by (cases "f_side f") (auto simp: valid_qty_def in_i64_def)
  have sp: "ps_size_precision p \<le> MAX_PRECISION" "ps_price_precision p \<le> MAX_PRECISION"
    using assms(1) by (auto simp: position_ok_def valid_qty_def valid_price_def)
  have "wf_dec ns" "dval ns = of_int (signed_raw p + ?m) / 10 ^ ps_size_precision p"
    using signed_sum_val [OF csv(1) fsv(1) csv(2) fsv(2) signed_raw_bound [OF assms(1)] mb sp(1)] ns
    by auto
  then show ?thesis using resize_Ok [OF res, of "signed_raw p + ?m"] sp by simp
qed

end

section \<open>Realized PnL\<close>

text \<open>
  The exact PnL a fill realizes on a linear instrument when it reduces, closes or flips the
  position: direction times the reduced size times the price difference, less the fee when it is
  paid in the settlement currency.
\<close>

definition reduced_pnl :: "instrument \<Rightarrow> fill \<Rightarrow> position \<Rightarrow> rat" where
  "reduced_pnl inst f p =
     of_int (sgn (signed_raw p)) * min (qty_val (ps_quantity p)) (qty_val (f_last_qty f)) *
     (qty_val (inst_multiplier inst) * (price_val (f_last_px f) - price_val (ps_avg_px_open p)))"

definition fee_val :: "instrument \<Rightarrow> fill \<Rightarrow> rat" where
  "fee_val inst f = (if m_ccy (f_fee f) = inst_settlement_currency inst then money_val (f_fee f) else 0)"

definition pnl_fits :: "instrument \<Rightarrow> fill \<Rightarrow> position \<Rightarrow> bool" where
  "pnl_fits inst f p \<longleftrightarrow>
     representable (price_val (f_last_px f) - price_val (ps_avg_px_open p)) \<and>
     representable (qty_val (inst_multiplier inst) *
       (price_val (f_last_px f) - price_val (ps_avg_px_open p))) \<and>
     representable (reduced_pnl inst f p) \<and>
     representable (reduced_pnl inst f p - fee_val inst f) \<and>
     valid_money (f_fee f) \<and> \<bar>m_amount (f_fee f)\<bar> < 2 ^ 96"

lemma side_sign_cases: "side_sign sd = 1 \<or> side_sign sd = - 1"
  by (cases sd) simp_all

context decimal_lib
begin

lemma pnl_linear:
  assumes "wf_dec e" "wf_dec x" "wf_dec m" "dval e \<noteq> 0" "representable (dval x - dval e)"
    "representable (dval m * (dval x - dval e))"
  obtains r where "pnl_per_qty D False e x m = Some r" "wf_dec r" "dval r = dval m * (dval x - dval e)"
proof -
  obtain c where c: "d_sub D x e = Some c" "wf_dec c" "dval c = dval x - dval e"
    using sub_ok [OF assms(2,1,5)] .
  obtain r where r: "d_mul D m c = Some r" "wf_dec r" "dval r = dval m * (dval x - dval e)"
    using mul_ok [OF assms(3) c(2)] c(3) assms(6) by metis
  show thesis using that [of r] c(1) r assms(4) by (simp add: pnl_per_qty_def dec_is_zero_iff)
qed

lemma dir_reduce:
  assumes "wf_dec a" "wf_dec b"
  obtains r where "d_mul D (if d_lt D dec_zero cs then dec_one else d_neg D dec_one) (d_min D a b) = Some r"
    "wf_dec r" "dval r = (if 0 < dval cs then 1 else - 1) * min (dval a) (dval b)"
proof -
  let ?dir = "if d_lt D dec_zero cs then dec_one else d_neg D dec_one" and ?m = "d_min D a b"
  have wf: "wf_dec ?dir" "wf_dec ?m" using assms by (simp_all add: wf_min)
  have val: "dval ?dir * dval ?m = (if 0 < dval cs then 1 else - 1) * min (dval a) (dval b)"
    by (simp add: lt_iff)
  have "representable (dval ?dir * dval ?m)"
    using representable_dval [OF wf(2)] representable_dval [of "d_neg D ?m"] wf(2) by (simp add: lt_iff)
  then show thesis using mul_ok [OF wf] val that by metis
qed

lemma fill_effect_reduce:
  assumes "wf_dec cs" "wf_dec q" "wf_dec e" "wf_dec x" "wf_dec m"
    "dval cs \<noteq> 0" "\<not> (0 < dval cs \<longleftrightarrow> 0 < dval fs)" "dval e \<noteq> 0"
    "representable (dval x - dval e)" "representable (dval m * (dval x - dval e))"
    and R: "R = (if 0 < dval cs then 1 else - 1) * min \<bar>dval cs\<bar> (dval q) * (dval m * (dval x - dval e))"
    and rep: "representable R"
  obtains r a where "fill_effect D False m e cs fs x q = Some (r, a)" "wf_dec r" "dval r = R"
proof -
  let ?dir = "if d_lt D dec_zero cs then dec_one else d_neg D dec_one"
  have wa: "wf_dec (d_abs D cs)" using assms(1) by simp
  obtain a where a: "d_mul D ?dir (d_min D (d_abs D cs) q) = Some a" "wf_dec a"
    "dval a = (if 0 < dval cs then 1 else - 1) * min \<bar>dval cs\<bar> (dval q)"
    using dir_reduce [OF wa assms(2), of cs] by (metis dval_abs)
  obtain b where b: "pnl_per_qty D False e x m = Some b" "wf_dec b" "dval b = dval m * (dval x - dval e)"
    using pnl_linear [OF assms(3,4,5,8,9,10)] .
  have ab: "dval a * dval b = R" using a(3) b(3) R by simp
  obtain c where c: "d_mul D a b = Some c" "wf_dec c" "dval c = R"
    using mul_ok [OF a(2) b(2)] ab rep by metis
  obtain r where r: "d_add D dec_zero c = Some r" "wf_dec r" "dval r = R"
    using add_ok [OF wf_dec_consts(1) c(2)] c(3) rep by auto
  have "fill_effect D False m e cs fs x q =
      Some (r, if d_lt D (d_abs D cs) q then x else e)"
    using assms(6,7) a(1) b(1) c(1) r(1) by (simp add: fill_effect_def dec_is_zero_iff lt_iff Let_def)
  then show thesis using that r by blast
qed

lemma fee_deducted:
  assumes "wf_dec r" "valid_money (f_fee f)" "\<bar>m_amount (f_fee f)\<bar> < 2 ^ 96"
    "representable (dval r - fee_val inst f)"
  obtains r' where "(if m_ccy (f_fee f) = inst_settlement_currency inst
      then do { fee \<leftarrow> money_amount D (f_fee f); d_sub D r fee } else Some r) = Some r'"
    "wf_dec r'" "dval r' = dval r - fee_val inst f"
proof (cases "m_ccy (f_fee f) = inst_settlement_currency inst")
  case True
  let ?fee = "\<lparr>mantissa = m_amount (f_fee f), scale = c_prec (m_ccy (f_fee f))\<rparr>"
  have fee: "money_amount D (f_fee f) = Some ?fee" using money_amount_eq [OF assms(2,3)] .
  have "wf_dec ?fee"
    using assms(2,3) by (simp add: wf_dec_def valid_money_def valid_currency_def MAX_PRECISION_def)
  moreover have "dval ?fee = fee_val inst f" using True dval_money [of "f_fee f"] by (simp add: fee_val_def)
  ultimately obtain r' where "d_sub D r ?fee = Some r'" "wf_dec r'" "dval r' = dval r - fee_val inst f"
    using sub_ok [of r ?fee] assms(1,4) by metis
  with True fee that show thesis by simp
next
  case False
  then show thesis using that [of r] assms(1) by (simp add: fee_val_def)
qed

lemma credit_realized_amount:
  assumes "credit_realized D r c p = Ok p'" "wf_dec r"
  shows "m_amount (ps_realized_pnl p') =
      m_amount (ps_realized_pnl p) + round_half_even (dval r * 10 ^ c_prec c) \<and>
    m_ccy (ps_realized_pnl p') = m_ccy (ps_realized_pnl p)"
  using assms
  by (auto simp: credit_realized_def dec_is_zero_iff result_bind_Inr money_from_decimal_def
      quantize_spec money_checked_add_def money_same_currency_def split: if_split_asm)

lemma apply_fill_reduced_pnl:
  assumes "position_ok p" "valid_qty (f_last_qty f)" "q_prec (f_last_qty f) = ps_size_precision p"
    "valid_price (f_last_px f)" "valid_qty (inst_multiplier inst)" "\<not> inst_is_inverse inst"
    "sgn (signed_raw p) = - side_sign (f_side f)" "p_raw (ps_avg_px_open p) \<noteq> 0" "pnl_fits inst f p"
    "position_apply_fill D f inst p = Some (Inr u, p')" "qty_is_positive (f_last_qty f)"
  shows "m_amount (ps_realized_pnl p') = m_amount (ps_realized_pnl p) + round_half_even
      ((reduced_pnl inst f p - fee_val inst f) * 10 ^ c_prec (inst_settlement_currency inst))"
proof -
  let ?q = "f_last_qty f" and ?s = "ps_size_precision p"
  let ?fill_qty = "\<lparr>mantissa = q_raw ?q, scale = q_prec ?q\<rparr>"
  let ?mul = "\<lparr>mantissa = q_raw (inst_multiplier inst), scale = q_prec (inst_multiplier inst)\<rparr>"
  let ?px = "\<lparr>mantissa = p_raw (f_last_px f), scale = p_prec (f_last_px f)\<rparr>"
  let ?avg = "\<lparr>mantissa = p_raw (ps_avg_px_open p), scale = p_prec (ps_avg_px_open p)\<rparr>"
  have avg: "valid_price (ps_avg_px_open p)" using assms(1) by (simp add: position_ok_def)
  have dec: "qty_as_decimal D (inst_multiplier inst) = Some ?mul" "price_as_decimal D (f_last_px f) = Some ?px"
    "qty_as_decimal D ?q = Some ?fill_qty" "price_as_decimal D (ps_avg_px_open p) = Some ?avg"
    using assms avg by simp_all
  obtain fs cs ns r na r' m where
    fs: "d_mul D (dec_int (side_sign (f_side f))) ?fill_qty = Some fs" and
    cs: "position_signed D p = Some cs" and
    eff: "fill_effect D (inst_is_inverse inst) ?mul ?avg cs fs ?px ?fill_qty = Some (r, na)" and
    fee: "(if m_ccy (f_fee f) = inst_settlement_currency inst
      then do { fee \<leftarrow> money_amount D (f_fee f); d_sub D r fee } else Some r) = Some r'" and
    cr: "credit_realized D r' (inst_settlement_currency inst) p = Ok (p\<lparr>ps_realized_pnl := m\<rparr>)" and
    res: "resize D ns na (p\<lparr>ps_realized_pnl := m\<rparr>) = (Ok (), p')"
    using position_apply_fill_Ok [OF assms(10)] unfolding dec option.inject by metis
  have fsv: "dval fs = of_int (side_sign (f_side f) * q_raw ?q) / 10 ^ ?s"
    using fill_signed_val [OF assms(2), of "f_side f"] fs assms(3) by auto
  have csv: "wf_dec cs" "dval cs = of_int (signed_raw p) / 10 ^ ?s"
    using position_signed_val [OF assms(1)] cs by auto
  have sg: "signed_raw p \<noteq> 0" using assms(7) side_sign_cases [of "f_side f"] by auto
  have pos: "0 < dval cs \<longleftrightarrow> 0 < signed_raw p" using csv(2) by (simp add: zero_less_divide_iff)
  have q: "0 < q_raw ?q" using assms(11) by (simp add: qty_is_positive_def)
  have opp: "\<not> (0 < dval cs \<longleftrightarrow> 0 < dval fs)"
    using assms(7) q side_sign_cases [of "f_side f"] unfolding pos fsv
    by (auto simp: zero_less_divide_iff zero_less_mult_iff sgn_if split: if_split_asm)
  have R: "reduced_pnl inst f p = (if 0 < dval cs then 1 else - 1) *
      min \<bar>dval cs\<bar> (dval ?fill_qty) * (dval ?mul * (dval ?px - dval ?avg))"
    using sg signed_raw_abs [OF assms(1)] unfolding pos csv(2) dval_qty dval_price
    by (simp add: reduced_pnl_def abs_divide sgn_if zero_less_divide_iff)
  have fits: "representable (dval ?px - dval ?avg)" "representable (dval ?mul * (dval ?px - dval ?avg))"
    "representable (reduced_pnl inst f p)" "representable (reduced_pnl inst f p - fee_val inst f)"
    "valid_money (f_fee f)" "\<bar>m_amount (f_fee f)\<bar> < 2 ^ 96"
    using assms(9) by (simp_all add: pnl_fits_def)
  have nz: "dval cs \<noteq> 0" "dval ?avg \<noteq> 0" using sg csv(2) assms(8) by (simp_all add: price_val_def)
  have rv: "wf_dec r" "dval r = reduced_pnl inst f p"
    using fill_effect_reduce [OF csv(1) wf_dec_qty [OF assms(2)] wf_dec_price [OF avg]
        wf_dec_price [OF assms(4)] wf_dec_qty [OF assms(5)] nz(1) opp nz(2) fits(1,2) R fits(3)]
      eff assms(6) by auto
  have rv': "wf_dec r'" "dval r' = reduced_pnl inst f p - fee_val inst f"
    using fee_deducted [OF rv(1) fits(5,6), of inst] fee fits(4) rv(2) by auto
  have keep: "ps_realized_pnl p' = m"
    using res by (auto simp: resize_def Let_def case_sum_eq_iff split: if_split_asm)
  show ?thesis using credit_realized_amount [OF cr rv'(1)] rv'(2) keep by simp
qed

end

section \<open>Properties\<close>

text \<open>
  C4: size conservation. A fill that is applied with success changes the signed position size by
  exactly its own signed quantity, whichever of the open, increase, reduce, close and flip
  branches it takes, and keeps the position well-formed: valid values at the instrument's
  precisions, and \<open>Flat\<close> exactly when the size is zero.
\<close>

theorem position_size_conserved:
  assumes "decimal_lib D" "position_ok p" "valid_qty (f_last_qty f)"
    "q_prec (f_last_qty f) = ps_size_precision p"
    "position_apply_fill D f inst p = Some (Ok (), p')"
  shows "position_ok p' \<and>
    signed_raw p' = signed_raw p + side_sign (f_side f) * q_raw (f_last_qty f)"
  using decimal_lib.apply_fill_size [OF assms] .

definition usdt :: currency where
  "usdt = Currency (''USDT'' @ replicate 4 (CHR 0x00)) 2"

lemma usdt_prec [simp]: "c_prec usdt = 2"
  by (simp add: usdt_def)

definition sample_instrument :: instrument where
  "sample_instrument = currency_pair_dyn
     \<lparr>cp_id = InstrumentId ''BTCUSDT'' ''BINANCE'', cp_base = usdt, cp_quote = usdt,
      cp_price_precision = 2, cp_size_precision = 0, cp_price_increment = Price 1 2,
      cp_size_increment = Quantity 1 0, cp_min_notional = None, cp_maker_fee = dec_zero,
      cp_taker_fee = dec_zero\<rparr>"

definition sample_position :: position where
  "sample_position =
     \<lparr>ps_position_id = ''p'', ps_instrument_id = InstrumentId ''BTCUSDT'' ''BINANCE'', ps_side = Long,
      ps_quantity = Quantity 3 0, ps_avg_px_open = Price 10000 2, ps_realized_pnl = Money 0 usdt,
      ps_size_precision = 0, ps_price_precision = 2\<rparr>"

definition sample_sell :: fill where
  "sample_sell =
     \<lparr>f_trade_id = ''t'', f_client_order_id = ''c'', f_venue_order_id = ''v'',
      f_instrument_id = InstrumentId ''BTCUSDT'' ''BINANCE'', f_side = Sell, f_last_px = Price 11000 2,
      f_last_qty = Quantity 2 0, f_fee = Money 50 usdt, f_liquidity = Taker, f_ts_event = 1,
      f_ts_init = 1\<rparr>"

lemma sample_sell_applied:
  "position_apply_fill rdec sample_sell sample_instrument sample_position =
     Some (Ok (), sample_position\<lparr>ps_quantity := Quantity 1 0, ps_realized_pnl := Money 1950 usdt\<rparr>)"
  by code_simp

lemma sample_position_ok: "position_ok sample_position"
  by (simp add: position_ok_def sample_position_def valid_qty_def valid_price_def in_i64_def
      MAX_PRECISION_def)

theorem position_size_conserved_witness:
  "signed_raw (sample_position\<lparr>ps_quantity := Quantity 1 0, ps_realized_pnl := Money 1950 usdt\<rparr>) = 3 - 2"
  using position_size_conserved [OF rd.decimal_lib_axioms sample_position_ok _ _ sample_sell_applied]
  by (simp add: sample_sell_def sample_position_def valid_qty_def in_i64_def MAX_PRECISION_def
      signed_raw_def)

text \<open>
  Realized PnL of a linear instrument. A fill against the position's direction credits
  direction times the reduced size times multiplier times the price difference, less the fee,
  rounded once to the settlement currency, whenever the exact values are representable decimals.
\<close>

theorem position_realized_pnl:
  assumes "decimal_lib D" "position_ok p" "valid_qty (f_last_qty f)"
    "q_prec (f_last_qty f) = ps_size_precision p" "valid_price (f_last_px f)"
    "valid_qty (inst_multiplier inst)" "\<not> inst_is_inverse inst"
    "sgn (signed_raw p) = - side_sign (f_side f)" "p_raw (ps_avg_px_open p) \<noteq> 0" "pnl_fits inst f p"
    "position_apply_fill D f inst p = Some (Ok (), p')" "qty_is_positive (f_last_qty f)"
  shows "m_amount (ps_realized_pnl p') = m_amount (ps_realized_pnl p) + round_half_even
      ((reduced_pnl inst f p - fee_val inst f) * 10 ^ c_prec (inst_settlement_currency inst))"
  using decimal_lib.apply_fill_reduced_pnl [OF assms] .

lemma sample_sell_pnl:
  "reduced_pnl sample_instrument sample_sell sample_position = of_int 20 / 10 ^ 0 \<and>
   fee_val sample_instrument sample_sell = of_int 50 / 10 ^ 2 \<and>
   pnl_fits sample_instrument sample_sell sample_position"
proof -
  let ?i = sample_instrument and ?f = sample_sell and ?p = sample_position
  have r: "reduced_pnl ?i ?f ?p = of_int 20 / 10 ^ 0"
    by (simp add: reduced_pnl_def sample_instrument_def sample_sell_def sample_position_def
        currency_pair_dyn_def unit_multiplier_def signed_raw_def price_val_def qty_val_def)
  have fee: "fee_val ?i ?f = of_int 50 / 10 ^ 2"
    by (simp add: fee_val_def sample_instrument_def sample_sell_def currency_pair_dyn_def money_val_def
        usdt_def)
  have d: "price_val (f_last_px ?f) - price_val (ps_avg_px_open ?p) = 10" "qty_val (inst_multiplier ?i) = 1"
    by (simp_all add: sample_instrument_def sample_sell_def sample_position_def
        currency_pair_dyn_def unit_multiplier_def price_val_def qty_val_def)
  have rep: "representable 10" "representable 20" "representable (39 / 2)"
    using representableI [of 10 0] representableI [of 20 0] representableI [of 195 1] by simp_all
  have "valid_money (f_fee ?f) \<and> \<bar>m_amount (f_fee ?f)\<bar> < 2 ^ 96"
    by (simp add: sample_sell_def valid_money_def valid_currency_def usdt_def in_i128_def MAX_PRECISION_def)
  then show ?thesis using r d rep unfolding pnl_fits_def fee by simp
qed

theorem position_realized_pnl_witness:
  "m_amount (ps_realized_pnl (sample_position\<lparr>ps_quantity := Quantity 1 0, ps_realized_pnl := Money 1950 usdt\<rparr>)) =
     m_amount (ps_realized_pnl sample_position) + round_half_even ((20 - 1 / 2) * 10 ^ 2)"
  using position_realized_pnl [OF rd.decimal_lib_axioms sample_position_ok _ _ _ _ _ _ _
      sample_sell_pnl [THEN conjunct2, THEN conjunct2] sample_sell_applied] sample_sell_pnl
  by (simp add: sample_sell_def sample_position_def sample_instrument_def currency_pair_dyn_def
      unit_multiplier_def usdt_def valid_qty_def valid_price_def in_i64_def MAX_PRECISION_def
      signed_raw_def qty_is_positive_def)

end
