(* ===== verification/Cache.thy ===== *)
theory Cache
  imports Book Order Position
begin

text \<open>
  \<open>foundation/crates/coinext-cache/src/lib.rs\<close>: the in-memory object store shared by the
  engines. Tables that are only looked up are maps; the order and position tables are also
  iterated, so they are association lists with one entry per key. The locale
  \<open>keyed_store\<close> is the contract of an id-keyed table, interpreted on each of the tables.
\<close>

section \<open>State and operations\<close>

record cache =
  ca_instruments :: "instrument_id \<rightharpoonup> instrument"
  ca_quotes :: "instrument_id \<rightharpoonup> quote_tick"
  ca_marks :: "instrument_id \<rightharpoonup> price"
  ca_order_books :: "instrument_id \<rightharpoonup> order_book"
  ca_orders :: "(client_order_id \<times> order) list"
  ca_positions :: "(instrument_id \<times> position) list"
  ca_account :: "account_state option"

definition cache_new :: cache where
  "cache_new =
     \<lparr>ca_instruments = Map.empty, ca_quotes = Map.empty, ca_marks = Map.empty,
      ca_order_books = Map.empty, ca_orders = [], ca_positions = [], ca_account = None\<rparr>"

definition add_instrument :: "instrument \<Rightarrow> cache \<Rightarrow> cache" where
  "add_instrument i c = c\<lparr>ca_instruments := (ca_instruments c)(inst_id i \<mapsto> i)\<rparr>"

definition cache_instrument :: "cache \<Rightarrow> instrument_id \<Rightarrow> instrument option" where
  "cache_instrument c i = ca_instruments c i"

definition add_quote :: "quote_tick \<Rightarrow> cache \<Rightarrow> cache" where
  "add_quote q c =
     (let i = qt_instrument_id q; mid = quote_mid q
      in c\<lparr>ca_quotes := (ca_quotes c)(i \<mapsto> q), ca_marks := (ca_marks c)(i \<mapsto> mid)\<rparr>)"

definition cache_quote :: "cache \<Rightarrow> instrument_id \<Rightarrow> quote_tick option" where
  "cache_quote c i = ca_quotes c i"

definition set_mark :: "instrument_id \<Rightarrow> price \<Rightarrow> cache \<Rightarrow> cache" where
  "set_mark i p c = c\<lparr>ca_marks := (ca_marks c)(i \<mapsto> p)\<rparr>"

definition cache_mark :: "cache \<Rightarrow> instrument_id \<Rightarrow> price option" where
  "cache_mark c i = ca_marks c i"

definition apply_book_delta :: "order_book_delta \<Rightarrow> cache \<Rightarrow> bool \<times> cache" where
  "apply_book_delta d c =
     (let i = bd_instrument_id d;
          b = (case ca_order_books c i of Some b \<Rightarrow> b | None \<Rightarrow> book_new i);
          (applied, b') = book_apply d b
      in (applied, c\<lparr>ca_order_books := (ca_order_books c)(i \<mapsto> b')\<rparr>))"

definition cache_order_book :: "cache \<Rightarrow> instrument_id \<Rightarrow> order_book option" where
  "cache_order_book c i = ca_order_books c i"

definition add_order :: "order \<Rightarrow> cache \<Rightarrow> cache" where
  "add_order o' c = c\<lparr>ca_orders := hm_insert (o_client_order_id o') o' (ca_orders c)\<rparr>"

definition cache_order :: "cache \<Rightarrow> client_order_id \<Rightarrow> order option" where
  "cache_order c i = map_of (ca_orders c) i"

text \<open>Writing through \<open>order_mut\<close>: the entry of an order that is present is replaced.\<close>

definition put_order :: "client_order_id \<Rightarrow> order \<Rightarrow> cache \<Rightarrow> cache" where
  "put_order i o' c = c\<lparr>ca_orders := hm_insert i o' (ca_orders c)\<rparr>"

definition cache_orders :: "cache \<Rightarrow> order list" where
  "cache_orders c = map snd (ca_orders c)"

definition open_orders :: "cache \<Rightarrow> order list" where
  "open_orders c = filter (\<lambda>o'. \<not> order_is_terminal o') (cache_orders c)"

definition upsert_position :: "position \<Rightarrow> cache \<Rightarrow> cache" where
  "upsert_position p c = c\<lparr>ca_positions := hm_insert (ps_instrument_id p) p (ca_positions c)\<rparr>"

definition cache_position :: "cache \<Rightarrow> instrument_id \<Rightarrow> position option" where
  "cache_position c i = map_of (ca_positions c) i"

definition cache_positions :: "cache \<Rightarrow> position list" where
  "cache_positions c = map snd (ca_positions c)"

definition set_account :: "account_state \<Rightarrow> cache \<Rightarrow> cache" where
  "set_account a c = c\<lparr>ca_account := Some a\<rparr>"

definition cache_account :: "cache \<Rightarrow> account_state option" where
  "cache_account c = ca_account c"

section \<open>Invariant\<close>

definition cache_ok :: "cache \<Rightarrow> bool" where
  "cache_ok c \<longleftrightarrow> distinct (map fst (ca_orders c)) \<and> distinct (map fst (ca_positions c)) \<and>
     (\<forall>(k, o') \<in> set (ca_orders c). k = o_client_order_id o') \<and>
     (\<forall>(k, p) \<in> set (ca_positions c). k = ps_instrument_id p) \<and>
     (\<forall>i b. ca_order_books c i = Some b \<longrightarrow> book_ok b)"

lemma hm_insert_sub: "set (hm_insert k v m) \<subseteq> insert (k, v) (set m)"
  by (induction k v m rule: hm_insert.induct) auto

lemma cache_ok_new [coinext_inv]: "cache_ok cache_new"
  by (simp add: cache_ok_def cache_new_def)

lemma cache_ok_add_order [coinext_inv]: "cache_ok c \<Longrightarrow> cache_ok (add_order o' c)"
  using hm_insert_sub [of "o_client_order_id o'" o' "ca_orders c"]
  by (fastforce simp: cache_ok_def add_order_def)

lemma cache_ok_put_order [coinext_inv]:
  "cache_ok c \<Longrightarrow> o_client_order_id o' = i \<Longrightarrow> cache_ok (put_order i o' c)"
  using cache_ok_add_order [of c o'] by (simp add: add_order_def put_order_def)

lemma cache_ok_upsert [coinext_inv]: "cache_ok c \<Longrightarrow> cache_ok (upsert_position p c)"
  using hm_insert_sub [of "ps_instrument_id p" p "ca_positions c"]
  by (fastforce simp: cache_ok_def upsert_position_def)

lemma cache_ok_marks [coinext_inv]:
  "cache_ok c \<Longrightarrow> cache_ok (set_mark i p c)" "cache_ok c \<Longrightarrow> cache_ok (add_quote q c)"
  "cache_ok c \<Longrightarrow> cache_ok (add_instrument x c)" "cache_ok c \<Longrightarrow> cache_ok (set_account a c)"
  by (simp_all add: cache_ok_def set_mark_def add_quote_def add_instrument_def set_account_def Let_def)

lemma cache_ok_book [coinext_inv]: "cache_ok c \<Longrightarrow> cache_ok (snd (apply_book_delta d c))"
  by (auto simp: cache_ok_def apply_book_delta_def Let_def split_beta book_ok_new
      split: option.splits intro!: book_ok_apply)

lemma cache_order_key: "cache_ok c \<Longrightarrow> cache_order c i = Some o' \<Longrightarrow> o_client_order_id o' = i"
  by (auto simp: cache_ok_def cache_order_def dest!: map_of_SomeD)

lemma cache_position_key: "cache_ok c \<Longrightarrow> cache_position c i = Some p \<Longrightarrow> ps_instrument_id p = i"
  by (auto simp: cache_ok_def cache_position_def dest!: map_of_SomeD)

section \<open>The contract of an id-keyed table\<close>

locale keyed_store =
  fixes key :: "'v \<Rightarrow> 'k" and put :: "'v \<Rightarrow> 's \<Rightarrow> 's" and get :: "'s \<Rightarrow> 'k \<Rightarrow> 'v option"
  assumes get_put: "get (put v s) k = (if k = key v then Some v else get s k)"
begin

lemma get_put_same [simp]: "get (put v s) (key v) = Some v"
  by (simp add: get_put)

lemma get_put_other: "k \<noteq> key v \<Longrightarrow> get (put v s) k = get s k"
  by (simp add: get_put)

lemma put_last: "key v = key w \<Longrightarrow> get (put w (put v s)) k = get (put w s) k"
  by (simp add: get_put)

lemma put_commute: "key v \<noteq> key w \<Longrightarrow> get (put v (put w s)) k = get (put w (put v s)) k"
  by (simp add: get_put)

text \<open>After a batch of writes a key answers with its last value in the batch.\<close>

lemma get_fold_put:
  "get (fold put vs s) k =
     (case find (\<lambda>v. key v = k) (rev vs) of Some v \<Rightarrow> Some v | None \<Rightarrow> get s k)"
proof (induction vs rule: rev_induct)
  case (snoc v vs)
  then show ?case by (auto simp: get_put)
qed simp

end

interpretation orders: keyed_store o_client_order_id add_order cache_order
  by unfold_locales (simp add: add_order_def cache_order_def)

interpretation positions: keyed_store ps_instrument_id upsert_position cache_position
  by unfold_locales (simp add: upsert_position_def cache_position_def)

interpretation quotes: keyed_store qt_instrument_id add_quote cache_quote
  by unfold_locales (simp add: add_quote_def cache_quote_def Let_def)

interpretation instruments: keyed_store inst_id add_instrument cache_instrument
  by unfold_locales (simp add: add_instrument_def cache_instrument_def)

lemma cache_order_put [simp]:
  "cache_order (put_order i o' c) k = (if k = i then Some o' else cache_order c k)"
  by (simp add: put_order_def cache_order_def)

lemma cache_frame [simp]:
  "cache_order (upsert_position p c) = cache_order c"
  "cache_order (set_mark i px c) = cache_order c"
  "cache_order (add_quote q c) = cache_order c"
  "cache_position (add_order o' c) = cache_position c"
  "cache_position (put_order k o' c) = cache_position c"
  "cache_position (set_mark i px c) = cache_position c"
  "cache_position (add_quote q c) = cache_position c"
  "cache_instrument (add_order o' c) = cache_instrument c"
  "cache_instrument (put_order k o' c) = cache_instrument c"
  "cache_instrument (upsert_position p c) = cache_instrument c"
  "cache_mark (add_order o' c) = cache_mark c"
  "cache_mark (put_order k o' c) = cache_mark c"
  "cache_mark (upsert_position p c) = cache_mark c"
  by (simp_all add: fun_eq_iff add_order_def put_order_def upsert_position_def set_mark_def
      add_quote_def cache_order_def cache_position_def cache_instrument_def cache_mark_def Let_def)

lemma cache_order_add [simp]:
  "cache_order (add_order o' c) k = (if k = o_client_order_id o' then Some o' else cache_order c k)"
  by (rule orders.get_put)

lemma cache_position_upsert [simp]:
  "cache_position (upsert_position p c) k =
     (if k = ps_instrument_id p then Some p else cache_position c k)"
  by (rule positions.get_put)

end
