(* ===== verification/Ports.thy ===== *)
theory Ports
  imports Cache
begin

text \<open>
  \<open>foundation/crates/coinext-ports/src\<close>: the commands and reports of
  \<open>commands.rs\<close>, and the \<open>OrderFactory\<close> and \<open>StrategyContext\<close> of
  \<open>context.rs\<close>. The context's shared clock and cache are fields of its record; the kernel
  lends and takes them back around each handler. The asynchronous client traits are not modelled.
\<close>

section \<open>Commands, reports, decisions\<close>

datatype sub_kind = SubQuotes | SubTrades | SubBookL2 nat | SubBars bar_spec

record subscription =
  sub_instrument_id :: instrument_id
  sub_sub_kind :: sub_kind

datatype execution_report =
    RepAccepted client_order_id venue_order_id
  | RepPendingUpdate client_order_id
  | RepModified client_order_id "quantity option" "price option"
  | RepPendingCancel client_order_id
  | RepFill fill
  | RepRejected client_order_id reason
  | RepCanceled client_order_id
  | RepExpired client_order_id

fun report_client_order_id :: "execution_report \<Rightarrow> client_order_id" where
  "report_client_order_id (RepAccepted c _) = c"
| "report_client_order_id (RepPendingUpdate c) = c"
| "report_client_order_id (RepModified c _ _) = c"
| "report_client_order_id (RepPendingCancel c) = c"
| "report_client_order_id (RepFill f) = f_client_order_id f"
| "report_client_order_id (RepRejected c _) = c"
| "report_client_order_id (RepCanceled c) = c"
| "report_client_order_id (RepExpired c) = c"

datatype strategy_command =
    CmdSubmit order
  | CmdCancel client_order_id
  | CmdModify client_order_id "quantity option" "price option"

datatype deny_reason =
    MaxPositionExceeded
  | MaxGrossExposureExceeded
  | MaxOrderNotional
  | OrderRateThrottled
  | MinNotional
  | KillSwitchEngaged
  | InstrumentHalted
  | InsufficientMargin
  | TPlusOne
  | PriceLimit

datatype risk_decision = RiskApproved | RiskDenied deny_reason

record risk_limits =
  rl_max_position_qty :: "quantity option"
  rl_max_position_notional :: "money option"
  rl_max_order_notional :: "money option"
  rl_max_orders_per_sec :: "nat option"
  rl_max_gross_exposure :: "money option"
  rl_leverage :: "decimal option"
  rl_maintenance_margin_rate :: "decimal option"

definition unlimited :: risk_limits where
  "unlimited =
     \<lparr>rl_max_position_qty = None, rl_max_position_notional = None, rl_max_order_notional = None,
      rl_max_orders_per_sec = None, rl_max_gross_exposure = None, rl_leverage = None,
      rl_maintenance_margin_rate = None\<rparr>"

text \<open>
  \<open>from_env\<close>: its argument \<open>env_dec\<close> is the closure that reads an environment
  variable and parses it as a decimal.
\<close>

definition from_env :: "(string \<Rightarrow> decimal option) \<Rightarrow> dec_ops \<Rightarrow> currency \<Rightarrow> risk_limits" where
  "from_env env_dec D settle =
     (let money = (\<lambda>k. Option.bind (env_dec k) (\<lambda>d. result_ok (money_from_decimal D d settle)));
          qty = (\<lambda>k. Option.bind (env_dec k) (\<lambda>d. result_ok (qty_from_decimal D d (c_prec settle))))
      in \<lparr>rl_max_position_qty = qty ''COINEXT_MAX_POSITION_QTY'',
          rl_max_position_notional = None,
          rl_max_order_notional = money ''COINEXT_MAX_ORDER_NOTIONAL'',
          rl_max_orders_per_sec = None,
          rl_max_gross_exposure = money ''COINEXT_MAX_GROSS_EXPOSURE'',
          rl_leverage = env_dec ''COINEXT_LEVERAGE'',
          rl_maintenance_margin_rate = env_dec ''COINEXT_MAINTENANCE_MARGIN_RATE''\<rparr>)"

section \<open>The order factory\<close>

record order_factory =
  of_strategy_id :: strategy_id
  of_seq :: u64

definition factory_new :: "strategy_id \<Rightarrow> order_factory" where
  "factory_new s = \<lparr>of_strategy_id = s, of_seq = 0\<rparr>"

definition restore_seq :: "u64 \<Rightarrow> order_factory \<Rightarrow> order_factory" where
  "restore_seq n f = f\<lparr>of_seq := n\<rparr>"

definition next_id :: "order_factory \<Rightarrow> client_order_id \<times> order_factory" where
  "next_id f =
     (let n = of_seq f + 1
      in (of_strategy_id f @ ''-'' @ fmt020 (unat n), f\<lparr>of_seq := n\<rparr>))"

definition factory_market ::
  "instrument_id \<Rightarrow> order_side \<Rightarrow> quantity \<Rightarrow> unix_nanos \<Rightarrow> order_factory \<Rightarrow> order \<times> order_factory" where
  "factory_market iid side qty ts f =
     (let (i, f') = next_id f
      in (order_new (of_strategy_id f) i iid side Market qty None None Ioc flags_default ts, f'))"

definition factory_limit ::
  "instrument_id \<Rightarrow> order_side \<Rightarrow> quantity \<Rightarrow> price \<Rightarrow> time_in_force \<Rightarrow> order_flags \<Rightarrow> unix_nanos \<Rightarrow>
   order_factory \<Rightarrow> order \<times> order_factory" where
  "factory_limit iid side qty px tif flags ts f =
     (let (i, f') = next_id f
      in (order_new (of_strategy_id f) i iid side Limit qty (Some px) None tif flags ts, f'))"

definition factory_stop_market ::
  "instrument_id \<Rightarrow> order_side \<Rightarrow> quantity \<Rightarrow> price \<Rightarrow> unix_nanos \<Rightarrow> order_factory \<Rightarrow> order \<times> order_factory" where
  "factory_stop_market iid side qty trig ts f =
     (let (i, f') = next_id f
      in (order_new (of_strategy_id f) i iid side StopMarket qty None (Some trig) Gtc flags_default ts, f'))"

definition factory_stop_limit ::
  "instrument_id \<Rightarrow> order_side \<Rightarrow> quantity \<Rightarrow> price \<Rightarrow> price \<Rightarrow> unix_nanos \<Rightarrow> order_factory \<Rightarrow>
   order \<times> order_factory" where
  "factory_stop_limit iid side qty trig px ts f =
     (let (i, f') = next_id f
      in (order_new (of_strategy_id f) i iid side StopLimit qty (Some px) (Some trig) Gtc flags_default ts, f'))"

definition factory_trailing_stop ::
  "instrument_id \<Rightarrow> order_side \<Rightarrow> quantity \<Rightarrow> price \<Rightarrow> unix_nanos \<Rightarrow> order_factory \<Rightarrow> order \<times> order_factory" where
  "factory_trailing_stop iid side qty trig ts f =
     (let (i, f') = next_id f
      in (order_new (of_strategy_id f) i iid side TrailingStopMarket qty None (Some trig) Gtc flags_default ts, f'))"

section \<open>The strategy context\<close>

record strategy_context =
  sx_strategy_id :: strategy_id
  sx_clock :: historical_clock
  sx_cache :: cache
  sx_factory :: order_factory
  sx_outbox :: "strategy_command list"

definition context_new :: "strategy_id \<Rightarrow> historical_clock \<Rightarrow> cache \<Rightarrow> strategy_context" where
  "context_new s clk ca =
     \<lparr>sx_strategy_id = s, sx_clock = clk, sx_cache = ca, sx_factory = factory_new s, sx_outbox = []\<rparr>"

definition ctx_set_timer :: "string \<Rightarrow> unix_nanos \<Rightarrow> strategy_context \<Rightarrow> timer_id \<times> strategy_context" where
  "ctx_set_timer nm t x = (let (i, clk) = set_timer nm t (sx_clock x) in (i, x\<lparr>sx_clock := clk\<rparr>))"

definition ctx_cancel_timer :: "timer_id \<Rightarrow> strategy_context \<Rightarrow> strategy_context" where
  "ctx_cancel_timer i x = x\<lparr>sx_clock := cancel_timer i (sx_clock x)\<rparr>"

definition ctx_submit :: "order \<Rightarrow> strategy_context \<Rightarrow> strategy_context" where
  "ctx_submit o' x = x\<lparr>sx_outbox := sx_outbox x @ [CmdSubmit o']\<rparr>"

definition submit_market ::
  "instrument_id \<Rightarrow> order_side \<Rightarrow> quantity \<Rightarrow> strategy_context \<Rightarrow> client_order_id \<times> strategy_context" where
  "submit_market iid side qty x =
     (let ts = hc_now (sx_clock x);
          (o', f) = factory_market iid side qty ts (sx_factory x)
      in (o_client_order_id o', ctx_submit o' (x\<lparr>sx_factory := f\<rparr>)))"

definition submit_limit ::
  "instrument_id \<Rightarrow> order_side \<Rightarrow> quantity \<Rightarrow> price \<Rightarrow> strategy_context \<Rightarrow>
   client_order_id \<times> strategy_context" where
  "submit_limit iid side qty px x =
     (let ts = hc_now (sx_clock x);
          (o', f) = factory_limit iid side qty px Gtc flags_default ts (sx_factory x)
      in (o_client_order_id o', ctx_submit o' (x\<lparr>sx_factory := f\<rparr>)))"

definition submit_stop_market ::
  "instrument_id \<Rightarrow> order_side \<Rightarrow> quantity \<Rightarrow> price \<Rightarrow> strategy_context \<Rightarrow>
   client_order_id \<times> strategy_context" where
  "submit_stop_market iid side qty trig x =
     (let ts = hc_now (sx_clock x);
          (o', f) = factory_stop_market iid side qty trig ts (sx_factory x)
      in (o_client_order_id o', ctx_submit o' (x\<lparr>sx_factory := f\<rparr>)))"

definition submit_stop_limit ::
  "instrument_id \<Rightarrow> order_side \<Rightarrow> quantity \<Rightarrow> price \<Rightarrow> price \<Rightarrow> strategy_context \<Rightarrow>
   client_order_id \<times> strategy_context" where
  "submit_stop_limit iid side qty trig px x =
     (let ts = hc_now (sx_clock x);
          (o', f) = factory_stop_limit iid side qty trig px ts (sx_factory x)
      in (o_client_order_id o', ctx_submit o' (x\<lparr>sx_factory := f\<rparr>)))"

definition submit_trailing_stop ::
  "instrument_id \<Rightarrow> order_side \<Rightarrow> quantity \<Rightarrow> price \<Rightarrow> strategy_context \<Rightarrow>
   client_order_id \<times> strategy_context" where
  "submit_trailing_stop iid side qty offset x =
     (let ts = hc_now (sx_clock x);
          trig = (case cache_mark (sx_cache x) iid of
                    Some m \<Rightarrow> (case side of Sell \<Rightarrow> unwrap_or (price_checked_sub m offset) offset
                                           | Buy \<Rightarrow> unwrap_or (price_checked_add m offset) offset)
                  | None \<Rightarrow> offset);
          (o', f) = factory_trailing_stop iid side qty trig ts (sx_factory x)
      in (o_client_order_id o', ctx_submit o' (x\<lparr>sx_factory := f\<rparr>)))"

definition ctx_cancel :: "client_order_id \<Rightarrow> strategy_context \<Rightarrow> strategy_context" where
  "ctx_cancel i x = x\<lparr>sx_outbox := sx_outbox x @ [CmdCancel i]\<rparr>"

definition ctx_modify ::
  "client_order_id \<Rightarrow> quantity option \<Rightarrow> price option \<Rightarrow> strategy_context \<Rightarrow> strategy_context" where
  "ctx_modify i q p x = x\<lparr>sx_outbox := sx_outbox x @ [CmdModify i q p]\<rparr>"

definition drain_outbox :: "strategy_context \<Rightarrow> strategy_command list \<times> strategy_context" where
  "drain_outbox x = (sx_outbox x, x\<lparr>sx_outbox := []\<rparr>)"

section \<open>Identifiers never repeat\<close>

text \<open>The ids of the next \<open>n\<close> orders, whichever constructors make them.\<close>

fun minted :: "nat \<Rightarrow> order_factory \<Rightarrow> client_order_id list" where
  "minted 0 f = []"
| "minted (Suc n) f = (let (i, f') = next_id f in i # minted n f')"

lemma factory_ids:
  "o_client_order_id (fst (factory_market iid side qty ts f)) = fst (next_id f)"
  "snd (factory_market iid side qty ts f) = snd (next_id f)"
  "o_client_order_id (fst (factory_limit iid side qty px tif fl ts f)) = fst (next_id f)"
  "snd (factory_limit iid side qty px tif fl ts f) = snd (next_id f)"
  "o_client_order_id (fst (factory_stop_market iid side qty trig ts f)) = fst (next_id f)"
  "snd (factory_stop_market iid side qty trig ts f) = snd (next_id f)"
  "o_client_order_id (fst (factory_stop_limit iid side qty trig px ts f)) = fst (next_id f)"
  "snd (factory_stop_limit iid side qty trig px ts f) = snd (next_id f)"
  "o_client_order_id (fst (factory_trailing_stop iid side qty trig ts f)) = fst (next_id f)"
  "snd (factory_trailing_stop iid side qty trig ts f) = snd (next_id f)"
  by (simp_all add: factory_market_def factory_limit_def factory_stop_market_def
      factory_stop_limit_def factory_trailing_stop_def order_new_def split_beta)

lemma next_id_eq:
  "next_id f = (of_strategy_id f @ ''-'' @ fmt020 (unat (of_seq f + 1)), f\<lparr>of_seq := of_seq f + 1\<rparr>)"
  by (simp add: next_id_def Let_def)

lemma unat_seq_suc: "unat (s :: u64) + 1 < 2 ^ 64 \<Longrightarrow> unat (s + 1) = unat s + 1"
  by (simp add: unat_word_ariths)

lemma minted_eq:
  "unat (of_seq f) + n < 2 ^ 64 \<Longrightarrow>
     minted n f = map (\<lambda>k. of_strategy_id f @ ''-'' @ fmt020 k) [Suc (unat (of_seq f))..<Suc (unat (of_seq f) + n)]"
proof (induction n arbitrary: f)
  case (Suc n)
  then have u: "unat (of_seq f + 1) = unat (of_seq f) + 1" by (intro unat_seq_suc) simp
  with Suc show ?case
    by (simp add: next_id_eq Let_def upt_conv_Cons del: upt_Suc)
qed simp

lemma minted_distinct:
  "unat (of_seq f) + n < 2 ^ 64 \<Longrightarrow> distinct (minted n f)"
  by (simp add: minted_eq distinct_map inj_on_def del: upt_Suc)

section \<open>Properties\<close>

text \<open>
  Client order ids never collide. The ids a factory mints are pairwise different for as long
  as its 64-bit sequence does not wrap, and after \<open>restore_seq\<close> at the last persisted
  sequence number none of the new ids equals one minted before the crash.
\<close>

theorem client_order_ids_unique:
  assumes "unat (of_seq f) + m + n < 2 ^ 64"
  shows "distinct (minted m f @ minted n (restore_seq (of_seq f + of_nat m) (factory_new (of_strategy_id f))))"
proof -
  have "unat (of_seq f + of_nat m) = unat (of_seq f) + m"
    using assms by (simp add: unat_word_ariths unat_of_nat)
  then show ?thesis
    using assms
    by (auto simp: minted_eq restore_seq_def factory_new_def distinct_map inj_on_def
        simp del: upt_Suc)
qed

theorem client_order_ids_unique_witness:
  "distinct (minted 2 (factory_new ''sma'') @ minted 3 (restore_seq 2 (factory_new ''sma'')))"
  using client_order_ids_unique [of "factory_new ''sma''" 2 3]
  by (simp add: factory_new_def)

end
