(* ===== verification/Persist.thy ===== *)
theory Persist
  imports Ports "HOL-Library.AList"
begin

text \<open>
  \<open>operations-interface/crates/coinext-persistence/src\<close>: the sequence cursors of \<open>cursor.rs\<close> and
  the append-only event log of \<open>event_store.rs\<close>. SQLite is outside the repository; a table is the
  list of its rows and a statement does to it what its SQL says. An event is stored as the text
  its derived serialization gives and read back from it, which the model identifies with the event.

  The locales \<open>seq_cursor\<close> and \<open>event_log\<close> are what the two traits promise.
\<close>

section \<open>Sequence cursors\<close>

type_synonym memory_cursor = "string \<rightharpoonup> u64"

definition memory_cursor_new :: memory_cursor where
  "memory_cursor_new = Map.empty"

definition memory_next :: "string \<Rightarrow> memory_cursor \<Rightarrow> u64 \<times> memory_cursor" where
  "memory_next ns c = (let e = (case c ns of Some v \<Rightarrow> v | None \<Rightarrow> 0) + 1 in (e, c(ns \<mapsto> e)))"

definition memory_current :: "string \<Rightarrow> memory_cursor \<Rightarrow> u64" where
  "memory_current ns c = (case c ns of Some v \<Rightarrow> v | None \<Rightarrow> 0)"

text \<open>
  The table \<open>seq_cursor (strategy_id PRIMARY KEY, seq)\<close>. Its column is a signed 64-bit integer;
  \<open>as u64\<close> reads the bits back.
\<close>

type_synonym sqlite_cursor = "(string \<times> int) list"

definition sqlite_load :: "string \<Rightarrow> sqlite_cursor \<Rightarrow> u64" where
  "sqlite_load ns t = of_int (case map_of t ns of Some v \<Rightarrow> v | None \<Rightarrow> 0)"

definition sqlite_save :: "string \<Rightarrow> u64 \<Rightarrow> sqlite_cursor \<Rightarrow> sqlite_cursor" where
  "sqlite_save ns n t = AList.update ns (sint n) t"

text \<open>
  \<open>next\<close>: insert 1 or add 1, then read the row back, in one transaction. Past the largest signed
  value SQLite answers with a real number, which the integer column type refuses: the transaction
  is rolled back.
\<close>

definition sqlite_next :: "string \<Rightarrow> sqlite_cursor \<Rightarrow> u64 option \<times> sqlite_cursor" where
  "sqlite_next ns t =
     (let v = (case map_of t ns of Some v \<Rightarrow> v + 1 | None \<Rightarrow> 1)
      in if v < 2 ^ 63 then (Some (of_int v), AList.update ns v t) else (None, t))"

section \<open>The event log\<close>

record event_row =
  er_strategy_id :: strategy_id
  er_client_order_id :: client_order_id
  er_seq :: int
  er_ts :: unix_nanos
  er_event :: order_event

type_synonym sqlite_store = "event_row list"

definition store_new :: sqlite_store where
  "store_new = []"

definition stream_of :: "client_order_id \<Rightarrow> sqlite_store \<Rightarrow> event_row list" where
  "stream_of i rows = filter (\<lambda>r. er_client_order_id r = i) rows"

definition next_seq :: "client_order_id \<Rightarrow> sqlite_store \<Rightarrow> int" where
  "next_seq i rows = (if stream_of i rows = [] then 0 else Max (er_seq ` set (stream_of i rows)) + 1)"

definition store_append ::
  "strategy_id \<Rightarrow> client_order_id \<Rightarrow> order_event \<Rightarrow> unix_nanos \<Rightarrow> sqlite_store \<Rightarrow> u64 \<times> sqlite_store" where
  "store_append sid i ev ts rows =
     (let n = next_seq i rows
      in (of_int n, rows @ [\<lparr>er_strategy_id = sid, er_client_order_id = i, er_seq = n, er_ts = ts, er_event = ev\<rparr>]))"

definition store_replay :: "client_order_id \<Rightarrow> sqlite_store \<Rightarrow> order_event list" where
  "store_replay i rows = map er_event (sort_key er_seq (stream_of i rows))"

text \<open>\<open>ORDER BY client_order_id, seq\<close>: text is compared by its bytes.\<close>

definition str_key :: "string \<Rightarrow> nat list" where
  "str_key s = map of_char s"

fun lex_less :: "nat list \<Rightarrow> nat list \<Rightarrow> bool" where
  "lex_less xs [] = False"
| "lex_less [] (y # ys) = True"
| "lex_less (x # xs) (y # ys) = (x < y \<or> (x = y \<and> lex_less xs ys))"

fun insert_sorted_by :: "('a \<Rightarrow> 'a \<Rightarrow> bool) \<Rightarrow> 'a \<Rightarrow> 'a list \<Rightarrow> 'a list" where
  "insert_sorted_by lt x [] = [x]"
| "insert_sorted_by lt x (y # ys) = (if lt x y then x # y # ys else y # insert_sorted_by lt x ys)"

definition order_by :: "('a \<Rightarrow> 'a \<Rightarrow> bool) \<Rightarrow> 'a list \<Rightarrow> 'a list" where
  "order_by lt xs = foldl (\<lambda>acc x. insert_sorted_by lt x acc) [] xs"

definition row_less :: "event_row \<Rightarrow> event_row \<Rightarrow> bool" where
  "row_less a b \<longleftrightarrow> lex_less (str_key (er_client_order_id a)) (str_key (er_client_order_id b)) \<or>
     (er_client_order_id a = er_client_order_id b \<and> er_seq a < er_seq b)"

definition store_all_for_strategy :: "strategy_id \<Rightarrow> sqlite_store \<Rightarrow> (client_order_id \<times> order_event) list" where
  "store_all_for_strategy sid rows =
     map (\<lambda>r. (er_client_order_id r, er_event r)) (order_by row_less (filter (\<lambda>r. er_strategy_id r = sid) rows))"

definition pair_less :: "string \<times> string \<Rightarrow> string \<times> string \<Rightarrow> bool" where
  "pair_less a b \<longleftrightarrow> lex_less (str_key (fst a)) (str_key (fst b)) \<or>
     (fst a = fst b \<and> lex_less (str_key (snd a)) (str_key (snd b)))"

definition store_list_orders :: "sqlite_store \<Rightarrow> (strategy_id \<times> client_order_id) list" where
  "store_list_orders rows =
     order_by pair_less (remdups (map (\<lambda>r. (er_strategy_id r, er_client_order_id r)) rows))"

text \<open>The log that keeps nothing.\<close>

definition null_append ::
  "strategy_id \<Rightarrow> client_order_id \<Rightarrow> order_event \<Rightarrow> unix_nanos \<Rightarrow> unit \<Rightarrow> u64 \<times> unit" where
  "null_append sid i ev ts u = (0, u)"

definition null_replay :: "client_order_id \<Rightarrow> unit \<Rightarrow> order_event list" where
  "null_replay i u = []"

section \<open>The contract of a cursor\<close>

locale seq_cursor =
  fixes nxt :: "string \<Rightarrow> 'c \<Rightarrow> u64 \<times> 'c" and cur :: "string \<Rightarrow> 'c \<Rightarrow> u64" and room :: "string \<Rightarrow> nat \<Rightarrow> 'c \<Rightarrow> bool"
  assumes next_val: "room ns (Suc n) c \<Longrightarrow> unat (fst (nxt ns c)) = Suc (unat (cur ns c))"
    and next_cur: "room ns (Suc n) c \<Longrightarrow> cur ns (snd (nxt ns c)) = fst (nxt ns c)"
    and next_other: "room ns (Suc n) c \<Longrightarrow> ns' \<noteq> ns \<Longrightarrow> cur ns' (snd (nxt ns c)) = cur ns' c"
    and next_room: "room ns (Suc n) c \<Longrightarrow> room ns n (snd (nxt ns c))"
begin

primrec issue :: "nat \<Rightarrow> string \<Rightarrow> 'c \<Rightarrow> u64 list \<times> 'c" where
  "issue 0 ns c = ([], c)"
| "issue (Suc n) ns c = (let (v, c1) = nxt ns c; (vs, c2) = issue n ns c1 in (v # vs, c2))"

lemma issue_values:
  "room ns n c \<Longrightarrow> map unat (fst (issue n ns c)) = [Suc (unat (cur ns c))..<Suc (unat (cur ns c) + n)]"
proof (induction n arbitrary: c)
  case (Suc n)
  then show ?case
    using next_val [of ns n c] next_cur [of ns n c] next_room [of ns n c]
    by (simp add: split_beta Let_def upt_conv_Cons del: upt_Suc)
qed simp

lemma issue_distinct: "room ns n c \<Longrightarrow> distinct (fst (issue n ns c))"
  using issue_values [of ns n c] distinct_map [of unat] by (metis distinct_upt)

end

interpretation memory: seq_cursor memory_next memory_current "\<lambda>ns n c. unat (memory_current ns c) + n < 2 ^ 64"
  by unfold_locales (auto simp: memory_next_def memory_current_def Let_def unat_word_ariths split: option.splits)

text \<open>The stored value, and the answer of \<open>next\<close> when it succeeds.\<close>

definition stored :: "string \<Rightarrow> sqlite_cursor \<Rightarrow> int" where
  "stored ns t = (case map_of t ns of Some v \<Rightarrow> v | None \<Rightarrow> 0)"

definition sqlite_issue :: "string \<Rightarrow> sqlite_cursor \<Rightarrow> u64 \<times> sqlite_cursor" where
  "sqlite_issue ns t = (case sqlite_next ns t of (r, t') \<Rightarrow> (the r, t'))"

lemma unat_of_int_small: "0 \<le> v \<Longrightarrow> v < 2 ^ 64 \<Longrightarrow> unat (of_int v :: u64) = nat v"
  by (simp add: unat_eq_nat_uint uint_word_of_int)

lemma sqlite_next_eq:
  assumes "0 \<le> stored ns t" "stored ns t + 1 < 2 ^ 63"
  shows "sqlite_next ns t = (Some (of_int (stored ns t + 1)), AList.update ns (stored ns t + 1) t)"
  using assms by (auto simp: sqlite_next_def stored_def Let_def split: option.splits)

lemma stored_update [simp]: "stored k (AList.update ns v t) = (if k = ns then v else stored k t)"
  by (simp add: stored_def update_conv')

interpretation sqlite: seq_cursor sqlite_issue sqlite_load "\<lambda>ns n t. 0 \<le> stored ns t \<and> stored ns t + int n < 2 ^ 63"
proof unfold_locales
  fix ns ns' n and t :: sqlite_cursor
  assume r: "0 \<le> stored ns t \<and> stored ns t + int (Suc n) < 2 ^ 63"
  then have eq: "sqlite_issue ns t = (of_int (stored ns t + 1), AList.update ns (stored ns t + 1) t)"
    using sqlite_next_eq [of ns t] by (simp add: sqlite_issue_def)
  have ld: "sqlite_load k u = of_int (stored k u)" for k u by (simp add: sqlite_load_def stored_def)
  show "unat (fst (sqlite_issue ns t)) = Suc (unat (sqlite_load ns t))"
    using r by (simp add: eq ld unat_of_int_small nat_add_distrib del: of_int_add)
  show "sqlite_load ns (snd (sqlite_issue ns t)) = fst (sqlite_issue ns t)" by (simp add: eq ld)
  show "sqlite_load ns' (snd (sqlite_issue ns t)) = sqlite_load ns' t" if "ns' \<noteq> ns" using that by (simp add: eq ld)
  show "0 \<le> stored ns (snd (sqlite_issue ns t)) \<and> stored ns (snd (sqlite_issue ns t)) + int n < 2 ^ 63"
    using r by (simp add: eq)
qed

lemma sqlite_load_stored: "sqlite_load k t = of_int (stored k t)"
  by (simp add: sqlite_load_def stored_def)

lemma sqlite_issue_stored:
  "0 \<le> stored ns t \<Longrightarrow> stored ns t + int n < 2 ^ 63 \<Longrightarrow>
    stored ns (snd (sqlite.issue n ns t)) = stored ns t + int n"
proof (induction n arbitrary: t)
  case (Suc n)
  have "sqlite_issue ns t = (of_int (stored ns t + 1), AList.update ns (stored ns t + 1) t)"
    using Suc.prems sqlite_next_eq [of ns t] by (simp add: sqlite_issue_def)
  then show ?case using Suc by (simp add: split_beta Let_def)
qed simp

section \<open>The contract of a log\<close>

locale event_log =
  fixes append :: "strategy_id \<Rightarrow> client_order_id \<Rightarrow> order_event \<Rightarrow> unix_nanos \<Rightarrow> 'l \<Rightarrow> u64 \<times> 'l"
    and replay :: "client_order_id \<Rightarrow> 'l \<Rightarrow> order_event list" and inv :: "'l \<Rightarrow> bool"
  assumes append_inv: "inv l \<Longrightarrow> inv (snd (append sid i ev ts l))"
    and append_seq: "inv l \<Longrightarrow> fst (append sid i ev ts l) = of_nat (length (replay i l))"
    and append_same: "inv l \<Longrightarrow> replay i (snd (append sid i ev ts l)) = replay i l @ [ev]"
    and append_other: "inv l \<Longrightarrow> j \<noteq> i \<Longrightarrow> replay j (snd (append sid i ev ts l)) = replay j l"
begin

definition append_all :: "(strategy_id \<times> client_order_id \<times> order_event \<times> unix_nanos) list \<Rightarrow> 'l \<Rightarrow> 'l" where
  "append_all xs l = fold (\<lambda>(sid, i, ev, ts) l. snd (append sid i ev ts l)) xs l"

lemma append_all_inv: "inv l \<Longrightarrow> inv (append_all xs l)"
  unfolding append_all_def by (induction xs arbitrary: l) (auto simp: append_inv)

lemma replay_all:
  "inv l \<Longrightarrow> replay i (append_all xs l) = replay i l @ map (\<lambda>(_, _, ev, _). ev) (filter (\<lambda>(_, j, _). j = i) xs)"
  unfolding append_all_def
  by (induction xs arbitrary: l) (auto simp: append_inv append_same append_other)

end

text \<open>In every stream the sequence numbers are \<open>0, 1, 2, \<dots>\<close> in the order of the rows.\<close>

definition store_ok :: "sqlite_store \<Rightarrow> bool" where
  "store_ok rows \<longleftrightarrow> (\<forall>i. map er_seq (stream_of i rows) = map int [0..<length (stream_of i rows)])"

lemma next_seq_eq:
  assumes "store_ok rows"
  shows "next_seq i rows = int (length (stream_of i rows))"
proof (cases "stream_of i rows = []")
  case False
  have "er_seq ` set (stream_of i rows) = set (map er_seq (stream_of i rows))" by simp
  also have "\<dots> = int ` {0..<length (stream_of i rows)}" using assms by (simp add: store_ok_def)
  finally have "Max (er_seq ` set (stream_of i rows)) = int (length (stream_of i rows) - 1)"
    using False by (intro Max_eqI) (auto simp: image_iff of_nat_diff Suc_le_eq intro!: bexI [of _ "length (stream_of i rows) - 1"])
  then show ?thesis using False by (simp add: next_seq_def of_nat_diff Suc_leI)
qed (simp add: next_seq_def)

lemma stream_of_append:
  "stream_of j (snd (store_append sid i ev ts rows)) = stream_of j rows @
     (if j = i then [\<lparr>er_strategy_id = sid, er_client_order_id = i, er_seq = next_seq i rows, er_ts = ts, er_event = ev\<rparr>] else [])"
  by (simp add: store_append_def stream_of_def Let_def)

lemma store_ok_append [coinext_inv]: "store_ok rows \<Longrightarrow> store_ok (snd (store_append sid i ev ts rows))"
  by (auto simp: store_ok_def stream_of_append next_seq_eq [unfolded store_ok_def])

lemma store_replay_eq:
  assumes "store_ok rows"
  shows "store_replay i rows = map er_event (stream_of i rows)"
proof -
  have "sorted (map er_seq (stream_of i rows))" using assms by (simp add: store_ok_def sorted_map sorted_wrt_upt)
  then show ?thesis by (simp add: store_replay_def sort_key_id_if_sorted)
qed

lemma store_append_seq: "store_ok rows \<Longrightarrow> fst (store_append sid i ev ts rows) = of_nat (length (stream_of i rows))"
  by (simp add: store_append_def Let_def next_seq_eq)

interpretation sqlite_log: event_log store_append store_replay store_ok
  by unfold_locales
    (simp_all add: store_ok_append store_replay_eq stream_of_append store_append_seq)

lemma store_ok_new: "store_ok store_new"
  by (simp add: store_ok_def store_new_def stream_of_def)

section \<open>Properties\<close>

text \<open>
  C21: the log rebuilds orders. However the events of many orders are interleaved in the log, if the
  events appended for an order are those it went through, replaying its stream and folding it
  gives back that order.
\<close>

theorem log_rebuilds_orders:
  assumes "order_reach D o1"
    "map (\<lambda>(_, _, ev, _). ev) (filter (\<lambda>(_, j, _). j = o_client_order_id o1) xs) = o_events o1"
  shows "order_replay D (o_strategy_id o1)
    (store_replay (o_client_order_id o1) (fold (\<lambda>(sid, i, ev, ts) l. snd (store_append sid i ev ts l)) xs store_new)) =
    Some (Ok o1)"
proof -
  have "store_replay (o_client_order_id o1) store_new = []"
    by (simp add: store_replay_def store_new_def stream_of_def)
  then have "store_replay (o_client_order_id o1) (sqlite_log.append_all xs store_new) = o_events o1"
    using sqlite_log.replay_all [OF store_ok_new] assms(2) by simp
  then show ?thesis using order_replay_reach [OF assms(1)] by (auto simp: sqlite_log.append_all_def)
qed

theorem log_rebuilds_orders_witness:
  "order_replay rdec ''s1'' (store_replay ''s1-1'' (snd (store_append ''s1'' ''s1-1'' (EvSubmitted 2) 6
      (snd (store_append ''s1'' ''other'' (EvSubmitted 9) 5 (snd (store_append ''s1'' ''s1-1'' (hd (o_events sample_order)) 4 [])))))))
   = Some (Ok (sample_order\<lparr>o_status := Submitted, o_ts_last := 2, o_events := o_events sample_order @ [EvSubmitted 2]\<rparr>))"
  using log_rebuilds_orders [OF sample_reach, of "[(''s1'', ''s1-1'', hd (o_events sample_order), 4),
      (''s1'', ''other'', EvSubmitted 9, 5), (''s1'', ''s1-1'', EvSubmitted 2, 6)]"]
  by (simp add: sample_order_def order_new_def store_new_def)

text \<open>The ids \<open>{strategy}-{seq:020}\<close> minted from a persisted cursor.\<close>

definition minted_from :: "nat \<Rightarrow> string \<Rightarrow> sqlite_cursor \<Rightarrow> client_order_id list" where
  "minted_from n sid t = map (\<lambda>v. sid @ ''-'' @ fmt020 (unat v)) (fst (seq_cursor.issue sqlite_issue n sid t))"

text \<open>
  Ids survive a restart. The ids minted before a restart and those minted after it, from the
  cursor as it was persisted, are pairwise distinct as long as the column can count them.
\<close>

theorem minted_ids_survive_restart:
  assumes "0 \<le> stored sid t" "stored sid t + int (n + m) < 2 ^ 63"
    "t' = snd (seq_cursor.issue sqlite_issue n sid t)"
  shows "distinct (minted_from n sid t @ minted_from m sid t')"
proof -
  let ?ids = "\<lambda>k u. fst (seq_cursor.issue sqlite_issue k sid u)"
  have room: "0 \<le> stored sid t' \<and> stored sid t' + int m < 2 ^ 63" and cur: "stored sid t' = stored sid t + int n"
    using assms sqlite_issue_stored [of sid t n] by auto
  have "map unat (?ids n t) = [Suc (nat (stored sid t))..<Suc (nat (stored sid t) + n)]"
    "map unat (?ids m t') = [Suc (nat (stored sid t) + n)..<Suc (nat (stored sid t) + n + m)]"
    using sqlite.issue_values [of sid t n] sqlite.issue_values [of sid t' m] room cur assms(1,2)
    by (simp_all add: sqlite_load_stored unat_of_int_small nat_add_distrib del: upt_Suc of_int_add)
  then have "distinct (map unat (?ids n t @ ?ids m t'))" by (simp del: upt_Suc)
  then have "distinct (?ids n t @ ?ids m t')" using distinct_map by blast
  then have "distinct (map (\<lambda>v. sid @ ''-'' @ fmt020 (unat v)) (?ids n t @ ?ids m t'))"
    by (simp only: distinct_map) (simp add: inj_on_def word_unat_eq_iff)
  then show ?thesis by (simp add: minted_from_def)
qed

theorem minted_ids_survive_restart_witness:
  "distinct (minted_from 3 ''s1'' [(''s1'', 41)] @ minted_from 2 ''s1'' (snd (seq_cursor.issue sqlite_issue 3 ''s1'' [(''s1'', 41)])))"
  by (rule minted_ids_survive_restart) (simp_all add: stored_def)

end
