(* ===== verification/Portfolio.thy ===== *)
theory Portfolio
  imports Ports
begin

text \<open>
  \<open>risk-portfolio/crates/coinext-portfolio/src/lib.rs\<close>: account and position analytics
  over the cache. The order in which the position table is iterated is the argument \<open>H\<close>,
  any permutation. A \<open>dyn Portfolio\<close> is the record of what its methods answer.
\<close>

section \<open>Operations\<close>

record portfolio_api =
  pf_position :: "instrument_id \<Rightarrow> position option"
  pf_net_exposure :: "instrument_id \<Rightarrow> money option"
  pf_unrealized_pnl :: "instrument_id \<Rightarrow> money option"
  pf_realized_pnl :: "instrument_id \<Rightarrow> money"
  pf_gross_exposure :: "money option"
  pf_balance :: "currency \<Rightarrow> money"
  pf_equity :: "money option"

text \<open>The inner option is the result of the function, the outer one a panic.\<close>

definition convert_to_settle ::
  "dec_ops \<Rightarrow> money \<Rightarrow> instrument \<Rightarrow> price \<Rightarrow> currency \<Rightarrow> decimal option option" where
  "convert_to_settle D v inst mark settle =
     (if m_ccy v = settle then map_option Some (money_amount D v)
      else if inst_is_inverse inst \<and> inst_quote_currency inst = settle \<and> m_ccy v = inst_base_currency inst
      then do { a \<leftarrow> money_amount D v; m \<leftarrow> price_as_decimal D mark; x \<leftarrow> d_mul D a m; Some (Some x) }
      else Some None)"

text \<open>\<open>if let Some(amt) = ... { total += amt }\<close>\<close>

definition add_converted :: "dec_ops \<Rightarrow> decimal option option \<Rightarrow> decimal \<Rightarrow> decimal option" where
  "add_converted D conv tot = do {
     amt \<leftarrow> conv;
     case amt of Some a \<Rightarrow> d_add D tot a | None \<Rightarrow> Some tot }"

definition net_exposure :: "dec_ops \<Rightarrow> cache \<Rightarrow> currency \<Rightarrow> instrument_id \<Rightarrow> money option" where
  "net_exposure D c settle i =
     (case (cache_position c i, cache_instrument c i, cache_mark c i) of
        (Some pos, Some inst, Some mark) \<Rightarrow> position_notional D mark inst pos
      | _ \<Rightarrow> Some (money_zero settle))"

definition portfolio_unrealized :: "dec_ops \<Rightarrow> cache \<Rightarrow> currency \<Rightarrow> instrument_id \<Rightarrow> money option" where
  "portfolio_unrealized D c settle i =
     (case (cache_position c i, cache_instrument c i, cache_mark c i) of
        (Some pos, Some inst, Some mark) \<Rightarrow> unrealized_pnl D mark inst pos
      | _ \<Rightarrow> Some (money_zero settle))"

definition portfolio_realized :: "cache \<Rightarrow> currency \<Rightarrow> instrument_id \<Rightarrow> money" where
  "portfolio_realized c settle i =
     (case cache_position c i of Some p \<Rightarrow> ps_realized_pnl p | None \<Rightarrow> money_zero settle)"

definition gross_step :: "dec_ops \<Rightarrow> cache \<Rightarrow> currency \<Rightarrow> position \<Rightarrow> decimal \<Rightarrow> decimal option" where
  "gross_step D c settle pos tot =
     (case (cache_instrument c (ps_instrument_id pos), cache_mark c (ps_instrument_id pos)) of
        (Some inst, Some mark) \<Rightarrow> do {
          notional \<leftarrow> position_notional D mark inst pos;
          add_converted D (convert_to_settle D notional inst mark settle) tot }
      | _ \<Rightarrow> Some tot)"

definition gross_exposure ::
  "(position list \<Rightarrow> position list) \<Rightarrow> dec_ops \<Rightarrow> cache \<Rightarrow> currency \<Rightarrow> money option" where
  "gross_exposure H D c settle = do {
     tot \<leftarrow> fold_opt (gross_step D c settle) (H (cache_positions c)) dec_zero;
     Some (unwrap_or (money_from_decimal D tot settle) (money_zero settle)) }"

definition portfolio_balance :: "cache \<Rightarrow> currency \<Rightarrow> money" where
  "portfolio_balance c ccy =
     (case cache_account c of Some a \<Rightarrow> account_balance a ccy | None \<Rightarrow> money_zero ccy)"

definition equity_step :: "dec_ops \<Rightarrow> cache \<Rightarrow> currency \<Rightarrow> position \<Rightarrow> decimal \<Rightarrow> decimal option" where
  "equity_step D c settle pos tot = do {
     let inst = cache_instrument c (ps_instrument_id pos);
     let mark = cache_mark c (ps_instrument_id pos);
     total1 \<leftarrow> (if m_ccy (ps_realized_pnl pos) = settle
        then do { a \<leftarrow> money_amount D (ps_realized_pnl pos); d_add D tot a }
        else case (inst, mark) of
               (Some i, Some m) \<Rightarrow>
                 add_converted D (convert_to_settle D (ps_realized_pnl pos) i m settle) tot
             | _ \<Rightarrow> Some tot);
     case (inst, mark) of
       (Some i, Some m) \<Rightarrow> do {
         unreal \<leftarrow> unrealized_pnl D m i pos;
         add_converted D (convert_to_settle D unreal i m settle) total1 }
     | _ \<Rightarrow> Some total1 }"

definition equity ::
  "(position list \<Rightarrow> position list) \<Rightarrow> dec_ops \<Rightarrow> cache \<Rightarrow> currency \<Rightarrow> money option" where
  "equity H D c settle = do {
     start \<leftarrow> (case cache_account c of Some a \<Rightarrow> money_amount D (account_balance a settle)
                                     | None \<Rightarrow> Some dec_zero);
     tot \<leftarrow> fold_opt (equity_step D c settle) (H (cache_positions c)) start;
     Some (unwrap_or (money_from_decimal D tot settle) (money_zero settle)) }"

text \<open>\<open>impl Portfolio for PortfolioState\<close>.\<close>

definition portfolio_state ::
  "(position list \<Rightarrow> position list) \<Rightarrow> dec_ops \<Rightarrow> cache \<Rightarrow> currency \<Rightarrow> portfolio_api" where
  "portfolio_state H D c settle =
     \<lparr>pf_position = cache_position c, pf_net_exposure = net_exposure D c settle,
      pf_unrealized_pnl = portfolio_unrealized D c settle,
      pf_realized_pnl = portfolio_realized c settle, pf_gross_exposure = gross_exposure H D c settle,
      pf_balance = portfolio_balance c, pf_equity = equity H D c settle\<rparr>"

section \<open>Exact sums\<close>

text \<open>
  The positions the cache holds are all settled in the aggregate currency, and have an
  instrument, a mark and values that convert without a panic; \<open>n\<close> and \<open>u\<close> name their
  notional and unrealized amounts.
\<close>

definition settled_book ::
  "dec_ops \<Rightarrow> cache \<Rightarrow> currency \<Rightarrow> (position \<Rightarrow> int) \<Rightarrow> (position \<Rightarrow> int) \<Rightarrow> bool" where
  "settled_book D c settle n u \<longleftrightarrow>
     (\<forall>p \<in> set (cache_positions c). \<exists>inst mark.
        cache_instrument c (ps_instrument_id p) = Some inst \<and>
        cache_mark c (ps_instrument_id p) = Some mark \<and>
        m_ccy (ps_realized_pnl p) = settle \<and>
        position_notional D mark inst p = Some (Money (n p) settle) \<and>
        unrealized_pnl D mark inst p = Some (Money (u p) settle))"

lemma mset_sum_list:
  assumes "mset xs = mset ys"
  shows "sum_list (map (f :: 'a \<Rightarrow> int) xs) = sum_list (map f ys)"
  by (metis assms mset_map sum_mset_sum_list)

context decimal_lib
begin

lemma add_scaled:
  assumes "wf_dec t" "dval t = of_int a / 10 ^ s" "\<bar>b\<bar> < 2 ^ 96" "\<bar>a + b\<bar> < 2 ^ 96" "s \<le> MAX_PRECISION"
  obtains r where "d_add D t \<lparr>mantissa = b, scale = s\<rparr> = Some r" "wf_dec r"
    "dval r = of_int (a + b) / 10 ^ s"
proof -
  have wf: "wf_dec \<lparr>mantissa = b, scale = s\<rparr>" using assms by (simp add: wf_dec_def MAX_PRECISION_def)
  have sum: "dval t + dval \<lparr>mantissa = b, scale = s\<rparr> = of_int (a + b) / 10 ^ s"
    using assms(2) by (simp add: dval_def add_divide_distrib)
  have "representable (of_int (a + b) / 10 ^ s)"
    using assms(4,5) by (intro representableI) (auto simp: MAX_PRECISION_def)
  then show thesis using add_ok [OF assms(1) wf] sum that by metis
qed

text \<open>A loop that adds one bounded amount per element, all at one scale, is an exact sum.\<close>

lemma fold_sum_exact:
  assumes step: "\<And>p t a. p \<in> set xs \<Longrightarrow> wf_dec t \<Longrightarrow> dval t = of_int a / 10 ^ s \<Longrightarrow>
      \<bar>a\<bar> + w p < 2 ^ 96 \<Longrightarrow> \<exists>r. f p t = Some r \<and> wf_dec r \<and> dval r = of_int (a + g p) / 10 ^ s"
    and bound: "\<And>p. \<bar>g p\<bar> \<le> w p"
    and start: "wf_dec t" "dval t = of_int a / 10 ^ s" "\<bar>a\<bar> + sum_list (map w xs) < 2 ^ 96"
  shows "\<exists>r. fold_opt f xs t = Some r \<and> wf_dec r \<and> dval r = of_int (a + sum_list (map g xs)) / 10 ^ s"
  using step start
proof (induction xs arbitrary: t a)
  case (Cons p xs)
  have w0: "0 \<le> w q" for q using bound [of q] by linarith
  have "0 \<le> sum_list (map w xs)" using w0 by (induction xs) auto
  then have "\<bar>a\<bar> + w p < 2 ^ 96" using Cons.prems(4) by simp
  then obtain r where r: "f p t = Some r" "wf_dec r" "dval r = of_int (a + g p) / 10 ^ s"
    using Cons.prems(1) [of p t a] Cons.prems(2,3) by auto
  have "\<bar>a + g p\<bar> + sum_list (map w xs) < 2 ^ 96" using bound [of p] Cons.prems(4) by simp
  then have "\<exists>r'. fold_opt f xs r = Some r' \<and> wf_dec r' \<and>
      dval r' = of_int ((a + g p) + sum_list (map g xs)) / 10 ^ s"
    using Cons.IH [OF _ r(2,3)] Cons.prems(1) by (metis list.set_intros(2))
  with r show ?case by (simp add: add.assoc)
qed simp

lemma money_total:
  assumes "wf_dec t" "dval t = of_int a / 10 ^ c_prec settle" "\<bar>a\<bar> < 2 ^ 96" "c_prec settle \<le> MAX_PRECISION"
  shows "money_from_decimal D t settle = Ok (Money a settle)"
  using quantize_scaled [OF assms(3,1,2,4)] by (simp add: money_from_decimal_def)

lemma add_settled:
  assumes "wf_dec t" "dval t = of_int a / 10 ^ c_prec settle" "\<bar>a\<bar> + \<bar>b\<bar> < 2 ^ 96" "c_prec settle \<le> MAX_PRECISION"
  shows "\<exists>r. add_converted D (convert_to_settle D (Money b settle) inst mark settle) t = Some r \<and>
    wf_dec r \<and> dval r = of_int (a + b) / 10 ^ c_prec settle"
proof -
  have b: "\<bar>b\<bar> < 2 ^ 96" "\<bar>a + b\<bar> < 2 ^ 96" using assms(3) by linarith+
  have "money_amount D (Money b settle) = Some \<lparr>mantissa = b, scale = c_prec settle\<rparr>"
    using b assms(4) by (simp add: money_amount_def from_i128_eq MAX_PRECISION_def)
  then show ?thesis
    using add_scaled [OF assms(1,2) b assms(4)]
    by (auto simp: add_converted_def convert_to_settle_def)
qed

lemma gross_exposure_sum:
  assumes book: "settled_book D c settle n u" and prec: "c_prec settle \<le> MAX_PRECISION"
    and H: "mset (H (cache_positions c)) = mset (cache_positions c)"
    and bound: "sum_list (map (\<lambda>p. \<bar>n p\<bar>) (cache_positions c)) < 2 ^ 96"
  shows "gross_exposure H D c settle = Some (Money (sum_list (map n (cache_positions c))) settle)"
proof -
  let ?xs = "H (cache_positions c)"
  have set: "set ?xs = set (cache_positions c)" using H mset_eq_setD by blast
  have sums: "sum_list (map n ?xs) = sum_list (map n (cache_positions c))"
    "sum_list (map (\<lambda>p. \<bar>n p\<bar>) ?xs) = sum_list (map (\<lambda>p. \<bar>n p\<bar>) (cache_positions c))"
    using mset_sum_list [OF H] by auto
  have step: "\<exists>r. gross_step D c settle p t = Some r \<and> wf_dec r \<and>
      dval r = of_int (a + n p) / 10 ^ c_prec settle"
    if "p \<in> set ?xs" "wf_dec t" "dval t = of_int a / 10 ^ c_prec settle" "\<bar>a\<bar> + \<bar>n p\<bar> < 2 ^ 96" for p t a
    using that book add_settled [OF that(2,3,4) prec] set
    by (fastforce simp: settled_book_def gross_step_def)
  have "\<exists>r. fold_opt (gross_step D c settle) ?xs dec_zero = Some r \<and> wf_dec r \<and>
      dval r = of_int (0 + sum_list (map n ?xs)) / 10 ^ c_prec settle"
    by (rule fold_sum_exact [where w = "\<lambda>p. \<bar>n p\<bar>"]) (use step bound sums in auto)
  then obtain r where r: "fold_opt (gross_step D c settle) ?xs dec_zero = Some r" "wf_dec r"
    "dval r = of_int (sum_list (map n ?xs)) / 10 ^ c_prec settle" by auto
  have "\<bar>sum_list (map n ?xs)\<bar> < 2 ^ 96"
    using sum_list_abs [of "map n ?xs"] sums(2) bound by (simp add: comp_def)
  from money_total [OF r(2,3) this prec] r(1) sums(1) show ?thesis
    by (simp add: gross_exposure_def)
qed

lemma equity_sum:
  assumes book: "settled_book D c settle n u" and prec: "c_prec settle \<le> MAX_PRECISION"
    and H: "mset (H (cache_positions c)) = mset (cache_positions c)"
    and ccy: "m_ccy (portfolio_balance c settle) = settle"
    and bound: "\<bar>m_amount (portfolio_balance c settle)\<bar> +
      sum_list (map (\<lambda>p. \<bar>m_amount (ps_realized_pnl p)\<bar> + \<bar>u p\<bar>) (cache_positions c)) < 2 ^ 96"
  shows "equity H D c settle = Some (Money (m_amount (portfolio_balance c settle) +
      sum_list (map (\<lambda>p. m_amount (ps_realized_pnl p) + u p) (cache_positions c))) settle)"
proof -
  let ?xs = "H (cache_positions c)" and ?b = "m_amount (portfolio_balance c settle)"
  let ?g = "\<lambda>p. m_amount (ps_realized_pnl p) + u p" and ?w = "\<lambda>p. \<bar>m_amount (ps_realized_pnl p)\<bar> + \<bar>u p\<bar>"
  have set: "set ?xs = set (cache_positions c)" using H mset_eq_setD by blast
  have sums: "sum_list (map ?g ?xs) = sum_list (map ?g (cache_positions c))"
    "sum_list (map ?w ?xs) = sum_list (map ?w (cache_positions c))"
    using mset_sum_list [OF H] by auto
  have step: "\<exists>r. equity_step D c settle p t = Some r \<and> wf_dec r \<and>
      dval r = of_int (a + ?g p) / 10 ^ c_prec settle"
    if p: "p \<in> set ?xs" and t: "wf_dec t" "dval t = of_int a / 10 ^ c_prec settle" and
      w: "\<bar>a\<bar> + ?w p < 2 ^ 96" for p t a
  proof -
    obtain inst mark where im: "cache_instrument c (ps_instrument_id p) = Some inst"
      "cache_mark c (ps_instrument_id p) = Some mark" "m_ccy (ps_realized_pnl p) = settle"
      "unrealized_pnl D mark inst p = Some (Money (u p) settle)"
      using book p set by (auto simp: settled_book_def)
    let ?a1 = "a + m_amount (ps_realized_pnl p)"
    have r0: "\<bar>m_amount (ps_realized_pnl p)\<bar> < 2 ^ 96" "\<bar>?a1\<bar> < 2 ^ 96" "\<bar>?a1\<bar> + \<bar>u p\<bar> < 2 ^ 96"
      using w by linarith+
    have amt: "money_amount D (ps_realized_pnl p) =
        Some \<lparr>mantissa = m_amount (ps_realized_pnl p), scale = c_prec settle\<rparr>"
      using im(3) r0(1) prec by (simp add: money_amount_def from_i128_eq MAX_PRECISION_def)
    obtain t1 where t1: "d_add D t \<lparr>mantissa = m_amount (ps_realized_pnl p), scale = c_prec settle\<rparr> = Some t1"
      "wf_dec t1" "dval t1 = of_int ?a1 / 10 ^ c_prec settle"
      using add_scaled [OF t r0(1,2) prec] .
    show ?thesis
      using add_settled [OF t1(2,3) r0(3) prec, of inst mark] im amt t1(1)
      by (auto simp: equity_step_def add.assoc)
  qed
  have b: "\<bar>?b\<bar> < 2 ^ 96"
  proof -
    have "0 \<le> sum_list (map ?w (cache_positions c))" by (rule sum_list_nonneg) auto
    then show ?thesis using bound by linarith
  qed
  obtain s where s: "(case cache_account c of Some a \<Rightarrow> money_amount D (account_balance a settle)
      | None \<Rightarrow> Some dec_zero) = Some s" "wf_dec s" "dval s = of_int ?b / 10 ^ c_prec settle"
  proof (cases "cache_account c")
    case None
    then show thesis using that [of dec_zero] by (simp add: portfolio_balance_def money_zero_def)
  next
    case (Some a)
    then have "account_balance a settle = Money ?b settle"
      using ccy by (simp add: portfolio_balance_def money.expand)
    with Some show thesis
      using that [of "\<lparr>mantissa = ?b, scale = c_prec settle\<rparr>"] b prec
      by (simp add: money_amount_def from_i128_eq MAX_PRECISION_def wf_dec_def dval_def)
  qed
  have "\<exists>r. fold_opt (equity_step D c settle) ?xs s = Some r \<and> wf_dec r \<and>
      dval r = of_int (?b + sum_list (map ?g ?xs)) / 10 ^ c_prec settle"
    by (rule fold_sum_exact [where w = ?w]) (use step bound sums s in auto)
  then obtain r where r: "fold_opt (equity_step D c settle) ?xs s = Some r" "wf_dec r"
    "dval r = of_int (?b + sum_list (map ?g ?xs)) / 10 ^ c_prec settle" by auto
  have "\<bar>sum_list (map ?g xs)\<bar> \<le> sum_list (map ?w xs)" for xs by (induction xs) auto
  from this [of ?xs] have "\<bar>?b + sum_list (map ?g ?xs)\<bar> < 2 ^ 96" using sums(2) bound by linarith
  from money_total [OF r(2,3) this prec] r(1) s(1) sums(1) show ?thesis by (simp add: equity_def)
qed

end

section \<open>Properties\<close>


definition sample_cache :: cache where
  "sample_cache = upsert_position (sample_position\<lparr>ps_realized_pnl := Money 1950 usdt\<rparr>)
     (set_mark (InstrumentId ''BTCUSDT'' ''BINANCE'') (Price 10400 2)
     (add_instrument sample_instrument
     (set_account (account_set_balance (Money 100000 usdt) (account_new ''acc'' usdt)) cache_new)))"

lemma sample_settled: "settled_book rdec sample_cache usdt (\<lambda>_. 31200) (\<lambda>_. 1200)"
proof -
  have "cache_positions sample_cache = [sample_position\<lparr>ps_realized_pnl := Money 1950 usdt\<rparr>]"
    "cache_instrument sample_cache (InstrumentId ''BTCUSDT'' ''BINANCE'') = Some sample_instrument"
    "cache_mark sample_cache (InstrumentId ''BTCUSDT'' ''BINANCE'') = Some (Price 10400 2)"
    by (simp_all add: sample_cache_def cache_positions_def upsert_position_def set_mark_def
        add_instrument_def set_account_def cache_new_def cache_instrument_def cache_mark_def
        sample_instrument_def currency_pair_dyn_def)
  moreover have "position_notional rdec (Price 10400 2) sample_instrument
      (sample_position\<lparr>ps_realized_pnl := Money 1950 usdt\<rparr>) = Some (Money 31200 usdt)"
    "unrealized_pnl rdec (Price 10400 2) sample_instrument
      (sample_position\<lparr>ps_realized_pnl := Money 1950 usdt\<rparr>) = Some (Money 1200 usdt)"
    by code_simp+
  ultimately show ?thesis by (simp add: settled_book_def sample_position_def)
qed

lemma sample_cache_positions:
  "cache_positions sample_cache = [sample_position\<lparr>ps_realized_pnl := Money 1950 usdt\<rparr>]"
  "portfolio_balance sample_cache usdt = Money 100000 usdt"
  by (simp_all add: sample_cache_def cache_positions_def upsert_position_def set_mark_def
      add_instrument_def set_account_def cache_new_def portfolio_balance_def cache_account_def
      account_balance_def account_set_balance_def account_new_def)


text \<open>
  Gross exposure is exact and does not depend on the hash order, under the same conditions:
  it is the sum of the position notionals.
\<close>

theorem gross_exposure_exact:
  assumes "decimal_lib D" "settled_book D c settle n u" "c_prec settle \<le> MAX_PRECISION"
    "mset (H (cache_positions c)) = mset (cache_positions c)"
    "sum_list (map (\<lambda>p. \<bar>n p\<bar>) (cache_positions c)) < 2 ^ 96"
  shows "gross_exposure H D c settle = Some (Money (sum_list (map n (cache_positions c))) settle)"
  by (rule decimal_lib.gross_exposure_sum) (rule assms)+

theorem gross_exposure_exact_witness: "gross_exposure rev rdec sample_cache usdt = Some (Money 31200 usdt)"
  using gross_exposure_exact [OF rd.decimal_lib_axioms sample_settled, of rev]
  by (simp add: sample_cache_positions MAX_PRECISION_def)

end
