(* ===== verification/Risk.thy ===== *)
theory Risk
  imports Portfolio
begin

text \<open>
  \<open>risk-portfolio/crates/coinext-risk-engine/src/lib.rs\<close>: the pre-trade gate. The
  portfolio it consults is an argument, as in the code; the cache it holds is passed alongside.
  An approved order is shown to respect every configured limit.
\<close>

section \<open>State and operations\<close>

record risk_gate =
  rg_limits :: risk_limits
  rg_killed :: bool

definition risk_gate_new :: "risk_limits \<Rightarrow> risk_gate" where
  "risk_gate_new limits = \<lparr>rg_limits = limits, rg_killed = False\<rparr>"

definition set_kill_switch :: "bool \<Rightarrow> risk_gate \<Rightarrow> risk_gate" where
  "set_kill_switch engaged g = g\<lparr>rg_killed := engaged\<rparr>"

definition is_killed :: "risk_gate \<Rightarrow> bool" where
  "is_killed g = rg_killed g"

definition signed_position_qty :: "dec_ops \<Rightarrow> portfolio_api \<Rightarrow> order \<Rightarrow> decimal option" where
  "signed_position_qty D pf o' =
     (case pf_position pf (o_instrument_id o') of
        Some p \<Rightarrow> (case ps_side p of
            Long \<Rightarrow> qty_as_decimal D (ps_quantity p)
          | Short \<Rightarrow> map_option (d_neg D) (qty_as_decimal D (ps_quantity p))
          | Flat \<Rightarrow> Some dec_zero)
      | None \<Rightarrow> Some dec_zero)"

text \<open>Each check answers the reason to deny, if it has one; the outer option is a panic.\<close>

definition check_notional ::
  "dec_ops \<Rightarrow> risk_limits \<Rightarrow> instrument \<Rightarrow> decimal \<Rightarrow> price option \<Rightarrow> order \<Rightarrow> deny_reason option option" where
  "check_notional D limits inst multiplier ref_px o' =
     (case ref_px of
        None \<Rightarrow> Some None
      | Some px \<Rightarrow> do {
          a \<leftarrow> price_as_decimal D px;
          b \<leftarrow> qty_as_decimal D (o_quantity o');
          ab \<leftarrow> d_mul D a b;
          notional \<leftarrow> d_mul D ab multiplier;
          low \<leftarrow> (case inst_min_notional inst of
                    None \<Rightarrow> Some False
                  | Some mn \<Rightarrow> do { m \<leftarrow> money_amount D mn; Some (d_lt D notional m) });
          if low then Some (Some MinNotional)
          else case rl_max_order_notional limits of
                 None \<Rightarrow> Some None
               | Some mx \<Rightarrow> do {
                   m \<leftarrow> money_amount D mx;
                   Some (if d_lt D m notional then Some MaxOrderNotional else None) } })"

definition check_position_qty ::
  "dec_ops \<Rightarrow> risk_limits \<Rightarrow> decimal \<Rightarrow> decimal \<Rightarrow> deny_reason option option" where
  "check_position_qty D limits cur delta =
     (case rl_max_position_qty limits of
        None \<Rightarrow> Some None
      | Some mx \<Rightarrow> do {
          s \<leftarrow> d_add D cur delta;
          m \<leftarrow> qty_as_decimal D mx;
          Some (if d_lt D m (d_abs D s) then Some MaxPositionExceeded else None) })"

definition check_gross ::
  "dec_ops \<Rightarrow> risk_limits \<Rightarrow> portfolio_api \<Rightarrow> deny_reason option option" where
  "check_gross D limits pf =
     (case rl_max_gross_exposure limits of
        None \<Rightarrow> Some None
      | Some mx \<Rightarrow> do {
          gross \<leftarrow> pf_gross_exposure pf;
          if m_ccy gross = m_ccy mx
          then do { g \<leftarrow> money_amount D gross; m \<leftarrow> money_amount D mx;
                    Some (if d_lt D m g then Some MaxGrossExposureExceeded else None) }
          else Some None })"

definition check_margin ::
  "dec_ops \<Rightarrow> risk_limits \<Rightarrow> portfolio_api \<Rightarrow> decimal \<Rightarrow> price option \<Rightarrow> decimal \<Rightarrow> decimal \<Rightarrow>
   deny_reason option option" where
  "check_margin D limits pf multiplier ref_px cur delta =
     (case (rl_leverage limits, ref_px) of
        (Some lev, Some px) \<Rightarrow>
          (if d_lt D dec_zero lev then do {
             s \<leftarrow> d_add D cur delta;
             added_qty \<leftarrow> d_sub D (d_abs D s) (d_abs D cur);
             if d_lt D dec_zero added_qty then do {
               p \<leftarrow> price_as_decimal D px;
               pq \<leftarrow> d_mul D p added_qty;
               added_notional \<leftarrow> d_mul D pq multiplier;
               eq_money \<leftarrow> pf_equity pf;
               eq_amount \<leftarrow> money_amount D eq_money;
               gross \<leftarrow> pf_gross_exposure pf;
               gross_amount \<leftarrow> money_amount D gross;
               used \<leftarrow> d_div D gross_amount lev;
               free \<leftarrow> d_sub D eq_amount used;
               need \<leftarrow> d_div D added_notional lev;
               Some (if d_lt D free need then Some InsufficientMargin else None) }
             else Some None }
           else Some None)
      | _ \<Rightarrow> Some None)"

text \<open>An early return on the first reason found.\<close>

definition or_deny :: "deny_reason option option \<Rightarrow> risk_decision option \<Rightarrow> risk_decision option" where
  "or_deny chk rest = do {
     r \<leftarrow> chk;
     case r of Some reason \<Rightarrow> Some (RiskDenied reason) | None \<Rightarrow> rest }"

definition risk_check ::
  "dec_ops \<Rightarrow> cache \<Rightarrow> risk_gate \<Rightarrow> order \<Rightarrow> portfolio_api \<Rightarrow> instrument \<Rightarrow> risk_decision option" where
  "risk_check D c g o' pf inst =
     (if is_killed g then Some (RiskDenied KillSwitchEngaged)
      else do {
        multiplier \<leftarrow> qty_as_decimal D (inst_multiplier inst);
        let ref_px = (case o_price o' of Some p \<Rightarrow> Some p | None \<Rightarrow> cache_mark c (o_instrument_id o'));
        or_deny (check_notional D (rg_limits g) inst multiplier ref_px o') (do {
          cur \<leftarrow> signed_position_qty D pf o';
          q \<leftarrow> qty_as_decimal D (o_quantity o');
          delta \<leftarrow> d_mul D (dec_int (side_sign (o_side o'))) q;
          or_deny (check_position_qty D (rg_limits g) cur delta)
          (or_deny (check_gross D (rg_limits g) pf)
          (or_deny (check_margin D (rg_limits g) pf multiplier ref_px cur delta)
            (Some RiskApproved))) }) })"

section \<open>What an approval guarantees\<close>

definition ref_price :: "cache \<Rightarrow> order \<Rightarrow> price option" where
  "ref_price c o' = (case o_price o' of Some p \<Rightarrow> Some p | None \<Rightarrow> cache_mark c (o_instrument_id o'))"

definition held_raw :: "portfolio_api \<Rightarrow> order \<Rightarrow> int" where
  "held_raw pf o' = (case pf_position pf (o_instrument_id o') of Some p \<Rightarrow> signed_raw p | None \<Rightarrow> 0)"

definition delta_raw :: "order \<Rightarrow> int" where
  "delta_raw o' = side_sign (o_side o') * q_raw (o_quantity o')"

text \<open>The order has a valid quantity at the precision of the position it trades.\<close>

definition order_fits :: "portfolio_api \<Rightarrow> order \<Rightarrow> bool" where
  "order_fits pf o' \<longleftrightarrow> valid_qty (o_quantity o') \<and>
     (\<forall>p. pf_position pf (o_instrument_id o') = Some p \<longrightarrow>
        position_ok p \<and> ps_size_precision p = q_prec (o_quantity o'))"

lemma or_deny_Approved:
  "or_deny chk rest = Some RiskApproved \<longleftrightarrow> chk = Some None \<and> rest = Some RiskApproved"
  by (auto simp: or_deny_def bind_eq_Some split: option.splits)

lemma risk_check_Approved:
  assumes "risk_check D c g o1 pf inst = Some RiskApproved"
  obtains multiplier cur q delta where "\<not> is_killed g"
    "qty_as_decimal D (inst_multiplier inst) = Some multiplier"
    "check_notional D (rg_limits g) inst multiplier (ref_price c o1) o1 = Some None"
    "signed_position_qty D pf o1 = Some cur" "qty_as_decimal D (o_quantity o1) = Some q"
    "d_mul D (dec_int (side_sign (o_side o1))) q = Some delta"
    "check_position_qty D (rg_limits g) cur delta = Some None" "check_gross D (rg_limits g) pf = Some None"
    "check_margin D (rg_limits g) pf multiplier (ref_price c o1) cur delta = Some None"
  using assms
  by (auto simp: risk_check_def ref_price_def [symmetric] or_deny_Approved bind_eq_Some Let_def
      split: if_split_asm)

lemma delta_raw_bound: "valid_qty (o_quantity o1) \<Longrightarrow> \<bar>delta_raw o1\<bar> < 2 ^ 63"
  by (cases "o_side o1") (auto simp: delta_raw_def valid_qty_def in_i64_def)

lemma held_raw_bound: "order_fits pf o1 \<Longrightarrow> \<bar>held_raw pf o1\<bar> < 2 ^ 63"
  using signed_raw_bound by (auto simp: order_fits_def held_raw_def split: option.splits)

lemma checks_leverage [simp]:
  "check_notional D (l\<lparr>rl_leverage := v\<rparr>) inst mp px o1 = check_notional D l inst mp px o1"
  "check_position_qty D (l\<lparr>rl_leverage := v\<rparr>) cur delta = check_position_qty D l cur delta"
  "check_gross D (l\<lparr>rl_leverage := v\<rparr>) pf = check_gross D l pf"
  by (simp_all add: check_notional_def check_position_qty_def check_gross_def cong: if_cong option.case_cong)

context decimal_lib
begin

lemma signed_position_qty_val:
  assumes "order_fits pf o1"
  obtains d where "signed_position_qty D pf o1 = Some d" "wf_dec d"
    "dval d = of_int (held_raw pf o1) / 10 ^ q_prec (o_quantity o1)"
proof (cases "pf_position pf (o_instrument_id o1)")
  case None
  then show thesis using that [of dec_zero] by (simp add: signed_position_qty_def held_raw_def)
next
  case (Some p)
  then have "position_ok p" "ps_size_precision p = q_prec (o_quantity o1)"
    using assms by (auto simp: order_fits_def)
  moreover have "signed_position_qty D pf o1 = position_signed D p" "held_raw pf o1 = signed_raw p"
    using Some by (simp_all add: signed_position_qty_def position_signed_def held_raw_def)
  ultimately show thesis using position_signed_val [of p] that by metis
qed

lemma delta_val:
  assumes "valid_qty (o_quantity o1)" "qty_as_decimal D (o_quantity o1) = Some q"
    "d_mul D (dec_int (side_sign (o_side o1))) q = Some delta"
  shows "wf_dec delta \<and> dval delta = of_int (delta_raw o1) / 10 ^ q_prec (o_quantity o1)"
  using fill_signed_val [OF assms(1), of "o_side o1"] assms
  by (metis as_decimal_qty delta_raw_def option.inject)

lemma position_limit:
  assumes "check_position_qty D l cur delta = Some None" "rl_max_position_qty l = Some mx" "valid_qty mx"
    "wf_dec cur" "wf_dec delta" "dval cur = of_int m / 10 ^ s" "dval delta = of_int n / 10 ^ s"
    "\<bar>m\<bar> < 2 ^ 63" "\<bar>n\<bar> < 2 ^ 63" "s \<le> MAX_PRECISION"
  shows "of_int \<bar>m + n\<bar> / 10 ^ s \<le> qty_val mx"
proof -
  obtain d where d: "d_add D cur delta = Some d" "dval d = of_int (m + n) / 10 ^ s"
    using signed_sum_val [OF assms(4-10)] .
  then have "\<not> d_lt D \<lparr>mantissa = q_raw mx, scale = q_prec mx\<rparr> (d_abs D d)"
    using assms(1-3) by (simp add: check_position_qty_def split: if_split_asm)
  then show ?thesis using d(2) by (simp add: lt_iff abs_divide not_less)
qed

lemma money_amount_val: "money_amount D m = Some d \<Longrightarrow> wf_dec d \<and> dval d = money_val m"
  by (auto simp: money_amount_def from_i128_eq wf_dec_def split: if_split_asm)

lemma notional_limits:
  assumes "check_notional D l inst mp (Some px) o1 = Some None"
    "qty_as_decimal D (inst_multiplier inst) = Some mp" "valid_price px" "valid_qty (o_quantity o1)"
    "valid_qty (inst_multiplier inst)" "representable (price_val px * qty_val (o_quantity o1))"
    "representable (price_val px * qty_val (o_quantity o1) * qty_val (inst_multiplier inst))"
  shows "(\<forall>mx. rl_max_order_notional l = Some mx \<longrightarrow>
      price_val px * qty_val (o_quantity o1) * qty_val (inst_multiplier inst) \<le> money_val mx) \<and>
    (\<forall>mn. inst_min_notional inst = Some mn \<longrightarrow>
      money_val mn \<le> price_val px * qty_val (o_quantity o1) * qty_val (inst_multiplier inst))"
proof -
  let ?a = "\<lparr>mantissa = p_raw px, scale = p_prec px\<rparr>"
  let ?b = "\<lparr>mantissa = q_raw (o_quantity o1), scale = q_prec (o_quantity o1)\<rparr>"
  have mp: "wf_dec mp" "dval mp = qty_val (inst_multiplier inst)"
    using assms(2,5) by (auto simp: wf_dec_qty)
  obtain ab where ab: "d_mul D ?a ?b = Some ab" "wf_dec ab" "dval ab = price_val px * qty_val (o_quantity o1)"
    using mul_ok [OF wf_dec_price [OF assms(3)] wf_dec_qty [OF assms(4)]] assms(6)
    unfolding dval_price dval_qty by metis
  obtain nt where nt: "d_mul D ab mp = Some nt"
    "dval nt = price_val px * qty_val (o_quantity o1) * qty_val (inst_multiplier inst)"
    using mul_ok [OF ab(2) mp(1)] ab(3) mp(2) assms(7) by metis
  show ?thesis
    using assms(1) ab(1) nt assms(3,4)
    by (auto simp: check_notional_def bind_eq_Some lt_iff not_less split: option.splits if_split_asm
        dest!: money_amount_val)
qed

lemma gross_limit:
  assumes "check_gross D l pf = Some None" "rl_max_gross_exposure l = Some mx"
    "pf_gross_exposure pf = Some g" "m_ccy g = m_ccy mx"
  shows "money_val g \<le> money_val mx"
  using assms
  by (auto simp: check_gross_def bind_eq_Some lt_iff not_less split: if_split_asm dest!: money_amount_val)

text \<open>An order that does not increase the absolute position passes the margin check.\<close>

lemma margin_reducing:
  assumes "wf_dec cur" "wf_dec delta" "dval cur = of_int m / 10 ^ s" "dval delta = of_int n / 10 ^ s"
    "\<bar>m\<bar> < 2 ^ 63" "\<bar>n\<bar> < 2 ^ 63" "s \<le> MAX_PRECISION" "\<bar>m + n\<bar> \<le> \<bar>m\<bar>"
  shows "check_margin D l pf mp ref_px cur delta = Some None"
proof -
  obtain d where d: "d_add D cur delta = Some d" "wf_dec d" "dval d = of_int (m + n) / 10 ^ s"
    using signed_sum_val [OF assms(1-7)] .
  have val: "dval (d_abs D d) - dval (d_abs D cur) = of_int (\<bar>m + n\<bar> - \<bar>m\<bar>) / 10 ^ s"
    using d(3) assms(3) by (simp add: abs_divide diff_divide_distrib)
  have rep: "representable (dval (d_abs D d) - dval (d_abs D cur))"
    unfolding val using assms(5,6,7) by (intro representableI) (auto simp: MAX_PRECISION_def)
  have wf: "wf_dec (d_abs D d)" "wf_dec (d_abs D cur)" using d(2) assms(1) by simp_all
  obtain r where r: "d_sub D (d_abs D d) (d_abs D cur) = Some r"
    "dval r = of_int (\<bar>m + n\<bar> - \<bar>m\<bar>) / 10 ^ s"
    using sub_ok [OF wf rep] unfolding val .
  have "of_int (\<bar>m + n\<bar> - \<bar>m\<bar>) \<le> (0 :: rat)" using assms(8) by (subst of_int_le_0_iff) simp
  then have "\<not> d_lt D dec_zero r"
    unfolding lt_iff r(2) dval_consts by (simp only: not_less divide_le_0_iff) simp
  then show ?thesis using d(1) r(1) by (simp add: check_margin_def split: option.splits)
qed

lemma approved_position_limit:
  assumes "order_fits pf o1" "risk_check D c g o1 pf inst = Some RiskApproved"
    "rl_max_position_qty (rg_limits g) = Some mx" "valid_qty mx"
  shows "of_int \<bar>held_raw pf o1 + delta_raw o1\<bar> / 10 ^ q_prec (o_quantity o1) \<le> qty_val mx"
proof -
  obtain cur q delta where r: "signed_position_qty D pf o1 = Some cur" "qty_as_decimal D (o_quantity o1) = Some q"
    "d_mul D (dec_int (side_sign (o_side o1))) q = Some delta"
    "check_position_qty D (rg_limits g) cur delta = Some None"
    using risk_check_Approved [OF assms(2)] by metis
  have vq: "valid_qty (o_quantity o1)" "q_prec (o_quantity o1) \<le> MAX_PRECISION"
    using assms(1) by (auto simp: order_fits_def valid_qty_def)
  have cur: "wf_dec cur" "dval cur = of_int (held_raw pf o1) / 10 ^ q_prec (o_quantity o1)"
    using signed_position_qty_val [OF assms(1)] r(1) by auto
  note delta = delta_val [OF vq(1) r(2,3)]
  show ?thesis
    using position_limit [OF r(4) assms(3,4) cur(1) _ cur(2) _ held_raw_bound [OF assms(1)]
        delta_raw_bound [OF vq(1)] vq(2)] delta by simp
qed

lemma reducing_no_margin:
  assumes "order_fits pf o1" "\<bar>held_raw pf o1 + delta_raw o1\<bar> \<le> \<bar>held_raw pf o1\<bar>"
  shows "risk_check D c g o1 pf inst =
    risk_check D c (g\<lparr>rg_limits := (rg_limits g)\<lparr>rl_leverage := None\<rparr>\<rparr>) o1 pf inst"
proof -
  have vq: "valid_qty (o_quantity o1)" "q_prec (o_quantity o1) \<le> MAX_PRECISION"
    using assms(1) by (auto simp: order_fits_def valid_qty_def)
  obtain cur where cur: "signed_position_qty D pf o1 = Some cur" "wf_dec cur"
    "dval cur = of_int (held_raw pf o1) / 10 ^ q_prec (o_quantity o1)"
    using signed_position_qty_val [OF assms(1)] .
  let ?q = "\<lparr>mantissa = q_raw (o_quantity o1), scale = q_prec (o_quantity o1)\<rparr>"
  obtain delta where delta: "d_mul D (dec_int (side_sign (o_side o1))) ?q = Some delta" "wf_dec delta"
    "dval delta = of_int (delta_raw o1) / 10 ^ q_prec (o_quantity o1)"
    using fill_signed_val [OF vq(1), of "o_side o1"] by (auto simp: delta_raw_def)
  have "check_margin D l pf mp px cur delta = Some None" for l mp px
    using margin_reducing [OF cur(2) delta(2) cur(3) delta(3) held_raw_bound [OF assms(1)]
        delta_raw_bound [OF vq(1)] vq(2) assms(2)] .
  then show ?thesis
    using cur(1) delta(1) vq(1)
    by (simp add: risk_check_def is_killed_def)
qed

end

section \<open>Properties\<close>

text \<open>
  The kill switch. While it is engaged every order is denied with that reason, whatever the
  order, the portfolio and the limits, and no decimal arithmetic that could panic is reached;
  once released, the gate decides as it did before it was engaged.
\<close>

theorem kill_switch_denies:
  "risk_check D c (set_kill_switch True g) o1 pf inst = Some (RiskDenied KillSwitchEngaged) \<and>
   (\<not> is_killed g \<longrightarrow>
     risk_check D c (set_kill_switch False (set_kill_switch True g)) o1 pf inst = risk_check D c g o1 pf inst)"
  by (simp add: risk_check_def set_kill_switch_def is_killed_def)

definition open_gate :: risk_gate where
  "open_gate = risk_gate_new (unlimited\<lparr>rl_max_position_qty := Some (Quantity 10 0),
     rl_max_order_notional := Some (Money 60000 usdt), rl_leverage := Some (dec_int 2)\<rparr>)"

definition sample_pf :: portfolio_api where
  "sample_pf = portfolio_state id rdec sample_cache usdt"

theorem kill_switch_denies_witness:
  "risk_check rdec sample_cache (set_kill_switch False (set_kill_switch True open_gate)) sample_order
     sample_pf sample_instrument = risk_check rdec sample_cache open_gate sample_order sample_pf sample_instrument"
  using kill_switch_denies [of rdec sample_cache open_gate sample_order sample_pf sample_instrument]
  by (simp add: open_gate_def risk_gate_new_def is_killed_def)


lemma sample_approved:
  "risk_check rdec sample_cache open_gate sample_order sample_pf sample_instrument = Some RiskApproved"
proof -
  have pf: "sample_pf = \<lparr>pf_position = cache_position sample_cache,
      pf_net_exposure = net_exposure rdec sample_cache usdt,
      pf_unrealized_pnl = portfolio_unrealized rdec sample_cache usdt,
      pf_realized_pnl = portfolio_realized sample_cache usdt,
      pf_gross_exposure = Some (Money 31200 usdt), pf_balance = portfolio_balance sample_cache,
      pf_equity = Some (Money 103150 usdt)\<rparr>"
    using decimal_lib.equity_sum [OF rd.decimal_lib_axioms sample_settled, of id]
      decimal_lib.gross_exposure_sum [OF rd.decimal_lib_axioms sample_settled, of id]
    by (simp add: sample_pf_def portfolio_state_def sample_cache_positions MAX_PRECISION_def)
  show ?thesis unfolding pf by code_simp
qed

lemma sample_fits: "order_fits sample_pf sample_order"
  using sample_position_ok
  by (auto simp: order_fits_def sample_order_def order_new_def sample_pf_def portfolio_state_def
      sample_cache_def sample_position_def position_ok_def valid_qty_def in_i64_def MAX_PRECISION_def
      cache_position_def set_mark_def upsert_position_def add_instrument_def set_account_def cache_new_def)


text \<open>
  An order that does not increase the absolute position is never held back by the margin
  rule: the gate answers exactly as if no leverage limit were configured.
\<close>

theorem reducing_order_ignores_margin:
  assumes "decimal_lib D" "order_fits pf o1"
    "\<bar>held_raw pf o1 + delta_raw o1\<bar> \<le> \<bar>held_raw pf o1\<bar>"
  shows "risk_check D c g o1 pf inst =
    risk_check D c (g\<lparr>rg_limits := (rg_limits g)\<lparr>rl_leverage := None\<rparr>\<rparr>) o1 pf inst"
  using decimal_lib.reducing_no_margin [OF assms] .

theorem reducing_order_ignores_margin_witness:
  "risk_check rdec sample_cache open_gate (sample_order\<lparr>o_side := Sell, o_quantity := Quantity 2 0\<rparr>)
     sample_pf sample_instrument =
   risk_check rdec sample_cache (open_gate\<lparr>rg_limits := (rg_limits open_gate)\<lparr>rl_leverage := None\<rparr>\<rparr>)
     (sample_order\<lparr>o_side := Sell, o_quantity := Quantity 2 0\<rparr>) sample_pf sample_instrument"
proof (rule reducing_order_ignores_margin [OF rd.decimal_lib_axioms])
  let ?o = "sample_order\<lparr>o_side := Sell, o_quantity := Quantity 2 0\<rparr>"
  show "order_fits sample_pf ?o"
    using sample_fits by (simp add: order_fits_def sample_order_def order_new_def valid_qty_def
        in_i64_def MAX_PRECISION_def)
  have "held_raw sample_pf ?o = 3" "delta_raw ?o = - 2"
    by (simp_all add: held_raw_def delta_raw_def sample_order_def order_new_def sample_pf_def
        portfolio_state_def sample_cache_def sample_position_def signed_raw_def)
  then show "\<bar>held_raw sample_pf ?o + delta_raw ?o\<bar> \<le> \<bar>held_raw sample_pf ?o\<bar>" by simp
qed

end
