(* ===== verification/Brokerage.thy ===== *)
theory Brokerage
  imports Risk
begin

text \<open>
  \<open>backtesting-simulation/crates/coinext-sim/src/brokerage.rs\<close>: venue economics. A
  \<open>dyn BrokerageModel\<close> is the record of its methods (\<open>None\<close> is a panic in the
  decimal arithmetic). The locale \<open>brokerage\<close> states the trait's documented obligation that
  a fill never exceeds what is left; \<open>DefaultBrokerageModel\<close> is proved to meet it.
\<close>

section \<open>The trait\<close>

datatype command_kind = KSubmit | KCancel | KModify

record brokerage_model =
  bm_latency_ns :: "command_kind \<Rightarrow> u64"
  bm_fill_price :: "order \<Rightarrow> price \<Rightarrow> (price \<times> price) option \<Rightarrow> instrument \<Rightarrow> price option"
  bm_fillable_qty :: "quantity \<Rightarrow> quantity \<Rightarrow> instrument \<Rightarrow> quantity option"
  bm_initial_queue_ahead :: "quantity \<Rightarrow> instrument \<Rightarrow> quantity option"
  bm_fee :: "order \<Rightarrow> price \<Rightarrow> quantity \<Rightarrow> liquidity_side \<Rightarrow> instrument \<Rightarrow> money option"

locale brokerage =
  fixes B :: brokerage_model
  assumes fillable_le: "valid_qty leaves \<Longrightarrow> bm_fillable_qty B leaves v inst = Some q \<Longrightarrow>
    valid_qty q \<and> q_prec q = q_prec leaves \<and> q_raw q \<le> q_raw leaves"
begin

text \<open>What is left after a fill is exactly the difference.\<close>

lemma remaining_after_fill:
  assumes "valid_qty leaves" "bm_fillable_qty B leaves v inst = Some q"
  shows "qty_checked_sub leaves q = Ok (Quantity (q_raw leaves - q_raw q) (q_prec leaves))"
  using fillable_le [OF assms] assms(1) by (subst qty_checked_sub_total) auto

end

section \<open>The default model\<close>

record default_brokerage_model =
  db_slippage_bps :: decimal
  db_range_impact :: decimal
  db_participation_rate :: decimal
  db_queue_ahead_factor :: decimal
  db_latency_ns :: u64

definition default_default :: default_brokerage_model where
  "default_default =
     \<lparr>db_slippage_bps = dec_new 1 0, db_range_impact = dec_new 1 1,
      db_participation_rate = dec_new 25 2, db_queue_ahead_factor = dec_zero,
      db_latency_ns = 1000000\<rparr>"

text \<open>\<open>bar_range.filter(|(lo, hi)| hi > lo)\<close>\<close>

definition real_range ::
  "dec_ops \<Rightarrow> (price \<times> price) option \<Rightarrow> (decimal \<times> decimal) option option" where
  "real_range D bar_range =
     (case bar_range of
        None \<Rightarrow> Some None
      | Some (lo, hi) \<Rightarrow> do {
          h \<leftarrow> price_as_decimal D hi;
          l \<leftarrow> price_as_decimal D lo;
          Some (if d_lt D l h then Some (l, h) else None) })"

definition default_fill_price ::
  "dec_ops \<Rightarrow> default_brokerage_model \<Rightarrow> order \<Rightarrow> price \<Rightarrow> (price \<times> price) option \<Rightarrow> instrument \<Rightarrow>
   price option" where
  "default_fill_price D M o' ref_px bar_range inst = do {
     ref_d \<leftarrow> price_as_decimal D ref_px;
     x \<leftarrow> d_mul D ref_d (db_slippage_bps M);
     base_slip \<leftarrow> d_div D x (dec_int 10000);
     rr \<leftarrow> real_range D bar_range;
     range_slip \<leftarrow> (case rr of
         Some (lo, hi) \<Rightarrow> do { w \<leftarrow> d_sub D hi lo; d_mul D w (db_range_impact M) }
       | None \<Rightarrow> Some dec_zero);
     adjusted \<leftarrow> (case o_side o' of
         Buy \<Rightarrow> do {
           base \<leftarrow> d_add D ref_d base_slip;
           full \<leftarrow> d_add D base range_slip;
           Some (case rr of Some (lo, hi) \<Rightarrow> d_max D (d_min D full hi) base | None \<Rightarrow> full) }
       | Sell \<Rightarrow> do {
           base \<leftarrow> d_sub D ref_d base_slip;
           full \<leftarrow> d_sub D base range_slip;
           Some (case rr of Some (lo, hi) \<Rightarrow> d_min D (d_max D full lo) base | None \<Rightarrow> full) });
     Some (unwrap_or (make_price D inst adjusted) ref_px) }"

definition default_fillable_qty ::
  "dec_ops \<Rightarrow> default_brokerage_model \<Rightarrow> quantity \<Rightarrow> quantity \<Rightarrow> instrument \<Rightarrow> quantity option" where
  "default_fillable_qty D M leaves bar_volume inst =
     (if d_le D (db_participation_rate M) dec_zero then Some leaves
      else do {
        vol \<leftarrow> qty_as_decimal D bar_volume;
        if d_le D vol dec_zero then Some leaves
        else do {
          let prec = q_prec leaves;
          x \<leftarrow> d_mul D (db_participation_rate M) vol;
          let floored = d_round_to_zero D x prec;
          one_lot \<leftarrow> qty_as_decimal D (inst_size_increment inst);
          l \<leftarrow> qty_as_decimal D leaves;
          let fillable = d_min D (d_max D floored one_lot) l;
          Some (unwrap_or (qty_from_decimal D fillable prec) leaves) } })"

definition default_initial_queue_ahead ::
  "dec_ops \<Rightarrow> default_brokerage_model \<Rightarrow> quantity \<Rightarrow> instrument \<Rightarrow> quantity option" where
  "default_initial_queue_ahead D M bar_volume inst =
     (if d_le D (db_queue_ahead_factor M) dec_zero then Some (qty_zero (q_prec bar_volume))
      else do {
        let prec = q_prec bar_volume;
        vol \<leftarrow> qty_as_decimal D bar_volume;
        x \<leftarrow> d_mul D (db_queue_ahead_factor M) vol;
        Some (unwrap_or (qty_from_decimal D (d_round_to_zero D x prec) prec) (qty_zero prec)) })"

definition default_fee ::
  "dec_ops \<Rightarrow> default_brokerage_model \<Rightarrow> order \<Rightarrow> price \<Rightarrow> quantity \<Rightarrow> liquidity_side \<Rightarrow> instrument \<Rightarrow>
   money option" where
  "default_fee D M o' fill_px fill_qty liquidity inst = do {
     let rate = (case liquidity of Maker \<Rightarrow> inst_maker_fee inst | Taker \<Rightarrow> inst_taker_fee inst);
     px \<leftarrow> price_as_decimal D fill_px;
     multiplier \<leftarrow> qty_as_decimal D (inst_multiplier inst);
     qty \<leftarrow> qty_as_decimal D fill_qty;
     notional \<leftarrow> (if inst_is_inverse inst
        then if dec_is_zero px then Some dec_zero
             else do { a \<leftarrow> d_mul D qty multiplier; d_div D a px }
        else do { a \<leftarrow> d_mul D px qty; d_mul D a multiplier });
     f \<leftarrow> d_mul D notional rate;
     Some (unwrap_or (money_from_decimal D f (inst_settlement_currency inst))
             (money_zero (inst_settlement_currency inst))) }"

text \<open>\<open>impl BrokerageModel for DefaultBrokerageModel\<close>.\<close>

definition default_model :: "dec_ops \<Rightarrow> default_brokerage_model \<Rightarrow> brokerage_model" where
  "default_model D M =
     \<lparr>bm_latency_ns = (\<lambda>_. db_latency_ns M), bm_fill_price = default_fill_price D M,
      bm_fillable_qty = default_fillable_qty D M,
      bm_initial_queue_ahead = default_initial_queue_ahead D M, bm_fee = default_fee D M\<rparr>"

section \<open>The default model meets the contract\<close>

locale default_brokerage = decimal_lib +
  fixes M :: default_brokerage_model
  assumes rate_wf: "wf_dec (db_participation_rate M)"
begin

lemma qty_from_decimal_le:
  assumes "wf_dec d" "qty_from_decimal D d (q_prec l) = Ok q" "dval d \<le> qty_val l"
  shows "q_raw q \<le> q_raw l"
proof -
  obtain k where k: "quantize D d (q_prec l) = Ok k" "q = Quantity k (q_prec l)"
    using assms(2) by (auto simp: qty_from_decimal_def result_bind_Inr i64_try_from_def qty_from_raw_Ok
        split: if_split_asm)
  have "k = round_half_even (dval d * 10 ^ q_prec l)"
    using k(1) quantize_spec [OF assms(1)] by (simp split: if_split_asm)
  moreover have "dval d * 10 ^ q_prec l \<le> of_int (q_raw l)"
    using assms(3) by (simp add: qty_val_def field_simps)
  ultimately show ?thesis using k(2) round_half_even_le by simp
qed

lemma default_fillable_le:
  assumes "valid_qty leaves" "default_fillable_qty D M leaves v inst = Some q"
  shows "valid_qty q \<and> q_prec q = q_prec leaves \<and> q_raw q \<le> q_raw leaves"
proof (cases "d_le D (db_participation_rate M) dec_zero")
  case True
  then show ?thesis using assms by (simp add: default_fillable_qty_def)
next
  case False
  then obtain vol where vol: "qty_as_decimal D v = Some vol"
    using assms(2) by (auto simp: default_fillable_qty_def bind_eq_Some)
  show ?thesis
  proof (cases "d_le D vol dec_zero")
    case True
    then show ?thesis using assms False vol by (simp add: default_fillable_qty_def)
  next
    case pos: False
    obtain x lot l where r: "d_mul D (db_participation_rate M) vol = Some x"
      "qty_as_decimal D (inst_size_increment inst) = Some lot" "qty_as_decimal D leaves = Some l"
      "q = unwrap_or (qty_from_decimal D (d_min D (d_max D (d_round_to_zero D x (q_prec leaves)) lot) l)
             (q_prec leaves)) leaves" (is "q = unwrap_or (qty_from_decimal D ?f _) _")
      using assms(2) False pos vol by (auto simp: default_fillable_qty_def bind_eq_Some Let_def)
    have "wf_dec x" using mul_wf [OF rate_wf _ r(1)] qty_as_decimal_val [OF vol] by simp
    then have wf: "wf_dec ?f"
      using qty_as_decimal_val [OF r(2)] qty_as_decimal_val [OF r(3)]
      by (intro wf_min wf_max round_to_zero_wf) auto
    have le: "dval ?f \<le> qty_val leaves" using qty_as_decimal_val [OF r(3)] by simp
    show ?thesis
    proof (cases "qty_from_decimal D ?f (q_prec leaves)")
      case (Inr k)
      then show ?thesis
        using r(4) qty_from_decimal_valid [OF Inr] qty_from_decimal_le [OF wf Inr le] by simp
    qed (use r(4) assms(1) in simp)
  qed
qed

end

sublocale default_brokerage \<subseteq> brokerage "default_model D M"
  by unfold_locales (simp add: default_model_def default_fillable_le)

text \<open>The code's own \<open>Default\<close> configuration is an instance.\<close>

interpretation rdm: default_brokerage rdec default_default
  by unfold_locales (simp add: default_default_def dec_new_def wf_dec_def)

section \<open>Properties\<close>

text \<open>
  Participation never over-fills. Whatever the rate, the volume and the lot size, the default
  model's fillable quantity is a valid quantity at the order's precision and at most what is left.
\<close>

theorem default_fillable_never_overfills:
  assumes "decimal_lib D" "wf_dec (db_participation_rate M)" "valid_qty leaves"
    "default_fillable_qty D M leaves v inst = Some q"
  shows "valid_qty q \<and> q_prec q = q_prec leaves \<and> q_raw q \<le> q_raw leaves"
  using default_brokerage.default_fillable_le [OF default_brokerage.intro [OF assms(1)]] assms(2-4)
  by (simp add: default_brokerage_axioms_def)

theorem default_fillable_never_overfills_witness:
  "default_fillable_qty rdec default_default (Quantity 100 0) (Quantity 30 0) sample_instrument =
     Some (Quantity 7 0) \<and> q_raw (Quantity 7 0) \<le> q_raw (Quantity 100 0)"
proof -
  have "default_fillable_qty rdec default_default (Quantity 100 0) (Quantity 30 0) sample_instrument =
      Some (Quantity 7 0)" by code_simp
  with default_fillable_never_overfills [OF rd.decimal_lib_axioms _ _ this] show ?thesis
    by (simp add: default_default_def dec_new_def wf_dec_def valid_qty_def in_i64_def MAX_PRECISION_def)
qed

end
