(* ===== verification/Sim.thy ===== *)
theory Sim
  imports Brokerage
begin

text \<open>
  \<open>backtesting-simulation/crates/coinext-sim/src/lib.rs\<close>: the simulated exchange. The
  shared clock and cache of \<open>SimulatedExecutionClient\<close> are passed as the current time and
  the cache; its \<open>RefCell\<close> state is the record \<open>sim_state\<close>. Matching one market event
  first decides an outcome for every resting order and then schedules the fills in order, as the
  two phases of \<open>on_market\<close> do. The min-heap of scheduled reports is its list sorted by due
  time and sequence number.
\<close>

section \<open>The delayed event queue\<close>

record scheduled =
  sd_due :: unix_nanos
  sd_seq :: u64
  sd_report :: execution_report

definition sched_key :: "scheduled \<Rightarrow> unix_nanos \<times> u64" where
  "sched_key s = (sd_due s, sd_seq s)"

record delayed_queue =
  dq_heap :: "scheduled list"
  dq_seq :: u64

definition dq_new :: delayed_queue where
  "dq_new = \<lparr>dq_heap = [], dq_seq = 0\<rparr>"

definition dq_push :: "unix_nanos \<Rightarrow> execution_report \<Rightarrow> delayed_queue \<Rightarrow> delayed_queue" where
  "dq_push due rep q =
     (let n = dq_seq q + 1
      in q\<lparr>dq_seq := n,
           dq_heap := pq_push sched_key \<lparr>sd_due = due, sd_seq = n, sd_report = rep\<rparr> (dq_heap q)\<rparr>)"

definition dq_peek_due :: "delayed_queue \<Rightarrow> unix_nanos option" where
  "dq_peek_due q = (case dq_heap q of [] \<Rightarrow> None | s # _ \<Rightarrow> Some (sd_due s))"

text \<open>The loop pops while the earliest report is due.\<close>

fun drain_loop :: "unix_nanos \<Rightarrow> scheduled list \<Rightarrow> execution_report list \<times> scheduled list" where
  "drain_loop frontier [] = ([], [])"
| "drain_loop frontier (s # h) =
     (if frontier < sd_due s then ([], s # h)
      else let (out, h') = drain_loop frontier h in (sd_report s # out, h'))"

definition dq_drain_due :: "unix_nanos \<Rightarrow> delayed_queue \<Rightarrow> execution_report list \<times> delayed_queue" where
  "dq_drain_due frontier q =
     (let (out, h) = drain_loop frontier (dq_heap q) in (out, q\<lparr>dq_heap := h\<rparr>))"

section \<open>Venue state\<close>

record trail_state =
  tr_offset :: price
  tr_extreme :: price

record resting =
  rs_order :: order
  rs_remaining :: quantity
  rs_queue_ahead :: "quantity option"
  rs_venue_order_id :: venue_order_id
  rs_trail :: "trail_state option"
  rs_pending_open :: bool

record sim_state =
  sm_queue :: delayed_queue
  sm_resting :: "resting list"
  sm_last_bar :: "instrument_id \<rightharpoonup> price \<times> price \<times> quantity"
  sm_venue_seq :: u64
  sm_trade_seq :: u64

definition sim_new :: sim_state where
  "sim_new =
     \<lparr>sm_queue = dq_new, sm_resting = [], sm_last_bar = Map.empty, sm_venue_seq = 0, sm_trade_seq = 0\<rparr>"

definition reference_price :: "cache \<Rightarrow> instrument_id \<Rightarrow> order_side \<Rightarrow> price option" where
  "reference_price c i side =
     (case cache_quote c i of
        Some q \<Rightarrow> Some (case side of Buy \<Rightarrow> qt_ask q | Sell \<Rightarrow> qt_bid q)
      | None \<Rightarrow> cache_mark c i)"

definition next_venue_id :: "sim_state \<Rightarrow> venue_order_id \<times> sim_state" where
  "next_venue_id s =
     (let n = sm_venue_seq s + 1 in (''SIM-'' @ fmt020 (unat n), s\<lparr>sm_venue_seq := n\<rparr>))"

definition next_trade_id :: "sim_state \<Rightarrow> trade_id \<times> sim_state" where
  "next_trade_id s =
     (let n = sm_trade_seq s + 1 in (''SIM-T-'' @ fmt020 (unat n), s\<lparr>sm_trade_seq := n\<rparr>))"

definition make_fill ::
  "brokerage_model \<Rightarrow> order \<Rightarrow> venue_order_id \<Rightarrow> price \<Rightarrow> quantity \<Rightarrow> liquidity_side \<Rightarrow> unix_nanos \<Rightarrow>
   instrument \<Rightarrow> sim_state \<Rightarrow> (execution_report \<times> sim_state) option" where
  "make_fill B o' void fill_px fill_qty liq ts inst s = do {
     fee \<leftarrow> bm_fee B o' fill_px fill_qty liq inst;
     let (tid, s') = next_trade_id s;
     Some (RepFill
       \<lparr>f_trade_id = tid, f_client_order_id = o_client_order_id o', f_venue_order_id = void,
        f_instrument_id = o_instrument_id o', f_side = o_side o', f_last_px = fill_px,
        f_last_qty = fill_qty, f_fee = fee, f_liquidity = liq, f_ts_event = ts, f_ts_init = ts\<rparr>, s') }"

section \<open>Submitting and cancelling\<close>

definition marketable :: "order \<Rightarrow> price option \<Rightarrow> bool" where
  "marketable o' ref_px =
     (case o_order_type o' of
        Market \<Rightarrow> True
      | Limit \<Rightarrow> (case (o_price o', ref_px) of
          (Some limit, Some rp) \<Rightarrow> (case o_side o' of Buy \<Rightarrow> rp \<le> limit | Sell \<Rightarrow> limit \<le> rp)
        | _ \<Rightarrow> False)
      | _ \<Rightarrow> False)"

definition seed_trail :: "cache \<Rightarrow> order \<Rightarrow> trail_state option" where
  "seed_trail c o' =
     (if o_order_type o' = TrailingStopMarket
      then case (cache_mark c (o_instrument_id o'), o_trigger o') of
             (Some mark, Some trig) \<Rightarrow>
               (case (case o_side o' of Sell \<Rightarrow> price_checked_sub mark trig
                                      | Buy \<Rightarrow> price_checked_sub trig mark) of
                  Inl _ \<Rightarrow> None
                | Inr off \<Rightarrow> if 0 < p_raw off then Some \<lparr>tr_offset = off, tr_extreme = mark\<rparr> else None)
           | _ \<Rightarrow> None
      else None)"

definition on_submit ::
  "brokerage_model \<Rightarrow> unix_nanos \<Rightarrow> cache \<Rightarrow> order \<Rightarrow> sim_state \<Rightarrow> sim_state" where
  "on_submit B now c o' s =
     (case cache_instrument c (o_instrument_id o') of
        None \<Rightarrow> s
      | Some _ \<Rightarrow>
          (let (void, s1) = next_venue_id s;
               ack_at = saturating_add_ns now (bm_latency_ns B KSubmit);
               s2 = s1\<lparr>sm_queue := dq_push ack_at (RepAccepted (o_client_order_id o') void) (sm_queue s1)\<rparr>;
               ref_px = reference_price c (o_instrument_id o') (o_side o');
               r = (if marketable o' ref_px
                    then \<lparr>rs_order = o', rs_remaining = o_quantity o', rs_queue_ahead = None,
                          rs_venue_order_id = void, rs_trail = None, rs_pending_open = True\<rparr>
                    else \<lparr>rs_order = o', rs_remaining = o_quantity o', rs_queue_ahead = None,
                          rs_venue_order_id = void, rs_trail = seed_trail c o', rs_pending_open = False\<rparr>)
           in s2\<lparr>sm_resting := sm_resting s2 @ [r]\<rparr>))"

text \<open>\<open>Vec::remove\<close> of the first element that matches.\<close>

fun remove_first :: "('a \<Rightarrow> bool) \<Rightarrow> 'a list \<Rightarrow> 'a list" where
  "remove_first p [] = []"
| "remove_first p (x # xs) = (if p x then xs else x # remove_first p xs)"

definition on_cancel ::
  "brokerage_model \<Rightarrow> unix_nanos \<Rightarrow> client_order_id \<Rightarrow> sim_state \<Rightarrow> sim_state" where
  "on_cancel B now coid s =
     (let here = (\<lambda>r. o_client_order_id (rs_order r) = coid)
      in if \<exists>r \<in> set (sm_resting s). here r
         then s\<lparr>sm_resting := remove_first here (sm_resting s),
                sm_queue := dq_push (saturating_add_ns now (bm_latency_ns B KCancel)) (RepCanceled coid)
                              (sm_queue s)\<rparr>
         else s)"

section \<open>Matching, phase one: decisions\<close>

text \<open>What a market event shows to resting orders.\<close>

record market_view =
  mv_low :: price
  mv_high :: price
  mv_close :: price
  mv_open :: price
  mv_volume :: "quantity option"

fun market_view_of :: "market_event \<Rightarrow> market_view option" where
  "market_view_of (MBar b) =
     Some \<lparr>mv_low = b_low b, mv_high = b_high b, mv_close = b_close b, mv_open = b_open b,
           mv_volume = Some (b_volume b)\<rparr>"
| "market_view_of (MTrade t) =
     Some \<lparr>mv_low = tt_price t, mv_high = tt_price t, mv_close = tt_price t, mv_open = tt_price t,
           mv_volume = None\<rparr>"
| "market_view_of (MQuote q) =
     Some \<lparr>mv_low = qt_bid q, mv_high = qt_ask q, mv_close = quote_mid q, mv_open = quote_mid q,
           mv_volume = None\<rparr>"
| "market_view_of (MDelta d) = None"

text \<open>
  The outcome of one resting order: a fill decision (price, quantity, queue to write back,
  liquidity), and the entries of \<open>to_activate\<close>, \<open>to_trail\<close> and
  \<open>to_clear_pending\<close>.
\<close>

record outcome =
  oc_fill :: "(price \<times> quantity \<times> quantity option \<times> liquidity_side) option"
  oc_activate :: bool
  oc_trail :: "(price \<times> price) option"
  oc_clear :: bool

definition no_outcome :: outcome where
  "no_outcome = \<lparr>oc_fill = None, oc_activate = False, oc_trail = None, oc_clear = False\<rparr>"

definition capped_qty ::
  "brokerage_model \<Rightarrow> instrument \<Rightarrow> quantity option \<Rightarrow> quantity \<Rightarrow> quantity option" where
  "capped_qty B inst vol remaining =
     (case vol of Some v \<Rightarrow> bm_fillable_qty B remaining v inst | None \<Rightarrow> Some remaining)"

definition decide_pending ::
  "brokerage_model \<Rightarrow> instrument \<Rightarrow> market_view \<Rightarrow> resting \<Rightarrow> outcome option" where
  "decide_pending B inst mv r =
     (let limit = o_price (rs_order r);
          still = (case limit of None \<Rightarrow> True
                   | Some lmt \<Rightarrow> (case o_side (rs_order r) of Buy \<Rightarrow> mv_open mv \<le> lmt | Sell \<Rightarrow> lmt \<le> mv_open mv));
          cleared = no_outcome\<lparr>oc_clear := True\<rparr>
      in if \<not> still then Some cleared
         else do {
           fill_qty \<leftarrow> capped_qty B inst (mv_volume mv) (rs_remaining r);
           if qty_is_positive fill_qty then do {
             raw_px \<leftarrow> bm_fill_price B (rs_order r) (mv_open mv) (Some (mv_low mv, mv_high mv)) inst;
             let fill_px = (case limit of
                 Some lmt \<Rightarrow> (case o_side (rs_order r) of Buy \<Rightarrow> min raw_px lmt | Sell \<Rightarrow> max raw_px lmt)
               | None \<Rightarrow> raw_px);
             Some (cleared\<lparr>oc_fill := Some (fill_px, fill_qty, None, Taker)\<rparr>) }
           else Some cleared })"

definition ratchet :: "market_view \<Rightarrow> order_side \<Rightarrow> trail_state \<Rightarrow> (price \<times> price) option" where
  "ratchet mv side t =
     (let new_extreme = (case side of Sell \<Rightarrow> max (tr_extreme t) (mv_high mv)
                                    | Buy \<Rightarrow> min (tr_extreme t) (mv_low mv));
          new_trigger = (case side of Sell \<Rightarrow> price_checked_sub new_extreme (tr_offset t)
                                    | Buy \<Rightarrow> price_checked_add new_extreme (tr_offset t))
      in case new_trigger of Inr nt \<Rightarrow> Some (new_extreme, nt) | Inl _ \<Rightarrow> None)"

definition decide_stop ::
  "brokerage_model \<Rightarrow> instrument \<Rightarrow> market_view \<Rightarrow> resting \<Rightarrow> outcome option" where
  "decide_stop B inst mv r =
     (let o' = rs_order r; ty = o_order_type o'
      in if ty = TrailingStopMarket \<and> rs_trail r = None then Some no_outcome
         else case o_trigger o' of
           None \<Rightarrow> Some no_outcome
         | Some trig \<Rightarrow>
             (let triggered = (case o_side o' of Buy \<Rightarrow> trig \<le> mv_high mv | Sell \<Rightarrow> mv_low mv \<le> trig);
                  is_market_stop = (ty = StopMarket \<or> ty = TrailingStopMarket)
              in if triggered \<and> is_market_stop then do {
                   fill_qty \<leftarrow> capped_qty B inst (mv_volume mv) (rs_remaining r);
                   if qty_is_positive fill_qty then do {
                     let ref_px = (case o_side o' of Buy \<Rightarrow> max trig (mv_low mv) | Sell \<Rightarrow> min trig (mv_high mv));
                     fill_px \<leftarrow> bm_fill_price B o' ref_px (Some (mv_low mv, mv_high mv)) inst;
                     Some (no_outcome\<lparr>oc_fill := Some (fill_px, fill_qty, None, Taker)\<rparr>) }
                   else Some no_outcome }
                 else if triggered \<and> ty = StopLimit then Some (no_outcome\<lparr>oc_activate := True\<rparr>)
                 else if \<not> triggered \<and> ty = TrailingStopMarket
                 then Some (no_outcome\<lparr>oc_trail :=
                        (case rs_trail r of Some t \<Rightarrow> ratchet mv (o_side o') t | None \<Rightarrow> None)\<rparr>)
                 else Some no_outcome))"

definition decide_aggressive ::
  "brokerage_model \<Rightarrow> instrument \<Rightarrow> market_view \<Rightarrow> resting \<Rightarrow> outcome option" where
  "decide_aggressive B inst mv r =
     (case mv_volume mv of
        None \<Rightarrow> Some no_outcome
      | Some v \<Rightarrow> do {
          fill_qty \<leftarrow> bm_fillable_qty B (rs_remaining r) v inst;
          if qty_is_positive fill_qty then do {
            fill_px \<leftarrow> bm_fill_price B (rs_order r) (mv_close mv) (Some (mv_low mv, mv_high mv)) inst;
            Some (no_outcome\<lparr>oc_fill := Some (fill_px, fill_qty, None, Taker)\<rparr>) }
          else Some no_outcome })"

text \<open>The budget of a bar pays the queue down first; the excess fills the order.\<close>

definition touch_fill ::
  "dec_ops \<Rightarrow> quantity \<Rightarrow> quantity \<Rightarrow> (quantity \<times> quantity) option" where
  "touch_fill D share queue = do {
     let prec = q_prec share;
     a \<leftarrow> qty_as_decimal D share;
     b \<leftarrow> qty_as_decimal D queue;
     let paid = unwrap_or (qty_from_decimal D (d_min D a b) prec) (qty_zero prec);
     let nq = unwrap_or (qty_checked_sub queue paid) (qty_zero prec);
     let fq = unwrap_or (qty_checked_sub share paid) (qty_zero prec);
     Some (fq, nq) }"

definition decide_limit ::
  "dec_ops \<Rightarrow> brokerage_model \<Rightarrow> instrument \<Rightarrow> market_view \<Rightarrow> price \<Rightarrow> resting \<Rightarrow> outcome option" where
  "decide_limit D B inst mv limit r =
     (let through = (case o_side (rs_order r) of Buy \<Rightarrow> mv_low mv < limit | Sell \<Rightarrow> limit < mv_high mv);
          touch = (case o_side (rs_order r) of Buy \<Rightarrow> mv_low mv = limit | Sell \<Rightarrow> mv_high mv = limit)
      in if \<not> (through \<or> touch) then Some no_outcome
         else case mv_volume mv of
           None \<Rightarrow> Some (if qty_is_positive (rs_remaining r)
                         then no_outcome\<lparr>oc_fill := Some (limit, rs_remaining r, None, Maker)\<rparr>
                         else no_outcome)
         | Some v \<Rightarrow> do {
             share \<leftarrow> bm_fillable_qty B (rs_remaining r) v inst;
             queue \<leftarrow> (case rs_queue_ahead r of Some q \<Rightarrow> Some q | None \<Rightarrow> bm_initial_queue_ahead B v inst);
             (fill_qty, new_queue) \<leftarrow> (if through then Some (share, qty_zero (q_prec share))
                                       else touch_fill D share queue);
             Some (no_outcome\<lparr>oc_fill := Some (limit, fill_qty, Some new_queue, Maker)\<rparr>) })"

definition decide ::
  "dec_ops \<Rightarrow> brokerage_model \<Rightarrow> instrument_id \<Rightarrow> instrument \<Rightarrow> market_view \<Rightarrow> resting \<Rightarrow> outcome option" where
  "decide D B i inst mv r =
     (if o_instrument_id (rs_order r) \<noteq> i then Some no_outcome
      else if rs_pending_open r then decide_pending B inst mv r
      else if o_order_type (rs_order r) \<notin> {Market, Limit} then decide_stop B inst mv r
      else case o_price (rs_order r) of
             None \<Rightarrow> decide_aggressive B inst mv r
           | Some limit \<Rightarrow> decide_limit D B inst mv limit r)"

fun decide_all ::
  "dec_ops \<Rightarrow> brokerage_model \<Rightarrow> instrument_id \<Rightarrow> instrument \<Rightarrow> market_view \<Rightarrow> resting list \<Rightarrow>
   (resting \<times> outcome) list option" where
  "decide_all D B i inst mv [] = Some []"
| "decide_all D B i inst mv (r # rs) = do {
     oc \<leftarrow> decide D B i inst mv r;
     rest \<leftarrow> decide_all D B i inst mv rs;
     Some ((r, oc) # rest) }"

section \<open>Matching, phase two: fills\<close>

text \<open>The write-backs of the pending flag, the activation and the trail.\<close>

definition write_back :: "outcome \<Rightarrow> resting \<Rightarrow> resting" where
  "write_back oc r =
     (let r1 = (if oc_clear oc then r\<lparr>rs_pending_open := False\<rparr> else r);
          r2 = (if oc_activate oc then r1\<lparr>rs_order := (rs_order r1)\<lparr>o_order_type := Limit\<rparr>\<rparr> else r1)
      in case oc_trail oc of
           None \<Rightarrow> r2
         | Some (extreme, trig) \<Rightarrow>
             r2\<lparr>rs_trail := map_option (\<lambda>t. t\<lparr>tr_extreme := extreme\<rparr>) (rs_trail r2),
                rs_order := (rs_order r2)\<lparr>o_trigger := Some trig\<rparr>\<rparr>)"

text \<open>
  One decision of phase two on its resting order: schedule the fill of the order as it was when
  the decision was made, reduce what remains and store the queue position.
\<close>

definition settle_one ::
  "brokerage_model \<Rightarrow> unix_nanos \<Rightarrow> instrument \<Rightarrow> resting \<times> outcome \<Rightarrow> sim_state \<Rightarrow>
   (resting option \<times> sim_state) option" where
  "settle_one B now inst x s =
     (case x of (r, oc) \<Rightarrow>
       (let w = write_back oc r
        in case oc_fill oc of
             None \<Rightarrow> Some (Some w, s)
           | Some (fill_px, fill_qty, new_queue, liq) \<Rightarrow> do {
               s1 \<leftarrow> (if qty_is_positive fill_qty then do {
                        let t = saturating_add_ns now (bm_latency_ns B KSubmit);
                        (rep, s') \<leftarrow> make_fill B (rs_order r) (rs_venue_order_id r) fill_px fill_qty liq t inst s;
                        Some (s'\<lparr>sm_queue := dq_push t rep (sm_queue s')\<rparr>) }
                      else Some s);
               let w1 = (if qty_is_positive fill_qty
                         then w\<lparr>rs_remaining := unwrap_or (qty_checked_sub (rs_remaining w) fill_qty)
                                                           (qty_zero (q_prec fill_qty))\<rparr>
                         else w);
               let w2 = (case new_queue of Some nq \<Rightarrow> w1\<lparr>rs_queue_ahead := Some nq\<rparr> | None \<Rightarrow> w1);
               Some (if qty_is_zero (rs_remaining w2) then None else Some w2, s1) }))"

fun settle_all ::
  "brokerage_model \<Rightarrow> unix_nanos \<Rightarrow> instrument \<Rightarrow> (resting \<times> outcome) list \<Rightarrow> sim_state \<Rightarrow>
   (resting list \<times> sim_state) option" where
  "settle_all B now inst [] s = Some ([], s)"
| "settle_all B now inst (x # xs) s = do {
     (kept, s1) \<leftarrow> settle_one B now inst x s;
     (rest, s2) \<leftarrow> settle_all B now inst xs s1;
     Some ((case kept of Some r \<Rightarrow> r # rest | None \<Rightarrow> rest), s2) }"

definition on_market ::
  "dec_ops \<Rightarrow> brokerage_model \<Rightarrow> unix_nanos \<Rightarrow> cache \<Rightarrow> market_event \<Rightarrow> sim_state \<Rightarrow> sim_state option" where
  "on_market D B now c ev s =
     (let i = mev_instrument_id ev
      in case cache_instrument c i of
           None \<Rightarrow> Some s
         | Some inst \<Rightarrow>
             (case market_view_of ev of
                None \<Rightarrow> Some s
              | Some mv \<Rightarrow> do {
                  let s1 = (case ev of
                      MBar b \<Rightarrow> s\<lparr>sm_last_bar := (sm_last_bar s)(i \<mapsto> (mv_low mv, mv_high mv, b_volume b))\<rparr>
                    | _ \<Rightarrow> s);
                  decisions \<leftarrow> decide_all D B i inst mv (sm_resting s1);
                  (kept, s2) \<leftarrow> settle_all B now inst decisions s1;
                  Some (s2\<lparr>sm_resting := kept\<rparr>) }))"

definition sim_peek_due :: "sim_state \<Rightarrow> unix_nanos option" where
  "sim_peek_due s = dq_peek_due (sm_queue s)"

definition sim_drain_due :: "unix_nanos \<Rightarrow> sim_state \<Rightarrow> execution_report list \<times> sim_state" where
  "sim_drain_due frontier s =
     (let (out, q) = dq_drain_due frontier (sm_queue s) in (out, s\<lparr>sm_queue := q\<rparr>))"

end
