(* ===== verification/Sim_Facts.thy ===== *)
theory Sim_Facts
  imports Sim
begin

text \<open>
  Correctness of the simulated exchange: the delayed queue meets the contract
  \<open>due_queue\<close>, resting orders are never over-filled, limits are respected, nothing decided
  on an event is priced by its close, and trailing stops only tighten.
\<close>

section \<open>The contract of a time-ordered queue\<close>

lemma filter_mset_none: "filter_mset P M = {#} \<longleftrightarrow> (\<forall>x \<in># M. \<not> P x)"
  by (induction M) auto

locale due_queue =
  fixes push :: "unix_nanos \<Rightarrow> 'r \<Rightarrow> 'q \<Rightarrow> 'q" and peek :: "'q \<Rightarrow> unix_nanos option"
    and drain :: "unix_nanos \<Rightarrow> 'q \<Rightarrow> 'r list \<times> 'q" and entries :: "'q \<Rightarrow> (unix_nanos \<times> 'r) multiset"
    and inv :: "'q \<Rightarrow> bool"
  assumes inv_push: "inv q \<Longrightarrow> inv (push t r q)"
    and inv_drain: "inv q \<Longrightarrow> inv (snd (drain f q))"
    and entries_push: "entries (push t r q) = add_mset (t, r) (entries q)"
    and drain_out: "inv q \<Longrightarrow> mset (fst (drain f q)) = image_mset snd (filter_mset (\<lambda>x. fst x \<le> f) (entries q))"
    and drain_rest: "inv q \<Longrightarrow> entries (snd (drain f q)) = filter_mset (\<lambda>x. \<not> fst x \<le> f) (entries q)"
    and peek_None: "peek q = None \<longleftrightarrow> entries q = {#}"
    and peek_Some: "inv q \<Longrightarrow> peek q = Some t \<Longrightarrow>
      t \<in> fst ` set_mset (entries q) \<and> (\<forall>x \<in># entries q. t \<le> fst x)"
begin

lemma drain_conserves:
  assumes "inv q"
  shows "mset (fst (drain f q)) + image_mset snd (entries (snd (drain f q))) = image_mset snd (entries q)"
  using assms multiset_partition [of "entries q" "\<lambda>x. fst x \<le> f"]
  by (metis drain_out drain_rest image_mset_union)

lemma peek_after_drain:
  assumes "inv q" "peek (snd (drain f q)) = Some t"
  shows "f < t"
proof -
  have "t \<in> fst ` set_mset (entries (snd (drain f q)))"
    using peek_Some [OF inv_drain [OF assms(1)] assms(2)] by blast
  then show ?thesis using assms(1) by (auto simp: drain_rest)
qed

lemma drain_nothing_due:
  assumes "inv q" "peek q = Some t" "f < t"
  shows "fst (drain f q) = []"
proof -
  have "filter_mset (\<lambda>x. fst x \<le> f) (entries q) = {#}"
    using peek_Some [OF assms(1,2)] assms(3) by (auto simp: filter_mset_none)
  then show ?thesis using drain_out [OF assms(1), of f] by (metis image_mset_empty mset_zero_iff)
qed

lemma drain_progress:
  assumes "inv q" "peek q = Some t" "t \<le> f"
  shows "fst (drain f q) \<noteq> []"
proof
  assume "fst (drain f q) = []"
  then have "filter_mset (\<lambda>x. fst x \<le> f) (entries q) = {#}" using drain_out [OF assms(1), of f] by simp
  then show False using peek_Some [OF assms(1,2)] assms(3) by (auto simp: filter_mset_none)
qed

end

definition dq_inv :: "delayed_queue \<Rightarrow> bool" where
  "dq_inv q \<longleftrightarrow> sorted (map sched_key (dq_heap q))"

definition dq_entries :: "delayed_queue \<Rightarrow> (unix_nanos \<times> execution_report) multiset" where
  "dq_entries q = mset (map (\<lambda>s. (sd_due s, sd_report s)) (dq_heap q))"

lemma sched_key_le: "sched_key a \<le> sched_key b \<Longrightarrow> sd_due a \<le> sd_due b"
  by (auto simp: sched_key_def less_eq_prod_def)

lemma drain_loop_eq:
  "sorted (map sched_key h) \<Longrightarrow> drain_loop f h =
     (map sd_report (filter (\<lambda>s. sd_due s \<le> f) h), filter (\<lambda>s. \<not> sd_due s \<le> f) h)"
proof (induction h)
  case (Cons s h)
  show ?case
  proof (cases "f < sd_due s")
    case True
    have "\<not> sd_due x \<le> f" if "x \<in> set h" for x
    proof -
      have "sd_due s \<le> sd_due x" using Cons.prems that by (auto intro!: sched_key_le)
      then show ?thesis using True by simp
    qed
    then show ?thesis using True by (auto simp: filter_empty_conv)
  next
    case False
    then show ?thesis using Cons by (auto simp: not_less)
  qed
qed simp

lemma drain_heap_eq:
  "dq_inv q \<Longrightarrow> dq_drain_due f q =
     (map sd_report (filter (\<lambda>s. sd_due s \<le> f) (dq_heap q)),
      q\<lparr>dq_heap := filter (\<lambda>s. \<not> sd_due s \<le> f) (dq_heap q)\<rparr>)"
  by (simp add: dq_drain_due_def dq_inv_def drain_loop_eq)

lemma sorted_filter_key: "sorted (map k xs) \<Longrightarrow> sorted (map k (filter P xs))"
  by (induction xs) auto

interpretation dq: due_queue dq_push dq_peek_due dq_drain_due dq_entries dq_inv
proof unfold_locales
  fix q :: delayed_queue and t f r
  show "dq_inv q \<Longrightarrow> dq_inv (dq_push t r q)"
    by (simp add: dq_inv_def dq_push_def Let_def)
  show "dq_inv q \<Longrightarrow> dq_inv (snd (dq_drain_due f q))"
    by (simp add: drain_heap_eq) (simp add: dq_inv_def sorted_filter_key)
  show "dq_entries (dq_push t r q) = add_mset (t, r) (dq_entries q)"
    by (simp add: dq_entries_def dq_push_def Let_def)
  show "dq_inv q \<Longrightarrow> mset (fst (dq_drain_due f q)) =
      image_mset snd (filter_mset (\<lambda>x. fst x \<le> f) (dq_entries q))"
    by (simp add: drain_heap_eq dq_entries_def filter_mset_image_mset image_mset.compositionality comp_def)
  show "dq_inv q \<Longrightarrow> dq_entries (snd (dq_drain_due f q)) =
      filter_mset (\<lambda>x. \<not> fst x \<le> f) (dq_entries q)"
    by (simp add: drain_heap_eq dq_entries_def filter_mset_image_mset)
  show "dq_peek_due q = None \<longleftrightarrow> dq_entries q = {#}"
    by (simp add: dq_peek_due_def dq_entries_def split: list.splits)
  show "dq_inv q \<Longrightarrow> dq_peek_due q = Some t \<Longrightarrow>
      t \<in> fst ` set_mset (dq_entries q) \<and> (\<forall>x \<in># dq_entries q. t \<le> fst x)"
    by (auto simp: dq_peek_due_def dq_entries_def dq_inv_def split: list.splits intro: sched_key_le)
qed

section \<open>Reports and remaining quantity of an order\<close>

definition report_qty :: "client_order_id \<Rightarrow> execution_report \<Rightarrow> int" where
  "report_qty coid rep = (case rep of RepFill f \<Rightarrow> if f_client_order_id f = coid then q_raw (f_last_qty f) else 0
     | _ \<Rightarrow> 0)"

definition fills_of :: "client_order_id \<Rightarrow> execution_report list \<Rightarrow> int" where
  "fills_of coid reps = sum_list (map (report_qty coid) reps)"

definition queued :: "sim_state \<Rightarrow> execution_report list" where
  "queued s = map sd_report (dq_heap (sm_queue s))"

definition resting_qty :: "client_order_id \<Rightarrow> resting \<Rightarrow> int" where
  "resting_qty coid r = (if o_client_order_id (rs_order r) = coid then q_raw (rs_remaining r) else 0)"

definition rests :: "client_order_id \<Rightarrow> resting list \<Rightarrow> int" where
  "rests coid rs = sum_list (map (resting_qty coid) rs)"

definition resting_ok :: "resting list \<Rightarrow> bool" where
  "resting_ok rs \<longleftrightarrow> (\<forall>r \<in> set rs. valid_qty (rs_remaining r))"

lemma sum_list_pq_push:
  "sum_list (map (g :: 'a \<Rightarrow> int) (pq_push k x h)) = g x + sum_list (map g h)"
  by (metis mset_pq_push mset_map image_mset_add_mset sum_mset.add_mset sum_mset_sum_list)

lemma fills_of_push:
  "fills_of coid (map sd_report (dq_heap (dq_push t rep q))) =
     report_qty coid rep + fills_of coid (map sd_report (dq_heap q))"
  by (simp add: fills_of_def dq_push_def Let_def comp_def sum_list_pq_push)

lemma fills_of_append [simp]: "fills_of coid (xs @ ys) = fills_of coid xs + fills_of coid ys"
  by (simp add: fills_of_def)

lemma rests_simps [simp]: "rests coid [] = 0" "rests coid (r # rs) = resting_qty coid r + rests coid rs"
  "rests coid (xs @ ys) = rests coid xs + rests coid ys"
  by (simp_all add: rests_def)

lemma rests_nonneg: "resting_ok rs \<Longrightarrow> 0 \<le> rests coid rs"
  unfolding rests_def by (rule sum_list_nonneg) (auto simp: resting_ok_def resting_qty_def valid_qty_def)

section \<open>Decisions\<close>

text \<open>A limit is respected: a buy pays at most its limit, a sell receives at least it.\<close>

definition respects_limit :: "order \<Rightarrow> price \<Rightarrow> bool" where
  "respects_limit o' px =
     (case o_price o' of None \<Rightarrow> True
      | Some lmt \<Rightarrow> (case o_side o' of Buy \<Rightarrow> px \<le> lmt | Sell \<Rightarrow> lmt \<le> px))"

text \<open>The quantity of a decision is valid, at the order's precision and at most what remains.\<close>

definition qty_within :: "quantity \<Rightarrow> quantity \<Rightarrow> bool" where
  "qty_within q rem \<longleftrightarrow> valid_qty q \<and> q_prec q = q_prec rem \<and> q_raw q \<le> q_raw rem"

lemma qty_within_refl: "valid_qty q \<Longrightarrow> qty_within q q"
  by (simp add: qty_within_def)

lemma qty_within_trans: "qty_within a b \<Longrightarrow> qty_within b c \<Longrightarrow> qty_within a c"
  by (simp add: qty_within_def)

lemma touch_fill_within:
  assumes "valid_qty share" "touch_fill D share queue = Some (fq, nq)"
  shows "qty_within fq share"
proof -
  let ?z = "qty_zero (q_prec share)"
  have z: "valid_qty ?z" "q_prec ?z = q_prec share" using assms(1) by (auto simp: valid_qty_def in_i64_def)
  obtain d where fq: "fq = unwrap_or (qty_checked_sub share (unwrap_or (qty_from_decimal D d (q_prec share)) ?z)) ?z"
    using assms(2) by (auto simp: touch_fill_def bind_eq_Some Let_def)
  have paid: "valid_qty (unwrap_or (qty_from_decimal D d (q_prec share)) ?z)"
    "q_prec (unwrap_or (qty_from_decimal D d (q_prec share)) ?z) = q_prec share"
    using z qty_from_decimal_valid by (cases "qty_from_decimal D d (q_prec share)", auto)+
  show ?thesis
    unfolding fq using assms(1) paid
    by (auto simp: qty_checked_sub_total qty_within_def valid_qty_def in_i64_def)
qed

context brokerage
begin

lemma capped_within: "valid_qty rem \<Longrightarrow> capped_qty B inst vol rem = Some q \<Longrightarrow> qty_within q rem"
  using fillable_le by (auto simp: capped_qty_def qty_within_def split: option.splits)

lemma decide_pending_fill:
  assumes "valid_qty (rs_remaining r)" "decide_pending B inst mv r = Some oc"
    "oc_fill oc = Some (px, q, nq, liq)"
  shows "qty_within q (rs_remaining r) \<and> respects_limit (rs_order r) px"
  using assms capped_within [OF assms(1)]
  by (auto simp: decide_pending_def Let_def bind_eq_Some no_outcome_def respects_limit_def
      split: if_split_asm option.splits order_side.splits)

lemma decide_stop_fill:
  assumes "valid_qty (rs_remaining r)" "decide_stop B inst mv r = Some oc"
    "oc_fill oc = Some (px, q, nq, liq)"
  shows "qty_within q (rs_remaining r) \<and> o_order_type (rs_order r) \<in> {StopMarket, TrailingStopMarket}"
  using assms capped_within [OF assms(1)]
  by (auto simp: decide_stop_def Let_def bind_eq_Some no_outcome_def split: if_split_asm option.split_asm)

lemma decide_aggressive_fill:
  assumes "valid_qty (rs_remaining r)" "decide_aggressive B inst mv r = Some oc"
    "oc_fill oc = Some (px, q, nq, liq)"
  shows "qty_within q (rs_remaining r)"
  using assms fillable_le [OF assms(1)]
  by (auto simp: decide_aggressive_def bind_eq_Some no_outcome_def qty_within_def
      split: if_split_asm option.split_asm)

lemma decide_limit_fill:
  assumes "valid_qty (rs_remaining r)" "decide_limit D B inst mv lmt r = Some oc"
    "oc_fill oc = Some (px, q, nq, liq)"
  shows "qty_within q (rs_remaining r) \<and> px = lmt"
proof (cases "mv_volume mv")
  case None
  then show ?thesis using assms
    by (auto simp: decide_limit_def Let_def no_outcome_def qty_within_refl split: if_split_asm)
next
  case (Some v)
  then obtain share where s: "bm_fillable_qty B (rs_remaining r) v inst = Some share"
    and q: "q = share \<or> (\<exists>queue nq. touch_fill D share queue = Some (q, nq))" and px: "px = lmt"
    using assms(2,3)
    by (auto simp: decide_limit_def Let_def no_outcome_def bind_eq_Some split: if_split_asm) blast
  have share: "qty_within share (rs_remaining r)"
    using fillable_le [OF assms(1) s] by (simp add: qty_within_def)
  then have "valid_qty share" by (simp add: qty_within_def)
  then have "qty_within q share" using q touch_fill_within qty_within_refl by blast
  then show ?thesis using qty_within_trans share px by blast
qed

lemma decide_fill:
  assumes "valid_qty (rs_remaining r)" "decide D B i inst mv r = Some oc"
    "oc_fill oc = Some (px, q, nq, liq)"
  shows "qty_within q (rs_remaining r) \<and>
    (o_order_type (rs_order r) \<notin> {StopMarket, TrailingStopMarket} \<longrightarrow> respects_limit (rs_order r) px)"
proof -
  consider "decide_pending B inst mv r = Some oc" | "decide_stop B inst mv r = Some oc"
    | "o_price (rs_order r) = None" "decide_aggressive B inst mv r = Some oc"
    | lmt where "o_price (rs_order r) = Some lmt" "decide_limit D B inst mv lmt r = Some oc"
    using assms(2,3) by (auto simp: decide_def no_outcome_def split: if_split_asm option.split_asm)
  then show ?thesis
  proof cases
    case 1
    then show ?thesis using decide_pending_fill [OF assms(1) 1 assms(3)] by simp
  next
    case 2
    then show ?thesis using decide_stop_fill [OF assms(1) 2 assms(3)] by auto
  next
    case 3
    then show ?thesis using decide_aggressive_fill [OF assms(1) 3(2) assms(3)]
      by (simp add: respects_limit_def)
  next
    case 4
    then show ?thesis using decide_limit_fill [OF assms(1) 4(2) assms(3)]
      by (simp add: respects_limit_def split: order_side.splits)
  qed
qed

end

section \<open>Conservation of quantity\<close>

lemma write_back_sel [simp]:
  "rs_remaining (write_back oc r) = rs_remaining r"
  "o_client_order_id (rs_order (write_back oc r)) = o_client_order_id (rs_order r)"
  by (auto simp: write_back_def Let_def split: option.splits)

lemma resting_qty_write_back [simp]: "resting_qty coid (write_back oc r) = resting_qty coid r"
  by (simp add: resting_qty_def)

lemma make_fill_queue:
  assumes "make_fill B o1 void px q liq ts inst s = Some (rep, s')"
  shows "sm_queue s' = sm_queue s \<and> sm_resting s' = sm_resting s \<and>
    (\<exists>f. rep = RepFill f \<and> f_client_order_id f = o_client_order_id o1 \<and> f_last_qty f = q \<and>
      f_last_px f = px \<and> f_side f = o_side o1 \<and> f_instrument_id f = o_instrument_id o1)"
  using assms by (auto simp: make_fill_def next_trade_id_def bind_eq_Some Let_def)

text \<open>A fill decision does not take more than what remains of its order.\<close>

definition fill_fits :: "resting \<times> outcome \<Rightarrow> bool" where
  "fill_fits x \<longleftrightarrow> (\<forall>px q nq liq. oc_fill (snd x) = Some (px, q, nq, liq) \<longrightarrow>
     qty_within q (rs_remaining (fst x)))"

lemma settle_one_conserves:
  assumes "settle_one B now inst (r, oc) s = Some (kept, s')" "fill_fits (r, oc)" "valid_qty (rs_remaining r)"
  shows "fills_of coid (queued s') + rests coid (case kept of Some k \<Rightarrow> [k] | None \<Rightarrow> []) =
      fills_of coid (queued s) + resting_qty coid r \<and>
    (\<forall>k. kept = Some k \<longrightarrow> valid_qty (rs_remaining k) \<and>
       o_client_order_id (rs_order k) = o_client_order_id (rs_order r))"
proof (cases "oc_fill oc")
  case None
  then show ?thesis using assms by (auto simp: settle_one_def)
next
  case (Some x)
  obtain px q nq liq where x: "x = (px, q, nq, liq)" by (cases x)
  have q: "qty_within q (rs_remaining r)" using assms(2) Some x by (simp add: fill_fits_def)
  define rem where "rem = (if qty_is_positive q
    then Quantity (q_raw (rs_remaining r) - q_raw q) (q_prec (rs_remaining r)) else rs_remaining r)"
  have sub: "qty_checked_sub (rs_remaining r) q = Ok (Quantity (q_raw (rs_remaining r) - q_raw q) (q_prec (rs_remaining r)))"
    using q assms(3) by (subst qty_checked_sub_total) (auto simp: qty_within_def)
  have vrem: "valid_qty rem" and rem: "q_raw rem = q_raw (rs_remaining r) - (if qty_is_positive q then q_raw q else 0)"
    using q assms(3) by (auto simp: rem_def valid_qty_def qty_within_def in_i64_def)
  have kept: "kept = (if q_raw rem = 0 then None
      else Some ((write_back oc r)\<lparr>rs_remaining := rem,
        rs_queue_ahead := (case nq of Some n \<Rightarrow> Some n | None \<Rightarrow> rs_queue_ahead (write_back oc r))\<rparr>))"
    using assms(1) Some x sub
    by (cases nq) (auto simp: settle_one_def bind_eq_Some Let_def rem_def qty_is_zero_def split: if_split_asm)
  have queue: "fills_of coid (queued s') = fills_of coid (queued s) +
      (if qty_is_positive q \<and> o_client_order_id (rs_order r) = coid then q_raw q else 0)"
    using assms(1) Some x
    by (auto simp: settle_one_def bind_eq_Some Let_def queued_def fills_of_push report_qty_def
        split: if_split_asm dest!: make_fill_queue)
  show ?thesis using kept queue vrem rem by (auto simp: resting_qty_def)
qed

lemma settle_all_conserves:
  assumes "settle_all B now inst xs s = Some (kept, s')"
    "\<forall>x \<in> set xs. fill_fits x \<and> valid_qty (rs_remaining (fst x))"
  shows "fills_of coid (queued s') + rests coid kept = fills_of coid (queued s) + rests coid (map fst xs) \<and>
    resting_ok kept"
  using assms
proof (induction xs arbitrary: s kept)
  case (Cons x xs)
  obtain r oc where x: "x = (r, oc)" by (cases x)
  obtain k s1 rest where s1: "settle_one B now inst (r, oc) s = Some (k, s1)"
    and rest: "settle_all B now inst xs s1 = Some (rest, s')"
    and kept: "kept = (case k of Some r' \<Rightarrow> r' # rest | None \<Rightarrow> rest)"
    using Cons.prems(1) x by (auto simp: bind_eq_Some)
  have one: "fills_of coid (queued s1) + rests coid (case k of Some k \<Rightarrow> [k] | None \<Rightarrow> []) =
      fills_of coid (queued s) + resting_qty coid r"
    "\<forall>k'. k = Some k' \<longrightarrow> valid_qty (rs_remaining k')"
    using settle_one_conserves [OF s1] Cons.prems(2) x by auto
  have "fills_of coid (queued s') + rests coid rest = fills_of coid (queued s1) + rests coid (map fst xs) \<and>
    resting_ok rest"
    using Cons.IH [OF rest] Cons.prems(2) by simp
  then show ?case using one kept x by (cases k) (auto simp: resting_ok_def)
qed (simp add: resting_ok_def)

lemma decide_all_map:
  "decide_all D B i inst mv rs = Some xs \<Longrightarrow>
     map fst xs = rs \<and> (\<forall>(r, oc) \<in> set xs. decide D B i inst mv r = Some oc)"
  by (induction rs arbitrary: xs) (auto simp: bind_eq_Some)

lemma on_market_cases:
  assumes "on_market D B now c ev s = Some s'"
  obtains (same) "s' = s"
  | (matched) inst mv s1 xs kept s2 where
      "cache_instrument c (mev_instrument_id ev) = Some inst" "market_view_of ev = Some mv"
      "sm_resting s1 = sm_resting s" "sm_queue s1 = sm_queue s"
      "decide_all D B (mev_instrument_id ev) inst mv (sm_resting s) = Some xs"
      "settle_all B now inst xs s1 = Some (kept, s2)" "s' = s2\<lparr>sm_resting := kept\<rparr>"
proof (cases "cache_instrument c (mev_instrument_id ev) = None \<or> market_view_of ev = None")
  case True
  then have "s' = s" using assms by (auto simp: on_market_def Let_def split: option.splits)
  then show thesis by (rule same)
next
  case False
  then obtain inst mv where im: "cache_instrument c (mev_instrument_id ev) = Some inst"
    "market_view_of ev = Some mv" by auto
  define s1 where "s1 = (case ev of
      MBar b \<Rightarrow> s\<lparr>sm_last_bar := (sm_last_bar s)(mev_instrument_id ev \<mapsto> (mv_low mv, mv_high mv, b_volume b))\<rparr>
    | _ \<Rightarrow> s)"
  have s1: "sm_resting s1 = sm_resting s" "sm_queue s1 = sm_queue s"
    by (simp_all add: s1_def split: market_event.splits)
  show thesis
    using assms im matched [OF im s1] s1(1) by (auto simp: on_market_def Let_def bind_eq_Some s1_def)
qed

context brokerage
begin

lemma decide_all_fits:
  assumes "decide_all D B i inst mv rs = Some xs" "resting_ok rs"
  shows "\<forall>x \<in> set xs. fill_fits x \<and> valid_qty (rs_remaining (fst x))"
proof
  fix x assume x: "x \<in> set xs"
  have "fst x \<in> set rs" using decide_all_map [OF assms(1)] x by force
  then have v: "valid_qty (rs_remaining (fst x))" using assms(2) by (simp add: resting_ok_def)
  have "decide D B i inst mv (fst x) = Some (snd x)"
    using decide_all_map [OF assms(1)] x by (auto simp: split_beta)
  with decide_fill [OF v this] v show "fill_fits x \<and> valid_qty (rs_remaining (fst x))"
    by (auto simp: fill_fits_def)
qed

lemma on_market_conserves:
  assumes "on_market D B now c ev s = Some s'" "resting_ok (sm_resting s)"
  shows "fills_of coid (queued s') + rests coid (sm_resting s') =
      fills_of coid (queued s) + rests coid (sm_resting s) \<and> resting_ok (sm_resting s')"
  using assms(1)
proof (cases rule: on_market_cases)
  case same
  then show ?thesis using assms(2) by simp
next
  case (matched inst mv s1 xs kept s2)
  from settle_all_conserves [OF matched(6) decide_all_fits [OF matched(5) assms(2)], of coid]
  show ?thesis using decide_all_map [OF matched(5)] matched by (simp add: queued_def)
qed

end

section \<open>Runs of the venue\<close>

text \<open>
  A run feeds the venue commands and market events in any order and drains reports at any time.
  It records the orders submitted, with pairwise different ids as the order factory makes them,
  and the reports handed out so far.
\<close>

inductive sim_run ::
  "dec_ops \<Rightarrow> brokerage_model \<Rightarrow> sim_state \<Rightarrow> order list \<Rightarrow> execution_report list \<Rightarrow> bool"
  for D B where
  start: "sim_run D B sim_new [] []"
| submit: "sim_run D B s os out \<Longrightarrow> o_client_order_id o1 \<notin> o_client_order_id ` set os \<Longrightarrow>
    valid_qty (o_quantity o1) \<Longrightarrow> sim_run D B (on_submit B now c o1 s) (o1 # os) out"
| cancel: "sim_run D B s os out \<Longrightarrow> sim_run D B (on_cancel B now coid s) os out"
| market: "sim_run D B s os out \<Longrightarrow> on_market D B now c ev s = Some s' \<Longrightarrow> sim_run D B s' os out"
| drain: "sim_run D B s os out \<Longrightarrow> sim_drain_due frontier s = (new, s') \<Longrightarrow> sim_run D B s' os (out @ new)"

definition submitted_qty :: "client_order_id \<Rightarrow> order list \<Rightarrow> int" where
  "submitted_qty coid os = sum_list (map (\<lambda>o'. if o_client_order_id o' = coid then q_raw (o_quantity o') else 0) os)"

lemma submitted_qty_fresh: "coid \<notin> o_client_order_id ` set os \<Longrightarrow> submitted_qty coid os = 0"
  by (induction os) (auto simp: submitted_qty_def)

lemma submitted_qty_unique:
  "distinct (map o_client_order_id os) \<Longrightarrow> o1 \<in> set os \<Longrightarrow>
     submitted_qty (o_client_order_id o1) os = q_raw (o_quantity o1)"
proof (induction os)
  case (Cons a os)
  show ?case
  proof (cases "o1 = a")
    case True
    with Cons.prems show ?thesis using submitted_qty_fresh [of "o_client_order_id a" os]
      by (simp add: submitted_qty_def)
  next
    case False
    with Cons.prems have "o1 \<in> set os" "o_client_order_id a \<noteq> o_client_order_id o1" by auto
    with Cons show ?thesis by (simp add: submitted_qty_def)
  qed
qed simp

lemma drain_loop_append: "drain_loop f h = (out, h') \<Longrightarrow> map sd_report h = out @ map sd_report h'"
  by (induction f h arbitrary: out rule: drain_loop.induct)
    (auto simp: Let_def split: if_split_asm prod.splits)

lemma remove_first_rests:
  "resting_ok rs \<Longrightarrow> rests coid (remove_first p rs) \<le> rests coid rs \<and> resting_ok (remove_first p rs)"
proof (induction rs)
  case (Cons r rs)
  have "0 \<le> resting_qty coid r" "resting_ok rs"
    using Cons.prems by (simp_all add: resting_ok_def resting_qty_def valid_qty_def)
  with Cons show ?case by (simp add: resting_ok_def)
qed simp

lemma on_submit_effect:
  "fills_of coid (queued (on_submit B now c o1 s)) = fills_of coid (queued s) \<and>
   (\<exists>new. sm_resting (on_submit B now c o1 s) = sm_resting s @ new \<and>
      (\<forall>r \<in> set new. rs_order r = o1 \<and> rs_remaining r = o_quantity o1) \<and> length new \<le> 1)"
  by (auto simp: on_submit_def next_venue_id_def Let_def queued_def fills_of_push report_qty_def
      split: option.splits)

lemma on_cancel_effect:
  "fills_of coid (queued (on_cancel B now k s)) = fills_of coid (queued s)"
  by (simp add: on_cancel_def Let_def queued_def fills_of_push report_qty_def)

context brokerage
begin

lemma sim_run_inv:
  "sim_run D B s os out \<Longrightarrow> resting_ok (sm_resting s) \<and> distinct (map o_client_order_id os) \<and>
     (\<forall>coid. fills_of coid out + fills_of coid (queued s) + rests coid (sm_resting s) \<le> submitted_qty coid os)"
proof (induction rule: sim_run.induct)
  case start
  then show ?case by (simp add: sim_new_def dq_new_def queued_def fills_of_def submitted_qty_def resting_ok_def)
next
  case (submit s os out o1 now c)
  obtain new where new: "sm_resting (on_submit B now c o1 s) = sm_resting s @ new"
    "\<forall>r \<in> set new. rs_order r = o1 \<and> rs_remaining r = o_quantity o1" "length new \<le> 1"
    using on_submit_effect [of _ B now c o1 s] by blast
  have le: "rests coid new \<le> (if o_client_order_id o1 = coid then q_raw (o_quantity o1) else 0)" for coid
    using new(2,3) submit.hyps(3) by (cases new) (auto simp: resting_qty_def valid_qty_def)
  show ?case
  proof (intro conjI allI)
    show "resting_ok (sm_resting (on_submit B now c o1 s))"
      using submit new(1,2) by (auto simp: resting_ok_def)
    show "distinct (map o_client_order_id (o1 # os))" using submit by simp
    fix coid
    have "submitted_qty coid (o1 # os) =
        (if o_client_order_id o1 = coid then q_raw (o_quantity o1) else 0) + submitted_qty coid os"
      by (simp add: submitted_qty_def)
    moreover have "fills_of coid out + fills_of coid (queued s) + rests coid (sm_resting s) \<le> submitted_qty coid os"
      using submit.IH by blast
    ultimately show "fills_of coid out + fills_of coid (queued (on_submit B now c o1 s)) +
        rests coid (sm_resting (on_submit B now c o1 s)) \<le> submitted_qty coid (o1 # os)"
      using le [of coid] on_submit_effect [of coid B now c o1 s] new(1) by simp
  qed
next
  case (cancel s os out now coid)
  have "rests k (sm_resting (on_cancel B now coid s)) \<le> rests k (sm_resting s) \<and>
      resting_ok (sm_resting (on_cancel B now coid s))" for k
    using remove_first_rests [of "sm_resting s" k] cancel by (simp add: on_cancel_def Let_def)
  then show ?case using cancel on_cancel_effect [of _ B now coid s] by (metis add_left_mono order_trans)
next
  case (market s os out now c ev s')
  then show ?case using on_market_conserves [OF market.hyps(2)] by (metis add.assoc)
next
  case (drain s os out frontier new s')
  then have "queued s = new @ queued s'" "sm_resting s' = sm_resting s"
    by (auto simp: sim_drain_due_def dq_drain_due_def queued_def Let_def split: prod.splits
        dest: drain_loop_append)
  then show ?case using drain by (simp add: add.assoc)
qed

end

section \<open>Causality\<close>

text \<open>Reports already scheduled stay, new ones are due one latency after the current time.\<close>

definition schedules_at :: "unix_nanos set \<Rightarrow> sim_state \<Rightarrow> sim_state \<Rightarrow> bool" where
  "schedules_at T s s' \<longleftrightarrow> set (dq_heap (sm_queue s)) \<subseteq> set (dq_heap (sm_queue s')) \<and>
     (\<forall>x \<in> set (dq_heap (sm_queue s')) - set (dq_heap (sm_queue s)). sd_due x \<in> T)"

lemma schedules_refl: "schedules_at T s s"
  by (simp add: schedules_at_def)

lemma schedules_trans: "schedules_at T s1 s2 \<Longrightarrow> schedules_at T s2 s3 \<Longrightarrow> schedules_at T s1 s3"
  by (auto simp: schedules_at_def)

lemma schedules_push:
  "t \<in> T \<Longrightarrow> sm_queue s' = dq_push t rep (sm_queue s) \<Longrightarrow> schedules_at T s s'"
  by (auto simp: schedules_at_def dq_push_def Let_def)

lemma schedules_cong: "sm_queue s' = sm_queue s'' \<Longrightarrow> schedules_at T s s' = schedules_at T s s''"
  by (simp add: schedules_at_def)

lemma on_submit_schedules:
  "schedules_at {saturating_add_ns now (bm_latency_ns B KSubmit)} s (on_submit B now c o1 s)"
  by (cases "cache_instrument c (o_instrument_id o1)")
    (auto simp: on_submit_def next_venue_id_def Let_def schedules_refl intro!: schedules_push)

lemma on_cancel_schedules:
  "schedules_at {saturating_add_ns now (bm_latency_ns B KCancel)} s (on_cancel B now coid s)"
  by (auto simp: on_cancel_def Let_def schedules_refl intro!: schedules_push)

lemma settle_one_schedules:
  assumes "settle_one B now inst (r, oc) s = Some (kept, s')"
  shows "schedules_at {saturating_add_ns now (bm_latency_ns B KSubmit)} s s'"
proof (cases "s' = s")
  case False
  then obtain px q nq liq rep s1 where
    "make_fill B (rs_order r) (rs_venue_order_id r) px q liq
       (saturating_add_ns now (bm_latency_ns B KSubmit)) inst s = Some (rep, s1)"
    "s' = s1\<lparr>sm_queue := dq_push (saturating_add_ns now (bm_latency_ns B KSubmit)) rep (sm_queue s1)\<rparr>"
    using assms by (auto simp: settle_one_def bind_eq_Some Let_def split: option.splits if_split_asm)
  then show ?thesis by (auto dest!: make_fill_queue intro!: schedules_push)
qed (simp add: schedules_refl)

lemma settle_all_schedules:
  "settle_all B now inst xs s = Some (kept, s') \<Longrightarrow>
     schedules_at {saturating_add_ns now (bm_latency_ns B KSubmit)} s s'"
proof (induction xs arbitrary: s kept)
  case (Cons x xs)
  obtain r oc where x: "x = (r, oc)" by (cases x)
  then obtain k s1 rest where "settle_one B now inst (r, oc) s = Some (k, s1)"
    "settle_all B now inst xs s1 = Some (rest, s')"
    using Cons.prems by (auto simp: bind_eq_Some)
  then show ?case using Cons.IH settle_one_schedules schedules_trans by blast
qed (simp add: schedules_refl)

lemma on_market_schedules:
  assumes "on_market D B now c ev s = Some s'"
  shows "schedules_at {saturating_add_ns now (bm_latency_ns B KSubmit)} s s'"
  using assms
proof (cases rule: on_market_cases)
  case (matched inst mv s1 xs kept s2)
  then show ?thesis using settle_all_schedules [OF matched(6)] by (simp add: schedules_at_def)
qed (simp add: schedules_refl)

section \<open>Trailing stops\<close>

text \<open>The trigger of a trailing stop sits at the trailing distance from its extreme.\<close>

definition trail_ok :: "resting \<Rightarrow> bool" where
  "trail_ok r \<longleftrightarrow> (\<forall>t. rs_trail r = Some t \<longrightarrow> p_prec (tr_offset t) = p_prec (tr_extreme t) \<and>
     (\<exists>trig. o_trigger (rs_order r) = Some trig \<and> p_prec trig = p_prec (tr_extreme t) \<and>
       (case o_side (rs_order r) of
          Sell \<Rightarrow> p_raw trig = p_raw (tr_extreme t) - p_raw (tr_offset t)
        | Buy \<Rightarrow> p_raw trig = p_raw (tr_extreme t) + p_raw (tr_offset t))))"

definition tighter :: "order_side \<Rightarrow> price \<Rightarrow> price \<Rightarrow> bool" where
  "tighter side old new = (case side of Sell \<Rightarrow> old \<le> new | Buy \<Rightarrow> new \<le> old)"

lemma on_submit_trail:
  assumes "\<forall>r \<in> set (sm_resting s). trail_ok r"
  shows "\<forall>r \<in> set (sm_resting (on_submit B now c o1 s)). trail_ok r"
  using assms
  by (auto simp: on_submit_def next_venue_id_def Let_def trail_ok_def seed_trail_def price_checked_sub_Ok
      split: option.splits if_split_asm sum.splits order_side.splits)

lemma ratchet_tightens:
  assumes "trail_ok r" "rs_trail r = Some t" "o_trigger (rs_order r) = Some trig"
    "ratchet mv (o_side (rs_order r)) t = Some (ext, nt)"
    "p_prec (mv_low mv) = p_prec trig" "p_prec (mv_high mv) = p_prec trig"
  shows "tighter (o_side (rs_order r)) trig nt \<and> trail_ok (write_back (no_outcome\<lparr>oc_trail := Some (ext, nt)\<rparr>) r)"
proof -
  let ?e = "tr_extreme t" and ?f = "tr_offset t"
  have ok: "p_prec ?f = p_prec ?e" "p_prec trig = p_prec ?e"
    "o_side (rs_order r) = Sell \<Longrightarrow> p_raw trig = p_raw ?e - p_raw ?f"
    "o_side (rs_order r) = Buy \<Longrightarrow> p_raw trig = p_raw ?e + p_raw ?f"
    using assms(1-3) by (auto simp: trail_ok_def)
  have wb: "rs_trail (write_back (no_outcome\<lparr>oc_trail := Some (ext, nt)\<rparr>) r) = Some (t\<lparr>tr_extreme := ext\<rparr>)"
    "rs_order (write_back (no_outcome\<lparr>oc_trail := Some (ext, nt)\<rparr>) r) = (rs_order r)\<lparr>o_trigger := Some nt\<rparr>"
    using assms(2) by (simp_all add: write_back_def no_outcome_def)
  show ?thesis
  proof (cases "o_side (rs_order r)")
    case Buy
    have e: "ext = min ?e (mv_low mv)" "price_checked_add ext ?f = Ok nt"
      using assms(4) Buy by (auto simp: ratchet_def Let_def split: sum.split_asm)
    have "p_raw ext \<le> p_raw ?e" "p_prec ext = p_prec ?e"
      using e(1) assms(5) ok(2) by (auto simp: min_def less_eq_price_def)
    then show ?thesis using e(2) Buy ok wb
      by (auto simp: price_checked_add_Ok tighter_def less_eq_price_def trail_ok_def)
  next
    case Sell
    have e: "ext = max ?e (mv_high mv)" "price_checked_sub ext ?f = Ok nt"
      using assms(4) Sell by (auto simp: ratchet_def Let_def split: sum.split_asm)
    have "p_raw ?e \<le> p_raw ext" "p_prec ext = p_prec ?e"
      using e(1) assms(6) ok(2) by (auto simp: max_def less_eq_price_def)
    then show ?thesis using e(2) Sell ok wb
      by (auto simp: price_checked_sub_Ok tighter_def less_eq_price_def trail_ok_def)
  qed
qed

lemma decide_stop_trail:
  assumes "decide_stop B inst mv r = Some oc" "o_order_type (rs_order r) = TrailingStopMarket"
  shows "oc_activate oc = False \<and> (oc_trail oc = None \<or>
    (\<exists>t. rs_trail r = Some t \<and> oc_trail oc = ratchet mv (o_side (rs_order r)) t))"
  using assms
  by (auto simp: decide_stop_def Let_def bind_eq_Some no_outcome_def split: if_split_asm option.split_asm)

lemma write_back_trail: "oc_activate oc = False \<Longrightarrow> oc_trail oc = Some x \<Longrightarrow>
    rs_trail (write_back oc r) = rs_trail (write_back (no_outcome\<lparr>oc_trail := Some x\<rparr>) r) \<and>
    rs_order (write_back oc r) = rs_order (write_back (no_outcome\<lparr>oc_trail := Some x\<rparr>) r)"
  by (simp add: write_back_def no_outcome_def split_beta)

text \<open>A pending order's decision reads the open and the range of the event, not its close.\<close>

lemma decide_pending_close: "decide_pending B inst (mv\<lparr>mv_close := x\<rparr>) r = decide_pending B inst mv r"
  by (simp add: decide_pending_def cong: if_cong option.case_cong order_side.case_cong)

section \<open>Properties\<close>


definition sample_trade :: "int \<Rightarrow> market_event" where
  "sample_trade px = MTrade
     \<lparr>tt_instrument_id = InstrumentId ''BTCUSDT'' ''BINANCE'', tt_price = Price px 2, tt_size = Quantity 1 0,
      tt_aggressor = Sell, tt_trade_id = ''x'', tt_ts_event = 5, tt_ts_init = 5\<rparr>"

definition sample_venue :: sim_state where
  "sample_venue = on_submit (default_model rdec default_default) 1 sample_cache sample_order sim_new"

lemma sample_cache_lookup:
  "cache_instrument sample_cache (InstrumentId ''BTCUSDT'' ''BINANCE'') = Some sample_instrument"
  "cache_mark sample_cache (InstrumentId ''BTCUSDT'' ''BINANCE'') = Some (Price 10400 2)"
  "cache_quote sample_cache (InstrumentId ''BTCUSDT'' ''BINANCE'') = None"
  by (simp_all add: sample_cache_def upsert_position_def set_mark_def add_instrument_def
      set_account_def cache_new_def cache_instrument_def cache_mark_def cache_quote_def
      sample_instrument_def currency_pair_dyn_def)

lemma sample_order_sel [simp]:
  "o_client_order_id sample_order = ''s1-1''" "o_instrument_id sample_order = InstrumentId ''BTCUSDT'' ''BINANCE''"
  "o_side sample_order = Buy" "o_order_type sample_order = Limit" "o_quantity sample_order = Quantity 5 0"
  "o_price sample_order = Some (Price 1000 2)" "o_trigger sample_order = None"
  by (simp_all add: sample_order_def order_new_def)

lemma sample_fee: "bm_fee (default_model rdec default_default) sample_order (Price 1000 2) (Quantity 5 0) Maker
    sample_instrument = Some (Money 0 usdt)"
  by (simp add: default_model_def) code_simp

definition matched_venue :: sim_state where
  "matched_venue = sample_venue\<lparr>sm_resting := [], sm_trade_seq := 1,
     sm_queue := dq_push (saturating_add_ns 2 1000000) (RepFill
       \<lparr>f_trade_id = ''SIM-T-'' @ fmt020 1, f_client_order_id = ''s1-1'',
        f_venue_order_id = ''SIM-'' @ fmt020 1, f_instrument_id = InstrumentId ''BTCUSDT'' ''BINANCE'',
        f_side = Buy, f_last_px = Price 1000 2, f_last_qty = Quantity 5 0, f_fee = Money 0 usdt,
        f_liquidity = Maker, f_ts_event = saturating_add_ns 2 1000000,
        f_ts_init = saturating_add_ns 2 1000000\<rparr>) (sm_queue sample_venue)\<rparr>"

lemma sample_resting:
  "sm_resting sample_venue = [\<lparr>rs_order = sample_order, rs_remaining = Quantity 5 0, rs_queue_ahead = None,
     rs_venue_order_id = ''SIM-'' @ fmt020 1, rs_trail = None, rs_pending_open = False\<rparr>]"
  "sm_trade_seq sample_venue = 0"
  by (simp_all add: sample_venue_def on_submit_def sample_cache_lookup next_venue_id_def Let_def
      marketable_def reference_price_def less_eq_price_def seed_trail_def sim_new_def)

lemma sample_match:
  "on_market rdec (default_model rdec default_default) 2 sample_cache (sample_trade 990) sample_venue =
     Some matched_venue"
  using sample_fee
  by (simp add: on_market_def sample_trade_def sample_cache_lookup sample_resting decide_def decide_limit_def
      less_price_def qty_is_positive_def no_outcome_def settle_one_def make_fill_def next_trade_id_def
      write_back_def qty_checked_sub_def qty_same_precision_def i64_checked_def in_i64_def
      qty_from_raw_def check_precision_def qty_is_zero_def matched_venue_def Let_def
      default_model_def default_default_def)

lemma sample_run: "sim_run rdec (default_model rdec default_default) matched_venue [sample_order] []"
  using sim_run.market [OF sim_run.submit [OF sim_run.start] sample_match [unfolded sample_venue_def]]
  by (simp add: sample_order_def order_new_def valid_qty_def in_i64_def MAX_PRECISION_def)



definition pending_buy :: resting where
  "pending_buy = \<lparr>rs_order = sample_order\<lparr>o_price := Some (Price 100000 2)\<rparr>, rs_remaining = Quantity 5 0,
     rs_queue_ahead = None, rs_venue_order_id = ''v'', rs_trail = None, rs_pending_open = True\<rparr>"

definition tick_view :: "int \<Rightarrow> market_view" where
  "tick_view px = \<lparr>mv_low = Price px 2, mv_high = Price px 2, mv_close = Price px 2, mv_open = Price px 2,
     mv_volume = None\<rparr>"

text \<open>The model quotes ten cents above the limit; the venue caps the fill at the limit.\<close>

lemma pending_quote: "bm_fill_price (default_model rdec default_default) (rs_order pending_buy) (Price 100000 2)
    (Some (Price 100000 2, Price 100000 2)) sample_instrument = Some (Price 100010 2)"
  by (simp add: default_model_def) code_simp

lemma pending_decision:
  "decide rdec (default_model rdec default_default) (InstrumentId ''BTCUSDT'' ''BINANCE'') sample_instrument
     (tick_view 100000) pending_buy =
   Some (no_outcome\<lparr>oc_clear := True, oc_fill := Some (Price 100000 2, Quantity 5 0, None, Taker)\<rparr>)"
  using pending_quote
  by (simp add: decide_def pending_buy_def decide_pending_def tick_view_def capped_qty_def
      qty_is_positive_def less_eq_price_def Let_def min_def)


text \<open>
  No look-ahead. Submitting an order never schedules a fill: its only report is the
  acknowledgement, one submit latency later. A marketable order waits for the next event and is
  then priced without that event's close: changing the close changes nothing of the decision.
\<close>

theorem sim_no_look_ahead:
  "(\<forall>coid. fills_of coid (queued (on_submit B now c o1 s)) = fills_of coid (queued s)) \<and>
   schedules_at {saturating_add_ns now (bm_latency_ns B KSubmit)} s (on_submit B now c o1 s) \<and>
   (rs_pending_open r \<longrightarrow> decide D B i inst (mv\<lparr>mv_close := x\<rparr>) r = decide D B i inst mv r)"
  using on_submit_effect [of _ B now c o1 s] on_submit_schedules [of now B s c o1]
  by (simp add: decide_def decide_pending_close)

theorem sim_no_look_ahead_witness:
  "decide rdec (default_model rdec default_default) (InstrumentId ''BTCUSDT'' ''BINANCE'') sample_instrument
     ((tick_view 100000)\<lparr>mv_close := Price 5 2\<rparr>) pending_buy =
   Some (no_outcome\<lparr>oc_clear := True, oc_fill := Some (Price 100000 2, Quantity 5 0, None, Taker)\<rparr>)"
  using sim_no_look_ahead [where B = "default_model rdec default_default" and r = pending_buy and D = rdec
      and i = "InstrumentId ''BTCUSDT'' ''BINANCE''" and inst = sample_instrument
      and mv = "tick_view 100000" and x = "Price 5 2"]
    pending_decision
  by (simp add: pending_buy_def)

text \<open>
  Causality. Matching a market event leaves the reports already scheduled in place, and every
  report it adds is due exactly one submit latency after the current time, never before it.
\<close>

theorem sim_reports_causal:
  assumes "on_market D B now c ev s = Some s'"
  shows "schedules_at {saturating_add_ns now (bm_latency_ns B KSubmit)} s s' \<and>
    now \<le> saturating_add_ns now (bm_latency_ns B KSubmit)"
  using on_market_schedules [OF assms] by (simp add: saturating_add_ns_def u64_saturating_add_ge)

theorem sim_reports_causal_witness:
  "schedules_at {saturating_add_ns 2 1000000} sample_venue matched_venue"
  using sim_reports_causal [OF sample_match] by (simp add: default_model_def default_default_def)

text \<open>
  Reports come out in time order and none is lost. Draining up to a frontier hands out exactly
  the reports due by then, ordered by due time and then by the order they were scheduled in; the
  rest stay queued and are all due later.
\<close>

theorem drain_due_exact:
  assumes "dq_inv q" "dq_drain_due f q = (out, q')"
  shows "out = map sd_report (filter (\<lambda>s. sd_due s \<le> f) (dq_heap q)) \<and>
    sorted (map sched_key (filter (\<lambda>s. sd_due s \<le> f) (dq_heap q))) \<and>
    mset out + image_mset snd (dq_entries q') = image_mset snd (dq_entries q) \<and>
    (case dq_peek_due q' of None \<Rightarrow> True | Some t \<Rightarrow> f < t) \<and> dq_inv q'"
proof -
  have q': "q' = snd (dq_drain_due f q)" "out = fst (dq_drain_due f q)" using assms(2) by simp_all
  have "sorted (map sched_key (filter (\<lambda>s. sd_due s \<le> f) (dq_heap q)))"
    using assms(1) by (simp add: dq_inv_def sorted_filter_key)
  moreover have "case dq_peek_due q' of None \<Rightarrow> True | Some t \<Rightarrow> f < t"
    using dq.peek_after_drain [OF assms(1), of f] q'(1) by (simp split: option.splits)
  ultimately show ?thesis
    using dq.drain_conserves [OF assms(1), of f] dq.inv_drain [OF assms(1), of f] q'
      drain_heap_eq [OF assms(1), of f] by simp
qed

theorem drain_due_exact_witness:
  "fst (dq_drain_due 3 (dq_push 9 (RepCanceled ''b'') (dq_push 2 (RepCanceled ''a'') dq_new))) = [RepCanceled ''a'']"
proof -
  let ?q = "dq_push 9 (RepCanceled ''b'') (dq_push 2 (RepCanceled ''a'') dq_new)"
  have inv: "dq_inv ?q" by (intro dq.inv_push) (simp add: dq_inv_def dq_new_def)
  from drain_due_exact [OF inv, of 3 "fst (dq_drain_due 3 ?q)" "snd (dq_drain_due 3 ?q)"]
  show ?thesis by (simp add: dq_push_def dq_new_def pq_push_def sched_key_def Let_def less_eq_prod_def)
qed

text \<open>
  Trailing stops only tighten. On every event, at the instrument's price precision, the
  trigger of a resting trailing stop moves in the favourable direction or stays, and keeps its
  trailing distance from the extreme price seen.
\<close>

theorem trailing_stop_tightens:
  assumes "decide_stop B inst mv r = Some oc" "o_order_type (rs_order r) = TrailingStopMarket"
    "trail_ok r" "o_trigger (rs_order r) = Some trig"
    "p_prec (mv_low mv) = p_prec trig" "p_prec (mv_high mv) = p_prec trig"
  shows "trail_ok (write_back oc r) \<and>
    (\<exists>nt. o_trigger (rs_order (write_back oc r)) = Some nt \<and> tighter (o_side (rs_order r)) trig nt)"
proof (cases "oc_trail oc")
  case None
  then show ?thesis
    using decide_stop_trail [OF assms(1,2)] assms(3,4)
    by (auto simp: write_back_def trail_ok_def tighter_def split: order_side.splits)
next
  case (Some x)
  obtain ext nt where x: "x = (ext, nt)" by (cases x)
  obtain t where t: "rs_trail r = Some t" "ratchet mv (o_side (rs_order r)) t = Some (ext, nt)"
    using decide_stop_trail [OF assms(1,2)] Some x by auto
  note wb = write_back_trail [OF decide_stop_trail [OF assms(1,2), THEN conjunct1] Some, of r]
  show ?thesis
    using ratchet_tightens [OF assms(3) t(1) assms(4) t(2) assms(5,6)] wb x
    by (auto simp: trail_ok_def write_back_def no_outcome_def)
qed

definition trailing_sell :: resting where
  "trailing_sell = pending_buy\<lparr>rs_pending_open := False,
     rs_order := sample_order\<lparr>o_side := Sell, o_order_type := TrailingStopMarket, o_price := None,
       o_trigger := Some (Price 900 2)\<rparr>,
     rs_trail := Some \<lparr>tr_offset = Price 100 2, tr_extreme = Price 1000 2\<rparr>\<rparr>"

theorem trailing_stop_tightens_witness:
  "\<exists>nt. o_trigger (rs_order (write_back (no_outcome\<lparr>oc_trail := Some (Price 1200 2, Price 1100 2)\<rparr>) trailing_sell)) =
     Some nt \<and> Price 900 2 \<le> nt"
proof -
  have "decide_stop (default_model rdec default_default) sample_instrument (tick_view 1200) trailing_sell =
      Some (no_outcome\<lparr>oc_trail := Some (Price 1200 2, Price 1100 2)\<rparr>)"
    by (simp add: decide_stop_def trailing_sell_def pending_buy_def tick_view_def less_eq_price_def Let_def
        ratchet_def max_def price_checked_sub_def price_same_precision_def i64_checked_def in_i64_def)
  from trailing_stop_tightens [OF this, of "Price 900 2"] show ?thesis
    by (simp add: trailing_sell_def trail_ok_def tick_view_def tighter_def)
qed

end
