(* ===== verification/Exec.thy ===== *)
theory Exec
  imports Sim_Facts
begin

text \<open>
  \<open>execution-live/crates/coinext-exec-engine/src/lib.rs\<close>: the order management engine. It
  routes intents through the A-share rules and the risk gate to the simulated venue and folds
  execution reports into orders and positions. The cache, the engine's own tables and the venue
  are the record \<open>core\<close>; \<open>None\<close> is a panic of the decimal arithmetic.
\<close>

section \<open>State\<close>

record exec_state =
  ex_seen_trade_ids :: "trade_id set"
  ex_bought_today :: "instrument_id \<times> nat \<rightharpoonup> decimal"
  ex_close_by_day :: "instrument_id \<times> nat \<rightharpoonup> decimal"

definition exec_new :: exec_state where
  "exec_new = \<lparr>ex_seen_trade_ids = {}, ex_bought_today = Map.empty, ex_close_by_day = Map.empty\<rparr>"

record core =
  co_cache :: cache
  co_exec :: exec_state
  co_sim :: sim_state

section \<open>A-share rules\<close>

definition is_ashare_equity :: "instrument \<Rightarrow> bool" where
  "is_ashare_equity inst \<longleftrightarrow>
     inst_asset_class inst = AssetEquity \<and> ii_venue (inst_id inst) \<in> {''SSE'', ''SZSE''}"

definition is_t_plus_one :: "instrument \<Rightarrow> bool" where
  "is_t_plus_one inst = is_ashare_equity inst"

text \<open>The day number fits \<open>u32\<close> for every 64-bit time, so the cast changes nothing.\<close>

definition day_key_utc :: "unix_nanos \<Rightarrow> nat" where
  "day_key_utc now = unat now div 1000000000 div 86400"

definition day_key_shanghai :: "unix_nanos \<Rightarrow> nat" where
  "day_key_shanghai now = (unat now div 1000000000 + 8 * 3600) div 86400"

definition day_key_for_inst :: "instrument \<Rightarrow> unix_nanos \<Rightarrow> nat" where
  "day_key_for_inst inst now =
     (if is_ashare_equity inst then day_key_shanghai now else day_key_utc now)"

definition to_ascii_uppercase :: "string \<Rightarrow> string" where
  "to_ascii_uppercase s =
     map (\<lambda>c. if 97 \<le> (of_char c :: nat) \<and> (of_char c :: nat) \<le> 122 then char_of (of_char c - 32 :: nat) else c) s"

definition starts_with :: "string \<Rightarrow> string \<Rightarrow> bool" where
  "starts_with s p \<longleftrightarrow> take (length p) s = p"

definition is_ascii_digit :: "char \<Rightarrow> bool" where
  "is_ascii_digit c \<longleftrightarrow> 48 \<le> (of_char c :: nat) \<and> (of_char c :: nat) \<le> 57"

definition price_limit_pct :: "string \<Rightarrow> decimal" where
  "price_limit_pct sy =
     (let s = to_ascii_uppercase sy
      in if starts_with s ''*ST'' \<or> starts_with s ''ST'' then dec_new 5 2
         else let digits = filter is_ascii_digit s
              in if 6 \<le> length digits \<and>
                    (let code = drop (length digits - 6) digits
                     in starts_with code ''300'' \<or> starts_with code ''301'' \<or>
                        starts_with code ''688'' \<or> starts_with code ''689'')
                 then dec_new 20 2 else dec_new 10 2)"

definition observe_mark ::
  "dec_ops \<Rightarrow> cache \<Rightarrow> instrument_id \<Rightarrow> unix_nanos \<Rightarrow> exec_state \<Rightarrow> exec_state option" where
  "observe_mark D c i now e =
     (case cache_mark c i of
        None \<Rightarrow> Some e
      | Some mark \<Rightarrow> do {
          let day = (case cache_instrument c i of
                       Some inst \<Rightarrow> day_key_for_inst inst now | None \<Rightarrow> day_key_shanghai now);
          px \<leftarrow> price_as_decimal D mark;
          Some (e\<lparr>ex_close_by_day := (ex_close_by_day e)((i, day) \<mapsto> px)\<rparr>) })"

text \<open>\<open>for back in 1..=40\<close>: the first earlier day with a positive mark.\<close>

fun prev_close_from :: "dec_ops \<Rightarrow> exec_state \<Rightarrow> instrument_id \<Rightarrow> nat \<Rightarrow> nat list \<Rightarrow> decimal option" where
  "prev_close_from D e i day [] = None"
| "prev_close_from D e i day (back # bs) =
     (if day < back then None
      else case ex_close_by_day e (i, day - back) of
             Some px \<Rightarrow> if d_lt D dec_zero px then Some px else prev_close_from D e i day bs
           | None \<Rightarrow> prev_close_from D e i day bs)"

definition prev_close_for :: "dec_ops \<Rightarrow> exec_state \<Rightarrow> instrument_id \<Rightarrow> nat \<Rightarrow> decimal option" where
  "prev_close_for D e i day = prev_close_from D e i day [1..<41]"

text \<open>
  The result carries the engine state (the mark is observed on the way) and the reason of the
  violation, if there is one.
\<close>

definition price_limit_violation ::
  "dec_ops \<Rightarrow> cache \<Rightarrow> instrument \<Rightarrow> order \<Rightarrow> unix_nanos \<Rightarrow> exec_state \<Rightarrow>
   (reason option \<times> exec_state) option" where
  "price_limit_violation D c inst o' now e0 =
     (if \<not> is_ashare_equity inst then Some (None, e0)
      else do {
        e \<leftarrow> observe_mark D c (o_instrument_id o') now e0;
        let day = day_key_for_inst inst now;
        case prev_close_for D e (o_instrument_id o') day of
          None \<Rightarrow> Some (None, e)
        | Some prev \<Rightarrow>
            if d_le D prev dec_zero then Some (None, e)
            else do {
              let pct = price_limit_pct (ii_symbol (o_instrument_id o'));
              u \<leftarrow> d_add D dec_one pct;
              pu \<leftarrow> d_mul D prev u;
              d \<leftarrow> d_sub D dec_one pct;
              pd \<leftarrow> d_mul D prev d;
              let up = d_round_dp D pu 2;
              let down = d_round_dp D pd 2;
              ref_opt \<leftarrow> (case (if o_order_type o' \<in> {Limit, StopLimit} then o_price o'
                              else cache_mark c (o_instrument_id o')) of
                           None \<Rightarrow> Some None
                         | Some p \<Rightarrow> map_option Some (price_as_decimal D p));
              case ref_opt of
                None \<Rightarrow> Some (None, e)
              | Some ref_px \<Rightarrow>
                  Some (if (case o_side o' of Buy \<Rightarrow> d_le D ref_px up | Sell \<Rightarrow> d_le D down ref_px) then None
                        else Some (Reason ''PriceLimit: px {} outside [{}, {}] (prev_close={}, pct={})''
                               [RDec ref_px, RDec down, RDec up, RDec prev, RDec pct]), e) } })"

definition sellable_qty ::
  "dec_ops \<Rightarrow> portfolio_api \<Rightarrow> instrument_id \<Rightarrow> unix_nanos \<Rightarrow> instrument \<Rightarrow> exec_state \<Rightarrow> decimal option" where
  "sellable_qty D pf i now inst e = do {
     long \<leftarrow> (case pf_position pf i of
        Some p \<Rightarrow> if ps_side p = Long then qty_as_decimal D (ps_quantity p) else Some dec_zero
      | None \<Rightarrow> Some dec_zero);
     let bought = (case ex_bought_today e (i, day_key_for_inst inst now) of Some b \<Rightarrow> b | None \<Rightarrow> dec_zero);
     x \<leftarrow> d_sub D long bought;
     Some (d_max D x dec_zero) }"

section \<open>Submitting and cancelling\<close>

text \<open>\<open>let _ = order.apply(ev)\<close>, store the order, answer the event.\<close>

definition deny_order ::
  "dec_ops \<Rightarrow> reason \<Rightarrow> unix_nanos \<Rightarrow> order \<Rightarrow> core \<Rightarrow> (order_event list \<times> core) option" where
  "deny_order D rs now o' k = do {
     (_, o1) \<leftarrow> order_apply D (EvDenied rs now) o';
     Some ([EvDenied rs now], k\<lparr>co_cache := add_order o1 (co_cache k)\<rparr>) }"

text \<open>The display of a deny reason is its constructor name.\<close>

fun deny_text :: "deny_reason \<Rightarrow> string" where
  "deny_text MaxPositionExceeded = ''MaxPositionExceeded''"
| "deny_text MaxGrossExposureExceeded = ''MaxGrossExposureExceeded''"
| "deny_text MaxOrderNotional = ''MaxOrderNotional''"
| "deny_text OrderRateThrottled = ''OrderRateThrottled''"
| "deny_text MinNotional = ''MinNotional''"
| "deny_text KillSwitchEngaged = ''KillSwitchEngaged''"
| "deny_text InstrumentHalted = ''InstrumentHalted''"
| "deny_text InsufficientMargin = ''InsufficientMargin''"
| "deny_text TPlusOne = ''TPlusOne''"
| "deny_text PriceLimit = ''PriceLimit''"

text \<open>The T+1 test: the reason to deny a sell that exceeds what may be sold today.\<close>

definition t_plus_one_violation ::
  "dec_ops \<Rightarrow> portfolio_api \<Rightarrow> instrument \<Rightarrow> order \<Rightarrow> unix_nanos \<Rightarrow> exec_state \<Rightarrow> reason option option" where
  "t_plus_one_violation D pf inst o' now e =
     (if o_side o' = Sell \<and> is_t_plus_one inst then do {
        sellable \<leftarrow> sellable_qty D pf (o_instrument_id o') now inst e;
        q \<leftarrow> qty_as_decimal D (o_quantity o');
        Some (if d_lt D sellable q
              then Some (Reason ''TPlusOne: sellable {} < {}'' [RDec sellable, RDec q]) else None) }
      else Some None)"

definition route_order ::
  "dec_ops \<Rightarrow> brokerage_model \<Rightarrow> risk_gate \<Rightarrow> portfolio_api \<Rightarrow> instrument \<Rightarrow> order \<Rightarrow> unix_nanos \<Rightarrow> core \<Rightarrow>
   (order_event list \<times> core) option" where
  "route_order D B g pf inst o' now k = do {
     dec \<leftarrow> risk_check D (co_cache k) g o' pf inst;
     case dec of
       RiskApproved \<Rightarrow> do {
         (_, o1) \<leftarrow> order_apply D (EvSubmitted now) o';
         let c = add_order o1 (co_cache k);
         Some ([EvSubmitted now], k\<lparr>co_cache := c, co_sim := on_submit B now c o1 (co_sim k)\<rparr>) }
     | RiskDenied rs \<Rightarrow> deny_order D (Reason (deny_text rs) []) now o' k }"

definition exec_submit ::
  "dec_ops \<Rightarrow> brokerage_model \<Rightarrow> risk_gate \<Rightarrow> portfolio_api \<Rightarrow> order \<Rightarrow> unix_nanos \<Rightarrow> core \<Rightarrow>
   (order_event list \<times> core) option" where
  "exec_submit D B g pf o' now k =
     (if cache_order (co_cache k) (o_client_order_id o') \<noteq> None then Some ([], k)
      else case cache_instrument (co_cache k) (o_instrument_id o') of
        None \<Rightarrow> Some ([], k)
      | Some inst \<Rightarrow>
          if (case inst_expiry_ns inst of Some ex \<Rightarrow> ex \<le> now | None \<Rightarrow> False)
          then deny_order D (Reason ''instrument expired'' []) now o' k
          else do {
            tp \<leftarrow> t_plus_one_violation D pf inst o' now (co_exec k);
            case tp of
              Some rs \<Rightarrow> deny_order D rs now o' k
            | None \<Rightarrow> do {
                (pl, e) \<leftarrow> price_limit_violation D (co_cache k) inst o' now (co_exec k);
                let k1 = k\<lparr>co_exec := e\<rparr>;
                case pl of
                  Some rs \<Rightarrow> deny_order D rs now o' k1
                | None \<Rightarrow> route_order D B g pf inst o' now k1 } })"

text \<open>Apply an event to a tracked order and report it when the order accepts it.\<close>

definition apply_tracked ::
  "dec_ops \<Rightarrow> client_order_id \<Rightarrow> order_event \<Rightarrow> cache \<Rightarrow> (order_event list \<times> cache) option" where
  "apply_tracked D coid ev c =
     (case cache_order c coid of
        None \<Rightarrow> Some ([], c)
      | Some o' \<Rightarrow> do {
          (r, o1) \<leftarrow> order_apply D ev o';
          Some (if is_ok r then [ev] else [], put_order coid o1 c) })"

definition exec_cancel ::
  "dec_ops \<Rightarrow> brokerage_model \<Rightarrow> client_order_id \<Rightarrow> unix_nanos \<Rightarrow> core \<Rightarrow> (order_event list \<times> core) option" where
  "exec_cancel D B coid now k = do {
     (evs, c) \<leftarrow> apply_tracked D coid (EvPendingCancel now) (co_cache k);
     Some (evs, k\<lparr>co_cache := c, co_sim := on_cancel B now coid (co_sim k)\<rparr>) }"

section \<open>Execution reports\<close>

text \<open>The T+1 ledger entry of an accepted buy fill.\<close>

definition record_bought ::
  "dec_ops \<Rightarrow> instrument \<Rightarrow> fill \<Rightarrow> exec_state \<Rightarrow> exec_state option" where
  "record_bought D inst f e =
     (if f_side f = Buy \<and> is_ashare_equity inst then do {
        let key = (f_instrument_id f, day_key_for_inst inst (f_ts_event f));
        q \<leftarrow> qty_as_decimal D (f_last_qty f);
        x \<leftarrow> d_add D (case ex_bought_today e key of Some b \<Rightarrow> b | None \<Rightarrow> dec_zero) q;
        Some (e\<lparr>ex_bought_today := (ex_bought_today e)(key \<mapsto> x)\<rparr>) }
      else Some e)"

definition held_position :: "cache \<Rightarrow> instrument \<Rightarrow> instrument_id \<Rightarrow> position" where
  "held_position c inst i =
     (case cache_position c i of
        Some p \<Rightarrow> p
      | None \<Rightarrow> position_flat (instrument_id_display i @ ''-POS'') i (inst_price_precision inst)
                  (inst_size_precision inst) (inst_settlement_currency inst))"

definition fold_position ::
  "dec_ops \<Rightarrow> instrument \<Rightarrow> fill \<Rightarrow> core \<Rightarrow> core option" where
  "fold_position D inst f k = do {
     e \<leftarrow> record_bought D inst f (co_exec k);
     (_, p) \<leftarrow> position_apply_fill D f inst (held_position (co_cache k) inst (f_instrument_id f));
     Some (k\<lparr>co_exec := e, co_cache := upsert_position p (co_cache k)\<rparr>) }"

text \<open>The FSM step of a fill: whether it covers what is left, the order's verdict, the events.\<close>

definition fill_order ::
  "dec_ops \<Rightarrow> fill \<Rightarrow> cache \<Rightarrow> (order_event list \<times> cache) option" where
  "fill_order D f c =
     (case cache_order c (f_client_order_id f) of
        None \<Rightarrow> Some ([], c)
      | Some o' \<Rightarrow> do {
          q \<leftarrow> qty_as_decimal D (f_last_qty f);
          l \<leftarrow> qty_as_decimal D (leaves_qty o');
          apply_tracked D (f_client_order_id f) (if d_le D l q then EvFilled f else EvPartiallyFilled f) c })"

definition apply_fill_report :: "dec_ops \<Rightarrow> fill \<Rightarrow> core \<Rightarrow> (order_event list \<times> core) option" where
  "apply_fill_report D f k =
     (if f_trade_id f \<in> ex_seen_trade_ids (co_exec k) then Some ([], k)
      else do {
        let k1 = k\<lparr>co_exec := (co_exec k)\<lparr>ex_seen_trade_ids := insert (f_trade_id f) (ex_seen_trade_ids (co_exec k))\<rparr>\<rparr>;
        let inst = cache_instrument (co_cache k) (f_instrument_id f);
        (evs, c) \<leftarrow> fill_order D f (co_cache k1);
        let k2 = k1\<lparr>co_cache := c\<rparr>;
        if evs = [] then Some ([], k2)
        else case inst of
               None \<Rightarrow> Some (evs, k2)
             | Some i \<Rightarrow> do { k3 \<leftarrow> fold_position D i f k2; Some (evs, k3) } })"

text \<open>The order event a report other than a fill stands for.\<close>

fun report_event :: "unix_nanos \<Rightarrow> execution_report \<Rightarrow> order_event option" where
  "report_event now (RepAccepted _ void) = Some (EvAccepted void now)"
| "report_event now (RepRejected _ rs) = Some (EvRejected rs now)"
| "report_event now (RepCanceled _) = Some (EvCanceled now)"
| "report_event now (RepExpired _) = Some (EvExpired now)"
| "report_event now (RepPendingUpdate _) = Some (EvPendingUpdate now)"
| "report_event now (RepModified _ q p) = Some (EvUpdated q p now)"
| "report_event now (RepPendingCancel _) = Some (EvPendingCancel now)"
| "report_event now (RepFill _) = None"

definition apply_report ::
  "dec_ops \<Rightarrow> execution_report \<Rightarrow> unix_nanos \<Rightarrow> core \<Rightarrow> (order_event list \<times> core) option" where
  "apply_report D rep now k =
     (case rep of
        RepFill f \<Rightarrow> apply_fill_report D f k
      | _ \<Rightarrow> (case report_event now rep of
                Some ev \<Rightarrow> do {
                  (evs, c) \<leftarrow> apply_tracked D (report_client_order_id rep) ev (co_cache k);
                  Some (evs, k\<lparr>co_cache := c\<rparr>) }
              | None \<Rightarrow> Some ([], k)))"

section \<open>Submission\<close>

lemma deny_order_eq:
  assumes "deny_order D rs now o1 k = Some (evs, k')"
  shows "evs = [EvDenied rs now] \<and> co_sim k' = co_sim k \<and> co_exec k' = co_exec k \<and>
    (\<exists>o2. o_client_order_id o2 = o_client_order_id o1 \<and> co_cache k' = add_order o2 (co_cache k))"
  using assms order_apply_static [of D "EvDenied rs now" o1]
  by (auto simp: deny_order_def bind_eq_Some order_static_def)

lemma route_order_cases:
  assumes "route_order D B g pf inst o1 now k = Some (evs, k')"
  obtains (routed) o2 where "risk_check D (co_cache k) g o1 pf inst = Some RiskApproved"
      "evs = [EvSubmitted now]" "order_apply D (EvSubmitted now) o1 = Some (Inr (), o2) \<or> o2 = o1"
      "o_client_order_id o2 = o_client_order_id o1"
      "k' = k\<lparr>co_cache := add_order o2 (co_cache k),
              co_sim := on_submit B now (add_order o2 (co_cache k)) o2 (co_sim k)\<rparr>"
  | (denied) rs where "risk_check D (co_cache k) g o1 pf inst = Some (RiskDenied rs)"
      "deny_order D (Reason (deny_text rs) []) now o1 k = Some (evs, k')"
proof -
  obtain dec where dec: "risk_check D (co_cache k) g o1 pf inst = Some dec"
    using assms by (auto simp: route_order_def bind_eq_Some)
  show thesis
  proof (cases dec)
    case RiskApproved
    then obtain r o2 where ap: "order_apply D (EvSubmitted now) o1 = Some (r, o2)"
      and k': "evs = [EvSubmitted now]" "k' = k\<lparr>co_cache := add_order o2 (co_cache k),
              co_sim := on_submit B now (add_order o2 (co_cache k)) o2 (co_sim k)\<rparr>"
      using assms dec by (auto simp: route_order_def bind_eq_Some Let_def)
    have "order_apply D (EvSubmitted now) o1 = Some (Inr (), o2) \<or> o2 = o1"
      using ap order_apply_Err [of D "EvSubmitted now" o1 _ o2] by (cases r) auto
    moreover have "o_client_order_id o2 = o_client_order_id o1"
      using order_apply_static [OF ap] by (simp add: order_static_def)
    ultimately show thesis using routed dec RiskApproved k' by blast
  next
    case (RiskDenied rs)
    then show thesis using assms dec denied by (simp add: route_order_def)
  qed
qed

text \<open>Everything an order has passed when the engine routes it to the venue.\<close>

definition gates_passed ::
  "dec_ops \<Rightarrow> risk_gate \<Rightarrow> portfolio_api \<Rightarrow> instrument \<Rightarrow> order \<Rightarrow> unix_nanos \<Rightarrow> core \<Rightarrow> bool" where
  "gates_passed D g pf inst o1 now k \<longleftrightarrow>
     cache_order (co_cache k) (o_client_order_id o1) = None \<and>
     cache_instrument (co_cache k) (o_instrument_id o1) = Some inst \<and>
     (case inst_expiry_ns inst of Some ex \<Rightarrow> now < ex | None \<Rightarrow> True) \<and>
     t_plus_one_violation D pf inst o1 now (co_exec k) = Some None \<and>
     (\<exists>e. price_limit_violation D (co_cache k) inst o1 now (co_exec k) = Some (None, e)) \<and>
     risk_check D (co_cache k) g o1 pf inst = Some RiskApproved"

lemma exec_submit_cases:
  assumes "exec_submit D B g pf o1 now k = Some (evs, k')"
  obtains (ignored) "evs = []" "k' = k"
  | (denied) rs e where "deny_order D rs now o1 (k\<lparr>co_exec := e\<rparr>) = Some (evs, k')"
      "cache_order (co_cache k) (o_client_order_id o1) = None"
  | (routed) inst e o2 where "gates_passed D g pf inst o1 now k" "evs = [EvSubmitted now]"
      "o_client_order_id o2 = o_client_order_id o1"
      "k' = k\<lparr>co_exec := e, co_cache := add_order o2 (co_cache k),
              co_sim := on_submit B now (add_order o2 (co_cache k)) o2 (co_sim k)\<rparr>"
proof (cases "cache_order (co_cache k) (o_client_order_id o1) \<noteq> None \<or>
    cache_instrument (co_cache k) (o_instrument_id o1) = None")
  case True
  then have "evs = []" "k' = k" using assms by (auto simp: exec_submit_def split: option.splits if_split_asm)
  then show thesis by (rule ignored)
next
  case False
  then obtain inst where new: "cache_order (co_cache k) (o_client_order_id o1) = None"
    and inst: "cache_instrument (co_cache k) (o_instrument_id o1) = Some inst" by auto
  show thesis
  proof (cases "case inst_expiry_ns inst of Some ex \<Rightarrow> ex \<le> now | None \<Rightarrow> False")
    case True
    then show thesis using assms new inst denied [of _ "co_exec k"] by (simp add: exec_submit_def)
  next
    case live: False
    obtain tp where tp: "t_plus_one_violation D pf inst o1 now (co_exec k) = Some tp"
      using assms new inst live by (auto simp: exec_submit_def bind_eq_Some)
    show thesis
    proof (cases tp)
      case (Some rs)
      then show thesis using assms new inst live tp denied [of _ "co_exec k"] by (simp add: exec_submit_def)
    next
      case None
      then obtain pl e where pl: "price_limit_violation D (co_cache k) inst o1 now (co_exec k) = Some (pl, e)"
        using assms new inst live tp by (auto simp: exec_submit_def bind_eq_Some)
      show thesis
      proof (cases pl)
        case (Some rs)
        then show thesis using assms new inst live tp None pl denied by (simp add: exec_submit_def)
      next
        case ok: None
        then have r: "route_order D B g pf inst o1 now (k\<lparr>co_exec := e\<rparr>) = Some (evs, k')"
          using assms new inst live tp None pl by (simp add: exec_submit_def)
        have exp: "case inst_expiry_ns inst of Some ex \<Rightarrow> now < ex | None \<Rightarrow> True"
          using live by (auto split: option.splits)
        from r show thesis
        proof (cases rule: route_order_cases)
          case (routed o2)
          then show thesis
            using that(3) [of inst o2 e] new inst exp tp None pl ok by (simp add: gates_passed_def)
        next
          case (denied rs)
          then show thesis using that(2) new by blast
        qed
      qed
    qed
  qed
qed

section \<open>Reports\<close>

lemma order_apply_not_ok: "order_apply D ev o1 = Some (r, o2) \<Longrightarrow> \<not> is_ok r \<Longrightarrow> o2 = o1"
  by (cases r) (auto dest: order_apply_Err)

lemma apply_tracked_frame:
  assumes "apply_tracked D coid ev c = Some (evs, c')"
  shows "cache_position c' = cache_position c \<and> cache_instrument c' = cache_instrument c \<and>
    cache_mark c' = cache_mark c \<and> ca_positions c' = ca_positions c \<and>
    (\<forall>k. k \<noteq> coid \<longrightarrow> cache_order c' k = cache_order c k) \<and> (evs = [] \<or> evs = [ev]) \<and>
    (evs = [] \<longrightarrow> cache_order c' = cache_order c)"
  using assms
  by (auto simp: apply_tracked_def bind_eq_Some put_order_def fun_eq_iff
      cache_position_def cache_instrument_def cache_mark_def cache_order_def
      split: option.splits if_split_asm dest: order_apply_not_ok)

lemma apply_tracked_ok [coinext_inv]:
  assumes "cache_ok c" "apply_tracked D coid ev c = Some (evs, c')"
  shows "cache_ok c'"
proof (cases "cache_order c coid")
  case None
  then show ?thesis using assms by (simp add: apply_tracked_def)
next
  case (Some o1)
  then obtain r o2 where r: "order_apply D ev o1 = Some (r, o2)" "c' = put_order coid o2 c"
    using assms(2) by (auto simp: apply_tracked_def bind_eq_Some)
  have "o_client_order_id o2 = coid"
    using order_apply_static [OF r(1)] cache_order_key [OF assms(1) Some] by (simp add: order_static_def)
  then show ?thesis using cache_ok_put_order [OF assms(1), of o2 coid] r(2) by simp
qed

lemma apply_fill_report_seen:
  assumes "apply_fill_report D f k = Some (evs, k')"
  shows "f_trade_id f \<in> ex_seen_trade_ids (co_exec k')"
proof (cases "f_trade_id f \<in> ex_seen_trade_ids (co_exec k)")
  case True
  then show ?thesis using assms by (simp add: apply_fill_report_def)
next
  case False
  then show ?thesis using assms
    by (auto simp: apply_fill_report_def bind_eq_Some Let_def fold_position_def record_bought_def
        split: if_split_asm option.split_asm)
qed

lemma apply_fill_report_position:
  assumes "apply_fill_report D f k = Some (evs, k')"
  shows "(evs = [] \<longrightarrow> cache_position (co_cache k') = cache_position (co_cache k)) \<and>
    (evs \<noteq> [] \<longrightarrow> (case cache_instrument (co_cache k) (f_instrument_id f) of
        None \<Rightarrow> cache_position (co_cache k') = cache_position (co_cache k)
      | Some inst \<Rightarrow> \<exists>r p. position_apply_fill D f inst (held_position (co_cache k) inst (f_instrument_id f)) = Some (r, p) \<and>
          cache_position (co_cache k') = (cache_position (co_cache k))(ps_instrument_id p \<mapsto> p)))"
proof (cases "f_trade_id f \<in> ex_seen_trade_ids (co_exec k)")
  case True
  then show ?thesis using assms by (simp add: apply_fill_report_def)
next
  case False
  then obtain evs1 c where f: "fill_order D f (co_cache k) = Some (evs1, c)"
    using assms by (auto simp: apply_fill_report_def bind_eq_Some Let_def)
  have c: "cache_position c = cache_position (co_cache k)"
    using f apply_tracked_frame
    by (auto simp: fill_order_def bind_eq_Some split: option.split_asm)
  have held: "held_position c i (f_instrument_id f) = held_position (co_cache k) i (f_instrument_id f)" for i
    by (simp add: held_position_def c)
  show ?thesis
    using assms False f c
    by (auto simp: apply_fill_report_def bind_eq_Some Let_def fold_position_def held fun_eq_iff
        split: if_split_asm option.split_asm option.split)
qed

lemma position_apply_fill_id:
  assumes "position_apply_fill D f inst p = Some (r, p')"
  shows "ps_instrument_id p' = ps_instrument_id p"
proof -
  have credit: "ps_instrument_id q = ps_instrument_id p" if "credit_realized D x c p = Ok q" for x c q
    using that by (auto simp: credit_realized_def result_bind_def split: sum.split_asm if_split_asm)
  have resize: "ps_instrument_id (snd (resize D x y q)) = ps_instrument_id q" for x y q
    by (simp add: resize_def Let_def split: sum.split)
  obtain x y z where "(case credit_realized D x (inst_settlement_currency inst) p of
      Inl e \<Rightarrow> Some (Err e, p) | Inr p1 \<Rightarrow> Some (resize D y z p1)) = Some (r, p')"
    using assms by (auto simp: position_apply_fill_def Let_def bind_eq_Some)
  then show ?thesis
    using credit resize by (cases "credit_realized D x (inst_settlement_currency inst) p") (auto, metis snd_conv)
qed

section \<open>The A-share rules in numbers\<close>

definition long_val :: "portfolio_api \<Rightarrow> instrument_id \<Rightarrow> rat" where
  "long_val pf i = (case pf_position pf i of
     Some p \<Rightarrow> if ps_side p = Long then qty_val (ps_quantity p) else 0 | None \<Rightarrow> 0)"

definition bought_val :: "exec_state \<Rightarrow> instrument_id \<Rightarrow> nat \<Rightarrow> rat" where
  "bought_val e i day = (case ex_bought_today e (i, day) of Some b \<Rightarrow> dval b | None \<Rightarrow> 0)"

definition ledger_ok :: "exec_state \<Rightarrow> bool" where
  "ledger_ok e \<longleftrightarrow> (\<forall>b \<in> ran (ex_bought_today e). wf_dec b) \<and> (\<forall>b \<in> ran (ex_close_by_day e). wf_dec b)"

lemma prev_close_wf: "ledger_ok e \<Longrightarrow> prev_close_from D e i day bs = Some px \<Longrightarrow> wf_dec px"
  by (induction bs) (auto simp: ledger_ok_def intro: ranI split: if_split_asm option.split_asm)

context decimal_lib
begin

lemma sellable_val:
  assumes "ledger_ok e" "sellable_qty D pf i now inst e = Some x"
    "representable (long_val pf i - bought_val e i (day_key_for_inst inst now))"
  shows "dval x = max (long_val pf i - bought_val e i (day_key_for_inst inst now)) 0"
proof -
  let ?b = "case ex_bought_today e (i, day_key_for_inst inst now) of Some b \<Rightarrow> b | None \<Rightarrow> dec_zero"
  obtain l y where l: "(case pf_position pf i of
        Some p \<Rightarrow> if ps_side p = Long then qty_as_decimal D (ps_quantity p) else Some dec_zero
      | None \<Rightarrow> Some dec_zero) = Some l" and y: "d_sub D l ?b = Some y" and x: "x = d_max D y dec_zero"
    using assms(2) by (auto simp: sellable_qty_def bind_eq_Some Let_def)
  have lv: "wf_dec l" "dval l = long_val pf i"
    using l by (auto simp: long_val_def split: option.split_asm if_split_asm dest: qty_as_decimal_val)
  have bv: "wf_dec ?b" "dval ?b = bought_val e i (day_key_for_inst inst now)"
    using assms(1) by (auto simp: bought_val_def ledger_ok_def ran_def split: option.splits)
  have "dval y = long_val pf i - bought_val e i (day_key_for_inst inst now)"
    using sub_exact [OF lv(1) bv(1)] y lv(2) bv(2) assms(3) by auto
  then show ?thesis by (simp add: x)
qed

lemma band_up:
  assumes "wf_dec prev" "wf_dec pct" "d_add D dec_one pct = Some u" "d_mul D prev u = Some pu"
    "representable (1 + dval pct)" "representable (dval prev * (1 + dval pct))"
  shows "dval (d_round_dp D pu 2) = of_int (round_half_even (dval prev * (1 + dval pct) * 100)) / 100"
proof -
  have u: "wf_dec u" "dval u = 1 + dval pct"
    using add_exact [OF wf_dec_consts(2) assms(2)] add_wf [OF wf_dec_consts(2) assms(2)] assms(3,5) by auto
  have "dval pu = dval prev * (1 + dval pct)"
    using mul_exact [OF assms(1) u(1)] assms(4,6) u(2) by auto
  then show ?thesis using round_dp_val [of pu 2] by simp
qed

lemma band_down:
  assumes "wf_dec prev" "wf_dec pct" "d_sub D dec_one pct = Some u" "d_mul D prev u = Some pu"
    "representable (1 - dval pct)" "representable (dval prev * (1 - dval pct))"
  shows "dval (d_round_dp D pu 2) = of_int (round_half_even (dval prev * (1 - dval pct) * 100)) / 100"
proof -
  have u: "wf_dec u" "dval u = 1 - dval pct"
    using sub_exact [OF wf_dec_consts(2) assms(2)] sub_wf [OF wf_dec_consts(2) assms(2)] assms(3,5) by auto
  have "dval pu = dval prev * (1 - dval pct)"
    using mul_exact [OF assms(1) u(1)] assms(4,6) u(2) by auto
  then show ?thesis using round_dp_val [of pu 2] by simp
qed

lemma price_limit_band:
  assumes "price_limit_violation D c inst o1 now e0 = Some (None, e)" "is_ashare_equity inst"
    "prev_close_for D e (o_instrument_id o1) (day_key_for_inst inst now) = Some prev" "wf_dec prev"
    "o_order_type o1 = Limit" "o_price o1 = Some px" "valid_price px" "0 < dval prev"
    and pct: "pct = dval (price_limit_pct (ii_symbol (o_instrument_id o1)))"
    and rep: "representable (dval prev * (1 + pct))" "representable (dval prev * (1 - pct))"
  shows "case o_side o1 of
      Buy \<Rightarrow> price_val px \<le> of_int (round_half_even (dval prev * (1 + pct) * 100)) / 100
    | Sell \<Rightarrow> of_int (round_half_even (dval prev * (1 - pct) * 100)) / 100 \<le> price_val px"
proof -
  let ?pct = "price_limit_pct (ii_symbol (o_instrument_id o1))"
  let ?ref = "\<lparr>mantissa = p_raw px, scale = p_prec px\<rparr>"
  have wp: "wf_dec ?pct" by (simp add: price_limit_pct_def Let_def dec_new_def wf_dec_def)
  have reps: "representable (1 + dval ?pct)" "representable (1 - dval ?pct)"
    using representableI [of 105 2] representableI [of 120 2] representableI [of 110 2]
      representableI [of 95 2] representableI [of 80 2] representableI [of 90 2]
    by (simp_all add: price_limit_pct_def Let_def dec_new_def dval_def)
  have pos: "\<not> d_le D prev dec_zero" using assms(8) by (simp add: le_iff)
  obtain e1 u pu d pd where e1: "observe_mark D c (o_instrument_id o1) now e0 = Some e1"
    and r: "d_add D dec_one ?pct = Some u" "d_mul D prev u = Some pu"
      "d_sub D dec_one ?pct = Some d" "d_mul D prev d = Some pd"
    and ok: "case o_side o1 of Buy \<Rightarrow> d_le D ?ref (d_round_dp D pu 2) | Sell \<Rightarrow> d_le D (d_round_dp D pd 2) ?ref"
    and "e1 = e"
  proof -
    obtain e1 where e1: "observe_mark D c (o_instrument_id o1) now e0 = Some e1"
      using assms(1,2) by (auto simp: price_limit_violation_def bind_eq_Some)
    have "e1 = e"
      using assms(1,2) e1
      by (auto simp: price_limit_violation_def Let_def bind_eq_Some split: option.split_asm if_split_asm)
    with assms(1-3,5-7) pos e1 that show thesis
      by (auto simp: price_limit_violation_def Let_def bind_eq_Some split: if_split_asm)
  qed
  show ?thesis
    using ok band_up [OF assms(4) wp r(1,2) reps(1)] band_down [OF assms(4) wp r(3,4) reps(2)] rep pct
    by (cases "o_side o1") (simp_all add: le_iff)
qed

end

section \<open>Properties\<close>

text \<open>
  C1: nothing reaches the venue ungated. When submitting changes the venue at all, the order was
  new, its instrument known and not expired, it violated neither T+1 nor the daily price limit,
  and the risk gate approved it; the engine then reports exactly one \<open>Submitted\<close> event. In
  every other case the venue is untouched.
\<close>

theorem submit_gated:
  assumes "exec_submit D B g pf o1 now k = Some (evs, k')" "co_sim k' \<noteq> co_sim k"
  shows "\<exists>inst. gates_passed D g pf inst o1 now k \<and> evs = [EvSubmitted now]"
  using assms(1)
proof (cases rule: exec_submit_cases)
  case (denied rs e)
  then show ?thesis using assms(2) deny_order_eq by fastforce
qed (use assms(2) in auto)

definition sample_core :: core where
  "sample_core = \<lparr>co_cache = sample_cache, co_exec = exec_new, co_sim = sim_new\<rparr>"

definition submitted_core :: core where
  "submitted_core =
     (let o2 = sample_order\<lparr>o_status := Submitted, o_ts_last := 2,
           o_events := o_events sample_order @ [EvSubmitted 2]\<rparr>;
          c = add_order o2 sample_cache
      in sample_core\<lparr>co_cache := c, co_sim := on_submit (default_model rdec default_default) 2 c o2 sim_new\<rparr>)"

lemma sample_not_ashare: "\<not> is_ashare_equity sample_instrument" "inst_expiry_ns sample_instrument = None"
  by (simp_all add: is_ashare_equity_def sample_instrument_def currency_pair_dyn_def)

lemma sample_cache_no_orders: "cache_order sample_cache i = None"
  by (simp add: sample_cache_def cache_order_def upsert_position_def set_mark_def add_instrument_def
      set_account_def cache_new_def)

lemma sample_submitted:
  "exec_submit rdec (default_model rdec default_default) open_gate sample_pf sample_order 2 sample_core =
     Some ([EvSubmitted 2], submitted_core)"
  using sample_approved sample_submit [of rdec]
  by (simp add: exec_submit_def sample_core_def sample_cache_no_orders sample_cache_lookup sample_not_ashare
      t_plus_one_violation_def price_limit_violation_def route_order_def submitted_core_def Let_def)

lemma submitted_venue: "length (sm_resting (co_sim submitted_core)) = 1"
  by (simp add: submitted_core_def Let_def on_submit_def sample_cache_lookup next_venue_id_def sim_new_def)

theorem submit_gated_witness: "\<exists>inst. gates_passed rdec open_gate sample_pf inst sample_order 2 sample_core"
proof -
  have "co_sim submitted_core \<noteq> co_sim sample_core"
    using submitted_venue by (auto simp: sample_core_def sim_new_def)
  then show ?thesis using submit_gated [OF sample_submitted] by blast
qed

text \<open>
  Submission is idempotent on the client order id. Once an order has been submitted or denied,
  submitting any order under the same id again, with any gate, portfolio and time, changes nothing
  and reports nothing.
\<close>

theorem submit_idempotent:
  assumes "exec_submit D B g pf o1 now k = Some (evs, k')" "evs \<noteq> []"
    "o_client_order_id o2 = o_client_order_id o1"
  shows "exec_submit D' B' g' pf' o2 now' k' = Some ([], k')"
proof -
  have "cache_order (co_cache k') (o_client_order_id o1) \<noteq> None"
    using assms(1)
  proof (cases rule: exec_submit_cases)
    case (denied rs e)
    then show ?thesis using deny_order_eq [OF denied(1)] by auto
  next
    case (routed inst e o3)
    then show ?thesis by simp
  qed (use assms(2) in simp)
  then show ?thesis using assms(3) by (simp add: exec_submit_def)
qed

theorem submit_idempotent_witness:
  "exec_submit rdec (default_model rdec default_default) open_gate sample_pf sample_order 9 submitted_core =
     Some ([], submitted_core)"
  by (rule submit_idempotent [OF sample_submitted]) simp_all

text \<open>
  A-share T+1. A sell that passed the gates on an SSE or SZSE equity is no larger than the
  long position less what was bought on the same Shanghai session day.
\<close>

theorem t_plus_one_enforced:
  assumes "decimal_lib D" "gates_passed D g pf inst o1 now k" "o_side o1 = Sell" "is_t_plus_one inst"
    "valid_qty (o_quantity o1)" "ledger_ok (co_exec k)"
    "representable (long_val pf (o_instrument_id o1) -
       bought_val (co_exec k) (o_instrument_id o1) (day_key_shanghai now))"
  shows "qty_val (o_quantity o1) \<le> max (long_val pf (o_instrument_id o1) -
     bought_val (co_exec k) (o_instrument_id o1) (day_key_shanghai now)) 0"
proof -
  have day: "day_key_for_inst inst now = day_key_shanghai now"
    using assms(4) by (simp add: is_t_plus_one_def day_key_for_inst_def)
  obtain x where x: "sellable_qty D pf (o_instrument_id o1) now inst (co_exec k) = Some x"
    "\<not> d_lt D x \<lparr>mantissa = q_raw (o_quantity o1), scale = q_prec (o_quantity o1)\<rparr>"
    using assms(2-5) decimal_lib.as_decimal_qty [OF assms(1,5)]
    by (auto simp: gates_passed_def t_plus_one_violation_def bind_eq_Some split: if_split_asm)
  then show ?thesis
    using decimal_lib.sellable_val [OF assms(1,6) x(1)] assms(7) day
    by (simp add: decimal_lib.lt_iff [OF assms(1)] not_less le_max_iff_disj)
qed

definition ashare_id :: instrument_id where
  "ashare_id = InstrumentId ''600000'' ''SSE''"

definition ashare :: instrument where
  "ashare = equity_dyn
     \<lparr>eq_id = ashare_id, eq_currency = usdt, eq_price_precision = 2, eq_size_precision = 0,
      eq_price_increment = Price 1 2, eq_size_increment = Quantity 100 0, eq_min_notional = None,
      eq_maker_fee = dec_zero, eq_taker_fee = dec_zero\<rparr>"

definition ashare_pf :: portfolio_api where
  "ashare_pf =
     \<lparr>pf_position = (\<lambda>_. Some (sample_position\<lparr>ps_instrument_id := ashare_id, ps_quantity := Quantity 500 0\<rparr>)),
      pf_net_exposure = (\<lambda>_. None), pf_unrealized_pnl = (\<lambda>_. None),
      pf_realized_pnl = (\<lambda>_. money_zero usdt), pf_gross_exposure = None, pf_balance = money_zero,
      pf_equity = None\<rparr>"

definition ashare_sell :: order where
  "ashare_sell = sample_order\<lparr>o_instrument_id := ashare_id, o_side := Sell, o_quantity := Quantity 300 0\<rparr>"

definition ashare_core :: core where
  "ashare_core = \<lparr>co_cache = add_instrument ashare cache_new,
     co_exec = exec_new\<lparr>ex_bought_today := [(ashare_id, 0) \<mapsto> dec_int 200]\<rparr>, co_sim = sim_new\<rparr>"

lemma ashare_is: "is_ashare_equity ashare" "inst_id ashare = ashare_id" "inst_expiry_ns ashare = None"
  by (simp_all add: is_ashare_equity_def ashare_def equity_dyn_def ashare_id_def)

lemma ashare_sellable: "sellable_qty rdec ashare_pf ashare_id 0 ashare (co_exec ashare_core) = Some (dec_int 300)"
proof -
  have dec: "qty_as_decimal rdec (Quantity 500 0) = Some (dec_int 500)"
    "d_sub rdec (dec_int 500) (dec_int 200) = Some (dec_int 300)"
    "d_max rdec (dec_int 300) dec_zero = dec_int 300" by code_simp+
  show ?thesis
    using dec by (simp add: sellable_qty_def ashare_pf_def ashare_core_def day_key_for_inst_def ashare_is
        day_key_shanghai_def sample_position_def)
qed

lemma ashare_gates: "gates_passed rdec (risk_gate_new unlimited) ashare_pf ashare ashare_sell 0 ashare_core"
proof -
  have risk: "risk_check rdec (add_instrument ashare cache_new) (risk_gate_new unlimited) ashare_sell ashare_pf ashare =
      Some RiskApproved" by code_simp
  have tp: "t_plus_one_violation rdec ashare_pf ashare ashare_sell 0 (co_exec ashare_core) = Some None"
  proof -
    have "qty_as_decimal rdec (Quantity 300 0) = Some (dec_int 300)" "\<not> d_lt rdec (dec_int 300) (dec_int 300)"
      by code_simp+
    then show ?thesis using ashare_sellable by (simp add: t_plus_one_violation_def ashare_sell_def)
  qed
  have c: "cache_order (co_cache ashare_core) i = None" "cache_mark (co_cache ashare_core) j = None"
    "cache_instrument (co_cache ashare_core) ashare_id = Some ashare" for i j
    by (simp_all add: ashare_core_def add_instrument_def cache_new_def cache_order_def cache_mark_def
        cache_instrument_def ashare_is)
  have "ex_close_by_day (co_exec ashare_core) = Map.empty" by (simp add: ashare_core_def exec_new_def)
  then have "prev_close_from rdec (co_exec ashare_core) ashare_id d bs = None" for d bs
    by (induction bs) simp_all
  then have "price_limit_violation rdec (co_cache ashare_core) ashare ashare_sell 0 (co_exec ashare_core) =
      Some (None, co_exec ashare_core)"
    by (simp add: price_limit_violation_def ashare_is observe_mark_def c prev_close_for_def ashare_sell_def
        Let_def)
  then show ?thesis
    using risk tp c by (simp add: gates_passed_def ashare_is ashare_sell_def) (simp add: ashare_core_def)
qed

theorem t_plus_one_enforced_witness: "qty_val (Quantity 300 0) \<le> max (500 - 200) 0"
proof -
  have vals: "long_val ashare_pf ashare_id = 500" "bought_val (co_exec ashare_core) ashare_id (day_key_shanghai 0) = 200"
    by (simp_all add: long_val_def ashare_pf_def sample_position_def qty_val_def bought_val_def
        ashare_core_def day_key_shanghai_def)
  have "representable 300" using representableI [of 300 0] by simp
  moreover have "ledger_ok (co_exec ashare_core)"
    by (auto simp: ledger_ok_def ashare_core_def exec_new_def ran_def dec_int_def wf_dec_def split: if_split_asm)
  ultimately show ?thesis
    using t_plus_one_enforced [OF rd.decimal_lib_axioms ashare_gates]
    by (simp add: vals ashare_sell_def is_t_plus_one_def ashare_is valid_qty_def in_i64_def MAX_PRECISION_def)
qed

text \<open>
  A-share price limits. A limit order that passed the gates on an SSE or SZSE equity with a
  recorded previous mark is priced inside the band: a buy at most the upper limit, a sell at least
  the lower one, where the limits are the previous mark plus or minus the board's percentage,
  rounded to a cent.
\<close>

theorem price_limit_enforced:
  assumes "decimal_lib D" "price_limit_violation D c inst o1 now e0 = Some (None, e)"
    "is_ashare_equity inst"
    "prev_close_for D e (o_instrument_id o1) (day_key_shanghai now) = Some prev" "wf_dec prev"
    "o_order_type o1 = Limit" "o_price o1 = Some px" "valid_price px" "0 < dval prev"
    "pct = dval (price_limit_pct (ii_symbol (o_instrument_id o1)))"
    "representable (dval prev * (1 + pct))" "representable (dval prev * (1 - pct))"
  shows "case o_side o1 of
      Buy \<Rightarrow> price_val px \<le> of_int (round_half_even (dval prev * (1 + pct) * 100)) / 100
    | Sell \<Rightarrow> of_int (round_half_even (dval prev * (1 - pct) * 100)) / 100 \<le> price_val px"
proof -
  have "day_key_for_inst inst now = day_key_shanghai now"
    using assms(3) by (simp add: day_key_for_inst_def)
  then show ?thesis using decimal_lib.price_limit_band [OF assms(1-3)] assms(4-12) by simp
qed

definition ashare_buy :: order where
  "ashare_buy = sample_order\<lparr>o_instrument_id := ashare_id, o_price := Some (Price 1050 2)\<rparr>"

definition marked_exec :: exec_state where
  "marked_exec = exec_new\<lparr>ex_close_by_day := [(ashare_id, 0) \<mapsto> dec_new 1000 2]\<rparr>"

lemma ashare_band:
  "prev_close_for rdec marked_exec ashare_id (day_key_shanghai 86400000000000) = Some (dec_new 1000 2)"
  "price_limit_violation rdec cache_new ashare ashare_buy 86400000000000 marked_exec = Some (None, marked_exec)"
proof -
  have day: "day_key_shanghai 86400000000000 = 1" by (simp add: day_key_shanghai_def)
  have upt: "[Suc 0..<41] = 1 # [2..<41]" by (simp add: upt_conv_Cons)
  have pos: "d_lt rdec dec_zero (dec_new 1000 2)" "\<not> d_le rdec (dec_new 1000 2) dec_zero" by code_simp+
  show prev: "prev_close_for rdec marked_exec ashare_id (day_key_shanghai 86400000000000) = Some (dec_new 1000 2)"
    using pos by (simp add: prev_close_for_def upt day marked_exec_def)
  have pct: "price_limit_pct ''600000'' = dec_new 10 2" by code_simp
  have band: "d_add rdec dec_one (dec_new 10 2) = Some (dec_new 110 2)"
    "d_mul rdec (dec_new 1000 2) (dec_new 110 2) = Some (dec_new 110000 4)"
    "d_sub rdec dec_one (dec_new 10 2) = Some (dec_new 90 2)"
    "d_mul rdec (dec_new 1000 2) (dec_new 90 2) = Some (dec_new 90000 4)"
    "price_as_decimal rdec (Price 1050 2) = Some (dec_new 1050 2)"
    "d_le rdec (dec_new 1050 2) (d_round_dp rdec (dec_new 110000 4) 2)" by code_simp+
  show "price_limit_violation rdec cache_new ashare ashare_buy 86400000000000 marked_exec = Some (None, marked_exec)"
    using prev pos pct band
    by (simp add: price_limit_violation_def ashare_is observe_mark_def cache_mark_def cache_new_def
        day_key_for_inst_def ashare_buy_def Let_def) (simp add: ashare_id_def)
qed

theorem price_limit_enforced_witness:
  "price_val (Price 1050 2) \<le> of_int (round_half_even (10 * (1 + 1 / 10) * 100)) / 100"
proof -
  have pct: "price_limit_pct ''600000'' = dec_new 10 2" by code_simp
  have v: "dval (dec_new 1000 2) = 10" "dval (dec_new 10 2) = 1 / 10" "wf_dec (dec_new 1000 2)"
    by (simp_all add: dval_def dec_new_def wf_dec_def)
  have "representable (10 * (1 + 1 / 10))" "representable (10 * (1 - 1 / 10))"
    using representableI [of 11 0] representableI [of 9 0] by simp_all
  then show ?thesis
    using price_limit_enforced [OF rd.decimal_lib_axioms ashare_band(2) ashare_is(1), of "dec_new 1000 2" "Price 1050 2" "1 / 10"]
      ashare_band(1) pct v
    by (simp add: ashare_buy_def ashare_id_def valid_price_def in_i64_def MAX_PRECISION_def)
qed

text \<open>
  A fill counts once. After a fill report has been processed, whether the order accepted it or
  not, any report that carries the same trade id is dropped: no event, no change of orders,
  positions, ledger or venue.
\<close>

theorem fill_counts_once:
  assumes "apply_report D (RepFill f) now k = Some (evs, k')" "f_trade_id f' = f_trade_id f"
  shows "apply_report D' (RepFill f') now' k' = Some ([], k')"
  using assms apply_fill_report_seen [of D f k evs k']
  by (simp add: apply_report_def apply_fill_report_def)

definition open_core :: core where
  "open_core = sample_core\<lparr>co_cache := add_order (sample_order\<lparr>o_status := Accepted\<rparr>) sample_cache\<rparr>"

lemma open_core_lookup:
  "cache_order (co_cache open_core) ''s1-1'' = Some (sample_order\<lparr>o_status := Accepted\<rparr>)"
  "cache_instrument (co_cache open_core) (InstrumentId ''BTCUSDT'' ''BINANCE'') = Some sample_instrument"
  "cache_position (co_cache open_core) (InstrumentId ''BTCUSDT'' ''BINANCE'') =
     Some (sample_position\<lparr>ps_realized_pnl := Money 1950 usdt\<rparr>)"
  "co_exec open_core = exec_new"
  by (simp_all add: open_core_def sample_core_def sample_cache_lookup)
    (simp add: sample_cache_def sample_position_def)

definition grown_position :: position where
  "grown_position = sample_position\<lparr>ps_quantity := Quantity 5 0, ps_avg_px_open := Price 10000 2,
     ps_realized_pnl := Money 1950 usdt\<rparr>"

lemma sample_fill_ids:
  "f_trade_id (sample_fill px q) = ''t1''" "f_client_order_id (sample_fill px q) = ''s1-1''"
  "f_instrument_id (sample_fill px q) = InstrumentId ''BTCUSDT'' ''BINANCE''" "f_side (sample_fill px q) = Buy"
  by (simp_all add: sample_fill_def)

lemma sample_fill_order:
  "map_option fst (order_apply rdec (EvPartiallyFilled (sample_fill 10000 2))
     (sample_order\<lparr>o_status := Accepted\<rparr>)) = Some (Ok ())"
  by code_simp

lemma open_core_filled:
  "\<exists>k'. apply_report rdec (RepFill (sample_fill 10000 2)) 4 open_core =
     Some ([EvPartiallyFilled (sample_fill 10000 2)], k')"
proof -
  obtain o2 where o2: "order_apply rdec (EvPartiallyFilled (sample_fill 10000 2))
      (sample_order\<lparr>o_status := Accepted\<rparr>) = Some (Ok (), o2)"
    using sample_fill_order by auto
  have dec: "qty_as_decimal rdec (Quantity 2 0) = Some (dec_int 2)"
    "qty_as_decimal rdec (leaves_qty (sample_order\<lparr>o_status := Accepted\<rparr>)) = Some (dec_int 5)"
    "\<not> d_le rdec (dec_int 5) (dec_int 2)"
    "position_apply_fill rdec (sample_fill 10000 2) sample_instrument
       (sample_position\<lparr>ps_realized_pnl := Money 1950 usdt\<rparr>) = Some (Ok (), grown_position)"
    by code_simp+
  show ?thesis
    using o2 dec
    by (simp add: apply_report_def apply_fill_report_def fill_order_def apply_tracked_def fold_position_def
        open_core_lookup sample_fill_ids held_position_def record_bought_def sample_not_ashare exec_new_def)
qed

theorem fill_counts_once_witness:
  "\<exists>k'. apply_report rdec (RepFill (sample_fill 1 1)) 4 k' = Some ([], k')"
proof -
  obtain k' where "apply_report rdec (RepFill (sample_fill 10000 2)) 4 open_core =
     Some ([EvPartiallyFilled (sample_fill 10000 2)], k')"
    using open_core_filled ..
  from fill_counts_once [OF this, of "sample_fill 1 1"] show ?thesis by (auto simp: sample_fill_ids)
qed

text \<open>
  Positions follow accepted fills. A fill the order refuses leaves every position as it was; a
  fill the order accepts changes the position of its instrument only, and when the position takes
  it, by exactly the signed fill quantity.
\<close>

theorem fill_moves_position:
  assumes "decimal_lib D" "apply_report D (RepFill f) now k = Some (evs, k')"
    "cache_instrument (co_cache k) (f_instrument_id f) = Some inst"
    "position_ok (held_position (co_cache k) inst (f_instrument_id f))"
    "ps_instrument_id (held_position (co_cache k) inst (f_instrument_id f)) = f_instrument_id f"
    "valid_qty (f_last_qty f)"
    "q_prec (f_last_qty f) = ps_size_precision (held_position (co_cache k) inst (f_instrument_id f))"
    "position_apply_fill D f inst (held_position (co_cache k) inst (f_instrument_id f)) = Some (Ok (), p)"
  shows "cache_position (co_cache k') = (if evs = [] then cache_position (co_cache k)
      else (cache_position (co_cache k))(f_instrument_id f \<mapsto> p)) \<and>
    signed_raw p = signed_raw (held_position (co_cache k) inst (f_instrument_id f)) +
      side_sign (f_side f) * q_raw (f_last_qty f)"
proof -
  have "apply_fill_report D f k = Some (evs, k')" using assms(2) by (simp add: apply_report_def)
  from apply_fill_report_position [OF this] show ?thesis
    using assms(3,5,8) position_apply_fill_id [OF assms(8)] decimal_lib.apply_fill_size [OF assms(1,4,6,7,8)]
    by auto
qed

theorem fill_moves_position_witness:
  "signed_raw grown_position = signed_raw (sample_position\<lparr>ps_realized_pnl := Money 1950 usdt\<rparr>) + 2"
proof -
  let ?p = "sample_position\<lparr>ps_realized_pnl := Money 1950 usdt\<rparr>"
  obtain k' where rep: "apply_report rdec (RepFill (sample_fill 10000 2)) 4 open_core =
     Some ([EvPartiallyFilled (sample_fill 10000 2)], k')"
    using open_core_filled ..
  have ok: "position_ok ?p" using sample_position_ok by (simp add: position_ok_def)
  have "position_apply_fill rdec (sample_fill 10000 2) sample_instrument ?p = Some (Ok (), grown_position)"
    by code_simp
  then show ?thesis
    using fill_moves_position [OF rd.decimal_lib_axioms rep, of sample_instrument grown_position] ok
    by (simp add: open_core_lookup sample_fill_ids held_position_def sample_position_def valid_qty_def
        in_i64_def MAX_PRECISION_def)
qed

text \<open>
  C36: a fill that reaches an order waiting for its cancellation is lost. The order refuses it, no
  position changes and no event is reported, yet its trade id is recorded, so a later replay of
  the same execution is dropped too.
\<close>

theorem fill_during_pending_cancel_lost:
  assumes "decimal_lib D" "f_trade_id f \<notin> ex_seen_trade_ids (co_exec k)"
    "cache_order (co_cache k) (f_client_order_id f) = Some o1" "o_status o1 = PendingCancel"
    "valid_qty (f_last_qty f)" "valid_qty (leaves_qty o1)"
  shows "\<exists>k'. apply_report D (RepFill f) now k = Some ([], k') \<and>
    cache_position (co_cache k') = cache_position (co_cache k) \<and>
    cache_order (co_cache k') = cache_order (co_cache k) \<and>
    f_trade_id f \<in> ex_seen_trade_ids (co_exec k')"
proof -
  have ill: "order_apply D ev o1 = Some (Err InvalidTransition, o1)" if "is_fill_event ev" for ev
    using that assms(4)
    by (intro order_apply_illegal) (cases ev, auto simp: is_fill_event_def fsm_simps)
  have "\<exists>c. fill_order D f (co_cache k) = Some ([], c)"
    using assms(3) decimal_lib.as_decimal_qty [OF assms(1,5)] decimal_lib.as_decimal_qty [OF assms(1,6)]
      ill [of "EvFilled f"] ill [of "EvPartiallyFilled f"]
    by (auto simp: fill_order_def apply_tracked_def is_fill_event_def)
  then obtain c where c: "fill_order D f (co_cache k) = Some ([], c)" ..
  have "cache_position c = cache_position (co_cache k) \<and> cache_order c = cache_order (co_cache k)"
    using c apply_tracked_frame by (auto simp: fill_order_def bind_eq_Some split: option.split_asm)
  with c assms(2) show ?thesis by (simp add: apply_report_def apply_fill_report_def Let_def)
qed

definition cancelling_core :: core where
  "cancelling_core = sample_core\<lparr>co_cache := add_order (sample_order\<lparr>o_status := PendingCancel\<rparr>) sample_cache\<rparr>"

theorem fill_during_pending_cancel_lost_witness:
  "\<exists>k'. apply_report rdec (RepFill (sample_fill 10000 2)) 4 cancelling_core = Some ([], k') \<and>
     cache_position (co_cache k') = cache_position (co_cache cancelling_core) \<and>
     ''t1'' \<in> ex_seen_trade_ids (co_exec k')"
proof -
  have "leaves_qty (sample_order\<lparr>o_status := PendingCancel\<rparr>) = Quantity 5 0"
    by code_simp
  then show ?thesis
    using fill_during_pending_cancel_lost [OF rd.decimal_lib_axioms, of "sample_fill 10000 2" cancelling_core
        "sample_order\<lparr>o_status := PendingCancel\<rparr>" 4]
    by (auto simp: cancelling_core_def sample_core_def exec_new_def sample_fill_ids valid_qty_def
        in_i64_def MAX_PRECISION_def)
qed

end
