(* ===== verification/Bus.thy ===== *)
theory Bus
  imports Exec
begin

text \<open>
  \<open>foundation/crates/coinext-ports/src/bus.rs\<close> and
  \<open>operations-interface/crates/coinext-bus/src/lib.rs\<close>: the in-process message bus. A
  subscriber's \<open>FnMut\<close> handler is a step function with the state it carries. The data engine
  of \<open>market-data/crates/coinext-data-engine/src/lib.rs\<close> updates the cache and then publishes.
\<close>

section \<open>Topics and messages\<close>

datatype ctrl_msg = KillSwitch bool

datatype bus_msg =
    MsgQuote quote_tick
  | MsgTrade trade_tick
  | MsgBar bar
  | MsgDelta order_book_delta
  | MsgOrder order_event
  | MsgFill fill
  | MsgTimer timer_event
  | MsgCtrl ctrl_msg

datatype topic =
    TopQuote instrument_id
  | TopTrade instrument_id
  | TopBar bar_type
  | TopDelta instrument_id
  | TopOrderEvent strategy_id
  | TopFill strategy_id
  | TopTimer strategy_id
  | TopCtrl

section \<open>The bus\<close>

type_synonym handler_id = u64

record 'h bus_sub =
  sb_id :: handler_id
  sb_topic :: topic
  sb_handler :: "bus_msg \<Rightarrow> 'h \<Rightarrow> 'h"
  sb_state :: 'h

record 'h bus =
  bus_next_id :: u64
  bus_subs :: "'h bus_sub list"

definition bus_new :: "'h bus" where
  "bus_new = \<lparr>bus_next_id = 0, bus_subs = []\<rparr>"

definition deliver :: "topic \<Rightarrow> bus_msg \<Rightarrow> 'h bus_sub \<Rightarrow> 'h bus_sub" where
  "deliver t msg s = (if sb_topic s = t then s\<lparr>sb_state := sb_handler s msg (sb_state s)\<rparr> else s)"

definition publish :: "topic \<Rightarrow> bus_msg \<Rightarrow> 'h bus \<Rightarrow> 'h bus" where
  "publish t msg b = b\<lparr>bus_subs := map (deliver t msg) (bus_subs b)\<rparr>"

definition subscribe ::
  "topic \<Rightarrow> (bus_msg \<Rightarrow> 'h \<Rightarrow> 'h) \<Rightarrow> 'h \<Rightarrow> 'h bus \<Rightarrow> handler_id \<times> 'h bus" where
  "subscribe t h st b =
     (let n = bus_next_id b + 1
      in (n, \<lparr>bus_next_id = n,
              bus_subs = bus_subs b @ [\<lparr>sb_id = n, sb_topic = t, sb_handler = h, sb_state = st\<rparr>]\<rparr>))"

definition unsubscribe :: "handler_id \<Rightarrow> 'h bus \<Rightarrow> 'h bus" where
  "unsubscribe i b = b\<lparr>bus_subs := filter (\<lambda>s. sb_id s \<noteq> i) (bus_subs b)\<rparr>"

section \<open>The data engine\<close>

fun refresh_cache :: "market_event \<Rightarrow> cache \<Rightarrow> cache" where
  "refresh_cache (MQuote q) c = add_quote q c"
| "refresh_cache (MTrade t) c = set_mark (tt_instrument_id t) (tt_price t) c"
| "refresh_cache (MBar b) c = set_mark (bt_instrument_id (b_bar_type b)) (b_close b) c"
| "refresh_cache (MDelta d) c = snd (apply_book_delta d c)"

fun market_message :: "market_event \<Rightarrow> topic \<times> bus_msg" where
  "market_message (MQuote q) = (TopQuote (qt_instrument_id q), MsgQuote q)"
| "market_message (MTrade t) = (TopTrade (tt_instrument_id t), MsgTrade t)"
| "market_message (MBar b) = (TopBar (b_bar_type b), MsgBar b)"
| "market_message (MDelta d) = (TopDelta (bd_instrument_id d), MsgDelta d)"

definition data_process :: "market_event \<Rightarrow> cache \<times> 'h bus \<Rightarrow> cache \<times> 'h bus" where
  "data_process ev x =
     (let c = refresh_cache ev (fst x); (t, msg) = market_message ev in (c, publish t msg (snd x)))"

section \<open>Delivery\<close>

text \<open>The states of the subscribers of a topic, in subscription order.\<close>

definition listeners :: "topic \<Rightarrow> 'h bus \<Rightarrow> (handler_id \<times> 'h) list" where
  "listeners t b = map (\<lambda>s. (sb_id s, sb_state s)) (filter (\<lambda>s. sb_topic s = t) (bus_subs b))"

definition bus_ok :: "'h bus \<Rightarrow> bool" where
  "bus_ok b \<longleftrightarrow> distinct (map sb_id (bus_subs b)) \<and> (\<forall>s \<in> set (bus_subs b). sb_id s \<le> bus_next_id b)"

lemma bus_ok_new [coinext_inv]: "bus_ok bus_new"
  by (simp add: bus_ok_def bus_new_def)

lemma deliver_sel [simp]:
  "sb_id (deliver t msg s) = sb_id s" "sb_topic (deliver t msg s) = sb_topic s"
  "sb_handler (deliver t msg s) = sb_handler s"
  by (simp_all add: deliver_def)

lemma deliver_id [simp]: "sb_id \<circ> deliver t msg = sb_id"
  by (simp add: fun_eq_iff)

lemma bus_ok_publish [coinext_inv]: "bus_ok b \<Longrightarrow> bus_ok (publish t msg b)"
  by (simp add: bus_ok_def publish_def)

lemma bus_ok_subscribe [coinext_inv]:
  assumes "bus_ok b" "bus_next_id b < - 1"
  shows "bus_ok (snd (subscribe t h st b))"
proof -
  have lt: "bus_next_id b < bus_next_id b + 1" using assms(2) by (rule word_less_add_one)
  then have "sb_id s < bus_next_id b + 1" if "s \<in> set (bus_subs b)" for s
    using assms(1) that by (auto simp: bus_ok_def)
  then show ?thesis
    using assms(1) lt by (auto simp: bus_ok_def subscribe_def Let_def dest: order.strict_implies_order)
qed

lemma bus_ok_unsubscribe [coinext_inv]: "bus_ok b \<Longrightarrow> bus_ok (unsubscribe i b)"
  by (auto simp: bus_ok_def unsubscribe_def distinct_map_filter)

lemma listeners_publish:
  "listeners t (publish t' msg b) =
     map (\<lambda>s. (sb_id s, sb_state (deliver t' msg s))) (filter (\<lambda>s. sb_topic s = t) (bus_subs b))"
  by (simp add: listeners_def publish_def filter_map comp_def)

lemma listeners_publish_other: "t \<noteq> t' \<Longrightarrow> listeners t (publish t' msg b) = listeners t b"
  by (subst listeners_publish) (auto simp: listeners_def deliver_def intro!: map_cong)

lemma listeners_publish_same:
  "listeners t (publish t msg b) =
     map (\<lambda>s. (sb_id s, sb_handler s msg (sb_state s))) (filter (\<lambda>s. sb_topic s = t) (bus_subs b))"
  by (simp add: listeners_publish deliver_def)

lemma refresh_cache_frame:
  "ca_positions (refresh_cache ev c) = ca_positions c" "ca_orders (refresh_cache ev c) = ca_orders c"
  "cache_instrument (refresh_cache ev c) = cache_instrument c"
  by (cases ev; simp add: add_quote_def set_mark_def apply_book_delta_def Let_def split_beta
      cache_instrument_def fun_eq_iff)+

lemma refresh_cache_ok [coinext_inv]: "cache_ok c \<Longrightarrow> cache_ok (refresh_cache ev c)"
  by (cases ev) (simp_all add: cache_ok_marks cache_ok_book)

section \<open>Properties\<close>

text \<open>
  Cache-then-publish. Processing a market event first brings the cache up to date (the mark of
  the event's instrument is the quote's mid, the trade's price or the bar's close, and no other
  mark moves) and then hands the event, once and in subscription order, to exactly the subscribers
  of its topic.
\<close>

theorem data_process_delivers:
  "(let (c', b') = data_process ev (c, b); (t, msg) = market_message ev
    in c' = refresh_cache ev c \<and>
       (\<forall>i. cache_mark c' i = (if i = mev_instrument_id ev
          then (case ev of MQuote q \<Rightarrow> Some (quote_mid q) | MTrade tr \<Rightarrow> Some (tt_price tr)
                | MBar br \<Rightarrow> Some (b_close br) | MDelta _ \<Rightarrow> cache_mark c i)
          else cache_mark c i)) \<and>
       listeners t b' = map (\<lambda>s. (sb_id s, sb_handler s msg (sb_state s))) (filter (\<lambda>s. sb_topic s = t) (bus_subs b)) \<and>
       (\<forall>t'. t' = t \<or> listeners t' b' = listeners t' b))"
proof -
  have "cache_mark (refresh_cache ev c) i = (if i = mev_instrument_id ev
          then (case ev of MQuote q \<Rightarrow> Some (quote_mid q) | MTrade tr \<Rightarrow> Some (tt_price tr)
                | MBar br \<Rightarrow> Some (b_close br) | MDelta _ \<Rightarrow> cache_mark c i)
          else cache_mark c i)" for i
    by (cases ev) (simp_all add: add_quote_def set_mark_def apply_book_delta_def cache_mark_def Let_def split_beta)
  then show ?thesis
    using listeners_publish_other
    by (fastforce simp: data_process_def Let_def split_beta listeners_publish_same)
qed

end
