(* ===== verification/Kernel.thy ===== *)
theory Kernel
  imports Bus
begin

text \<open>
  \<open>backtesting-simulation/crates/coinext-kernel/src/backtest.rs\<close> (and the configuration of
  \<open>types.rs\<close>): the deterministic backtest kernel. What \<open>build\<close> fixes for a run is the record
  \<open>kernel_env\<close>; what a run changes is the record \<open>kernel\<close>. The shared \<open>Rc\<close> cells
  (clock, cache) occur once, in the kernel, and are lent to the strategy through the context.

  A strategy is user code. It acts on the kernel only through \<open>StrategyContext\<close>, whose methods
  are deterministic, so a handler is a function from the context it is given to the calls it makes.
  \<open>None\<close> is a panic of the decimal arithmetic.
\<close>

section \<open>Strategies\<close>

datatype ctx_call =
    CallSetTimer string unix_nanos
  | CallCancelTimer timer_id
  | CallMint
  | CallRestoreSeq u64
  | CallSubmit order
  | CallSubmitMarket instrument_id order_side quantity
  | CallSubmitLimit instrument_id order_side quantity price
  | CallSubmitStopMarket instrument_id order_side quantity price
  | CallSubmitStopLimit instrument_id order_side quantity price price
  | CallSubmitTrailingStop instrument_id order_side quantity price
  | CallCancel client_order_id
  | CallModify client_order_id "quantity option" "price option"

text \<open>
  \<open>CallMint\<close> stands for an order constructor reached through \<open>order_factory()\<close>: its only
  effect on the context is the next sequence number.
\<close>

fun run_call :: "ctx_call \<Rightarrow> strategy_context \<Rightarrow> strategy_context" where
  "run_call (CallSetTimer nm t) x = snd (ctx_set_timer nm t x)"
| "run_call (CallCancelTimer i) x = ctx_cancel_timer i x"
| "run_call CallMint x = x\<lparr>sx_factory := snd (next_id (sx_factory x))\<rparr>"
| "run_call (CallRestoreSeq n) x = x\<lparr>sx_factory := restore_seq n (sx_factory x)\<rparr>"
| "run_call (CallSubmit o') x = ctx_submit o' x"
| "run_call (CallSubmitMarket i sd q) x = snd (submit_market i sd q x)"
| "run_call (CallSubmitLimit i sd q p) x = snd (submit_limit i sd q p x)"
| "run_call (CallSubmitStopMarket i sd q t) x = snd (submit_stop_market i sd q t x)"
| "run_call (CallSubmitStopLimit i sd q t p) x = snd (submit_stop_limit i sd q t p x)"
| "run_call (CallSubmitTrailingStop i sd q off) x = snd (submit_trailing_stop i sd q off x)"
| "run_call (CallCancel i) x = ctx_cancel i x"
| "run_call (CallModify i q p) x = ctx_modify i q p x"

type_synonym 's handler = "strategy_context \<Rightarrow> 's \<Rightarrow> ctx_call list \<times> 's"

record 's strategy =
  st_on_start :: "'s handler"
  st_on_quote :: "quote_tick \<Rightarrow> 's handler"
  st_on_trade :: "trade_tick \<Rightarrow> 's handler"
  st_on_bar :: "bar \<Rightarrow> 's handler"
  st_on_book :: "order_book \<Rightarrow> 's handler"
  st_on_order_event :: "order_event \<Rightarrow> 's handler"
  st_on_order_filled :: "fill \<Rightarrow> 's handler"
  st_on_timer :: "timer_event \<Rightarrow> 's handler"
  st_on_stop :: "'s handler"

section \<open>State\<close>

text \<open>
  The equity samples and totals of \<open>RunResult\<close> are \<open>f64\<close> sums; the model keeps the decimal
  amounts that are summed, realized and unrealized per position. The fill log keeps the quantity
  and the price whose \<open>f64\<close> views the code logs.
\<close>

type_synonym equity_terms = "(decimal \<times> decimal option) list"

record run_result =
  rr_equity_curve :: "(u64 \<times> equity_terms) list"
  rr_fills :: u64
  rr_fills_log :: "(u64 \<times> symbol \<times> int \<times> quantity \<times> price) list"
  rr_orders_submitted :: u64
  rr_orders_denied :: u64
  rr_final_equity :: equity_terms
  rr_realized_pnl :: "decimal list"

record backtest_config =
  bc_instruments :: "instrument list"
  bc_settle :: currency
  bc_starting_balance :: money
  bc_risk :: risk_limits
  bc_brokerage :: brokerage_model
  bc_start_ns :: unix_nanos

record 's kernel_env =
  ke_dec :: dec_ops
  ke_iter_positions :: "position list \<Rightarrow> position list"
  ke_iter_orders :: "order list \<Rightarrow> order list"
  ke_brokerage :: brokerage_model
  ke_settle :: currency
  ke_strategy :: "'s strategy"
  ke_strategy_id :: strategy_id
  ke_events :: "market_event list"
  ke_expiries :: "(unix_nanos \<times> instrument_id) list"
  ke_maintenance_margin_rate :: "decimal option"

record ('s, 'h) kernel =
  kn_clock :: historical_clock
  kn_core :: core
  kn_bus :: "'h bus"
  kn_risk :: risk_gate
  kn_strategy :: 's
  kn_factory :: order_factory
  kn_outbox :: "strategy_command list"
  kn_cursor :: nat
  kn_expiry_cursor :: nat
  kn_result :: run_result

section \<open>Building\<close>

definition config_new ::
  "dec_ops \<Rightarrow> instrument list \<Rightarrow> currency \<Rightarrow> money \<Rightarrow> backtest_config" where
  "config_new D insts settle bal =
     \<lparr>bc_instruments = insts, bc_settle = settle, bc_starting_balance = bal, bc_risk = unlimited,
      bc_brokerage = default_model D default_default, bc_start_ns = 0\<rparr>"

definition config_with_env_risk ::
  "(string \<Rightarrow> decimal option) \<Rightarrow> dec_ops \<Rightarrow> instrument list \<Rightarrow> currency \<Rightarrow> money \<Rightarrow> backtest_config" where
  "config_with_env_risk env D insts settle bal =
     (config_new D insts settle bal)\<lparr>bc_risk := from_env env D settle\<rparr>"

definition seed_cache :: "account_id \<Rightarrow> backtest_config \<Rightarrow> cache" where
  "seed_cache acc cfg =
     set_account (account_set_balance (bc_starting_balance cfg) (account_new acc (bc_settle cfg)))
       (fold add_instrument (bc_instruments cfg) cache_new)"

definition expiry_schedule :: "instrument list \<Rightarrow> (unix_nanos \<times> instrument_id) list" where
  "expiry_schedule insts =
     sort_key fst (List.map_filter (\<lambda>i. map_option (\<lambda>e. (e, inst_id i)) (inst_expiry_ns i)) insts)"

definition build_env ::
  "dec_ops \<Rightarrow> (position list \<Rightarrow> position list) \<Rightarrow> (order list \<Rightarrow> order list) \<Rightarrow> backtest_config \<Rightarrow>
   strategy_id \<Rightarrow> 's strategy \<Rightarrow> market_event list \<Rightarrow> 's kernel_env" where
  "build_env D H G cfg sid strat events =
     \<lparr>ke_dec = D, ke_iter_positions = H, ke_iter_orders = G, ke_brokerage = bc_brokerage cfg,
      ke_settle = bc_settle cfg, ke_strategy = strat, ke_strategy_id = sid,
      ke_events = sort_key mev_ts_event events, ke_expiries = expiry_schedule (bc_instruments cfg),
      ke_maintenance_margin_rate = rl_maintenance_margin_rate (bc_risk cfg)\<rparr>"

definition build_kernel :: "backtest_config \<Rightarrow> strategy_id \<Rightarrow> 's \<Rightarrow> ('s, 'h) kernel" where
  "build_kernel cfg sid st =
     \<lparr>kn_clock = hclock_new (bc_start_ns cfg),
      kn_core = \<lparr>co_cache = seed_cache ''BACKTEST'' cfg, co_exec = exec_new, co_sim = sim_new\<rparr>,
      kn_bus = bus_new, kn_risk = risk_gate_new (bc_risk cfg), kn_strategy = st,
      kn_factory = factory_new sid, kn_outbox = [], kn_cursor = 0, kn_expiry_cursor = 0,
      kn_result = \<lparr>rr_equity_curve = [], rr_fills = 0, rr_fills_log = [], rr_orders_submitted = 0,
        rr_orders_denied = 0, rr_final_equity = [], rr_realized_pnl = []\<rparr>\<rparr>"

definition kernel_kill_switch :: "bool \<Rightarrow> ('s, 'h) kernel \<Rightarrow> ('s, 'h) kernel" where
  "kernel_kill_switch engaged k = k\<lparr>kn_risk := set_kill_switch engaged (kn_risk k)\<rparr>"

section \<open>Strategy calls and notifications\<close>

abbreviation kn_cache :: "('s, 'h) kernel \<Rightarrow> cache" where
  "kn_cache k \<equiv> co_cache (kn_core k)"

abbreviation kn_now :: "('s, 'h) kernel \<Rightarrow> unix_nanos" where
  "kn_now k \<equiv> hc_now (kn_clock k)"

definition kernel_ctx :: "'s kernel_env \<Rightarrow> ('s, 'h) kernel \<Rightarrow> strategy_context" where
  "kernel_ctx E k =
     \<lparr>sx_strategy_id = ke_strategy_id E, sx_clock = kn_clock k, sx_cache = kn_cache k,
      sx_factory = kn_factory k, sx_outbox = kn_outbox k\<rparr>"

definition call_strategy :: "'s kernel_env \<Rightarrow> 's handler \<Rightarrow> ('s, 'h) kernel \<Rightarrow> ('s, 'h) kernel" where
  "call_strategy E h k =
     (let (calls, st) = h (kernel_ctx E k) (kn_strategy k);
          x = fold run_call calls (kernel_ctx E k)
      in k\<lparr>kn_strategy := st, kn_clock := sx_clock x, kn_factory := sx_factory x, kn_outbox := sx_outbox x\<rparr>)"

definition kernel_publish :: "topic \<Rightarrow> bus_msg \<Rightarrow> ('s, 'h) kernel \<Rightarrow> ('s, 'h) kernel" where
  "kernel_publish t msg k = k\<lparr>kn_bus := publish t msg (kn_bus k)\<rparr>"

definition dispatch_market :: "'s kernel_env \<Rightarrow> market_event \<Rightarrow> ('s, 'h) kernel \<Rightarrow> ('s, 'h) kernel" where
  "dispatch_market E ev k =
     (case ev of
        MQuote q \<Rightarrow> call_strategy E (st_on_quote (ke_strategy E) q) k
      | MTrade t \<Rightarrow> call_strategy E (st_on_trade (ke_strategy E) t) k
      | MBar b \<Rightarrow> call_strategy E (st_on_bar (ke_strategy E) b) k
      | MDelta d \<Rightarrow> (case cache_order_book (kn_cache k) (bd_instrument_id d) of
          Some book \<Rightarrow> call_strategy E (st_on_book (ke_strategy E) book) k
        | None \<Rightarrow> k))"

definition notify_event :: "'s kernel_env \<Rightarrow> order_event \<Rightarrow> ('s, 'h) kernel \<Rightarrow> ('s, 'h) kernel" where
  "notify_event E ev k =
     (let k1 = (case ev of
          EvFilled f \<Rightarrow> call_strategy E (st_on_order_filled (ke_strategy E) f) k
        | EvPartiallyFilled f \<Rightarrow> call_strategy E (st_on_order_filled (ke_strategy E) f) k
        | _ \<Rightarrow> k);
          k2 = call_strategy E (st_on_order_event (ke_strategy E) ev) k1
      in kernel_publish (TopOrderEvent (ke_strategy_id E)) (MsgOrder ev) k2)"

section \<open>Commands\<close>

definition kernel_portfolio :: "'s kernel_env \<Rightarrow> ('s, 'h) kernel \<Rightarrow> portfolio_api" where
  "kernel_portfolio E k = portfolio_state (ke_iter_positions E) (ke_dec E) (kn_cache k) (ke_settle E)"

fun is_denied :: "order_event \<Rightarrow> bool" where
  "is_denied (EvDenied _ _) = True"
| "is_denied _ = False"

definition count_denied :: "order_event \<Rightarrow> ('s, 'h) kernel \<Rightarrow> ('s, 'h) kernel" where
  "count_denied ev k =
     (if is_denied ev
      then k\<lparr>kn_result := (kn_result k)\<lparr>rr_orders_denied := rr_orders_denied (kn_result k) + 1\<rparr>\<rparr> else k)"

definition run_command ::
  "'s kernel_env \<Rightarrow> unix_nanos \<Rightarrow> strategy_command \<Rightarrow> ('s, 'h) kernel \<Rightarrow> ('s, 'h) kernel option" where
  "run_command E now cmd k =
     (case cmd of
        CmdSubmit o' \<Rightarrow> do {
          let k1 = k\<lparr>kn_result := (kn_result k)\<lparr>rr_orders_submitted := rr_orders_submitted (kn_result k) + 1\<rparr>\<rparr>;
          (evs, co) \<leftarrow> exec_submit (ke_dec E) (ke_brokerage E) (kn_risk k1) (kernel_portfolio E k1) o' now (kn_core k1);
          Some (fold (\<lambda>ev k. notify_event E ev (count_denied ev k)) evs (k1\<lparr>kn_core := co\<rparr>)) }
      | CmdCancel coid \<Rightarrow> do {
          (evs, co) \<leftarrow> exec_cancel (ke_dec E) (ke_brokerage E) coid now (kn_core k);
          Some (fold (notify_event E) evs (k\<lparr>kn_core := co\<rparr>)) }
      | CmdModify _ _ _ \<Rightarrow> Some k)"

definition process_outbox :: "'s kernel_env \<Rightarrow> ('s, 'h) kernel \<Rightarrow> ('s, 'h) kernel option" where
  "process_outbox E k =
     (let cmds = kn_outbox k; k1 = k\<lparr>kn_outbox := []\<rparr>
      in if cmds = [] then Some k1 else fold_opt (run_command E (kn_now k1)) cmds k1)"

section \<open>Expiry settlement and liquidation\<close>

definition log_fill ::
  "u64 \<Rightarrow> symbol \<Rightarrow> int \<Rightarrow> quantity \<Rightarrow> price \<Rightarrow> ('s, 'h) kernel \<Rightarrow> ('s, 'h) kernel" where
  "log_fill ts sy sg q p k =
     k\<lparr>kn_result := (kn_result k)\<lparr>rr_fills := rr_fills (kn_result k) + 1,
        rr_fills_log := rr_fills_log (kn_result k) @ [(ts, sy, sg, q, p)]\<rparr>\<rparr>"

text \<open>The synthetic fill that closes a position, if there is one to close.\<close>

definition closing_fill :: "instrument_id \<Rightarrow> price \<Rightarrow> unix_nanos \<Rightarrow> string \<Rightarrow> instrument \<Rightarrow> position \<Rightarrow> fill option" where
  "closing_fill i px now suffix inst p =
     (let tag = instrument_id_display i @ ''-'' @ suffix;
          mk = (\<lambda>sd. \<lparr>f_trade_id = tag, f_client_order_id = tag, f_venue_order_id = tag, f_instrument_id = i,
             f_side = sd, f_last_px = px, f_last_qty = ps_quantity p,
             f_fee = money_zero (inst_settlement_currency inst), f_liquidity = Taker,
             f_ts_event = now, f_ts_init = now\<rparr>)
      in case ps_side p of Long \<Rightarrow> Some (mk Sell) | Short \<Rightarrow> Some (mk Buy) | Flat \<Rightarrow> None)"

definition put_position :: "position \<Rightarrow> ('s, 'h) kernel \<Rightarrow> ('s, 'h) kernel" where
  "put_position p k = k\<lparr>kn_core := (kn_core k)\<lparr>co_cache := upsert_position p (kn_cache k)\<rparr>\<rparr>"

definition close_position_at ::
  "'s kernel_env \<Rightarrow> instrument_id \<Rightarrow> price \<Rightarrow> unix_nanos \<Rightarrow> string \<Rightarrow> ('s, 'h) kernel \<Rightarrow> ('s, 'h) kernel option" where
  "close_position_at E i px now suffix k =
     (case (cache_instrument (kn_cache k) i, cache_position (kn_cache k) i) of
        (Some inst, Some p) \<Rightarrow>
          (case closing_fill i px now suffix inst p of
             None \<Rightarrow> Some k
           | Some f \<Rightarrow> do {
               (_, p1) \<leftarrow> position_apply_fill (ke_dec E) f inst p;
               let k1 = log_fill now (ii_symbol i) (side_sign (f_side f)) (ps_quantity p) px (put_position p1 k);
               process_outbox E (notify_event E (EvFilled f) k1) })
      | _ \<Rightarrow> Some k)"

text \<open>
  An option settles at its intrinsic value against the mark of its underlying (never its own
  mark read as a spot), everything else at its own last mark.
\<close>

definition settlement_price ::
  "dec_ops \<Rightarrow> cache \<Rightarrow> instrument_id \<Rightarrow> instrument \<Rightarrow> price option option" where
  "settlement_price D c i inst =
     (if inst_asset_class inst = AssetOption
      then case (inst_strike inst, inst_option_right inst,
                 case inst_underlying inst of Some u \<Rightarrow> if u \<noteq> i then cache_mark c u else None | None \<Rightarrow> None) of
             (Some strike, Some right, Some spot) \<Rightarrow> do {
               s \<leftarrow> price_as_decimal D spot;
               x \<leftarrow> price_as_decimal D strike;
               intr \<leftarrow> intrinsic D right s x;
               Some (result_ok (price_from_decimal D intr (inst_price_precision inst))) }
           | _ \<Rightarrow> Some (cache_mark c i)
      else Some (cache_mark c i))"

definition cancel_dead ::
  "'s kernel_env \<Rightarrow> unix_nanos \<Rightarrow> client_order_id \<Rightarrow> ('s, 'h) kernel \<Rightarrow> ('s, 'h) kernel option" where
  "cancel_dead E now coid k = do {
     (evs, co) \<leftarrow> exec_cancel (ke_dec E) (ke_brokerage E) coid now (kn_core k);
     Some (fold (notify_event E) evs (k\<lparr>kn_core := co\<rparr>)) }"

definition dead_orders :: "'s kernel_env \<Rightarrow> instrument_id \<Rightarrow> ('s, 'h) kernel \<Rightarrow> client_order_id list" where
  "dead_orders E i k =
     map o_client_order_id
       (filter (\<lambda>o'. o_instrument_id o' = i \<and> \<not> status_is_terminal (o_status o'))
         (ke_iter_orders E (cache_orders (kn_cache k))))"

definition settle_contract ::
  "'s kernel_env \<Rightarrow> instrument_id \<Rightarrow> unix_nanos \<Rightarrow> ('s, 'h) kernel \<Rightarrow> ('s, 'h) kernel option" where
  "settle_contract E i now k =
     (case cache_instrument (kn_cache k) i of
        None \<Rightarrow> Some k
      | Some inst \<Rightarrow> do {
          px \<leftarrow> settlement_price (ke_dec E) (kn_cache k) i inst;
          k1 \<leftarrow> (case px of Some p \<Rightarrow> close_position_at E i p now ''SETTLE'' k | None \<Rightarrow> Some k);
          fold_opt (cancel_dead E now) (dead_orders E i k1) k1 })"

fun settle_loop ::
  "'s kernel_env \<Rightarrow> unix_nanos \<Rightarrow> (unix_nanos \<times> instrument_id) list \<Rightarrow> ('s, 'h) kernel \<Rightarrow> ('s, 'h) kernel option" where
  "settle_loop E frontier [] k = Some k"
| "settle_loop E frontier ((ts, i) # rest) k =
     (if frontier < ts then Some k
      else Option.bind (settle_contract E i frontier (k\<lparr>kn_expiry_cursor := Suc (kn_expiry_cursor k)\<rparr>))
             (settle_loop E frontier rest))"

definition settle_expiries :: "'s kernel_env \<Rightarrow> unix_nanos \<Rightarrow> ('s, 'h) kernel \<Rightarrow> ('s, 'h) kernel option" where
  "settle_expiries E frontier k = settle_loop E frontier (drop (kn_expiry_cursor k) (ke_expiries E)) k"

definition liquidate_one ::
  "'s kernel_env \<Rightarrow> unix_nanos \<Rightarrow> instrument_id \<Rightarrow> ('s, 'h) kernel \<Rightarrow> ('s, 'h) kernel option" where
  "liquidate_one E now i k =
     (case cache_mark (kn_cache k) i of
        Some mark \<Rightarrow> close_position_at E i mark now ''LIQ'' k
      | None \<Rightarrow> Some k)"

definition open_instruments :: "'s kernel_env \<Rightarrow> ('s, 'h) kernel \<Rightarrow> instrument_id list" where
  "open_instruments E k =
     map ps_instrument_id
       (filter (\<lambda>p. ps_side p \<noteq> Flat) (ke_iter_positions E (cache_positions (kn_cache k))))"

text \<open>Whether the account is below its maintenance requirement.\<close>

definition must_liquidate :: "'s kernel_env \<Rightarrow> ('s, 'h) kernel \<Rightarrow> bool option" where
  "must_liquidate E k =
     (case ke_maintenance_margin_rate E of
        None \<Rightarrow> Some False
      | Some rate \<Rightarrow> do {
          eq_money \<leftarrow> pf_equity (kernel_portfolio E k);
          eq_amount \<leftarrow> money_amount (ke_dec E) eq_money;
          gross_money \<leftarrow> pf_gross_exposure (kernel_portfolio E k);
          gross \<leftarrow> money_amount (ke_dec E) gross_money;
          if d_le (ke_dec E) gross dec_zero then Some False
          else do {
            need \<leftarrow> d_mul (ke_dec E) gross rate;
            Some (\<not> d_le (ke_dec E) need eq_amount) } })"

definition check_liquidation :: "'s kernel_env \<Rightarrow> unix_nanos \<Rightarrow> ('s, 'h) kernel \<Rightarrow> ('s, 'h) kernel option" where
  "check_liquidation E now k = do {
     liq \<leftarrow> must_liquidate E k;
     if liq then fold_opt (liquidate_one E now) (open_instruments E k) k else Some k }"

section \<open>The run loop\<close>

text \<open>The amounts \<open>equity()\<close> adds up, in iteration order.\<close>

definition equity_term :: "'s kernel_env \<Rightarrow> cache \<Rightarrow> position \<Rightarrow> (decimal \<times> decimal option) option" where
  "equity_term E c p = do {
     r \<leftarrow> money_amount (ke_dec E) (ps_realized_pnl p);
     case (cache_instrument c (ps_instrument_id p), cache_mark c (ps_instrument_id p)) of
       (Some inst, Some mark) \<Rightarrow> do {
         m \<leftarrow> unrealized_pnl (ke_dec E) mark inst p;
         u \<leftarrow> money_amount (ke_dec E) m;
         Some (r, Some u) }
     | _ \<Rightarrow> Some (r, None) }"

definition kernel_equity :: "'s kernel_env \<Rightarrow> ('s, 'h) kernel \<Rightarrow> equity_terms option" where
  "kernel_equity E k =
     fold_opt (\<lambda>p xs. map_option (\<lambda>t. xs @ [t]) (equity_term E (kn_cache k) p))
       (ke_iter_positions E (cache_positions (kn_cache k))) []"

definition realized_total :: "'s kernel_env \<Rightarrow> ('s, 'h) kernel \<Rightarrow> decimal list option" where
  "realized_total E k =
     fold_opt (\<lambda>p xs. map_option (\<lambda>t. xs @ [t]) (money_amount (ke_dec E) (ps_realized_pnl p)))
       (ke_iter_positions E (cache_positions (kn_cache k))) []"

definition count_fill :: "order_event \<Rightarrow> ('s, 'h) kernel \<Rightarrow> ('s, 'h) kernel" where
  "count_fill ev k =
     (case ev of
        EvFilled f \<Rightarrow> log_fill (f_ts_event f) (ii_symbol (f_instrument_id f)) (side_sign (f_side f)) (f_last_qty f) (f_last_px f) k
      | EvPartiallyFilled f \<Rightarrow> log_fill (f_ts_event f) (ii_symbol (f_instrument_id f)) (side_sign (f_side f)) (f_last_qty f) (f_last_px f) k
      | _ \<Rightarrow> k)"

definition fold_report :: "'s kernel_env \<Rightarrow> execution_report \<Rightarrow> ('s, 'h) kernel \<Rightarrow> ('s, 'h) kernel option" where
  "fold_report E rep k = do {
     (evs, co) \<leftarrow> apply_report (ke_dec E) rep (kn_now k) (kn_core k);
     Some (fold (\<lambda>ev k. notify_event E ev (count_fill ev k)) evs (k\<lparr>kn_core := co\<rparr>)) }"

definition drain_reports :: "'s kernel_env \<Rightarrow> unix_nanos \<Rightarrow> ('s, 'h) kernel \<Rightarrow> ('s, 'h) kernel option" where
  "drain_reports E frontier k =
     (let (reports, s) = sim_drain_due frontier (co_sim (kn_core k))
      in fold_opt (fold_report E) reports (k\<lparr>kn_core := (kn_core k)\<lparr>co_sim := s\<rparr>\<rparr>))"

definition fire_timer :: "'s kernel_env \<Rightarrow> timer_event \<Rightarrow> ('s, 'h) kernel \<Rightarrow> ('s, 'h) kernel option" where
  "fire_timer E t k =
     process_outbox E (kernel_publish (TopTimer (ke_strategy_id E)) (MsgTimer t)
       (call_strategy E (st_on_timer (ke_strategy E) t) k))"

definition fire_timers :: "'s kernel_env \<Rightarrow> unix_nanos \<Rightarrow> ('s, 'h) kernel \<Rightarrow> ('s, 'h) kernel option" where
  "fire_timers E frontier k =
     (let (timers, clk) = pop_due frontier (kn_clock k)
      in fold_opt (fire_timer E) timers (k\<lparr>kn_clock := clk\<rparr>))"

definition feed_market :: "'s kernel_env \<Rightarrow> market_event \<Rightarrow> ('s, 'h) kernel \<Rightarrow> ('s, 'h) kernel option" where
  "feed_market E ev k = do {
     let (c, b) = data_process ev (kn_cache k, kn_bus k);
     s \<leftarrow> on_market (ke_dec E) (ke_brokerage E) (kn_now k) c ev (co_sim (kn_core k));
     Some (k\<lparr>kn_core := (kn_core k)\<lparr>co_cache := c, co_sim := s\<rparr>, kn_bus := b\<rparr>) }"

definition sample_equity :: "'s kernel_env \<Rightarrow> unix_nanos \<Rightarrow> ('s, 'h) kernel \<Rightarrow> ('s, 'h) kernel option" where
  "sample_equity E frontier k = do {
     eq \<leftarrow> kernel_equity E k;
     Some (k\<lparr>kn_result := (kn_result k)\<lparr>rr_equity_curve := rr_equity_curve (kn_result k) @ [(frontier, eq)]\<rparr>\<rparr>) }"

definition market_phase :: "'s kernel_env \<Rightarrow> unix_nanos \<Rightarrow> market_event \<Rightarrow> ('s, 'h) kernel \<Rightarrow> ('s, 'h) kernel option" where
  "market_phase E frontier ev k = do {
     k1 \<leftarrow> feed_market E ev (k\<lparr>kn_cursor := Suc (kn_cursor k)\<rparr>);
     k2 \<leftarrow> process_outbox E (dispatch_market E ev k1);
     case ev of MBar _ \<Rightarrow> sample_equity E frontier k2 | _ \<Rightarrow> Some k2 }"

definition next_market :: "'s kernel_env \<Rightarrow> ('s, 'h) kernel \<Rightarrow> unix_nanos option" where
  "next_market E k =
     (if kn_cursor k < length (ke_events E) then Some (mev_ts_event (ke_events E ! kn_cursor k)) else None)"

definition next_expiry :: "'s kernel_env \<Rightarrow> ('s, 'h) kernel \<Rightarrow> unix_nanos option" where
  "next_expiry E k =
     (if kn_expiry_cursor k < length (ke_expiries E) then Some (fst (ke_expiries E ! kn_expiry_cursor k)) else None)"

definition frontier :: "'s kernel_env \<Rightarrow> ('s, 'h) kernel \<Rightarrow> unix_nanos option" where
  "frontier E k =
     least (List.map_filter (\<lambda>x. x)
       [next_market E k, sim_peek_due (co_sim (kn_core k)), peek_next_timer (kn_clock k), next_expiry E k])"

definition advance_clock :: "unix_nanos \<Rightarrow> ('s, 'h) kernel \<Rightarrow> ('s, 'h) kernel" where
  "advance_clock f k = k\<lparr>kn_clock := advance_to f (kn_clock k)\<rparr>"

text \<open>One turn of the loop at the frontier it computed.\<close>

definition kernel_turn :: "'s kernel_env \<Rightarrow> unix_nanos \<Rightarrow> ('s, 'h) kernel \<Rightarrow> ('s, 'h) kernel option" where
  "kernel_turn E f k = do {
     k1 \<leftarrow> drain_reports E f (advance_clock f k);
     k2 \<leftarrow> process_outbox E k1;
     k3 \<leftarrow> fire_timers E f k2;
     k4 \<leftarrow> (if next_market E k = Some f then market_phase E f (ke_events E ! kn_cursor k) k3 else Some k3);
     k5 \<leftarrow> settle_expiries E f k4;
     check_liquidation E f k5 }"

datatype 'k run_outcome = Finished 'k | Panicked | OutOfFuel

fun kernel_loop :: "nat \<Rightarrow> 's kernel_env \<Rightarrow> ('s, 'h) kernel \<Rightarrow> ('s, 'h) kernel run_outcome" where
  "kernel_loop n E k =
     (case frontier E k of
        None \<Rightarrow> Finished k
      | Some f \<Rightarrow> (case n of
          0 \<Rightarrow> OutOfFuel
        | Suc m \<Rightarrow> (case kernel_turn E f k of
            None \<Rightarrow> Panicked
          | Some k' \<Rightarrow> kernel_loop m E k')))"

definition kernel_stop :: "'s kernel_env \<Rightarrow> ('s, 'h) kernel \<Rightarrow> ('s, 'h) kernel option" where
  "kernel_stop E k = do {
     k1 \<leftarrow> process_outbox E (call_strategy E (st_on_stop (ke_strategy E)) k);
     eq \<leftarrow> kernel_equity E k1;
     r \<leftarrow> realized_total E k1;
     Some (k1\<lparr>kn_result := (kn_result k1)\<lparr>rr_final_equity := eq, rr_realized_pnl := r\<rparr>\<rparr>) }"

definition kernel_run :: "nat \<Rightarrow> 's kernel_env \<Rightarrow> ('s, 'h) kernel \<Rightarrow> ('s, 'h) kernel run_outcome" where
  "kernel_run n E k =
     (case process_outbox E (call_strategy E (st_on_start (ke_strategy E)) k) of
        None \<Rightarrow> Panicked
      | Some k1 \<Rightarrow> (case kernel_loop n E k1 of
          Finished k2 \<Rightarrow> (case kernel_stop E k2 of None \<Rightarrow> Panicked | Some k3 \<Rightarrow> Finished k3)
        | Panicked \<Rightarrow> Panicked
        | OutOfFuel \<Rightarrow> OutOfFuel))"

end
