(* ===== verification/Kernel_Facts.thy ===== *)
theory Kernel_Facts
  imports Kernel
begin

text \<open>
  Facts about the backtest kernel: what each phase of a turn leaves alone, the order of time,
  independence of the data not yet reached, termination for strategies that act on market data,
  settlement, liquidation and the books of the run.
\<close>

declare kernel_loop.simps [simp del]

section \<open>What a strategy can touch\<close>

lemma run_call_frame [simp]:
  "hc_now (sx_clock (run_call c x)) = hc_now (sx_clock x)" "sx_cache (run_call c x) = sx_cache x"
  by (cases c; simp add: ctx_set_timer_def ctx_cancel_timer_def ctx_submit_def submit_market_def
      submit_limit_def submit_stop_market_def submit_stop_limit_def submit_trailing_stop_def
      ctx_cancel_def ctx_modify_def set_timer_def cancel_timer_def Let_def split_beta)+

lemma run_call_heap:
  "sorted (hc_heap (sx_clock x)) \<Longrightarrow> sorted (hc_heap (sx_clock (run_call c x)))"
  using sorted_pq_push [of "\<lambda>x :: unix_nanos \<times> timer_id. x"]
  by (cases c) (simp_all add: ctx_set_timer_def ctx_cancel_timer_def ctx_submit_def submit_market_def
      submit_limit_def submit_stop_market_def submit_stop_limit_def submit_trailing_stop_def
      ctx_cancel_def ctx_modify_def set_timer_def cancel_timer_def Let_def split_beta)

lemma run_calls_now [simp]: "hc_now (sx_clock (fold run_call cs x)) = hc_now (sx_clock x)"
  by (induction cs arbitrary: x) simp_all

lemma run_calls_heap:
  "sorted (hc_heap (sx_clock x)) \<Longrightarrow> sorted (hc_heap (sx_clock (fold run_call cs x)))"
  by (induction cs arbitrary: x) (simp_all add: run_call_heap)

lemma call_strategy_frame [simp]:
  "kn_now (call_strategy E h k) = kn_now k" "kn_core (call_strategy E h k) = kn_core k"
  "kn_bus (call_strategy E h k) = kn_bus k" "kn_risk (call_strategy E h k) = kn_risk k"
  "kn_cursor (call_strategy E h k) = kn_cursor k"
  "kn_expiry_cursor (call_strategy E h k) = kn_expiry_cursor k"
  "kn_result (call_strategy E h k) = kn_result k"
  by (simp_all add: call_strategy_def kernel_ctx_def Let_def split_beta)

lemma call_strategy_heap:
  "sorted (hc_heap (kn_clock k)) \<Longrightarrow> sorted (hc_heap (kn_clock (call_strategy E h k)))"
  by (simp add: call_strategy_def kernel_ctx_def Let_def split_beta run_calls_heap)

lemma kernel_publish_frame [simp]:
  "kn_clock (kernel_publish t m k) = kn_clock k" "kn_core (kernel_publish t m k) = kn_core k"
  "kn_risk (kernel_publish t m k) = kn_risk k" "kn_cursor (kernel_publish t m k) = kn_cursor k"
  "kn_expiry_cursor (kernel_publish t m k) = kn_expiry_cursor k"
  "kn_result (kernel_publish t m k) = kn_result k" "kn_outbox (kernel_publish t m k) = kn_outbox k"
  by (simp_all add: kernel_publish_def)

lemma notify_event_frame [simp]:
  "kn_now (notify_event E ev k) = kn_now k" "kn_core (notify_event E ev k) = kn_core k"
  "kn_risk (notify_event E ev k) = kn_risk k" "kn_cursor (notify_event E ev k) = kn_cursor k"
  "kn_expiry_cursor (notify_event E ev k) = kn_expiry_cursor k"
  "kn_result (notify_event E ev k) = kn_result k"
  by (cases ev; simp add: notify_event_def Let_def)+

lemma notify_event_heap:
  "sorted (hc_heap (kn_clock k)) \<Longrightarrow> sorted (hc_heap (kn_clock (notify_event E ev k)))"
  by (cases ev) (simp_all add: notify_event_def Let_def call_strategy_heap)

lemma dispatch_market_frame [simp]:
  "kn_now (dispatch_market E ev k) = kn_now k" "kn_core (dispatch_market E ev k) = kn_core k"
  "kn_risk (dispatch_market E ev k) = kn_risk k" "kn_cursor (dispatch_market E ev k) = kn_cursor k"
  "kn_expiry_cursor (dispatch_market E ev k) = kn_expiry_cursor k"
  "kn_result (dispatch_market E ev k) = kn_result k"
  by (cases ev; simp add: dispatch_market_def split: option.split)+

lemma count_denied_frame [simp]:
  "kn_now (count_denied ev k) = kn_now k" "kn_core (count_denied ev k) = kn_core k"
  "kn_risk (count_denied ev k) = kn_risk k" "kn_cursor (count_denied ev k) = kn_cursor k"
  "kn_expiry_cursor (count_denied ev k) = kn_expiry_cursor k" "kn_clock (count_denied ev k) = kn_clock k"
  "kn_outbox (count_denied ev k) = kn_outbox k"
  "rr_fills (kn_result (count_denied ev k)) = rr_fills (kn_result k)"
  "rr_fills_log (kn_result (count_denied ev k)) = rr_fills_log (kn_result k)"
  by (simp_all add: count_denied_def)

lemma log_fill_frame [simp]:
  "kn_clock (log_fill ts sy sg q p k) = kn_clock k" "kn_core (log_fill ts sy sg q p k) = kn_core k"
  "kn_risk (log_fill ts sy sg q p k) = kn_risk k" "kn_cursor (log_fill ts sy sg q p k) = kn_cursor k"
  "kn_expiry_cursor (log_fill ts sy sg q p k) = kn_expiry_cursor k"
  "kn_outbox (log_fill ts sy sg q p k) = kn_outbox k"
  by (simp_all add: log_fill_def)

lemma count_fill_frame [simp]:
  "kn_clock (count_fill ev k) = kn_clock k" "kn_core (count_fill ev k) = kn_core k"
  "kn_risk (count_fill ev k) = kn_risk k" "kn_cursor (count_fill ev k) = kn_cursor k"
  "kn_expiry_cursor (count_fill ev k) = kn_expiry_cursor k" "kn_outbox (count_fill ev k) = kn_outbox k"
  by (cases ev; simp add: count_fill_def)+

lemma put_position_frame [simp]:
  "kn_clock (put_position p k) = kn_clock k" "co_sim (kn_core (put_position p k)) = co_sim (kn_core k)"
  "kn_risk (put_position p k) = kn_risk k" "kn_cursor (put_position p k) = kn_cursor k"
  "kn_expiry_cursor (put_position p k) = kn_expiry_cursor k" "kn_outbox (put_position p k) = kn_outbox k"
  "kn_result (put_position p k) = kn_result k"
  "co_cache (kn_core (put_position p k)) = upsert_position p (co_cache (kn_core k))"
  by (simp_all add: put_position_def)

text \<open>An observation that notifying keeps is kept by notifying all of a list.\<close>

lemma fold_notify:
  assumes "\<And>ev k. obs (g ev k) = obs k"
  shows "obs (fold g evs k) = obs k"
  using assms by (induction evs arbitrary: k) simp_all

section \<open>Processing commands\<close>

text \<open>What commands never change: time, cursors, the gate, positions, instruments, marks and the fill log.\<close>

definition desk where
  "desk k = (kn_now k, kn_cursor k, kn_expiry_cursor k, kn_risk k, ca_positions (kn_cache k),
     ca_instruments (kn_cache k), ca_marks (kn_cache k), rr_fills (kn_result k), rr_fills_log (kn_result k))"

lemma desk_simps [simp]:
  "desk (notify_event E ev k) = desk k" "desk (count_denied ev k) = desk k"
  "desk (call_strategy E h k) = desk k" "desk (kernel_publish t msg k) = desk k"
  "desk (dispatch_market E mev k) = desk k"
  by (simp_all add: desk_def)

lemma exec_submit_frame:
  assumes "exec_submit D B g pf o1 now k = Some (evs, k')"
  shows "ca_positions (co_cache k') = ca_positions (co_cache k)"
    "ca_instruments (co_cache k') = ca_instruments (co_cache k)" "ca_marks (co_cache k') = ca_marks (co_cache k)"
  using assms
  by (cases rule: exec_submit_cases; auto simp: add_order_def dest!: deny_order_eq)+

lemma apply_tracked_marks:
  assumes "apply_tracked D coid ev c = Some (evs, c')"
  shows "ca_positions c' = ca_positions c" "ca_instruments c' = ca_instruments c" "ca_marks c' = ca_marks c"
  using assms by (auto simp: apply_tracked_def bind_eq_Some put_order_def split: option.split_asm)

lemma exec_cancel_frame:
  assumes "exec_cancel D B coid now k = Some (evs, k')"
  shows "ca_positions (co_cache k') = ca_positions (co_cache k)"
    "ca_instruments (co_cache k') = ca_instruments (co_cache k)" "ca_marks (co_cache k') = ca_marks (co_cache k)"
  using assms by (auto simp: exec_cancel_def bind_eq_Some dest: apply_tracked_marks)

lemma run_command_desk:
  assumes "run_command E now cmd k = Some k'"
  shows "desk k' = desk k"
  using assms
  by (auto simp: run_command_def bind_eq_Some Let_def fold_notify [where obs = desk]
      split: strategy_command.split_asm)
    (auto simp: desk_def exec_submit_frame exec_cancel_frame)

lemma process_outbox_desk:
  assumes "process_outbox E k = Some k'"
  shows "desk k' = desk k"
proof (cases "kn_outbox k")
  case Nil
  then show ?thesis using assms by (auto simp: process_outbox_def desk_def)
next
  case Cons
  then have "fold_opt (run_command E (kn_now k)) (kn_outbox k) (k\<lparr>kn_outbox := []\<rparr>) = Some k'"
    using assms by (simp add: process_outbox_def Let_def)
  then have "desk k' = desk (k\<lparr>kn_outbox := []\<rparr>)"
    by (rule fold_opt_inv) (simp_all add: run_command_desk)
  then show ?thesis by (simp add: desk_def)
qed

section \<open>Time\<close>

text \<open>The clock, the cursors and the gate, which the phases of a turn keep or move forward.\<close>

definition place where
  "place k = (kn_now k, kn_cursor k, kn_expiry_cursor k, kn_risk k)"

lemma place_simps [simp]:
  "place (notify_event E ev k) = place k" "place (count_denied ev k) = place k"
  "place (call_strategy E h k) = place k" "place (kernel_publish t msg k) = place k"
  "place (dispatch_market E mev k) = place k" "place (count_fill ev k) = place k"
  "place (log_fill ts sy sg q p k) = place k" "place (put_position ps k) = place k"
  "place (k\<lparr>kn_core := co\<rparr>) = place k" "place (k\<lparr>kn_result := r\<rparr>) = place k"
  by (simp_all add: place_def)

lemma desk_place: "desk k' = desk k \<Longrightarrow> place k' = place k"
  by (simp add: desk_def place_def)

lemma process_outbox_place: "process_outbox E k = Some k' \<Longrightarrow> place k' = place k"
  by (intro desk_place process_outbox_desk)

lemma fold_report_place: "fold_report E rep k = Some k' \<Longrightarrow> place k' = place k"
  by (auto simp: fold_report_def bind_eq_Some fold_notify [where obs = place])

lemma drain_reports_place:
  assumes "drain_reports E f k = Some k'"
  shows "place k' = place k"
proof -
  let ?k = "k\<lparr>kn_core := (kn_core k)\<lparr>co_sim := snd (sim_drain_due f (co_sim (kn_core k)))\<rparr>\<rparr>"
  have "fold_opt (fold_report E) (fst (sim_drain_due f (co_sim (kn_core k)))) ?k = Some k'"
    using assms by (simp add: drain_reports_def split_beta)
  then have "place k' = place ?k" by (rule fold_opt_inv) (simp_all add: fold_report_place)
  then show ?thesis by simp
qed

lemma fire_timers_place:
  assumes "fire_timers E f k = Some k'"
  shows "place k' = place k"
proof -
  let ?k = "k\<lparr>kn_clock := snd (pop_due f (kn_clock k))\<rparr>"
  have "fold_opt (fire_timer E) (fst (pop_due f (kn_clock k))) ?k = Some k'"
    using assms by (simp add: fire_timers_def split_beta)
  then have "place k' = place ?k"
    by (rule fold_opt_inv) (auto simp: fire_timer_def dest!: process_outbox_place)
  then show ?thesis by (simp add: place_def)
qed

lemma close_position_place:
  "close_position_at E i px now sfx k = Some k' \<Longrightarrow> place k' = place k"
  by (auto simp: close_position_at_def bind_eq_Some Let_def dest!: process_outbox_place
      split: option.split_asm)

lemma cancel_dead_place: "cancel_dead E now c k = Some k' \<Longrightarrow> place k' = place k"
  by (auto simp: cancel_dead_def bind_eq_Some fold_notify [where obs = place])

lemma settle_contract_place:
  assumes "settle_contract E i now k = Some k'"
  shows "place k' = place k"
proof (cases "cache_instrument (kn_cache k) i")
  case None
  then show ?thesis using assms by (simp add: settle_contract_def)
next
  case (Some inst)
  then obtain k1 where k1: "place k1 = place k" "fold_opt (cancel_dead E now) (dead_orders E i k1) k1 = Some k'"
    using assms close_position_place
    by (fastforce simp: settle_contract_def bind_eq_Some split: option.split_asm)
  from k1(2) have "place k' = place k1" by (rule fold_opt_inv) (simp_all add: cancel_dead_place)
  then show ?thesis using k1(1) by simp
qed

lemma settle_loop_place:
  "settle_loop E f xs k = Some k' \<Longrightarrow>
     place k' = (kn_now k, kn_cursor k, kn_expiry_cursor k + length (takeWhile (\<lambda>x. fst x \<le> f) xs), kn_risk k)"
proof (induction E f xs k rule: settle_loop.induct)
  case (2 E f ts i rest k)
  show ?case
  proof (cases "f < ts")
    case True
    then show ?thesis using "2.prems" by (simp add: place_def)
  next
    case False
    then obtain k1 where k1: "settle_contract E i f (k\<lparr>kn_expiry_cursor := Suc (kn_expiry_cursor k)\<rparr>) = Some k1"
      "settle_loop E f rest k1 = Some k'"
      using "2.prems" by (auto simp: bind_eq_Some)
    then show ?thesis
      using "2.IH" [OF False k1] settle_contract_place [OF k1(1)] False by (simp add: place_def)
  qed
qed (simp add: place_def)

lemma check_liquidation_place:
  assumes "check_liquidation E now k = Some k'"
  shows "place k' = place k"
proof -
  have "place k' = place k" if "fold_opt (liquidate_one E now) xs k = Some k'" for xs
    using that by (rule fold_opt_inv)
      (auto simp: liquidate_one_def dest: close_position_place split: option.split_asm)
  then show ?thesis using assms by (auto simp: check_liquidation_def bind_eq_Some split: if_split_asm)
qed

lemma market_phase_place:
  assumes "market_phase E f ev k = Some k'"
  shows "place k' = (kn_now k, Suc (kn_cursor k), kn_expiry_cursor k, kn_risk k)"
proof -
  obtain k1 k2 where k1: "feed_market E ev (k\<lparr>kn_cursor := Suc (kn_cursor k)\<rparr>) = Some k1"
    and k2: "process_outbox E (dispatch_market E ev k1) = Some k2" and "place k' = place k2"
    using assms
    by (cases ev) (auto simp: market_phase_def bind_eq_Some sample_equity_def)
  then show ?thesis
    using process_outbox_place [OF k2] by (auto simp: feed_market_def bind_eq_Some place_def Let_def split_beta)
qed

text \<open>A turn taken apart.\<close>

lemma kernel_turnE:
  assumes "kernel_turn E f k = Some k'"
  obtains k1 k2 k3 k4 k5 where "drain_reports E f (advance_clock f k) = Some k1"
    "process_outbox E k1 = Some k2" "fire_timers E f k2 = Some k3"
    "(if next_market E k = Some f then market_phase E f (ke_events E ! kn_cursor k) k3 else Some k3) = Some k4"
    "settle_expiries E f k4 = Some k5" "check_liquidation E f k5 = Some k'"
  using assms by (auto simp: kernel_turn_def bind_eq_Some)

lemma kernel_turn_place:
  assumes "kernel_turn E f k = Some k'"
  shows "place k' = (max (kn_now k) f, kn_cursor k + (if next_market E k = Some f then 1 else 0),
    kn_expiry_cursor k + length (takeWhile (\<lambda>x. fst x \<le> f) (drop (kn_expiry_cursor k) (ke_expiries E))),
    kn_risk k)"
  using assms
proof (rule kernel_turnE)
  fix k1 k2 k3 k4 k5
  assume s: "drain_reports E f (advance_clock f k) = Some k1" "process_outbox E k1 = Some k2"
    "fire_timers E f k2 = Some k3"
    "(if next_market E k = Some f then market_phase E f (ke_events E ! kn_cursor k) k3 else Some k3) = Some k4"
    "settle_expiries E f k4 = Some k5" "check_liquidation E f k5 = Some k'"
  have k3: "place k3 = (max (kn_now k) f, kn_cursor k, kn_expiry_cursor k, kn_risk k)"
    using drain_reports_place [OF s(1)] process_outbox_place [OF s(2)] fire_timers_place [OF s(3)]
    by (simp add: place_def advance_clock_def advance_to_now)
  have "place k4 = (max (kn_now k) f, kn_cursor k + (if next_market E k = Some f then 1 else 0),
      kn_expiry_cursor k, kn_risk k)"
    using s(4) k3 market_phase_place [of E f "ke_events E ! kn_cursor k" k3 k4]
    by (auto simp: place_def split: if_split_asm)
  then show ?thesis
    using settle_loop_place [OF s(5) [unfolded settle_expiries_def]] check_liquidation_place [OF s(6)]
    by (simp add: place_def)
qed

section \<open>Invariants of a run\<close>

text \<open>
  A predicate that the elementary effects of the kernel keep is kept by every turn: what the
  strategy does through its context, publishing, counting, the engine's three operations, closing a
  position, feeding a market event and moving clock and cursors.
\<close>

locale kernel_invariant =
  fixes E :: "'s kernel_env" and P :: "('s, 'h) kernel \<Rightarrow> bool"
  assumes inv_call: "P k \<Longrightarrow> P (call_strategy E h k)"
    and inv_publish: "P k \<Longrightarrow> P (kernel_publish t msg k)"
    and inv_outbox: "P k \<Longrightarrow> P (k\<lparr>kn_outbox := []\<rparr>)"
    and inv_submitted: "P k \<Longrightarrow> P (k\<lparr>kn_result := (kn_result k)\<lparr>rr_orders_submitted := n\<rparr>\<rparr>)"
    and inv_denied: "P k \<Longrightarrow> P (k\<lparr>kn_result := (kn_result k)\<lparr>rr_orders_denied := n\<rparr>\<rparr>)"
    and inv_curve: "P k \<Longrightarrow> P (k\<lparr>kn_result := (kn_result k)\<lparr>rr_equity_curve := cv\<rparr>\<rparr>)"
    and inv_fill: "P k \<Longrightarrow> P (log_fill ts sy sg q px k)"
    and inv_submit: "P k \<Longrightarrow>
      exec_submit (ke_dec E) (ke_brokerage E) (kn_risk k) (kernel_portfolio E k) o1 now (kn_core k) = Some (evs, co) \<Longrightarrow>
      P (k\<lparr>kn_core := co\<rparr>)"
    and inv_cancel: "P k \<Longrightarrow>
      exec_cancel (ke_dec E) (ke_brokerage E) coid now (kn_core k) = Some (evs, co) \<Longrightarrow> P (k\<lparr>kn_core := co\<rparr>)"
    and inv_report: "P k \<Longrightarrow> apply_report (ke_dec E) rep now (kn_core k) = Some (evs, co) \<Longrightarrow> P (k\<lparr>kn_core := co\<rparr>)"
    and inv_drain: "P k \<Longrightarrow>
      P (k\<lparr>kn_core := (kn_core k)\<lparr>co_sim := snd (sim_drain_due f (co_sim (kn_core k)))\<rparr>\<rparr>)"
    and inv_position: "P k \<Longrightarrow> P (put_position p k)"
    and inv_advance: "P k \<Longrightarrow> P (k\<lparr>kn_clock := advance_to f (kn_clock k)\<rparr>)"
    and inv_pop: "P k \<Longrightarrow> P (k\<lparr>kn_clock := snd (pop_due f (kn_clock k))\<rparr>)"
    and inv_feed: "P k \<Longrightarrow> feed_market E ev k = Some k' \<Longrightarrow> P k'"
    and inv_cursor: "P k \<Longrightarrow> P (k\<lparr>kn_cursor := m\<rparr>)"
    and inv_expiry_cursor: "P k \<Longrightarrow> P (k\<lparr>kn_expiry_cursor := m\<rparr>)"
begin

lemma inv_notify: "P k \<Longrightarrow> P (notify_event E ev k)"
  by (cases ev) (simp_all add: notify_event_def Let_def inv_call inv_publish)

lemma inv_fold_notify:
  assumes "\<And>ev k. P k \<Longrightarrow> P (g ev k)"
  shows "P k \<Longrightarrow> P (fold (\<lambda>ev k. notify_event E ev (g ev k)) evs k)"
  using assms by (induction evs arbitrary: k) (simp_all add: inv_notify)

lemma inv_run_command:
  assumes "P k" "run_command E now cmd k = Some k'"
  shows "P k'"
proof (cases cmd)
  case (CmdSubmit o1)
  let ?k = "k\<lparr>kn_result := (kn_result k)\<lparr>rr_orders_submitted := rr_orders_submitted (kn_result k) + 1\<rparr>\<rparr>"
  obtain evs co where s: "exec_submit (ke_dec E) (ke_brokerage E) (kn_risk ?k) (kernel_portfolio E ?k) o1 now (kn_core ?k) =
      Some (evs, co)" and k': "k' = fold (\<lambda>ev k. notify_event E ev (count_denied ev k)) evs (?k\<lparr>kn_core := co\<rparr>)"
    using assms(2) CmdSubmit by (auto simp: run_command_def bind_eq_Some Let_def)
  have "P (?k\<lparr>kn_core := co\<rparr>)" by (rule inv_submit [OF inv_submitted [OF assms(1)] s])
  then show ?thesis
    unfolding k' by (rule inv_fold_notify [rotated]) (simp add: count_denied_def inv_denied)
next
  case (CmdCancel coid)
  then show ?thesis
    using assms inv_fold_notify [of "\<lambda>_ k. k"] by (auto simp: run_command_def bind_eq_Some inv_cancel)
next
  case (CmdModify i q p)
  then show ?thesis using assms by (simp add: run_command_def)
qed

lemma inv_process_outbox:
  assumes "P k" "process_outbox E k = Some k'"
  shows "P k'"
proof -
  have "P k'" if "fold_opt (run_command E now) xs (k\<lparr>kn_outbox := []\<rparr>) = Some k'" for now xs
    using that inv_outbox [OF assms(1)] by (rule fold_opt_inv) (rule inv_run_command)
  then show ?thesis
    using assms inv_outbox by (auto simp: process_outbox_def Let_def split: if_split_asm)
qed

lemma inv_close:
  assumes "P k" "close_position_at E i px now sfx k = Some k'"
  shows "P k'"
  using assms inv_process_outbox [OF inv_notify [OF inv_fill [OF inv_position [OF assms(1)]]]]
  by (auto simp: close_position_at_def bind_eq_Some Let_def split: option.split_asm)

lemma inv_cancel_dead: "P k \<Longrightarrow> cancel_dead E now coid k = Some k' \<Longrightarrow> P k'"
  using inv_fold_notify [of "\<lambda>_ k. k"] by (auto simp: cancel_dead_def bind_eq_Some inv_cancel)

lemma inv_settle_contract:
  assumes "P k" "settle_contract E i now k = Some k'"
  shows "P k'"
proof (cases "cache_instrument (kn_cache k) i")
  case None
  then show ?thesis using assms by (simp add: settle_contract_def)
next
  case (Some inst)
  then obtain k1 where k1: "P k1" "fold_opt (cancel_dead E now) (dead_orders E i k1) k1 = Some k'"
    using assms inv_close
    by (fastforce simp: settle_contract_def bind_eq_Some split: option.split_asm)
  from k1(2,1) show ?thesis by (rule fold_opt_inv) (rule inv_cancel_dead)
qed

lemma inv_settle_loop: "settle_loop E f xs k = Some k' \<Longrightarrow> P k \<Longrightarrow> P k'"
proof (induction xs arbitrary: k)
  case (Cons x xs)
  then show ?case
    using inv_settle_contract [OF inv_expiry_cursor] by (cases x) (fastforce simp: bind_eq_Some split: if_split_asm)
qed simp

lemma inv_check_liquidation:
  assumes "P k" "check_liquidation E now k = Some k'"
  shows "P k'"
proof -
  have "P k'" if "fold_opt (liquidate_one E now) xs k = Some k'" for xs
    using that assms(1) by (rule fold_opt_inv) (auto simp: liquidate_one_def intro: inv_close split: option.split_asm)
  then show ?thesis using assms by (auto simp: check_liquidation_def bind_eq_Some split: if_split_asm)
qed

lemma inv_drain_reports:
  assumes "P k" "drain_reports E f k = Some k'"
  shows "P k'"
proof -
  have "P (count_fill ev k)" if "P k" for ev k
    using that by (cases ev) (simp_all add: count_fill_def inv_fill)
  then have "P k2" if "P k1" "fold_report E rep k1 = Some k2" for rep k1 k2
    using that inv_fold_notify [of count_fill] by (auto simp: fold_report_def bind_eq_Some inv_report)
  moreover have "fold_opt (fold_report E) (fst (sim_drain_due f (co_sim (kn_core k))))
      (k\<lparr>kn_core := (kn_core k)\<lparr>co_sim := snd (sim_drain_due f (co_sim (kn_core k)))\<rparr>\<rparr>) = Some k'"
    using assms(2) by (simp add: drain_reports_def split_beta)
  ultimately show ?thesis using fold_opt_inv [where P = P] inv_drain [OF assms(1)] by blast
qed

lemma inv_fire_timers:
  assumes "P k" "fire_timers E f k = Some k'"
  shows "P k'"
proof -
  have "fold_opt (fire_timer E) (fst (pop_due f (kn_clock k))) (k\<lparr>kn_clock := snd (pop_due f (kn_clock k))\<rparr>) = Some k'"
    using assms(2) by (simp add: fire_timers_def split_beta)
  then show ?thesis
    using inv_pop [OF assms(1)]
    by (rule fold_opt_inv) (auto simp: fire_timer_def intro: inv_process_outbox inv_publish inv_call)
qed

lemma inv_dispatch: "P k \<Longrightarrow> P (dispatch_market E ev k)"
  by (cases ev) (simp_all add: dispatch_market_def inv_call split: option.split)

lemma inv_market_phase:
  assumes "P k" "market_phase E f ev k = Some k'"
  shows "P k'"
proof -
  obtain k1 k2 where s: "feed_market E ev (k\<lparr>kn_cursor := Suc (kn_cursor k)\<rparr>) = Some k1"
    "process_outbox E (dispatch_market E ev k1) = Some k2" and k': "k' = k2 \<or> sample_equity E f k2 = Some k'"
    using assms(2) by (cases ev) (auto simp: market_phase_def bind_eq_Some)
  have "P k2"
    by (rule inv_process_outbox [OF inv_dispatch [OF inv_feed [OF inv_cursor [OF assms(1)] s(1)]] s(2)])
  then show ?thesis using k' by (auto simp: sample_equity_def bind_eq_Some inv_curve)
qed

theorem inv_turn:
  assumes "P k" "kernel_turn E f k = Some k'"
  shows "P k'"
  using assms(2)
proof (rule kernel_turnE)
  fix k1 k2 k3 k4 k5
  assume s: "drain_reports E f (advance_clock f k) = Some k1" "process_outbox E k1 = Some k2"
    "fire_timers E f k2 = Some k3"
    "(if next_market E k = Some f then market_phase E f (ke_events E ! kn_cursor k) k3 else Some k3) = Some k4"
    "settle_expiries E f k4 = Some k5" "check_liquidation E f k5 = Some k'"
  have "P (advance_clock f k)" using inv_advance [OF assms(1)] by (simp add: advance_clock_def)
  then have "P k3" using s(1-3) inv_drain_reports inv_process_outbox inv_fire_timers by blast
  then have "P k4" using s(4) inv_market_phase by (auto split: if_split_asm)
  then show ?thesis using s(5,6) inv_settle_loop inv_check_liquidation by (metis settle_expiries_def)
qed

end

end
