(* ===== verification/Live.thy ===== *)
theory Live
  imports Kernel_Facts
begin

text \<open>
  \<open>backtesting-simulation/crates/coinext-kernel/src/live.rs\<close>: the kernel that drives the engines
  from the \<open>DataClient\<close> and \<open>ExecutionClient\<close> ports, with the two paper clients of \<open>paper.rs\<close> and
  the adapter of the simulated venue, \<open>coinext-sim/src/port.rs\<close>.

  A client is the record of its trait's methods over its own state. A call answers \<open>LOk\<close> with the
  new state, \<open>LErr\<close> with the port error and the state it leaves, \<open>LPanic\<close>, or \<open>LBlock\<close> when it
  awaits room in a channel that only the waiting task could make. The wall clock is the sequence
  of its readings; the kernel counts the readings it has taken.
\<close>

section \<open>Results\<close>

datatype port_error =
    PortModel model_error
  | NotConnected
  | PortIo string
  | Unsupported string
  | PortRejected string

datatype 'k lres = LOk 'k | LErr port_error 'k | LPanic | LBlock

fun lbind :: "'k lres \<Rightarrow> ('k \<Rightarrow> 'k lres) \<Rightarrow> 'k lres" where
  "lbind (LOk k) f = f k"
| "lbind (LErr e k) f = LErr e k"
| "lbind LPanic f = LPanic"
| "lbind LBlock f = LBlock"

fun lift_panic :: "'k option \<Rightarrow> 'k lres" where
  "lift_panic (Some k) = LOk k"
| "lift_panic None = LPanic"

fun lfold :: "('a \<Rightarrow> 'k \<Rightarrow> 'k lres) \<Rightarrow> 'a list \<Rightarrow> 'k \<Rightarrow> 'k lres" where
  "lfold f [] k = LOk k"
| "lfold f (x # xs) k = lbind (f x k) (lfold f xs)"

section \<open>Bounded channels\<close>

text \<open>
  A \<open>tokio::mpsc\<close> channel: what it holds, its capacity, whether a sender is left. \<open>recv\<close> is
  pending on an empty channel and closed once it is empty with no sender left.
\<close>

record 'a chan =
  ch_buf :: "'a list"
  ch_cap :: nat
  ch_open :: bool

datatype 'a recv = Got 'a | Pending | Closed

definition chan_new :: "nat \<Rightarrow> 'a chan" where
  "chan_new n = \<lparr>ch_buf = [], ch_cap = n, ch_open = True\<rparr>"

definition try_send :: "'a \<Rightarrow> 'a chan \<Rightarrow> 'a chan option" where
  "try_send x c = (if length (ch_buf c) < ch_cap c then Some (c\<lparr>ch_buf := ch_buf c @ [x]\<rparr>) else None)"

definition chan_recv :: "'a chan \<Rightarrow> 'a recv \<times> 'a chan" where
  "chan_recv c =
     (case ch_buf c of
        x # xs \<Rightarrow> (Got x, c\<lparr>ch_buf := xs\<rparr>)
      | [] \<Rightarrow> (if ch_open c then Pending else Closed, c))"

section \<open>The ports\<close>

record 'x exec_client =
  ec_venue :: "'x \<Rightarrow> venue"
  ec_connect :: "'x \<Rightarrow> 'x lres"
  ec_submit_order :: "order \<Rightarrow> 'x \<Rightarrow> 'x lres"
  ec_cancel_order :: "client_order_id \<Rightarrow> instrument_id \<Rightarrow> 'x \<Rightarrow> 'x lres"
  ec_modify_order :: "client_order_id \<Rightarrow> 'x \<Rightarrow> 'x lres"
  ec_reconcile :: "'x \<Rightarrow> (port_error + execution_report list) \<times> 'x"
  ec_take_reports :: "'x \<Rightarrow> 'x option"
  ec_recv :: "'x \<Rightarrow> execution_report recv \<times> 'x"
  ec_disconnect :: "'x \<Rightarrow> 'x lres"

record 'd data_client =
  dc_connect :: "'d \<Rightarrow> 'd lres"
  dc_take_stream :: "'d \<Rightarrow> 'd option"
  dc_recv :: "'d \<Rightarrow> market_event recv \<times> 'd"
  dc_disconnect :: "'d \<Rightarrow> 'd lres"

section \<open>State\<close>

datatype environment = BacktestEnv | SandboxEnv | LiveEnv

definition is_live :: "environment \<Rightarrow> bool" where
  "is_live e \<longleftrightarrow> e \<in> {SandboxEnv, LiveEnv}"

text \<open>
  The portfolio snapshot has \<open>f64\<close> views and sums; the model keeps the values they are views of,
  one row per position in iteration order. A row has mark, unrealized PnL and notional when the
  instrument and its mark are known.
\<close>

record position_snapshot =
  sn_symbol :: symbol
  sn_venue :: venue
  sn_side :: position_side
  sn_net_qty :: quantity
  sn_avg_price :: price
  sn_marked :: "(price \<times> money \<times> money) option"
  sn_realized :: money

record portfolio_snapshot =
  sn_cash_balance :: "money option"
  sn_positions :: "position_snapshot list"

record ('s, 'x, 'd) live_env =
  le_dec :: dec_ops
  le_iter_positions :: "position list \<Rightarrow> position list"
  le_environment :: environment
  le_settle :: currency
  le_strategy :: "'s strategy"
  le_strategy_id :: strategy_id
  le_exec :: "'x exec_client"
  le_data :: "'d data_client"
  le_readings :: "nat \<Rightarrow> unix_nanos"
  le_on_portfolio :: "(portfolio_snapshot list \<Rightarrow> port_error option) option"

record ('s, 'h, 'x, 'd) live =
  lv_clock :: system_clock
  lv_reads :: nat
  lv_cache :: cache
  lv_exec :: exec_state
  lv_bus :: "'h bus"
  lv_risk :: risk_gate
  lv_strategy :: 's
  lv_factory :: order_factory
  lv_outbox :: "strategy_command list"
  lv_exec_client :: 'x
  lv_data_client :: 'd
  lv_emitted :: "portfolio_snapshot list"
  lv_stop :: bool

definition live_env ::
  "dec_ops \<Rightarrow> (position list \<Rightarrow> position list) \<Rightarrow> environment \<Rightarrow> backtest_config \<Rightarrow> strategy_id \<Rightarrow> 's strategy \<Rightarrow>
   'x exec_client \<Rightarrow> 'd data_client \<Rightarrow> (nat \<Rightarrow> unix_nanos) \<Rightarrow> (portfolio_snapshot list \<Rightarrow> port_error option) option \<Rightarrow>
   ('s, 'x, 'd) live_env" where
  "live_env D H env cfg sid strat ec dc readings cb =
     \<lparr>le_dec = D, le_iter_positions = H, le_environment = env, le_settle = bc_settle cfg, le_strategy = strat,
      le_strategy_id = sid, le_exec = ec, le_data = dc, le_readings = readings, le_on_portfolio = cb\<rparr>"

text \<open>\<open>build\<close> asserts that the environment is a live one.\<close>

definition build_live ::
  "environment \<Rightarrow> backtest_config \<Rightarrow> strategy_id \<Rightarrow> 's \<Rightarrow> 'x \<Rightarrow> 'd \<Rightarrow> ('s, 'h, 'x, 'd) live option" where
  "build_live env cfg sid st x d =
     (if is_live env
      then Some \<lparr>lv_clock = sclock_new, lv_reads = 0, lv_cache = seed_cache ''LIVE'' cfg, lv_exec = exec_new,
        lv_bus = bus_new, lv_risk = risk_gate_new (bc_risk cfg), lv_strategy = st, lv_factory = factory_new sid,
        lv_outbox = [], lv_exec_client = x, lv_data_client = d, lv_emitted = [],
        lv_stop = False\<rparr>
      else None)"

definition request_stop :: "('s, 'h, 'x, 'd) live \<Rightarrow> ('s, 'h, 'x, 'd) live" where
  "request_stop k = k\<lparr>lv_stop := True\<rparr>"

definition is_stop_requested :: "('s, 'h, 'x, 'd) live \<Rightarrow> bool" where
  "is_stop_requested k = lv_stop k"

definition now_ns :: "('s, 'x, 'd) live_env \<Rightarrow> ('s, 'h, 'x, 'd) live \<Rightarrow> unix_nanos \<times> ('s, 'h, 'x, 'd) live" where
  "now_ns E k = (le_readings E (lv_reads k), k\<lparr>lv_reads := Suc (lv_reads k)\<rparr>)"

definition on_exec :: "('x \<Rightarrow> 'x lres) \<Rightarrow> ('s, 'h, 'x, 'd) live \<Rightarrow> ('s, 'h, 'x, 'd) live lres" where
  "on_exec f k =
     (case f (lv_exec_client k) of
        LOk x \<Rightarrow> LOk (k\<lparr>lv_exec_client := x\<rparr>)
      | LErr e x \<Rightarrow> LErr e (k\<lparr>lv_exec_client := x\<rparr>)
      | LPanic \<Rightarrow> LPanic
      | LBlock \<Rightarrow> LBlock)"

definition on_data :: "('d \<Rightarrow> 'd lres) \<Rightarrow> ('s, 'h, 'x, 'd) live \<Rightarrow> ('s, 'h, 'x, 'd) live lres" where
  "on_data f k =
     (case f (lv_data_client k) of
        LOk d \<Rightarrow> LOk (k\<lparr>lv_data_client := d\<rparr>)
      | LErr e d \<Rightarrow> LErr e (k\<lparr>lv_data_client := d\<rparr>)
      | LPanic \<Rightarrow> LPanic
      | LBlock \<Rightarrow> LBlock)"

section \<open>Telemetry\<close>

text \<open>The callback is a stateful closure: its answer depends on the snapshots it was given so far.\<close>

definition snapshot_row :: "dec_ops \<Rightarrow> cache \<Rightarrow> position \<Rightarrow> position_snapshot option" where
  "snapshot_row D c p = do {
     marked \<leftarrow> (case (cache_instrument c (ps_instrument_id p), cache_mark c (ps_instrument_id p)) of
         (Some inst, Some mark) \<Rightarrow> do {
           u \<leftarrow> unrealized_pnl D mark inst p;
           n \<leftarrow> position_notional D mark inst p;
           Some (Some (mark, u, n)) }
       | _ \<Rightarrow> Some None);
     Some \<lparr>sn_symbol = ii_symbol (ps_instrument_id p), sn_venue = ii_venue (ps_instrument_id p),
       sn_side = ps_side p, sn_net_qty = ps_quantity p, sn_avg_price = ps_avg_px_open p,
       sn_marked = marked, sn_realized = ps_realized_pnl p\<rparr> }"

definition snapshot_portfolio ::
  "dec_ops \<Rightarrow> (position list \<Rightarrow> position list) \<Rightarrow> cache \<Rightarrow> currency \<Rightarrow> portfolio_snapshot option" where
  "snapshot_portfolio D H c settle = do {
     rows \<leftarrow> fold_opt (\<lambda>p xs. map_option (\<lambda>r. xs @ [r]) (snapshot_row D c p)) (H (cache_positions c)) [];
     Some \<lparr>sn_cash_balance = map_option (\<lambda>a. account_balance a settle) (cache_account c), sn_positions = rows\<rparr> }"

definition emit_portfolio :: "('s, 'x, 'd) live_env \<Rightarrow> ('s, 'h, 'x, 'd) live \<Rightarrow> ('s, 'h, 'x, 'd) live lres" where
  "emit_portfolio E k =
     (case le_on_portfolio E of
        None \<Rightarrow> LOk k
      | Some callback \<Rightarrow>
          (case snapshot_portfolio (le_dec E) (le_iter_positions E) (lv_cache k) (le_settle E) of
             None \<Rightarrow> LPanic
           | Some sn \<Rightarrow>
               (let k1 = k\<lparr>lv_emitted := lv_emitted k @ [sn]\<rparr>
                in case callback (lv_emitted k1) of None \<Rightarrow> LOk k1 | Some e \<Rightarrow> LErr e k1)))"

section \<open>Strategy calls and notifications\<close>

text \<open>
  The context sees the wall clock as a timer book with a reading. Both clocks number and queue
  timers in the same way; the wall clock keeps no cancellations and no names, so those of the
  view are dropped when the book is taken back.
\<close>

definition lend_clock :: "unix_nanos \<Rightarrow> system_clock \<Rightarrow> historical_clock" where
  "lend_clock t c = \<lparr>hc_now = t, hc_heap = sc_heap c, hc_cancelled = {}, hc_names = Map.empty, hc_next_id = sc_next_id c\<rparr>"

definition take_clock :: "historical_clock \<Rightarrow> system_clock" where
  "take_clock h = \<lparr>sc_heap = hc_heap h, sc_next_id = hc_next_id h\<rparr>"

definition live_ctx :: "('s, 'x, 'd) live_env \<Rightarrow> unix_nanos \<Rightarrow> ('s, 'h, 'x, 'd) live \<Rightarrow> strategy_context" where
  "live_ctx E t k =
     \<lparr>sx_strategy_id = le_strategy_id E, sx_clock = lend_clock t (lv_clock k), sx_cache = lv_cache k,
      sx_factory = lv_factory k, sx_outbox = lv_outbox k\<rparr>"

text \<open>Each call of a handler reads the clock anew.\<close>

definition timed_call :: "(nat \<Rightarrow> unix_nanos) \<Rightarrow> ctx_call \<Rightarrow> strategy_context \<times> nat \<Rightarrow> strategy_context \<times> nat" where
  "timed_call readings c y =
     (case y of (x, n) \<Rightarrow> (run_call c (x\<lparr>sx_clock := (sx_clock x)\<lparr>hc_now := readings n\<rparr>\<rparr>), Suc n))"

definition live_call :: "('s, 'x, 'd) live_env \<Rightarrow> 's handler \<Rightarrow> ('s, 'h, 'x, 'd) live \<Rightarrow> ('s, 'h, 'x, 'd) live" where
  "live_call E h k =
     (let (t, k1) = now_ns E k;
          (calls, st) = h (live_ctx E t k1) (lv_strategy k1);
          (x, n) = fold (timed_call (le_readings E)) calls (live_ctx E t k1, lv_reads k1)
      in k1\<lparr>lv_strategy := st, lv_clock := take_clock (sx_clock x), lv_factory := sx_factory x,
            lv_outbox := sx_outbox x, lv_reads := n\<rparr>)"

definition live_dispatch :: "('s, 'x, 'd) live_env \<Rightarrow> market_event \<Rightarrow> ('s, 'h, 'x, 'd) live \<Rightarrow> ('s, 'h, 'x, 'd) live" where
  "live_dispatch E ev k =
     (case ev of
        MQuote q \<Rightarrow> live_call E (st_on_quote (le_strategy E) q) k
      | MTrade t \<Rightarrow> live_call E (st_on_trade (le_strategy E) t) k
      | MBar b \<Rightarrow> live_call E (st_on_bar (le_strategy E) b) k
      | MDelta d \<Rightarrow> (case cache_order_book (lv_cache k) (bd_instrument_id d) of
          Some book \<Rightarrow> live_call E (st_on_book (le_strategy E) book) k
        | None \<Rightarrow> k))"

definition live_notify :: "('s, 'x, 'd) live_env \<Rightarrow> order_event \<Rightarrow> ('s, 'h, 'x, 'd) live \<Rightarrow> ('s, 'h, 'x, 'd) live" where
  "live_notify E ev k =
     (let k1 = (case ev of
          EvFilled f \<Rightarrow> live_call E (st_on_order_filled (le_strategy E) f) k
        | EvPartiallyFilled f \<Rightarrow> live_call E (st_on_order_filled (le_strategy E) f) k
        | _ \<Rightarrow> k);
          k2 = live_call E (st_on_order_event (le_strategy E) ev) k1
      in k2\<lparr>lv_bus := publish (TopOrderEvent (le_strategy_id E)) (MsgOrder ev) (lv_bus k2)\<rparr>)"

section \<open>Routing\<close>

definition live_portfolio :: "('s, 'x, 'd) live_env \<Rightarrow> ('s, 'h, 'x, 'd) live \<Rightarrow> portfolio_api" where
  "live_portfolio E k = portfolio_state (le_iter_positions E) (le_dec E) (lv_cache k) (le_settle E)"

definition track_order :: "order \<Rightarrow> ('s, 'h, 'x, 'd) live \<Rightarrow> ('s, 'h, 'x, 'd) live" where
  "track_order o' k = k\<lparr>lv_cache := add_order o' (lv_cache k)\<rparr>"

definition live_submit ::
  "('s, 'x, 'd) live_env \<Rightarrow> unix_nanos \<Rightarrow> order \<Rightarrow> ('s, 'h, 'x, 'd) live \<Rightarrow> ('s, 'h, 'x, 'd) live lres" where
  "live_submit E now o' k =
     (if cache_order (lv_cache k) (o_client_order_id o') \<noteq> None then LOk k
      else case cache_instrument (lv_cache k) (o_instrument_id o') of
        None \<Rightarrow> LOk k
      | Some inst \<Rightarrow>
          (case risk_check (le_dec E) (lv_cache k) (lv_risk k) o' (live_portfolio E k) inst of
             None \<Rightarrow> LPanic
           | Some RiskApproved \<Rightarrow>
               (case order_apply (le_dec E) (EvSubmitted now) o' of
                  None \<Rightarrow> LPanic
                | Some (_, o1) \<Rightarrow>
                    on_exec (ec_submit_order (le_exec E) o1) (live_notify E (EvSubmitted now) (track_order o1 k)))
           | Some (RiskDenied rs) \<Rightarrow>
               (let ev = EvDenied (Reason (deny_text rs) []) now
                in case order_apply (le_dec E) ev o' of
                     None \<Rightarrow> LPanic
                   | Some (_, o1) \<Rightarrow> LOk (live_notify E ev (track_order o1 k)))))"

definition live_cancel ::
  "('s, 'x, 'd) live_env \<Rightarrow> unix_nanos \<Rightarrow> client_order_id \<Rightarrow> ('s, 'h, 'x, 'd) live \<Rightarrow> ('s, 'h, 'x, 'd) live lres" where
  "live_cancel E now coid k =
     (case cache_order (lv_cache k) coid of
        None \<Rightarrow> LOk k
      | Some o' \<Rightarrow>
          (case apply_tracked (le_dec E) coid (EvPendingCancel now) (lv_cache k) of
             None \<Rightarrow> LPanic
           | Some (evs, c) \<Rightarrow>
               on_exec (ec_cancel_order (le_exec E) coid (o_instrument_id o'))
                 (fold (live_notify E) evs (k\<lparr>lv_cache := c\<rparr>))))"

definition route_command ::
  "('s, 'x, 'd) live_env \<Rightarrow> unix_nanos \<Rightarrow> strategy_command \<Rightarrow> ('s, 'h, 'x, 'd) live \<Rightarrow> ('s, 'h, 'x, 'd) live lres" where
  "route_command E now cmd k =
     (case cmd of
        CmdSubmit o' \<Rightarrow> live_submit E now o' k
      | CmdCancel coid \<Rightarrow> live_cancel E now coid k
      | CmdModify _ _ _ \<Rightarrow> LOk k)"

definition route_outbox :: "('s, 'x, 'd) live_env \<Rightarrow> ('s, 'h, 'x, 'd) live \<Rightarrow> ('s, 'h, 'x, 'd) live lres" where
  "route_outbox E k =
     (let cmds = lv_outbox k; k1 = k\<lparr>lv_outbox := []\<rparr>
      in if cmds = [] then LOk k1
         else let (now, k2) = now_ns E k1 in lfold (route_command E now) cmds k2)"

section \<open>The run loop\<close>

text \<open>\<open>apply_report\<close> takes the engine alone; the venue of its argument is not there.\<close>

definition live_fold_report ::
  "('s, 'x, 'd) live_env \<Rightarrow> unix_nanos \<Rightarrow> execution_report \<Rightarrow> ('s, 'h, 'x, 'd) live \<Rightarrow> ('s, 'h, 'x, 'd) live lres" where
  "live_fold_report E now rep k =
     (case apply_report (le_dec E) rep now \<lparr>co_cache = lv_cache k, co_exec = lv_exec k, co_sim = sim_new\<rparr> of
        None \<Rightarrow> LPanic
      | Some (evs, co) \<Rightarrow> LOk (fold (live_notify E) evs (k\<lparr>lv_cache := co_cache co, lv_exec := co_exec co\<rparr>)))"

definition on_report ::
  "('s, 'x, 'd) live_env \<Rightarrow> execution_report \<Rightarrow> ('s, 'h, 'x, 'd) live \<Rightarrow> ('s, 'h, 'x, 'd) live lres" where
  "on_report E rep k =
     (let (now, k1) = now_ns E k
      in lbind (live_fold_report E now rep k1) (\<lambda>k2. lbind (route_outbox E k2) (emit_portfolio E)))"

definition on_market_event ::
  "('s, 'x, 'd) live_env \<Rightarrow> market_event \<Rightarrow> ('s, 'h, 'x, 'd) live \<Rightarrow> ('s, 'h, 'x, 'd) live lres" where
  "on_market_event E ev k =
     (let (c, b) = data_process ev (lv_cache k, lv_bus k);
          k1 = live_dispatch E ev (k\<lparr>lv_cache := c, lv_bus := b\<rparr>)
      in lbind (route_outbox E k1) (emit_portfolio E))"

definition live_start :: "('s, 'x, 'd) live_env \<Rightarrow> ('s, 'h, 'x, 'd) live \<Rightarrow> ('s, 'h, 'x, 'd) live lres" where
  "live_start E k =
     lbind (on_data (dc_connect (le_data E)) k) (\<lambda>k.
     lbind (on_exec (ec_connect (le_exec E)) k) (\<lambda>k.
     lbind (on_data (\<lambda>d. lift_panic (dc_take_stream (le_data E) d)) k) (\<lambda>k.
     lbind (on_exec (\<lambda>x. lift_panic (ec_take_reports (le_exec E) x)) k) (\<lambda>k.
       let (now, k) = now_ns E k
       in case ec_reconcile (le_exec E) (lv_exec_client k) of
            (Inl e, x) \<Rightarrow> LErr e (k\<lparr>lv_exec_client := x\<rparr>)
          | (Inr reports, x) \<Rightarrow>
              lbind (lfold (\<lambda>rep k. lbind (live_fold_report E now rep k) (emit_portfolio E)) reports (k\<lparr>lv_exec_client := x\<rparr>))
                (\<lambda>k. route_outbox E (live_call E (st_on_start (le_strategy E)) k))))))"

text \<open>
  One round of the biased \<open>select!\<close>: the stop signal first, then a report, then a market event.
  A closed stream ends the loop; with nothing to receive the task waits.
\<close>

datatype 'k round = Break | Wait | Turn "'k lres"

definition select_round :: "('s, 'x, 'd) live_env \<Rightarrow> ('s, 'h, 'x, 'd) live \<Rightarrow> ('s, 'h, 'x, 'd) live round" where
  "select_round E k =
     (if lv_stop k then Break
      else case ec_recv (le_exec E) (lv_exec_client k) of
        (Got rep, x) \<Rightarrow> Turn (on_report E rep (k\<lparr>lv_exec_client := x\<rparr>))
      | (Closed, x) \<Rightarrow> Break
      | (Pending, x) \<Rightarrow>
          (case dc_recv (le_data E) (lv_data_client k) of
             (Got ev, d) \<Rightarrow> Turn (on_market_event E ev (k\<lparr>lv_data_client := d\<rparr>))
           | (Closed, d) \<Rightarrow> Break
           | (Pending, d) \<Rightarrow> Wait))"

definition live_finish :: "('s, 'x, 'd) live_env \<Rightarrow> ('s, 'h, 'x, 'd) live \<Rightarrow> ('s, 'h, 'x, 'd) live lres" where
  "live_finish E k =
     lbind (route_outbox E (live_call E (st_on_stop (le_strategy E)) k)) (\<lambda>k.
     lbind (on_data (dc_disconnect (le_data E)) k) (on_exec (ec_disconnect (le_exec E))))"

text \<open>
  The rounds of a loop, interleaved with steps of the environment: a venue or a data feed may move
  its own client at any time, and the stop handle may be used.
\<close>

inductive live_steps ::
  "('s, 'x, 'd) live_env \<Rightarrow> ('x \<Rightarrow> 'x \<Rightarrow> bool) \<Rightarrow> ('d \<Rightarrow> 'd \<Rightarrow> bool) \<Rightarrow> ('s, 'h, 'x, 'd) live \<Rightarrow> ('s, 'h, 'x, 'd) live \<Rightarrow> bool"
  for E V F where
  steps_refl: "live_steps E V F k k"
| steps_turn: "live_steps E V F k k' \<Longrightarrow> select_round E k' = Turn (LOk k'') \<Longrightarrow> live_steps E V F k k''"
| steps_venue: "live_steps E V F k k' \<Longrightarrow> V (lv_exec_client k') x \<Longrightarrow> live_steps E V F k (k'\<lparr>lv_exec_client := x\<rparr>)"
| steps_feed: "live_steps E V F k k' \<Longrightarrow> F (lv_data_client k') d \<Longrightarrow> live_steps E V F k (k'\<lparr>lv_data_client := d\<rparr>)"
| steps_stop: "live_steps E V F k k' \<Longrightarrow> live_steps E V F k (request_stop k')"

text \<open>
  A session whose clients move only when they are called, run to its end: \<open>Exhausted\<close> when the
  fuel is used up and \<open>Stalled\<close> when the task would wait for ever.
\<close>

datatype 'k session = Ended "'k lres" | Stalled 'k | Exhausted

fun live_loop :: "nat \<Rightarrow> ('s, 'x, 'd) live_env \<Rightarrow> ('s, 'h, 'x, 'd) live \<Rightarrow> ('s, 'h, 'x, 'd) live session" where
  "live_loop n E k =
     (case select_round E k of
        Break \<Rightarrow> Ended (live_finish E k)
      | Wait \<Rightarrow> Stalled k
      | Turn r \<Rightarrow> (case n of
          0 \<Rightarrow> Exhausted
        | Suc m \<Rightarrow> (case r of LOk k' \<Rightarrow> live_loop m E k' | _ \<Rightarrow> Ended r)))"

definition live_run :: "nat \<Rightarrow> ('s, 'x, 'd) live_env \<Rightarrow> ('s, 'h, 'x, 'd) live \<Rightarrow> ('s, 'h, 'x, 'd) live session" where
  "live_run n E k = (case live_start E k of LOk k' \<Rightarrow> live_loop n E k' | r \<Rightarrow> Ended r)"

end
