(* ===== verification/Service.thy ===== *)
theory Service
  imports Persist Live
begin

text \<open>
  \<open>execution-live/crates/coinext-exec-svc/src\<close>: the order management of \<open>oms.rs\<close>, which turns
  commands into logged events, and the venue bridge of \<open>venue.rs\<close> with the reconciliation of the
  event log against the venue's open orders.

  The stores are the trait objects the service holds, as records of methods whose failures are
  \<open>None\<close>; quantities arrive as \<open>f64\<close>, a type parameter, with the conversion
  \<open>Quantity::from_f64(qty.max(0.0), 8)\<close> as an argument. Messages published to Redis are the values
  of \<open>oms_msg\<close>; encoding and transport are outside the model.
\<close>

section \<open>What the service is built from\<close>

record 'l event_store =
  es_append :: "strategy_id \<Rightarrow> client_order_id \<Rightarrow> order_event \<Rightarrow> unix_nanos \<Rightarrow> 'l \<Rightarrow> u64 option \<times> 'l"
  es_replay :: "client_order_id \<Rightarrow> 'l \<Rightarrow> order_event list option"
  es_list_orders :: "'l \<Rightarrow> (strategy_id \<times> client_order_id) list option"

definition sqlite_event_store :: "sqlite_store event_store" where
  "sqlite_event_store =
     \<lparr>es_append = (\<lambda>sid i ev ts l. case store_append sid i ev ts l of (n, l') \<Rightarrow> (Some n, l')),
      es_replay = (\<lambda>i l. Some (store_replay i l)), es_list_orders = (\<lambda>l. Some (store_list_orders l))\<rparr>"

record ('l, 'c, 'x, 'f) oms_env =
  oe_store :: "'l event_store"
  oe_next :: "string \<Rightarrow> 'c \<Rightarrow> u64 option \<times> 'c"
  oe_client :: "'x exec_client"
  oe_qty :: "'f \<Rightarrow> quantity mresult"
  oe_zero :: 'f
  oe_show :: "port_error \<Rightarrow> reason"
  oe_show_model :: "model_error \<Rightarrow> reason"

record 'f exec_command =
  xc_kind :: string
  xc_strategy_id :: string
  xc_symbol :: string
  xc_venue :: string
  xc_side :: "string option"
  xc_qty :: "'f option"
  xc_client_order_id :: "string option"

datatype oms_mode = PaperMode | VenueMode

datatype 'f oms_msg =
    OmsError reason u64
  | OmsCancelError client_order_id reason u64
  | OmsDenied client_order_id strategy_id string string 'f reason u64
  | OmsSubmitted client_order_id strategy_id string string 'f oms_mode u64
  | OmsRejected client_order_id reason u64
  | OmsAccepted client_order_id venue_order_id u64
  | OmsFilled client_order_id string string 'f u64
  | OmsPendingCancel client_order_id strategy_id u64
  | OmsCanceled client_order_id strategy_id u64

text \<open>The venue is there when the service is connected to one.\<close>

record ('l, 'c, 'x) oms =
  om_store :: 'l
  om_cursor :: 'c
  om_venue :: "'x option"
  om_kill :: bool
  om_submits :: u64
  om_cancels :: u64
  om_denials :: u64

definition oms_new :: "'l \<Rightarrow> 'c \<Rightarrow> 'x option \<Rightarrow> bool \<Rightarrow> ('l, 'c, 'x) oms" where
  "oms_new l c v kill =
     \<lparr>om_store = l, om_cursor = c, om_venue = v, om_kill = kill, om_submits = 0, om_cancels = 0, om_denials = 0\<rparr>"

definition to_ascii_lowercase :: "string \<Rightarrow> string" where
  "to_ascii_lowercase s =
     map (\<lambda>c. if 65 \<le> (of_char c :: nat) \<and> (of_char c :: nat) \<le> 90 then char_of (of_char c + 32 :: nat) else c) s"

definition log_event ::
  "('l, 'c, 'x, 'f) oms_env \<Rightarrow> strategy_id \<Rightarrow> client_order_id \<Rightarrow> order_event \<Rightarrow> unix_nanos \<Rightarrow> ('l, 'c, 'x) oms \<Rightarrow> ('l, 'c, 'x) oms" where
  "log_event E sid i ev ts s = s\<lparr>om_store := snd (es_append (oe_store E) sid i ev ts (om_store s))\<rparr>"

section \<open>The venue bridge\<close>

definition parse_side_str :: "string \<Rightarrow> reason + order_side" where
  "parse_side_str s =
     (let t = to_ascii_lowercase s
      in if t \<in> {''buy'', ''b''} then Inr Buy
         else if t \<in> {''sell'', ''s''} then Inr Sell
         else Inl (Reason ''invalid side {}'' [RStr t]))"

text \<open>\<open>None\<close>: the client panicked, or waits for ever.\<close>

fun client_answer :: "(port_error \<Rightarrow> reason) \<Rightarrow> 'x lres \<Rightarrow> ((reason + unit) \<times> 'x) option" where
  "client_answer sh (LOk x) = Some (Inr (), x)"
| "client_answer sh (LErr e x) = Some (Inl (sh e), x)"
| "client_answer sh LPanic = None"
| "client_answer sh LBlock = None"

definition bridge_submit_market ::
  "('l, 'c, 'x, 'f) oms_env \<Rightarrow> strategy_id \<Rightarrow> client_order_id \<Rightarrow> string \<Rightarrow> string \<Rightarrow> string \<Rightarrow> 'f \<Rightarrow> unix_nanos \<Rightarrow> 'x \<Rightarrow>
   ((reason + unit) \<times> 'x) option" where
  "bridge_submit_market E sid coid sy ven side qty now x =
     (case instrument_id_parse (sy @ ''.'' @ ven) of
        None \<Rightarrow> Some (Inl (Reason ''bad instrument id {}'' [RStr (sy @ ''.'' @ ven)]), x)
      | Some iid \<Rightarrow> (case parse_side_str side of
          Inl e \<Rightarrow> Some (Inl e, x)
        | Inr sd \<Rightarrow> (case oe_qty E qty of
            Inl e \<Rightarrow> Some (Inl (oe_show_model E e), x)
          | Inr q \<Rightarrow>
              client_answer (oe_show E)
                (ec_submit_order (oe_client E) (order_new sid coid iid sd Market q None None Gtc flags_default now) x))))"

definition bridge_cancel ::
  "('l, 'c, 'x, 'f) oms_env \<Rightarrow> client_order_id \<Rightarrow> string \<Rightarrow> string \<Rightarrow> 'x \<Rightarrow> ((reason + unit) \<times> 'x) option" where
  "bridge_cancel E coid sy ven x =
     (case instrument_id_parse (sy @ ''.'' @ ven) of
        None \<Rightarrow> Some (Inl (Reason ''bad instrument id {}'' [RStr (sy @ ''.'' @ ven)]), x)
      | Some iid \<Rightarrow> client_answer (oe_show E) (ec_cancel_order (oe_client E) coid iid x))"

section \<open>Commands\<close>

text \<open>A failing cursor falls back to the number 1.\<close>

definition mint_id ::
  "('l, 'c, 'x, 'f) oms_env \<Rightarrow> 'f exec_command \<Rightarrow> ('l, 'c, 'x) oms \<Rightarrow> client_order_id \<times> ('l, 'c, 'x) oms" where
  "mint_id E cmd s =
     (case xc_client_order_id cmd of
        Some (c # cs) \<Rightarrow> (c # cs, s)
      | _ \<Rightarrow> (case oe_next E (xc_strategy_id cmd) (om_cursor s) of
          (r, cur) \<Rightarrow> (xc_strategy_id cmd @ ''-'' @ fmt020 (unat (case r of Some n \<Rightarrow> n | None \<Rightarrow> 1)), s\<lparr>om_cursor := cur\<rparr>)))"

definition handle_submit ::
  "('l, 'c, 'x, 'f) oms_env \<Rightarrow> 'f exec_command \<Rightarrow> u64 \<Rightarrow> ('l, 'c, 'x) oms \<Rightarrow> ('f oms_msg list \<times> ('l, 'c, 'x) oms) option" where
  "handle_submit E cmd now s =
     (let sid = xc_strategy_id cmd;
          (coid, s1) = mint_id E cmd s;
          inst = xc_symbol cmd @ ''.'' @ xc_venue cmd;
          side = (case xc_side cmd of Some sd \<Rightarrow> sd | None \<Rightarrow> ''buy'');
          qty = (case xc_qty cmd of Some q \<Rightarrow> q | None \<Rightarrow> oe_zero E);
          killed = Reason ''kill-switch engaged'' []
      in if om_kill s1
         then Some ([OmsDenied coid sid inst side qty killed now],
                log_event E sid coid (EvDenied killed now) now (s1\<lparr>om_denials := om_denials s1 + 1\<rparr>))
         else let s2 = log_event E sid coid (EvSubmitted now) now (s1\<lparr>om_submits := om_submits s1 + 1\<rparr>)
              in case om_venue s2 of
                   Some x \<Rightarrow>
                     (case bridge_submit_market E sid coid (xc_symbol cmd) (xc_venue cmd) side qty now x of
                        None \<Rightarrow> None
                      | Some (Inr _, x') \<Rightarrow>
                          Some ([OmsSubmitted coid sid inst side qty VenueMode now], s2\<lparr>om_venue := Some x'\<rparr>)
                      | Some (Inl e, x') \<Rightarrow>
                          Some ([OmsRejected coid e now],
                            log_event E sid coid (EvRejected e now) now
                              (s2\<lparr>om_venue := Some x', om_denials := om_denials s2 + 1\<rparr>)))
                 | None \<Rightarrow>
                     Some ([OmsSubmitted coid sid inst side qty PaperMode now, OmsAccepted coid (''PAPER-'' @ coid) now,
                            OmsFilled coid inst side qty now],
                       log_event E sid coid (EvAccepted (''PAPER-'' @ coid) now) now s2))"

definition handle_cancel ::
  "('l, 'c, 'x, 'f) oms_env \<Rightarrow> 'f exec_command \<Rightarrow> u64 \<Rightarrow> ('l, 'c, 'x) oms \<Rightarrow> ('f oms_msg list \<times> ('l, 'c, 'x) oms) option" where
  "handle_cancel E cmd now s =
     (case xc_client_order_id cmd of
        Some (c # cs) \<Rightarrow>
          (let coid = c # cs; sid = xc_strategy_id cmd; s1 = s\<lparr>om_cancels := om_cancels s + 1\<rparr>
           in case om_venue s1 of
                Some x \<Rightarrow>
                  (case bridge_cancel E coid (xc_symbol cmd) (xc_venue cmd) x of
                     None \<Rightarrow> None
                   | Some (Inl e, x') \<Rightarrow> Some ([OmsCancelError coid e now], s1\<lparr>om_venue := Some x'\<rparr>)
                   | Some (Inr _, x') \<Rightarrow>
                       Some ([OmsPendingCancel coid sid now],
                         log_event E sid coid (EvPendingCancel now) now (s1\<lparr>om_venue := Some x'\<rparr>)))
              | None \<Rightarrow> Some ([OmsCanceled coid sid now], log_event E sid coid (EvCanceled now) now s1))
      | _ \<Rightarrow> Some ([OmsError (Reason ''cancel requires client_order_id'' []) now], s))"

definition handle_async ::
  "('l, 'c, 'x, 'f) oms_env \<Rightarrow> 'f exec_command \<Rightarrow> u64 \<Rightarrow> ('l, 'c, 'x) oms \<Rightarrow> ('f oms_msg list \<times> ('l, 'c, 'x) oms) option" where
  "handle_async E cmd now s =
     (let kind = to_ascii_lowercase (xc_kind cmd)
      in if kind \<in> {''submitmarket'', ''submit_market'', ''submit''} then handle_submit E cmd now s
         else if kind = ''cancel'' then handle_cancel E cmd now s
         else Some ([OmsError (Reason ''unknown command kind {}'' [RStr (xc_kind cmd)]) now], s))"

section \<open>Reconciliation\<close>

fun open_step :: "order_event \<Rightarrow> bool \<Rightarrow> bool" where
  "open_step (EvSubmitted _) b = True"
| "open_step (EvAccepted _ _) b = True"
| "open_step (EvPartiallyFilled _) b = True"
| "open_step (EvPendingCancel _) b = True"
| "open_step (EvPendingUpdate _) b = True"
| "open_step (EvFilled _) b = False"
| "open_step (EvCanceled _) b = False"
| "open_step (EvRejected _ _) b = False"
| "open_step (EvDenied _ _) b = False"
| "open_step (EvExpired _) b = False"
| "open_step (EvInitialized _ _ _ _ _ _ _ _ _ _) b = b"
| "open_step (EvUpdated _ _ _) b = b"

definition stream_open :: "order_event list \<Rightarrow> bool" where
  "stream_open evs = fold open_step evs False"

definition local_open_client_ids :: "'l event_store \<Rightarrow> 'l \<Rightarrow> client_order_id set option" where
  "local_open_client_ids ES l = do {
     orders \<leftarrow> es_list_orders ES l;
     fold_opt (\<lambda>(_, coid) ids. map_option (\<lambda>evs. if stream_open evs then insert coid ids else ids) (es_replay ES coid l))
       orders {} }"

text \<open>The event a venue report is logged as; the strategy is the name \<open>venue\<close>.\<close>

fun venue_event :: "unix_nanos \<Rightarrow> execution_report \<Rightarrow> order_event" where
  "venue_event now (RepAccepted _ void) = EvAccepted void now"
| "venue_event now (RepCanceled _) = EvCanceled now"
| "venue_event now (RepRejected _ rs) = EvRejected rs now"
| "venue_event now (RepFill f) = EvFilled f"
| "venue_event now _ = EvSubmitted now"

definition publish_venue_report :: "'l event_store \<Rightarrow> unix_nanos \<Rightarrow> execution_report \<Rightarrow> 'l \<Rightarrow> 'l" where
  "publish_venue_report ES now rep l =
     snd (es_append ES ''venue'' (report_client_order_id rep) (venue_event now rep) now l)"

record reconcile_summary =
  rc_venue_open :: nat
  rc_local_open :: nat
  rc_orphans :: nat
  rc_missing_local :: nat
  rc_ok :: bool

text \<open>\<open>now\<close> is the time of the pass, \<open>clock i\<close> the time at which its \<open>i\<close>-th report is published.\<close>

definition seed_report ::
  "'l event_store \<Rightarrow> client_order_id set \<Rightarrow> unix_nanos \<Rightarrow> (nat \<Rightarrow> unix_nanos) \<Rightarrow> nat \<times> execution_report \<Rightarrow> 'l \<Rightarrow> 'l" where
  "seed_report ES missing now clock x l =
     (case x of (i, rep) \<Rightarrow>
        if report_client_order_id rep \<in> missing
        then let l1 = (case rep of RepAccepted coid void \<Rightarrow> snd (es_append ES ''reconcile'' coid (EvAccepted void now) now l) | _ \<Rightarrow> l)
             in publish_venue_report ES (clock i) rep l1
        else l)"

definition reconcile_on_start ::
  "'l event_store \<Rightarrow> 'x exec_client \<Rightarrow> unix_nanos \<Rightarrow> (nat \<Rightarrow> unix_nanos) \<Rightarrow> 'x \<Rightarrow> 'l \<Rightarrow> (reconcile_summary \<times> 'l) option" where
  "reconcile_on_start ES C now clock x l =
     (case fst (ec_reconcile C x) of
        Inl e \<Rightarrow> None
      | Inr reports \<Rightarrow>
          map_option (\<lambda>local_ids.
            let venue_ids = set (map report_client_order_id reports);
                missing = venue_ids - local_ids;
                orphans = local_ids - venue_ids
            in (\<lparr>rc_venue_open = card venue_ids, rc_local_open = card local_ids, rc_orphans = card orphans,
                 rc_missing_local = card missing, rc_ok = (orphans = {} \<and> missing = {})\<rparr>,
                fold (seed_report ES missing now clock) (enumerate 0 reports) l))
            (local_open_client_ids ES l))"

section \<open>The open orders of the log\<close>

lemma set_insert_sorted_by [simp]: "set (insert_sorted_by lt x ys) = insert x (set ys)"
  by (induction ys) auto

lemma set_order_by [simp]: "set (order_by lt xs) = set xs"
proof -
  have "set (foldl (\<lambda>acc x. insert_sorted_by lt x acc) acc xs) = set acc \<union> set xs" for acc
    by (induction xs arbitrary: acc) auto
  then show ?thesis by (simp add: order_by_def)
qed

lemma fold_open:
  "fold_opt (\<lambda>(_, i) ids. Some (if P i then insert i ids else ids)) xs A = Some (A \<union> {i \<in> snd ` set xs. P i})"
proof (induction xs arbitrary: A)
  case (Cons x xs)
  obtain a i where x: "x = (a, i)" by fastforce
  have "(if P i then insert i A else A) \<union> {j \<in> snd ` set xs. P j} = A \<union> {j \<in> snd ` set (x # xs). P j}"
    by (auto simp: x)
  then show ?case using Cons.IH by (simp add: x)
qed simp

text \<open>Over the SQLite log: the ids whose stream leaves the order open.\<close>

lemma local_open_sqlite:
  assumes "store_ok l"
  shows "local_open_client_ids sqlite_event_store l = Some {i. stream_open (store_replay i l)}"
proof -
  have "i \<in> snd ` set (store_list_orders l)" if "stream_open (store_replay i l)" for i
  proof -
    have "stream_of i l \<noteq> []" using that assms by (auto simp: store_replay_eq stream_open_def)
    then show ?thesis by (auto simp: store_list_orders_def stream_of_def filter_empty_conv image_iff)
  qed
  then have "{i \<in> snd ` set (store_list_orders l). stream_open (store_replay i l)} = {i. stream_open (store_replay i l)}"
    by blast
  then show ?thesis
    using fold_open [of "\<lambda>i. stream_open (store_replay i l)" "store_list_orders l" "{}"]
    by (simp add: local_open_client_ids_def sqlite_event_store_def)
qed

lemma stream_open_snoc [simp]: "stream_open (evs @ [ev]) = open_step ev (stream_open evs)"
  by (simp add: stream_open_def)

lemma sqlite_append_sel [simp]:
  "snd (es_append sqlite_event_store sid i ev ts l) = snd (store_append sid i ev ts l)"
  by (simp add: sqlite_event_store_def split_beta)

lemma replay_append:
  "store_ok l \<Longrightarrow> store_replay j (snd (store_append sid i ev ts l)) = store_replay j l @ (if j = i then [ev] else [])"
  using sqlite_log.append_same sqlite_log.append_other by simp

definition accepts :: "execution_report \<Rightarrow> bool" where
  "accepts rep \<longleftrightarrow> (\<exists>i v. rep = RepAccepted i v)"

lemma seed_report_open:
  assumes "store_ok l" "accepts rep"
  shows "store_ok (seed_report sqlite_event_store M now clock (n, rep) l) \<and>
    (stream_open (store_replay i (seed_report sqlite_event_store M now clock (n, rep) l)) \<longleftrightarrow>
      stream_open (store_replay i l) \<or> (i = report_client_order_id rep \<and> i \<in> M))"
  using assms
  by (auto simp: seed_report_def publish_venue_report_def accepts_def replay_append store_ok_append
      split: if_split_asm simp flip: append_assoc)

lemma seed_all_open:
  "store_ok l \<Longrightarrow> \<forall>rep \<in> set reps. accepts rep \<Longrightarrow>
    store_ok (fold (seed_report sqlite_event_store M now clock) (enumerate n reps) l) \<and>
    (stream_open (store_replay i (fold (seed_report sqlite_event_store M now clock) (enumerate n reps) l)) \<longleftrightarrow>
      stream_open (store_replay i l) \<or> (i \<in> report_client_order_id ` set reps \<and> i \<in> M))"
proof (induction reps arbitrary: l n)
  case (Cons rep reps)
  then show ?case
    using seed_report_open [OF Cons.prems(1), of rep M now clock n]
      Cons.IH [of "seed_report sqlite_event_store M now clock (n, rep) l" "Suc n"]
    by auto
qed simp

section \<open>Properties\<close>

text \<open>
  Reconciliation converges. Against a venue that reports its open orders as accepted, a pass
  leaves the log with exactly the orders that were open in it or are open at the venue, and it
  calls the log in order exactly when the two sets were equal.
\<close>

theorem reconcile_converges:
  assumes "store_ok l" "fst (ec_reconcile C x) = Inr reports" "\<forall>rep \<in> set reports. accepts rep"
    "reconcile_on_start sqlite_event_store C now clock x l = Some (sm, l')"
    "local_open_client_ids sqlite_event_store l = Some ids"
  shows "local_open_client_ids sqlite_event_store l' = Some (ids \<union> report_client_order_id ` set reports) \<and>
    rc_ok sm = (ids = report_client_order_id ` set reports)"
proof -
  let ?M = "report_client_order_id ` set reports - ids"
  have ids: "ids = {i. stream_open (store_replay i l)}" using assms(1,5) local_open_sqlite by simp
  have l': "l' = fold (seed_report sqlite_event_store ?M now clock) (enumerate 0 reports) l"
    and sm: "rc_ok sm = (ids - report_client_order_id ` set reports = {} \<and> ?M = {})"
    using assms(2,4,5) by (auto simp: reconcile_on_start_def Let_def)
  have "local_open_client_ids sqlite_event_store l' = Some {i. stream_open (store_replay i l')}"
    using seed_all_open [OF assms(1,3)] l' by (blast intro: local_open_sqlite)
  also have "{i. stream_open (store_replay i l')} = ids \<union> report_client_order_id ` set reports"
    unfolding l' using seed_all_open [OF assms(1,3), where M = ?M and now = now and clock = clock and n = 0] ids by auto
  finally show ?thesis using sm by auto
qed

text \<open>
  The kill switch stops the service. While it is engaged a submission reaches neither the venue
  nor the counter of submits; it is answered by a denial, and the denial is what the log gets.
\<close>

theorem oms_kill_switch:
  assumes "om_kill s" "to_ascii_lowercase (xc_kind cmd) \<in> {''submitmarket'', ''submit_market'', ''submit''}"
    "handle_async E cmd now s = Some (msgs, s')"
  shows "om_venue s' = om_venue s \<and> om_submits s' = om_submits s \<and> om_denials s' = om_denials s + 1 \<and>
    (\<exists>coid inst side qty. msgs = [OmsDenied coid (xc_strategy_id cmd) inst side qty (Reason ''kill-switch engaged'' []) now] \<and>
      om_store s' = snd (es_append (oe_store E) (xc_strategy_id cmd) coid
        (EvDenied (Reason ''kill-switch engaged'' []) now) now (om_store s)))"
proof -
  obtain coid s1 where m: "mint_id E cmd s = (coid, s1)" by fastforce
  then have s1: "om_kill s1 = om_kill s" "om_venue s1 = om_venue s" "om_submits s1 = om_submits s"
    "om_denials s1 = om_denials s" "om_store s1 = om_store s"
    by (auto simp: mint_id_def split: option.split_asm list.split_asm prod.split_asm)
  have "handle_submit E cmd now s = Some (msgs, s')" using assms(2,3) by (simp add: handle_async_def Let_def)
  then show ?thesis using assms(1) m s1 by (auto simp: handle_submit_def log_event_def Let_def)
qed

text \<open>
  A paper fill is published but never logged. After a paper submission the service has
  announced the fill, yet the order counts as open in the event log, so the next reconciliation
  reports it as an orphan.
\<close>

theorem paper_fill_not_logged:
  assumes "store_ok (om_store s)" "oe_store E = sqlite_event_store" "\<not> om_kill s" "om_venue s = None"
    "xc_client_order_id cmd = Some (c # cs)"
    "to_ascii_lowercase (xc_kind cmd) \<in> {''submitmarket'', ''submit_market'', ''submit''}"
  shows "\<exists>inst side qty s' msgs ids. handle_async E cmd now s = Some (msgs, s') \<and>
    OmsFilled (c # cs) inst side qty now \<in> set msgs \<and>
    local_open_client_ids sqlite_event_store (om_store s') = Some ids \<and> c # cs \<in> ids"
proof -
  let ?s = "snd (store_append (xc_strategy_id cmd) (c # cs) (EvAccepted (''PAPER-'' @ c # cs) now) now
    (snd (store_append (xc_strategy_id cmd) (c # cs) (EvSubmitted now) now (om_store s))))"
  have ok: "store_ok ?s" using assms(1) by (simp add: store_ok_append)
  have "stream_open (store_replay (c # cs) ?s)"
    using assms(1) by (simp add: replay_append store_ok_append flip: append_assoc)
  moreover have "\<exists>msgs s'. handle_async E cmd now s = Some (msgs, s') \<and> om_store s' = ?s \<and>
      (\<exists>inst side qty. OmsFilled (c # cs) inst side qty now \<in> set msgs)"
    using assms(2-6) by (auto simp: handle_async_def handle_submit_def mint_id_def log_event_def Let_def)
  ultimately show ?thesis using local_open_sqlite [OF ok] by fastforce
qed

section \<open>A service\<close>

text \<open>A venue that answers every call and reports the given open orders.\<close>

definition listing :: "execution_report list \<Rightarrow> unit exec_client" where
  "listing reps =
     \<lparr>ec_venue = (\<lambda>_. ''BINANCE''), ec_connect = LOk, ec_submit_order = (\<lambda>_. LOk), ec_cancel_order = (\<lambda>_ _. LOk),
      ec_modify_order = (\<lambda>_. LOk), ec_reconcile = (\<lambda>x. (Inr reps, x)), ec_take_reports = Some,
      ec_recv = (\<lambda>x. (Pending, x)), ec_disconnect = LOk\<rparr>"

definition desk_env :: "(sqlite_store, sqlite_cursor, unit, int) oms_env" where
  "desk_env =
     \<lparr>oe_store = sqlite_event_store, oe_next = sqlite_next, oe_client = listing [], oe_qty = (\<lambda>n. Ok (Quantity n 8)),
      oe_zero = 0, oe_show = (\<lambda>_. Reason ''port error'' []), oe_show_model = (\<lambda>_. Reason ''model error'' [])\<rparr>"

definition desk_cmd :: "int exec_command" where
  "desk_cmd =
     \<lparr>xc_kind = ''SubmitMarket'', xc_strategy_id = ''s1'', xc_symbol = ''BTCUSDT'', xc_venue = ''BINANCE'',
      xc_side = Some ''buy'', xc_qty = Some 7, xc_client_order_id = Some ''s1-1''\<rparr>"

definition desk_log :: sqlite_store where
  "desk_log = snd (store_append ''s1'' ''a'' (EvSubmitted 1) 1 store_new)"

lemma desk_log_ok: "store_ok desk_log"
  by (simp add: desk_log_def store_ok_append store_ok_new)

lemma desk_log_open: "local_open_client_ids sqlite_event_store desk_log = Some {''a''}"
  by code_simp

lemma desk_kind: "to_ascii_lowercase (xc_kind desk_cmd) = ''submitmarket''"
  by code_simp

theorem reconcile_converges_witness:
  "\<exists>sm l'. reconcile_on_start sqlite_event_store (listing [RepAccepted ''b'' ''v'']) 5 (\<lambda>_. 6) () desk_log = Some (sm, l') \<and>
     local_open_client_ids sqlite_event_store l' = Some {''a'', ''b''} \<and> \<not> rc_ok sm"
proof -
  obtain sm l' where r: "reconcile_on_start sqlite_event_store (listing [RepAccepted ''b'' ''v'']) 5 (\<lambda>_. 6) () desk_log = Some (sm, l')"
    by (simp add: reconcile_on_start_def listing_def desk_log_open)
  have "fst (ec_reconcile (listing [RepAccepted ''b'' ''v'']) ()) = Inr [RepAccepted ''b'' ''v'']" by (simp add: listing_def)
  from reconcile_converges [OF desk_log_ok this _ r desk_log_open] show ?thesis
    using r by (auto simp: accepts_def)
qed

theorem oms_kill_switch_witness:
  "\<exists>msgs s'. handle_async desk_env desk_cmd 9 (oms_new desk_log [] (Some ()) True) = Some (msgs, s') \<and>
     om_venue s' = Some () \<and> om_submits s' = 0 \<and> om_denials s' = 1"
proof -
  obtain msgs s' where h: "handle_async desk_env desk_cmd 9 (oms_new desk_log [] (Some ()) True) = Some (msgs, s')"
    using desk_kind by (simp add: handle_async_def handle_submit_def mint_id_def desk_cmd_def oms_new_def Let_def)
  from oms_kill_switch [OF _ _ h] show ?thesis using h desk_kind by (auto simp: oms_new_def)
qed

theorem paper_fill_not_logged_witness:
  "\<exists>inst side qty s' msgs ids. handle_async desk_env desk_cmd 9 (oms_new desk_log [] None False) = Some (msgs, s') \<and>
     OmsFilled ''s1-1'' inst side qty 9 \<in> set msgs \<and>
     local_open_client_ids sqlite_event_store (om_store s') = Some ids \<and> ''s1-1'' \<in> ids"
  by (rule paper_fill_not_logged) (simp_all add: oms_new_def desk_log_ok desk_env_def desk_kind, simp add: desk_cmd_def)

end
