(* ===== verification/Clients.thy ===== *)
theory Clients
  imports Live
begin

text \<open>
  The clients that need no network: the replayed feed and the paper venue of
  \<open>coinext-kernel/src/paper.rs\<close>, and the port of the simulated exchange of
  \<open>coinext-sim/src/port.rs\<close>.
\<close>

section \<open>Replayed market data\<close>

record replay_client =
  rp_sender :: bool
  rp_taken :: bool
  rp_chan :: "market_event chan"
  rp_events :: "market_event list"

definition replay_new :: "market_event list \<Rightarrow> replay_client" where
  "replay_new events =
     \<lparr>rp_sender = True, rp_taken = False, rp_chan = chan_new (max (length events) 1 + 8), rp_events = events\<rparr>"

text \<open>A \<open>send\<close> to a full channel waits for the receiver, which the kernel has not taken yet.\<close>

fun send_all :: "'a list \<Rightarrow> 'a chan \<Rightarrow> 'a chan option" where
  "send_all [] c = Some c"
| "send_all (x # xs) c = Option.bind (try_send x c) (send_all xs)"

definition replay_connect :: "replay_client \<Rightarrow> replay_client lres" where
  "replay_connect d =
     (if \<not> rp_sender d then LPanic
      else case send_all (rp_events d) (rp_chan d) of
             None \<Rightarrow> LBlock
           | Some c \<Rightarrow> LOk (d\<lparr>rp_sender := False, rp_chan := c\<lparr>ch_open := False\<rparr>, rp_events := []\<rparr>))"

definition replay_take_stream :: "replay_client \<Rightarrow> replay_client option" where
  "replay_take_stream d = (if rp_taken d then None else Some (d\<lparr>rp_taken := True\<rparr>))"

definition replay_data_client :: "replay_client data_client" where
  "replay_data_client =
     \<lparr>dc_connect = replay_connect, dc_take_stream = replay_take_stream,
      dc_recv = (\<lambda>d. let (r, c) = chan_recv (rp_chan d) in (r, d\<lparr>rp_chan := c\<rparr>)), dc_disconnect = LOk\<rparr>"

section \<open>Paper fills\<close>

record paper_client =
  pc_venue :: venue
  pc_default_price :: price
  pc_settle :: currency
  pc_chan :: "execution_report chan"
  pc_taken :: bool
  pc_trade_seq :: u64
  pc_submits :: u64

definition paper_new :: "venue \<Rightarrow> price \<Rightarrow> currency \<Rightarrow> paper_client" where
  "paper_new v px settle =
     \<lparr>pc_venue = v, pc_default_price = px, pc_settle = settle, pc_chan = chan_new 1024, pc_taken = False,
      pc_trade_seq = 0, pc_submits = 0\<rparr>"

definition paper_venue_order_id :: "client_order_id \<Rightarrow> venue_order_id" where
  "paper_venue_order_id i = ''PAPER-'' @ i"

definition paper_fill :: "order \<Rightarrow> u64 \<Rightarrow> paper_client \<Rightarrow> fill" where
  "paper_fill o' seq x =
     \<lparr>f_trade_id = ''PT-'' @ show_nat (unat seq), f_client_order_id = o_client_order_id o',
      f_venue_order_id = paper_venue_order_id (o_client_order_id o'), f_instrument_id = o_instrument_id o',
      f_side = o_side o', f_last_px = (case o_price o' of Some p \<Rightarrow> p | None \<Rightarrow> pc_default_price x),
      f_last_qty = o_quantity o', f_fee = money_zero (pc_settle x), f_liquidity = Taker, f_ts_event = 0, f_ts_init = 0\<rparr>"

definition paper_send :: "execution_report \<Rightarrow> paper_client \<Rightarrow> paper_client lres" where
  "paper_send rep x = (case try_send rep (pc_chan x) of None \<Rightarrow> LBlock | Some c \<Rightarrow> LOk (x\<lparr>pc_chan := c\<rparr>))"

definition paper_submit_order :: "order \<Rightarrow> paper_client \<Rightarrow> paper_client lres" where
  "paper_submit_order o' x =
     lbind (paper_send (RepAccepted (o_client_order_id o') (paper_venue_order_id (o_client_order_id o')))
              (x\<lparr>pc_submits := pc_submits x + 1\<rparr>))
       (\<lambda>x. let seq = pc_trade_seq x + 1
            in paper_send (RepFill (paper_fill o' seq x)) (x\<lparr>pc_trade_seq := seq\<rparr>))"

definition paper_cancel_order :: "client_order_id \<Rightarrow> instrument_id \<Rightarrow> paper_client \<Rightarrow> paper_client lres" where
  "paper_cancel_order coid i x = paper_send (RepCanceled coid) x"

definition paper_modify_order :: "client_order_id \<Rightarrow> paper_client \<Rightarrow> paper_client lres" where
  "paper_modify_order coid x = LErr (Unsupported ''PaperFillExec does not model order modify'') x"

definition paper_take_reports :: "paper_client \<Rightarrow> paper_client option" where
  "paper_take_reports x = (if pc_taken x then None else Some (x\<lparr>pc_taken := True\<rparr>))"

definition paper_exec_client :: "paper_client exec_client" where
  "paper_exec_client =
     \<lparr>ec_venue = pc_venue, ec_connect = LOk, ec_submit_order = paper_submit_order,
      ec_cancel_order = paper_cancel_order, ec_modify_order = paper_modify_order,
      ec_reconcile = (\<lambda>x. (Inr [], x)), ec_take_reports = paper_take_reports,
      ec_recv = (\<lambda>x. let (r, c) = chan_recv (pc_chan x) in (r, x\<lparr>pc_chan := c\<rparr>)), ec_disconnect = LOk\<rparr>"

section \<open>The port of the simulated exchange\<close>

text \<open>A simulated client: its clock reading, the cache it shares, its economics and its state.\<close>

record sim_client =
  sl_now :: unix_nanos
  sl_cache :: cache
  sl_brokerage :: brokerage_model
  sl_state :: sim_state

record sim_port =
  sp_venue :: venue
  sp_build :: sim_client
  sp_sim :: "sim_client option"
  sp_chan :: "execution_report chan"
  sp_taken :: bool

definition sim_port_new :: "venue \<Rightarrow> sim_client \<Rightarrow> sim_port" where
  "sim_port_new v b = \<lparr>sp_venue = v, sp_build = b, sp_sim = None, sp_chan = chan_new 2048, sp_taken = False\<rparr>"

text \<open>Forwarding stops at the first report that does not fit; the rest of the batch is dropped.\<close>

fun forward :: "'a list \<Rightarrow> 'a chan \<Rightarrow> 'a chan" where
  "forward [] c = c"
| "forward (r # rs) c = (case try_send r c of None \<Rightarrow> c | Some c' \<Rightarrow> forward rs c')"

definition pump_reports :: "unix_nanos \<Rightarrow> sim_port \<Rightarrow> sim_port" where
  "pump_reports upto_ns x =
     (case sp_sim x of
        None \<Rightarrow> x
      | Some s \<Rightarrow>
          (let (reports, st) = sim_drain_due upto_ns (sl_state s)
           in x\<lparr>sp_sim := Some (s\<lparr>sl_state := st\<rparr>), sp_chan := forward reports (sp_chan x)\<rparr>))"

definition sim_port_connect :: "sim_port \<Rightarrow> sim_port lres" where
  "sim_port_connect x = LOk (case sp_sim x of None \<Rightarrow> x\<lparr>sp_sim := Some (sp_build x)\<rparr> | Some _ \<Rightarrow> x)"

definition sim_port_submit :: "order \<Rightarrow> sim_port \<Rightarrow> sim_port lres" where
  "sim_port_submit o' x =
     (case sp_sim x of
        None \<Rightarrow> LErr NotConnected x
      | Some s \<Rightarrow>
          LOk (pump_reports (sl_now s)
            (x\<lparr>sp_sim := Some (s\<lparr>sl_state := on_submit (sl_brokerage s) (sl_now s) (sl_cache s) o' (sl_state s)\<rparr>)\<rparr>)))"

definition sim_port_cancel :: "client_order_id \<Rightarrow> instrument_id \<Rightarrow> sim_port \<Rightarrow> sim_port lres" where
  "sim_port_cancel coid i x =
     (case sp_sim x of
        None \<Rightarrow> LErr NotConnected x
      | Some s \<Rightarrow>
          LOk (pump_reports (sl_now s)
            (x\<lparr>sp_sim := Some (s\<lparr>sl_state := on_cancel (sl_brokerage s) (sl_now s) coid (sl_state s)\<rparr>)\<rparr>)))"

definition sim_port_modify :: "client_order_id \<Rightarrow> sim_port \<Rightarrow> sim_port lres" where
  "sim_port_modify coid x = LErr (Unsupported ''SimulatedExecutionClient does not model order modify'') x"

definition sim_port_take_reports :: "sim_port \<Rightarrow> sim_port option" where
  "sim_port_take_reports x = (if sp_taken x then None else Some (x\<lparr>sp_taken := True\<rparr>))"

definition sim_exec_client :: "sim_port exec_client" where
  "sim_exec_client =
     \<lparr>ec_venue = sp_venue, ec_connect = sim_port_connect, ec_submit_order = sim_port_submit,
      ec_cancel_order = sim_port_cancel, ec_modify_order = sim_port_modify,
      ec_reconcile = (\<lambda>x. (Inr [], x)), ec_take_reports = sim_port_take_reports,
      ec_recv = (\<lambda>x. let (r, c) = chan_recv (sp_chan x) in (r, x\<lparr>sp_chan := c\<rparr>)),
      ec_disconnect = (\<lambda>x. LOk (x\<lparr>sp_sim := None\<rparr>))\<rparr>"

end
