(* ===== verification/Kernel_Props.thy ===== *)
theory Kernel_Props
  imports Kernel_Facts
begin

text \<open>
  The properties of the backtest kernel, from the frame lemmas of \<open>Kernel_Facts\<close>.
\<close>

section \<open>The data not yet reached\<close>

text \<open>No phase of a turn reads the event list: only \<open>frontier\<close> and the turn itself do.\<close>

lemmas branch_cong = market_event.case_cong order_event.case_cong strategy_command.case_cong
  option.case_cong prod.case_cong if_cong

lemma same_events_calls:
  "kernel_ctx (E\<lparr>ke_events := ys\<rparr>) = kernel_ctx E" "call_strategy (E\<lparr>ke_events := ys\<rparr>) = call_strategy E"
  by (simp_all add: fun_eq_iff kernel_ctx_def call_strategy_def)

lemma same_events_notify:
  "dispatch_market (E\<lparr>ke_events := ys\<rparr>) = dispatch_market E" "notify_event (E\<lparr>ke_events := ys\<rparr>) = notify_event E"
  "kernel_portfolio (E\<lparr>ke_events := ys\<rparr>) = kernel_portfolio E"
  by (simp_all add: fun_eq_iff dispatch_market_def notify_event_def kernel_portfolio_def same_events_calls
      cong: branch_cong)

lemma same_events_command: "run_command (E\<lparr>ke_events := ys\<rparr>) = run_command E"
  by (simp add: fun_eq_iff run_command_def same_events_notify cong: branch_cong)

lemma same_events_outbox: "process_outbox (E\<lparr>ke_events := ys\<rparr>) = process_outbox E"
  by (simp add: fun_eq_iff process_outbox_def same_events_command Let_def)

lemma same_events_close:
  "close_position_at (E\<lparr>ke_events := ys\<rparr>) = close_position_at E"
  "cancel_dead (E\<lparr>ke_events := ys\<rparr>) = cancel_dead E" "dead_orders (E\<lparr>ke_events := ys\<rparr>) = dead_orders E"
  by (simp_all add: fun_eq_iff close_position_at_def cancel_dead_def dead_orders_def same_events_notify
      same_events_outbox cong: branch_cong)

lemma same_events_settle:
  "settle_contract (E\<lparr>ke_events := ys\<rparr>) = settle_contract E"
  "liquidate_one (E\<lparr>ke_events := ys\<rparr>) = liquidate_one E"
  by (simp_all add: fun_eq_iff settle_contract_def liquidate_one_def same_events_close cong: branch_cong)

lemma same_events_settle_loop: "settle_loop (E\<lparr>ke_events := ys\<rparr>) f xs k = settle_loop E f xs k"
proof (induction xs arbitrary: k)
  case (Cons x xs)
  then show ?case by (cases x) (simp add: same_events_settle ext [OF Cons.IH])
qed simp

lemma same_events_phases:
  "settle_expiries (E\<lparr>ke_events := ys\<rparr>) = settle_expiries E"
  "check_liquidation (E\<lparr>ke_events := ys\<rparr>) = check_liquidation E"
  "drain_reports (E\<lparr>ke_events := ys\<rparr>) = drain_reports E"
  "fire_timers (E\<lparr>ke_events := ys\<rparr>) = fire_timers E"
  "market_phase (E\<lparr>ke_events := ys\<rparr>) = market_phase E"
proof -
  have "fold_report (E\<lparr>ke_events := ys\<rparr>) = fold_report E" "fire_timer (E\<lparr>ke_events := ys\<rparr>) = fire_timer E"
    "must_liquidate (E\<lparr>ke_events := ys\<rparr>) = must_liquidate E"
    "open_instruments (E\<lparr>ke_events := ys\<rparr>) = open_instruments E"
    "equity_term (E\<lparr>ke_events := ys\<rparr>) = equity_term E"
    by (simp_all add: fun_eq_iff fold_report_def fire_timer_def must_liquidate_def open_instruments_def
        equity_term_def same_events_notify same_events_outbox same_events_calls
        cong: branch_cong)
  note this [simp]
  show "settle_expiries (E\<lparr>ke_events := ys\<rparr>) = settle_expiries E"
    "check_liquidation (E\<lparr>ke_events := ys\<rparr>) = check_liquidation E"
    "drain_reports (E\<lparr>ke_events := ys\<rparr>) = drain_reports E" "fire_timers (E\<lparr>ke_events := ys\<rparr>) = fire_timers E"
    "market_phase (E\<lparr>ke_events := ys\<rparr>) = market_phase E"
    by (simp_all add: fun_eq_iff settle_expiries_def check_liquidation_def drain_reports_def fire_timers_def
        market_phase_def feed_market_def sample_equity_def kernel_equity_def same_events_settle_loop
        same_events_settle same_events_notify same_events_outbox cong: branch_cong)
qed

lemma next_market_prefix:
  assumes "take p ys = take p (ke_events E)" "p \<le> length ys" "p \<le> length (ke_events E)" "kn_cursor k < p"
  shows "next_market (E\<lparr>ke_events := ys\<rparr>) k = next_market E k"
    and "ys ! kn_cursor k = ke_events E ! kn_cursor k"
proof -
  show n: "ys ! kn_cursor k = ke_events E ! kn_cursor k"
    using assms(1,4) by (metis nth_take)
  then show "next_market (E\<lparr>ke_events := ys\<rparr>) k = next_market E k"
    using assms(2-4) by (simp add: next_market_def)
qed

lemma frontier_prefix:
  assumes "take p ys = take p (ke_events E)" "p \<le> length ys" "p \<le> length (ke_events E)" "kn_cursor k < p"
  shows "frontier (E\<lparr>ke_events := ys\<rparr>) k = frontier E k"
    and "kernel_turn (E\<lparr>ke_events := ys\<rparr>) f k = kernel_turn E f k"
  using next_market_prefix [OF assms]
  by (simp_all add: frontier_def next_expiry_def kernel_turn_def same_events_phases same_events_outbox
      cong: if_cong)

text \<open>The states a run passes through: zero or more turns, each at its frontier.\<close>

inductive turns :: "'s kernel_env \<Rightarrow> ('s, 'h) kernel \<Rightarrow> nat \<Rightarrow> ('s, 'h) kernel \<Rightarrow> bool" for E where
  turns_0: "turns E k 0 k"
| turns_Suc: "turns E k n k1 \<Longrightarrow> frontier E k1 = Some f \<Longrightarrow> kernel_turn E f k1 = Some k2 \<Longrightarrow> turns E k (Suc n) k2"

lemma turns_cursor: "turns E k n k' \<Longrightarrow> kn_cursor k \<le> kn_cursor k'"
  by (induction rule: turns.induct) (auto dest!: kernel_turn_place simp: place_def)

lemma turns_prefix:
  assumes "turns E k n k'" "take p ys = take p (ke_events E)" "p \<le> length ys" "p \<le> length (ke_events E)"
    "kn_cursor k' < p"
  shows "turns (E\<lparr>ke_events := ys\<rparr>) k n k'"
  using assms
proof (induction rule: turns.induct)
  case (turns_Suc k n k1 f k2)
  have c: "kn_cursor k1 < p"
    using kernel_turn_place [OF turns_Suc.hyps(3)] turns_Suc.prems(4) by (simp add: place_def split: if_split_asm)
  then show ?case
    using turns_Suc frontier_prefix [OF turns_Suc.prems(1-3) c]
    by (intro turns.turns_Suc [of _ k n k1 f]) simp_all
qed (rule turns.turns_0)

section \<open>The heaps stay sorted\<close>

definition heaps_ok :: "('s, 'h) kernel \<Rightarrow> bool" where
  "heaps_ok k \<longleftrightarrow> dq_inv (sm_queue (co_sim (kn_core k))) \<and> sorted (hc_heap (kn_clock k))"

lemma on_submit_dq: "dq_inv (sm_queue s) \<Longrightarrow> dq_inv (sm_queue (on_submit B now c o1 s))"
  by (simp add: on_submit_def next_venue_id_def Let_def dq.inv_push split: option.split)

lemma on_cancel_dq: "dq_inv (sm_queue s) \<Longrightarrow> dq_inv (sm_queue (on_cancel B now coid s))"
  by (simp add: on_cancel_def Let_def dq.inv_push)

lemma settle_one_dq:
  assumes "settle_one B now inst x s = Some (kept, s')" "dq_inv (sm_queue s)"
  shows "dq_inv (sm_queue s')"
proof (cases "s' = s")
  case False
  then obtain px q liq t rep s1 where
    "make_fill B (rs_order (fst x)) (rs_venue_order_id (fst x)) px q liq t inst s = Some (rep, s1)"
    "s' = s1\<lparr>sm_queue := dq_push t rep (sm_queue s1)\<rparr>"
    using assms(1) by (auto simp: settle_one_def bind_eq_Some Let_def split: option.splits if_split_asm prod.splits)
  then show ?thesis using assms(2) by (auto dest!: make_fill_queue intro!: dq.inv_push)
qed (use assms in simp)

lemma settle_all_dq:
  "settle_all B now inst xs s = Some (kept, s') \<Longrightarrow> dq_inv (sm_queue s) \<Longrightarrow> dq_inv (sm_queue s')"
proof (induction xs arbitrary: s kept)
  case (Cons x xs)
  then show ?case by (fastforce simp: bind_eq_Some dest: settle_one_dq)
qed simp

lemma on_market_dq:
  assumes "on_market D B now c ev s = Some s'" "dq_inv (sm_queue s)"
  shows "dq_inv (sm_queue s')"
  using assms(1)
proof (cases rule: on_market_cases)
  case (matched inst mv s1 xs kept s2)
  then show ?thesis using assms(2) settle_all_dq [OF matched(6)] by simp
qed (use assms(2) in simp)

lemma pop_due_loop_heap:
  "sorted h \<Longrightarrow> fst (snd (pop_due_loop f h c n)) = filter (\<lambda>x. f < fst x) h"
proof (induction f h c n rule: pop_due_loop.induct)
  case (2 f ts i h c n)
  have "filter (\<lambda>x. f < fst x) h = h" if "f < ts"
    using that "2.prems" by (intro filter_True) (auto simp: less_eq_prod_def)
  then show ?case using 2 by (cases "f < ts"; cases "i \<in> c") (simp_all add: Let_def split_beta del: fun_upd_apply)
qed simp

lemma pop_due_heap:
  "sorted (hc_heap c) \<Longrightarrow> hc_heap (snd (pop_due f c)) = filter (\<lambda>x. f < fst x) (hc_heap c)"
  by (simp add: pop_due_def split_beta pop_due_loop_heap)

lemma exec_submit_sim:
  assumes "exec_submit D B g pf o1 now k = Some (evs, k')"
  shows "co_sim k' = co_sim k \<or> (\<exists>c o2. co_sim k' = on_submit B now c o2 (co_sim k))"
  using assms by (cases rule: exec_submit_cases) (auto dest!: deny_order_eq)

lemma apply_report_sim:
  assumes "apply_report D rep now k = Some (evs, k')"
  shows "co_sim k' = co_sim k"
  using assms
  by (cases rep) (auto simp: apply_report_def apply_fill_report_def fold_position_def bind_eq_Some Let_def
      split: if_split_asm option.split_asm)

interpretation heaps: kernel_invariant E "heaps_ok :: ('s, 'h) kernel \<Rightarrow> bool" for E :: "'s kernel_env"
proof unfold_locales
  fix k :: "('s, 'h) kernel" and h t msg n cv ts sy sg q px o1 now evs co coid rep f p ev k' m
  assume ok: "heaps_ok k"
  then show "heaps_ok (call_strategy E h k)" "heaps_ok (kernel_publish t msg k)" "heaps_ok (log_fill ts sy sg q px k)"
    "heaps_ok (k\<lparr>kn_outbox := []\<rparr>)" "heaps_ok (k\<lparr>kn_cursor := m\<rparr>)" "heaps_ok (k\<lparr>kn_expiry_cursor := m\<rparr>)"
    "heaps_ok (k\<lparr>kn_result := (kn_result k)\<lparr>rr_orders_submitted := n\<rparr>\<rparr>)"
    "heaps_ok (k\<lparr>kn_result := (kn_result k)\<lparr>rr_orders_denied := n\<rparr>\<rparr>)"
    "heaps_ok (k\<lparr>kn_result := (kn_result k)\<lparr>rr_equity_curve := cv\<rparr>\<rparr>)" "heaps_ok (put_position p k)"
    "heaps_ok (k\<lparr>kn_clock := advance_to f (kn_clock k)\<rparr>)"
    by (simp_all add: heaps_ok_def call_strategy_heap)
  show "heaps_ok (k\<lparr>kn_clock := snd (pop_due f (kn_clock k))\<rparr>)"
    using ok by (simp add: heaps_ok_def pop_due_heap sorted_wrt_filter)
  show "heaps_ok (k\<lparr>kn_core := (kn_core k)\<lparr>co_sim := snd (sim_drain_due f (co_sim (kn_core k)))\<rparr>\<rparr>)"
    using ok dq.inv_drain by (simp add: heaps_ok_def sim_drain_due_def split_beta)
  show "heaps_ok (k\<lparr>kn_core := co\<rparr>)"
    if "exec_submit (ke_dec E) (ke_brokerage E) (kn_risk k) (kernel_portfolio E k) o1 now (kn_core k) = Some (evs, co)"
    using ok exec_submit_sim [OF that] by (auto simp: heaps_ok_def on_submit_dq)
  show "heaps_ok (k\<lparr>kn_core := co\<rparr>)"
    if "exec_cancel (ke_dec E) (ke_brokerage E) coid now (kn_core k) = Some (evs, co)"
    using ok that by (auto simp: heaps_ok_def exec_cancel_def bind_eq_Some on_cancel_dq)
  show "heaps_ok (k\<lparr>kn_core := co\<rparr>)" if "apply_report (ke_dec E) rep now (kn_core k) = Some (evs, co)"
    using ok apply_report_sim [OF that] by (simp add: heaps_ok_def)
  show "heaps_ok k'" if "feed_market E ev k = Some k'"
    using ok that by (auto simp: heaps_ok_def feed_market_def bind_eq_Some Let_def split_beta on_market_dq)
qed

section \<open>Strategies that act on market data\<close>

text \<open>
  A market-driven strategy makes its calls in \<open>on_start\<close> and the market handlers only; order
  notifications and timers may change its own state.
\<close>

definition quiet :: "'s handler \<Rightarrow> bool" where
  "quiet h \<longleftrightarrow> (\<forall>x st. fst (h x st) = [])"

definition market_driven :: "'s strategy \<Rightarrow> bool" where
  "market_driven S \<longleftrightarrow> (\<forall>ev. quiet (st_on_order_event S ev)) \<and> (\<forall>f. quiet (st_on_order_filled S f)) \<and>
     (\<forall>t. quiet (st_on_timer S t))"

text \<open>What decides the next frontier.\<close>

definition gears where
  "gears k = (kn_clock k, kn_outbox k, co_sim (kn_core k), kn_cursor k, kn_expiry_cursor k)"

lemma quiet_call: "quiet h \<Longrightarrow> gears (call_strategy E h k) = gears k"
  by (simp add: quiet_def gears_def call_strategy_def kernel_ctx_def split_beta)

lemma gears_simps [simp]:
  "gears (kernel_publish t msg k) = gears k" "gears (count_fill ev k) = gears k" "gears (count_denied ev k) = gears k"
  "gears (log_fill ts sy sg q px k) = gears k" "gears (put_position p k) = gears k"
  "gears (k\<lparr>kn_result := r\<rparr>) = gears k"
  by (simp_all add: gears_def)

lemma quiet_notify: "market_driven (ke_strategy E) \<Longrightarrow> gears (notify_event E ev k) = gears k"
  by (cases ev) (simp_all add: notify_event_def Let_def market_driven_def quiet_call)

lemma quiet_notify_outbox: "market_driven (ke_strategy E) \<Longrightarrow> kn_outbox (notify_event E ev k) = kn_outbox k"
  using quiet_notify [of E ev k] by (simp add: gears_def)

lemma run_command_outbox:
  "market_driven (ke_strategy E) \<Longrightarrow> run_command E now cmd k = Some k' \<Longrightarrow> kn_outbox k' = kn_outbox k"
  by (auto simp: run_command_def bind_eq_Some Let_def fold_notify [where obs = kn_outbox] quiet_notify_outbox
      split: strategy_command.split_asm)

lemma process_outbox_idle:
  "kn_outbox k = [] \<Longrightarrow> process_outbox E k = Some k' \<Longrightarrow> gears k' = gears k"
  by (auto simp: process_outbox_def gears_def)

lemma process_outbox_empties:
  assumes "market_driven (ke_strategy E)" "process_outbox E k = Some k'"
  shows "kn_outbox k' = []"
proof -
  have "kn_outbox k' = []" if "fold_opt (run_command E now) xs (k\<lparr>kn_outbox := []\<rparr>) = Some k'" for now xs
    using that by (rule fold_opt_inv) (simp_all add: run_command_outbox [OF assms(1)])
  then show ?thesis using assms(2) by (auto simp: process_outbox_def Let_def split: if_split_asm)
qed

lemma close_position_idle:
  assumes "market_driven (ke_strategy E)" "kn_outbox k = []" "close_position_at E i px now sfx k = Some k'"
  shows "gears k' = gears k"
proof -
  have "gears k2 = gears k1" if "process_outbox E (notify_event E ev k1) = Some k2" "gears k1 = gears k" for ev k1 k2
  proof -
    have "kn_outbox (notify_event E ev k1) = []"
      using quiet_notify [OF assms(1), of ev k1] that(2) assms(2) by (simp add: gears_def)
    then show ?thesis using process_outbox_idle [OF _ that(1)] quiet_notify [OF assms(1)] by simp
  qed
  then show ?thesis
    using assms(3) by (fastforce simp: close_position_at_def bind_eq_Some Let_def split: option.split_asm)
qed

lemma check_liquidation_idle:
  assumes "market_driven (ke_strategy E)" "kn_outbox k = []" "check_liquidation E now k = Some k'"
  shows "gears k' = gears k"
proof -
  have "gears k' = gears k" if "fold_opt (liquidate_one E now) xs k = Some k'" for xs
    using that
    by (rule fold_opt_inv)
      (use assms(1,2) in \<open>auto simp: liquidate_one_def gears_def dest!: close_position_idle [rotated 2] split: option.split_asm\<close>)
  then show ?thesis using assms(3) by (auto simp: check_liquidation_def bind_eq_Some split: if_split_asm)
qed

lemma fold_report_idle:
  assumes "market_driven (ke_strategy E)" "fold_report E rep k = Some k'"
  shows "gears k' = gears k"
proof -
  obtain evs co where a: "apply_report (ke_dec E) rep (kn_now k) (kn_core k) = Some (evs, co)"
    "k' = fold (\<lambda>ev k. notify_event E ev (count_fill ev k)) evs (k\<lparr>kn_core := co\<rparr>)"
    using assms(2) by (auto simp: fold_report_def bind_eq_Some)
  have "gears k' = gears (k\<lparr>kn_core := co\<rparr>)"
    unfolding a(2) by (rule fold_notify) (simp add: quiet_notify [OF assms(1)])
  then show ?thesis using apply_report_sim [OF a(1)] by (simp add: gears_def)
qed

lemma fire_timer_idle:
  assumes "market_driven (ke_strategy E)" "kn_outbox k = []" "fire_timer E t k = Some k'"
  shows "gears k' = gears k"
proof -
  let ?c = "kernel_publish (TopTimer (ke_strategy_id E)) (MsgTimer t) (call_strategy E (st_on_timer (ke_strategy E) t) k)"
  have c: "gears ?c = gears k" using assms(1) by (simp add: market_driven_def quiet_call)
  then have "kn_outbox ?c = []" using assms(2) by (simp add: gears_def)
  then show ?thesis using assms(3) c process_outbox_idle [of ?c E k'] by (simp add: fire_timer_def)
qed

lemma drain_reports_idle:
  assumes "market_driven (ke_strategy E)" "drain_reports E f k = Some k'"
  shows "gears k' = (kn_clock k, kn_outbox k, snd (sim_drain_due f (co_sim (kn_core k))), kn_cursor k, kn_expiry_cursor k)"
proof -
  let ?k = "k\<lparr>kn_core := (kn_core k)\<lparr>co_sim := snd (sim_drain_due f (co_sim (kn_core k)))\<rparr>\<rparr>"
  have "fold_opt (fold_report E) (fst (sim_drain_due f (co_sim (kn_core k)))) ?k = Some k'"
    using assms(2) by (simp add: drain_reports_def split_beta)
  then have "gears k' = gears ?k" by (rule fold_opt_inv) (simp_all add: fold_report_idle [OF assms(1)])
  then show ?thesis by (simp add: gears_def)
qed

lemma fire_timers_idle:
  assumes "market_driven (ke_strategy E)" "kn_outbox k = []" "fire_timers E f k = Some k'"
  shows "gears k' = (snd (pop_due f (kn_clock k)), [], co_sim (kn_core k), kn_cursor k, kn_expiry_cursor k)"
proof -
  let ?k = "k\<lparr>kn_clock := snd (pop_due f (kn_clock k))\<rparr>"
  have "fold_opt (fire_timer E) (fst (pop_due f (kn_clock k))) ?k = Some k'"
    using assms(3) by (simp add: fire_timers_def split_beta)
  then have "gears k' = gears ?k"
  proof (rule fold_opt_inv)
    fix x k1 k2
    assume k1: "gears k1 = gears ?k" and f: "fire_timer E x k1 = Some k2"
    have "kn_outbox k1 = []" using k1 assms(2) by (simp add: gears_def)
    then show "gears k2 = gears ?k" using fire_timer_idle [OF assms(1) _ f] k1 by simp
  qed simp
  then show ?thesis using assms(2) by (simp add: gears_def)
qed

section \<open>Every turn makes progress\<close>

definition weight :: "'s kernel_env \<Rightarrow> ('s, 'h) kernel \<Rightarrow> nat" where
  "weight E k = (length (ke_events E) - kn_cursor k) + (length (ke_expiries E) - kn_expiry_cursor k)"

definition load :: "('s, 'h) kernel \<Rightarrow> nat" where
  "load k = length (dq_heap (sm_queue (co_sim (kn_core k)))) + length (hc_heap (kn_clock k))"

lemma frontier_least:
  assumes "frontier E k = Some f"
  shows "f \<in> {t. next_market E k = Some t \<or> sim_peek_due (co_sim (kn_core k)) = Some t \<or>
      peek_next_timer (kn_clock k) = Some t \<or> next_expiry E k = Some t}"
    and "next_expiry E k = Some t \<Longrightarrow> f \<le> t" "next_market E k = Some t \<Longrightarrow> f \<le> t"
    "sim_peek_due (co_sim (kn_core k)) = Some t \<Longrightarrow> f \<le> t"
proof -
  let ?xs = "List.map_filter (\<lambda>x. x)
       [next_market E k, sim_peek_due (co_sim (kn_core k)), peek_next_timer (kn_clock k), next_expiry E k]"
  have f: "f = Min (set ?xs)" "?xs \<noteq> []"
    using assms by (simp_all add: frontier_def least_def split: if_split_asm)
  have mem: "x \<in> set ?xs \<longleftrightarrow> next_market E k = Some x \<or> sim_peek_due (co_sim (kn_core k)) = Some x \<or>
      peek_next_timer (kn_clock k) = Some x \<or> next_expiry E k = Some x" for x
    by (auto simp: map_filter_def)
  have "f \<in> set ?xs" using f Min_in [of "set ?xs"] by simp
  then show "f \<in> {t. next_market E k = Some t \<or> sim_peek_due (co_sim (kn_core k)) = Some t \<or>
      peek_next_timer (kn_clock k) = Some t \<or> next_expiry E k = Some t}"
    using mem by simp
  show "next_expiry E k = Some t \<Longrightarrow> f \<le> t" "next_market E k = Some t \<Longrightarrow> f \<le> t"
    "sim_peek_due (co_sim (kn_core k)) = Some t \<Longrightarrow> f \<le> t"
    using f mem [of t] Min_le [of "set ?xs" t] by simp_all
qed

lemma settle_contract_outbox:
  assumes "market_driven (ke_strategy E)" "kn_outbox k = []" "settle_contract E i now k = Some k'"
  shows "kn_outbox k' = []"
proof (cases "cache_instrument (kn_cache k) i")
  case None
  then show ?thesis using assms by (simp add: settle_contract_def)
next
  case (Some inst)
  then obtain k1 where k1: "kn_outbox k1 = []" "fold_opt (cancel_dead E now) (dead_orders E i k1) k1 = Some k'"
    using assms(2,3) close_position_idle [OF assms(1,2)]
    by (fastforce simp: settle_contract_def bind_eq_Some gears_def split: option.split_asm)
  from k1(2,1) show ?thesis
    by (rule fold_opt_inv)
      (auto simp: cancel_dead_def bind_eq_Some fold_notify [where obs = kn_outbox] quiet_notify_outbox [OF assms(1)])
qed

lemma settle_loop_outbox:
  assumes "market_driven (ke_strategy E)"
  shows "settle_loop E f xs k = Some k' \<Longrightarrow> kn_outbox k = [] \<Longrightarrow> kn_outbox k' = []"
proof (induction xs arbitrary: k)
  case (Cons x xs)
  show ?case
  proof (cases "f < fst x")
    case True
    then show ?thesis using Cons.prems by (cases x) simp
  next
    case False
    then obtain k1 where k1: "settle_contract E (snd x) f (k\<lparr>kn_expiry_cursor := Suc (kn_expiry_cursor k)\<rparr>) = Some k1"
      "settle_loop E f xs k1 = Some k'"
      using Cons.prems by (cases x) (auto simp: bind_eq_Some)
    then have "kn_outbox k1 = []" using settle_contract_outbox [OF assms _ k1(1)] Cons.prems(2) by simp
    with k1(2) show ?thesis by (rule Cons.IH)
  qed
qed simp

lemma turn_outbox:
  assumes "market_driven (ke_strategy E)" "kernel_turn E f k = Some k'"
  shows "kn_outbox k' = []"
  using assms(2)
proof (rule kernel_turnE)
  fix k1 k2 k3 k4 k5
  assume s: "drain_reports E f (advance_clock f k) = Some k1" "process_outbox E k1 = Some k2"
    "fire_timers E f k2 = Some k3"
    "(if next_market E k = Some f then market_phase E f (ke_events E ! kn_cursor k) k3 else Some k3) = Some k4"
    "settle_expiries E f k4 = Some k5" "check_liquidation E f k5 = Some k'"
  have k2: "kn_outbox k2 = []" by (rule process_outbox_empties [OF assms(1) s(2)])
  have "kn_outbox k3 = []" using fire_timers_idle [OF assms(1) k2 s(3)] by (simp add: gears_def)
  then have k4: "kn_outbox k4 = []"
    using s(4) process_outbox_empties [OF assms(1)]
    by (cases "ke_events E ! kn_cursor k") (auto simp: market_phase_def bind_eq_Some sample_equity_def split: if_split_asm)
  have "kn_outbox k5 = []" by (rule settle_loop_outbox [OF assms(1) s(5) [unfolded settle_expiries_def] k4])
  then show ?thesis using check_liquidation_idle [OF assms(1) _ s(6)] by (simp add: gears_def)
qed

text \<open>A turn at a time with neither a market event nor an expiry only empties the two heaps.\<close>

lemma turn_idle:
  assumes md: "market_driven (ke_strategy E)" and ok: "heaps_ok k" and ob: "kn_outbox k = []"
    and nm: "next_market E k \<noteq> Some f" and ne: "\<And>t. next_expiry E k = Some t \<Longrightarrow> f < t"
    and t: "kernel_turn E f k = Some k'"
  shows "gears k' = (snd (pop_due f (advance_to f (kn_clock k))), [],
      snd (sim_drain_due f (co_sim (kn_core k))), kn_cursor k, kn_expiry_cursor k)"
  using t
proof (rule kernel_turnE)
  fix k1 k2 k3 k4 k5
  assume s: "drain_reports E f (advance_clock f k) = Some k1" "process_outbox E k1 = Some k2"
    "fire_timers E f k2 = Some k3"
    "(if next_market E k = Some f then market_phase E f (ke_events E ! kn_cursor k) k3 else Some k3) = Some k4"
    "settle_expiries E f k4 = Some k5" "check_liquidation E f k5 = Some k'"
  have k1: "gears k1 = (advance_to f (kn_clock k), [], snd (sim_drain_due f (co_sim (kn_core k))),
      kn_cursor k, kn_expiry_cursor k)"
    using drain_reports_idle [OF md s(1)] ob by (simp add: advance_clock_def)
  then have k2: "gears k2 = gears k1" "kn_outbox k2 = []"
    using process_outbox_idle [OF _ s(2)] by (simp_all add: gears_def)
  have k3: "gears k3 = (snd (pop_due f (advance_to f (kn_clock k))), [],
      snd (sim_drain_due f (co_sim (kn_core k))), kn_cursor k, kn_expiry_cursor k)"
    using fire_timers_idle [OF md k2(2) s(3)] k1 k2(1) by (simp add: gears_def)
  have "k4 = k3" using s(4) nm by simp
  moreover have "k5 = k3"
  proof (cases "drop (kn_expiry_cursor k) (ke_expiries E)")
    case Nil
    then show ?thesis using s(5) k3 \<open>k4 = k3\<close> by (simp add: settle_expiries_def gears_def)
  next
    case (Cons x xs)
    then have "next_expiry E k = Some (fst x)"
      by (metis drop_eq_Nil hd_drop_conv_nth leI list.distinct(1) list.sel(1) next_expiry_def)
    then have "f < fst x" by (rule ne)
    then show ?thesis
      using s(5) k3 \<open>k4 = k3\<close> Cons by (cases x) (simp add: settle_expiries_def gears_def)
  qed
  moreover have "gears k' = gears k5"
    using check_liquidation_idle [OF md _ s(6)] k3 \<open>k5 = k3\<close> by (simp add: gears_def)
  ultimately show ?thesis using k3 by simp
qed

lemma turn_progress:
  assumes md: "market_driven (ke_strategy E)" and ok: "heaps_ok k" and ob: "kn_outbox k = []"
    and f: "frontier E k = Some f" and t: "kernel_turn E f k = Some k'"
  shows "weight E k' < weight E k \<or> weight E k' = weight E k \<and> load k' < load k"
proof (cases "next_market E k = Some f \<or> next_expiry E k = Some f")
  case True
  define n where "n = length (takeWhile (\<lambda>x. fst x \<le> f) (drop (kn_expiry_cursor k) (ke_expiries E)))"
  have pl: "kn_cursor k' = kn_cursor k + (if next_market E k = Some f then 1 else 0)"
    "kn_expiry_cursor k' = kn_expiry_cursor k + n"
    using kernel_turn_place [OF t] by (simp_all add: place_def n_def)
  have "0 < n \<and> kn_expiry_cursor k < length (ke_expiries E)" if "next_expiry E k = Some f"
    using that by (auto simp: n_def next_expiry_def simp flip: Cons_nth_drop_Suc split: if_split_asm)
  moreover have "kn_cursor k < length (ke_events E)" if "next_market E k = Some f"
    using that by (simp add: next_market_def split: if_split_asm)
  ultimately show ?thesis using True pl by (auto simp: weight_def)
next
  case False
  have ne: "f < t" if "next_expiry E k = Some t" for t
    using frontier_least(2) [OF f that] False that by (metis order.not_eq_order_implies_strict)
  have g: "gears k' = (snd (pop_due f (advance_to f (kn_clock k))), [],
      snd (sim_drain_due f (co_sim (kn_core k))), kn_cursor k, kn_expiry_cursor k)"
    using turn_idle [OF md ok ob _ ne t] False by simp
  have q: "dq_heap (sm_queue (co_sim (kn_core k'))) = filter (\<lambda>s. \<not> sd_due s \<le> f) (dq_heap (sm_queue (co_sim (kn_core k))))"
    using g ok by (simp add: gears_def heaps_ok_def sim_drain_due_def drain_heap_eq)
  have c: "hc_heap (kn_clock k') = filter (\<lambda>x. f < fst x) (hc_heap (kn_clock k))"
    using g ok by (simp add: gears_def heaps_ok_def pop_due_heap)
  have "sim_peek_due (co_sim (kn_core k)) = Some f \<or> peek_next_timer (kn_clock k) = Some f"
    using frontier_least(1) [OF f] False by simp
  then have "load k' < load k"
  proof
    assume "sim_peek_due (co_sim (kn_core k)) = Some f"
    then obtain s h where "dq_heap (sm_queue (co_sim (kn_core k))) = s # h" "sd_due s = f"
      by (auto simp: sim_peek_due_def dq_peek_due_def split: list.split_asm)
    then show ?thesis
      by (simp add: load_def q c less_Suc_eq_le add_mono)
  next
    assume p: "peek_next_timer (kn_clock k) = Some f"
    let ?ts = "map fst (filter (\<lambda>x. snd x \<notin> hc_cancelled (kn_clock k)) (hc_heap (kn_clock k)))"
    have "f = Min (set ?ts)" "?ts \<noteq> []"
      using p by (simp_all add: peek_next_timer_def least_def split: if_split_asm)
    then have "f \<in> set ?ts" using Min_in [of "set ?ts"] by (simp only: set_empty finite_set not_False_eq_True)
    then obtain x where "x \<in> set (hc_heap (kn_clock k))" "fst x = f" by auto
    then have "length (filter (\<lambda>x. f < fst x) (hc_heap (kn_clock k))) < length (hc_heap (kn_clock k))"
      by (intro length_filter_less) auto
    then show ?thesis
      by (simp add: load_def q c add_le_less_mono)
  qed
  moreover have "weight E k' = weight E k" using g by (simp add: weight_def gears_def)
  ultimately show ?thesis by simp
qed

lemma loop_finishes:
  assumes "market_driven (ke_strategy E)" "heaps_ok k" "kn_outbox k = []"
  shows "\<exists>n. kernel_loop n E k \<noteq> OutOfFuel"
  using assms(2,3)
proof (induction k rule: wf_induct [OF wf_measures, of "[weight E, load]"])
  case (1 k)
  show ?case
  proof (cases "frontier E k")
    case None
    then show ?thesis by (subst kernel_loop.simps) simp
  next
    case (Some f)
    show ?thesis
    proof (cases "kernel_turn E f k")
      case None
      then have "kernel_loop (Suc 0) E k = Panicked" using Some by (subst kernel_loop.simps) simp
      then show ?thesis by (metis run_outcome.distinct(5))
    next
      case turn: (Some k')
      have "(k', k) \<in> measures [weight E, load]"
        using turn_progress [OF assms(1) "1.prems" Some turn] by auto
      then obtain n where "kernel_loop n E k' \<noteq> OutOfFuel"
        using 1 heaps.inv_turn [OF _ turn] turn_outbox [OF assms(1) turn] by blast
      then have "kernel_loop (Suc n) E k \<noteq> OutOfFuel" using Some turn by (subst kernel_loop.simps) simp
      then show ?thesis ..
    qed
  qed
qed

section \<open>The books of a run\<close>

definition books_ok :: "('s, 'h) kernel \<Rightarrow> bool" where
  "books_ok k \<longleftrightarrow> cache_ok (kn_cache k) \<and>
     rr_fills (kn_result k) = of_nat (length (rr_fills_log (kn_result k)))"

lemma exec_submit_cache_ok:
  assumes "exec_submit D B g pf o1 now k = Some (evs, k')" "cache_ok (co_cache k)"
  shows "cache_ok (co_cache k')"
  using assms(1)
proof (cases rule: exec_submit_cases)
  case (denied rs e)
  then show ?thesis using deny_order_eq [OF denied(1)] assms(2) by (auto simp: cache_ok_add_order)
qed (use assms(2) in \<open>simp_all add: cache_ok_add_order\<close>)

lemma apply_report_cache_ok:
  assumes "apply_report D rep now k = Some (evs, k')" "cache_ok (co_cache k)"
  shows "cache_ok (co_cache k')"
proof (cases rep)
  case (RepFill f)
  have "cache_ok c" if "fill_order D f (co_cache k) = Some (x, c)" for x c
    using that assms(2) by (auto simp: fill_order_def bind_eq_Some split: option.split_asm intro: apply_tracked_ok)
  then show ?thesis
    using assms RepFill
    by (auto simp: apply_report_def apply_fill_report_def bind_eq_Some Let_def fold_position_def
        split: if_split_asm option.split_asm intro!: cache_ok_upsert)
qed (use assms in \<open>auto simp: apply_report_def bind_eq_Some intro: apply_tracked_ok\<close>)

interpretation books: kernel_invariant E "books_ok :: ('s, 'h) kernel \<Rightarrow> bool" for E :: "'s kernel_env"
proof unfold_locales
  fix k :: "('s, 'h) kernel" and h t msg n cv ts sy sg q px o1 now evs co coid rep f p ev k' m
  assume ok: "books_ok k"
  then show "books_ok (call_strategy E h k)" "books_ok (kernel_publish t msg k)" "books_ok (log_fill ts sy sg q px k)"
    "books_ok (k\<lparr>kn_outbox := []\<rparr>)" "books_ok (k\<lparr>kn_cursor := m\<rparr>)" "books_ok (k\<lparr>kn_expiry_cursor := m\<rparr>)"
    "books_ok (k\<lparr>kn_result := (kn_result k)\<lparr>rr_orders_submitted := n\<rparr>\<rparr>)"
    "books_ok (k\<lparr>kn_result := (kn_result k)\<lparr>rr_orders_denied := n\<rparr>\<rparr>)"
    "books_ok (k\<lparr>kn_result := (kn_result k)\<lparr>rr_equity_curve := cv\<rparr>\<rparr>)" "books_ok (put_position p k)"
    "books_ok (k\<lparr>kn_clock := advance_to f (kn_clock k)\<rparr>)" "books_ok (k\<lparr>kn_clock := snd (pop_due f (kn_clock k))\<rparr>)"
    "books_ok (k\<lparr>kn_core := (kn_core k)\<lparr>co_sim := snd (sim_drain_due f (co_sim (kn_core k)))\<rparr>\<rparr>)"
    by (simp_all add: books_ok_def log_fill_def cache_ok_upsert)
  show "books_ok (k\<lparr>kn_core := co\<rparr>)"
    if "exec_submit (ke_dec E) (ke_brokerage E) (kn_risk k) (kernel_portfolio E k) o1 now (kn_core k) = Some (evs, co)"
    using ok exec_submit_cache_ok [OF that] by (simp add: books_ok_def)
  show "books_ok (k\<lparr>kn_core := co\<rparr>)"
    if "exec_cancel (ke_dec E) (ke_brokerage E) coid now (kn_core k) = Some (evs, co)"
    using ok that by (auto simp: books_ok_def exec_cancel_def bind_eq_Some intro: apply_tracked_ok)
  show "books_ok (k\<lparr>kn_core := co\<rparr>)" if "apply_report (ke_dec E) rep now (kn_core k) = Some (evs, co)"
    using ok apply_report_cache_ok [OF that] by (simp add: books_ok_def)
  show "books_ok k'" if "feed_market E ev k = Some k'"
    using ok that
    by (auto simp: books_ok_def feed_market_def bind_eq_Some Let_def split_beta data_process_def refresh_cache_ok)
qed

section \<open>Closing positions\<close>

text \<open>A position that accepts the synthetic fill which closes it.\<close>

definition closable ::
  "'s kernel_env \<Rightarrow> unix_nanos \<Rightarrow> string \<Rightarrow> price \<Rightarrow> ('s, 'h) kernel \<Rightarrow> instrument_id \<Rightarrow> bool" where
  "closable E now sfx px k i \<longleftrightarrow>
     (\<exists>inst p. cache_instrument (kn_cache k) i = Some inst \<and> cache_position (kn_cache k) i = Some p \<and> position_ok p \<and>
        (\<forall>f. closing_fill i px now sfx inst p = Some f \<longrightarrow>
           (\<exists>p1. position_apply_fill (ke_dec E) f inst p = Some (Ok (), p1))))"

definition flat_in :: "('s, 'h) kernel \<Rightarrow> instrument_id \<Rightarrow> bool" where
  "flat_in k i \<longleftrightarrow> (\<exists>p. cache_position (kn_cache k) i = Some p \<and> ps_side p = Flat)"

lemma closing_fill_eq:
  "closing_fill i px now sfx inst p = Some f \<Longrightarrow>
     f_last_qty f = ps_quantity p \<and> f_instrument_id f = i \<and>
     side_sign (f_side f) * q_raw (ps_quantity p) = - signed_raw p \<and> ps_side p \<noteq> Flat"
  by (auto simp: closing_fill_def Let_def signed_raw_def split: position_side.split_asm)

lemma closing_fill_None: "closing_fill i px now sfx inst p = None \<longleftrightarrow> ps_side p = Flat"
  by (auto simp: closing_fill_def Let_def split: position_side.split)

lemma desk_caches:
  "desk k' = desk k \<Longrightarrow> cache_position (kn_cache k') = cache_position (kn_cache k) \<and>
     cache_instrument (kn_cache k') = cache_instrument (kn_cache k) \<and> cache_mark (kn_cache k') = cache_mark (kn_cache k)"
  by (simp add: desk_def fun_eq_iff cache_position_def cache_instrument_def cache_mark_def)

lemma cache_mark_upsert [simp]: "cache_mark (upsert_position p c) = cache_mark c"
  by (simp add: fun_eq_iff cache_mark_def upsert_position_def)

lemma close_position_cases:
  assumes "close_position_at E i px now sfx k = Some k'"
  obtains (kept) "k' = k" "\<And>inst p. cache_instrument (kn_cache k) i = Some inst \<Longrightarrow>
      cache_position (kn_cache k) i = Some p \<Longrightarrow> ps_side p = Flat"
  | (closed) inst p f r p1 where "cache_instrument (kn_cache k) i = Some inst" "cache_position (kn_cache k) i = Some p"
      "closing_fill i px now sfx inst p = Some f" "position_apply_fill (ke_dec E) f inst p = Some (r, p1)"
      "cache_position (kn_cache k') = cache_position (upsert_position p1 (kn_cache k))"
      "cache_instrument (kn_cache k') = cache_instrument (kn_cache k)" "cache_mark (kn_cache k') = cache_mark (kn_cache k)"
proof (cases "\<exists>inst p f. cache_instrument (kn_cache k) i = Some inst \<and> cache_position (kn_cache k) i = Some p \<and>
    closing_fill i px now sfx inst p = Some f")
  case True
  then obtain inst p f where c: "cache_instrument (kn_cache k) i = Some inst" "cache_position (kn_cache k) i = Some p"
    "closing_fill i px now sfx inst p = Some f" by auto
  then obtain r p1 where ap: "position_apply_fill (ke_dec E) f inst p = Some (r, p1)"
    and out: "process_outbox E (notify_event E (EvFilled f) (log_fill now (ii_symbol i) (side_sign (f_side f))
        (ps_quantity p) px (put_position p1 k))) = Some k'"
    using assms by (auto simp: close_position_at_def bind_eq_Some Let_def)
  show thesis
    using closed [OF c ap] desk_caches [OF process_outbox_desk [OF out]] by simp
next
  case False
  then have "k' = k" using assms by (fastforce simp: close_position_at_def split: option.split_asm)
  moreover have "ps_side p = Flat"
    if "cache_instrument (kn_cache k) i = Some inst" "cache_position (kn_cache k) i = Some p" for inst p
    using False that closing_fill_None [of i px now sfx inst p] by (metis not_None_eq)
  ultimately show thesis by (rule kept)
qed

lemma close_position_frame:
  assumes "close_position_at E i px now sfx k = Some k'" "cache_ok (kn_cache k)"
  shows "cache_instrument (kn_cache k') = cache_instrument (kn_cache k) \<and>
    cache_mark (kn_cache k') = cache_mark (kn_cache k) \<and>
    (\<forall>j. j \<noteq> i \<longrightarrow> cache_position (kn_cache k') j = cache_position (kn_cache k) j)"
  using assms(1)
proof (cases rule: close_position_cases)
  case (closed inst p f r p1)
  have "ps_instrument_id p1 = i"
    using position_apply_fill_id [OF closed(4)] cache_position_key [OF assms(2) closed(2)] by simp
  then show ?thesis using closed by simp
qed simp

lemma close_position_flat:
  assumes "decimal_lib (ke_dec E)" "close_position_at E i px now sfx k = Some k'" "cache_ok (kn_cache k)"
    "closable E now sfx px k i"
  shows "flat_in k' i"
proof -
  obtain inst p where p: "cache_instrument (kn_cache k) i = Some inst" "cache_position (kn_cache k) i = Some p" "position_ok p"
    and ok: "\<And>f. closing_fill i px now sfx inst p = Some f \<Longrightarrow>
      \<exists>p1. position_apply_fill (ke_dec E) f inst p = Some (Ok (), p1)"
    using assms(4) by (auto simp: closable_def)
  from assms(2) show ?thesis
  proof (cases rule: close_position_cases)
    case kept
    then show ?thesis using p by (auto simp: flat_in_def)
  next
    case (closed inst' p' f r p1)
    then have same: "inst' = inst" "p' = p" using p by simp_all
    then have r: "position_apply_fill (ke_dec E) f inst p = Some (Ok (), p1)"
      using ok [of f] closed(3,4) by auto
    note cf = closing_fill_eq [OF closed(3) [unfolded same]]
    have "signed_raw p1 = 0 \<and> position_ok p1"
      using decimal_lib.apply_fill_size [OF assms(1) p(3) _ _ r] cf p(3) by (simp add: position_ok_def)
    then have "ps_side p1 = Flat" using signed_raw_zero_iff by blast
    moreover have "ps_instrument_id p1 = i"
      using position_apply_fill_id [OF r] cache_position_key [OF assms(3) p(2)] by simp
    ultimately show ?thesis using closed(5) by (simp add: flat_in_def)
  qed
qed

end
