(* ===== verification/Live_Props.thy ===== *)
theory Live_Props
  imports Clients Kernel_Props
begin

text \<open>
  The properties of the live kernel. What a strategy can touch is framed off first; the locale
  \<open>live_invariant\<close> then carries a predicate on cache, engine, risk gate and clients through every
  step of a session, whatever the strategy, the venue and the feed do.
\<close>

declare live_loop.simps [simp del]

section \<open>Frames\<close>

lemma timed_calls_cache [simp]: "sx_cache (fst (fold (timed_call rd) cs y)) = sx_cache (fst y)"
  by (induction cs arbitrary: y) (simp_all add: timed_call_def split_beta)

lemma live_call_frame [simp]:
  "lv_cache (live_call E h k) = lv_cache k" "lv_exec (live_call E h k) = lv_exec k"
  "lv_risk (live_call E h k) = lv_risk k" "lv_exec_client (live_call E h k) = lv_exec_client k"
  "lv_data_client (live_call E h k) = lv_data_client k" "lv_stop (live_call E h k) = lv_stop k"
  by (simp_all add: live_call_def now_ns_def Let_def split_beta)

lemma live_notify_frame [simp]:
  "lv_cache (live_notify E ev k) = lv_cache k" "lv_exec (live_notify E ev k) = lv_exec k"
  "lv_risk (live_notify E ev k) = lv_risk k" "lv_exec_client (live_notify E ev k) = lv_exec_client k"
  "lv_data_client (live_notify E ev k) = lv_data_client k" "lv_stop (live_notify E ev k) = lv_stop k"
  by (cases ev; simp add: live_notify_def Let_def)+

lemma live_notifies_frame [simp]:
  "lv_cache (fold (live_notify E) evs k) = lv_cache k" "lv_exec (fold (live_notify E) evs k) = lv_exec k"
  "lv_risk (fold (live_notify E) evs k) = lv_risk k"
  "lv_exec_client (fold (live_notify E) evs k) = lv_exec_client k"
  "lv_data_client (fold (live_notify E) evs k) = lv_data_client k"
  "lv_stop (fold (live_notify E) evs k) = lv_stop k"
  by (induction evs arbitrary: k; simp)+

lemma live_dispatch_frame [simp]:
  "lv_cache (live_dispatch E ev k) = lv_cache k" "lv_exec (live_dispatch E ev k) = lv_exec k"
  "lv_risk (live_dispatch E ev k) = lv_risk k" "lv_exec_client (live_dispatch E ev k) = lv_exec_client k"
  "lv_data_client (live_dispatch E ev k) = lv_data_client k" "lv_stop (live_dispatch E ev k) = lv_stop k"
  by (cases ev; simp add: live_dispatch_def split: option.split)+

lemma now_ns_frame [simp]:
  "lv_cache (snd (now_ns E k)) = lv_cache k" "lv_exec (snd (now_ns E k)) = lv_exec k"
  "lv_risk (snd (now_ns E k)) = lv_risk k" "lv_exec_client (snd (now_ns E k)) = lv_exec_client k"
  "lv_data_client (snd (now_ns E k)) = lv_data_client k" "lv_stop (snd (now_ns E k)) = lv_stop k"
  "lv_outbox (snd (now_ns E k)) = lv_outbox k"
  by (simp_all add: now_ns_def)

section \<open>Predicates on results\<close>

fun lres_all :: "('k \<Rightarrow> bool) \<Rightarrow> 'k lres \<Rightarrow> bool" where
  "lres_all P (LOk k) = P k"
| "lres_all P (LErr e k) = P k"
| "lres_all P LPanic = True"
| "lres_all P LBlock = True"

lemma lres_all_bind: "lres_all P r \<Longrightarrow> (\<And>k. P k \<Longrightarrow> lres_all P (f k)) \<Longrightarrow> lres_all P (lbind r f)"
  by (cases r) simp_all

lemma lres_all_fold: "P k \<Longrightarrow> (\<And>x k. P k \<Longrightarrow> lres_all P (f x k)) \<Longrightarrow> lres_all P (lfold f xs k)"
  by (induction xs arbitrary: k) (simp_all add: lres_all_bind)

lemma lres_all_lift: "(\<And>k. r = Some k \<Longrightarrow> P k) \<Longrightarrow> lres_all P (lift_panic r)"
  by (cases r) simp_all

lemma lres_all_exec:
  "lres_all (\<lambda>x. P (k\<lparr>lv_exec_client := x\<rparr>)) (f (lv_exec_client k)) \<Longrightarrow> lres_all P (on_exec f k)"
  by (cases "f (lv_exec_client k)") (simp_all add: on_exec_def)

lemma lres_all_data:
  "lres_all (\<lambda>d. P (k\<lparr>lv_data_client := d\<rparr>)) (f (lv_data_client k)) \<Longrightarrow> lres_all P (on_data f k)"
  by (cases "f (lv_data_client k)") (simp_all add: on_data_def)

section \<open>Invariants of a session\<close>

locale live_invariant =
  fixes E :: "('s, 'x, 'd) live_env"
    and J :: "cache \<Rightarrow> exec_state \<Rightarrow> risk_gate \<Rightarrow> 'x \<Rightarrow> 'd \<Rightarrow> bool"
  assumes data_calls:
      "J c e g x d \<Longrightarrow> lres_all (J c e g x) (dc_connect (le_data E) d)"
      "J c e g x d \<Longrightarrow> lres_all (J c e g x) (dc_disconnect (le_data E) d)"
      "J c e g x d \<Longrightarrow> dc_take_stream (le_data E) d = Some d' \<Longrightarrow> J c e g x d'"
      "J c e g x d \<Longrightarrow> J c e g x (snd (dc_recv (le_data E) d))"
    and exec_calls:
      "J c e g x d \<Longrightarrow> lres_all (\<lambda>x. J c e g x d) (ec_connect (le_exec E) x)"
      "J c e g x d \<Longrightarrow> lres_all (\<lambda>x. J c e g x d) (ec_disconnect (le_exec E) x)"
      "J c e g x d \<Longrightarrow> ec_take_reports (le_exec E) x = Some x' \<Longrightarrow> J c e g x' d"
      "J c e g x d \<Longrightarrow> J c e g (snd (ec_recv (le_exec E) x)) d"
      "J c e g x d \<Longrightarrow> lres_all (\<lambda>x. J c e g x d) (ec_cancel_order (le_exec E) coid i x)"
      "J c e g x d \<Longrightarrow> J c e g (snd (ec_reconcile (le_exec E) x)) d"
    and market: "J c e g x d \<Longrightarrow> J (refresh_cache mev c) e g x d"
    and tracked: "J c e g x d \<Longrightarrow> apply_tracked (le_dec E) coid ev c = Some (evs, c') \<Longrightarrow> J c' e g x d"
    and report: "J (co_cache co) (co_exec co) g x d \<Longrightarrow> apply_report (le_dec E) rep now co = Some (evs, co') \<Longrightarrow>
        J (co_cache co') (co_exec co') g x d"
    and denied: "J c e g x d \<Longrightarrow> cache_order c (o_client_order_id o') = None \<Longrightarrow>
        order_apply (le_dec E) (EvDenied rs now) o' = Some (r, o1) \<Longrightarrow> J (add_order o1 c) e g x d"
    and submitted: "J c e g x d \<Longrightarrow> cache_order c (o_client_order_id o') = None \<Longrightarrow>
        cache_instrument c (o_instrument_id o') = Some inst \<Longrightarrow>
        risk_check (le_dec E) c g o' (portfolio_state (le_iter_positions E) (le_dec E) c (le_settle E)) inst =
          Some RiskApproved \<Longrightarrow>
        order_apply (le_dec E) (EvSubmitted now) o' = Some (r, o1) \<Longrightarrow>
        lres_all (\<lambda>x. J (add_order o1 c) e g x d) (ec_submit_order (le_exec E) o1 x)"
begin

definition I :: "('s, 'h, 'x, 'd) live \<Rightarrow> bool" where
  "I k = J (lv_cache k) (lv_exec k) (lv_risk k) (lv_exec_client k) (lv_data_client k)"

lemma I_own:
  assumes "I k" "lv_cache k' = lv_cache k" "lv_exec k' = lv_exec k" "lv_risk k' = lv_risk k"
    "lv_exec_client k' = lv_exec_client k" "lv_data_client k' = lv_data_client k"
  shows "I k'"
  using assms by (simp add: I_def)

lemma submit_I: "I k \<Longrightarrow> lres_all I (live_submit E now o' k)"
  using submitted [of "lv_cache k" "lv_exec k" "lv_risk k" "lv_exec_client k" "lv_data_client k" o' _ now]
    denied [of "lv_cache k" "lv_exec k" "lv_risk k" "lv_exec_client k" "lv_data_client k" o' _ now]
  by (fastforce simp: live_submit_def I_def live_portfolio_def track_order_def Let_def
      intro!: lres_all_exec split: option.split risk_decision.split)

lemma cancel_I: "I k \<Longrightarrow> lres_all I (live_cancel E now coid k)"
  using tracked [of "lv_cache k" "lv_exec k" "lv_risk k" "lv_exec_client k" "lv_data_client k"] exec_calls(5)
  by (fastforce simp: live_cancel_def I_def intro!: lres_all_exec split: option.split)

lemma command_I: "I k \<Longrightarrow> lres_all I (route_command E now cmd k)"
  by (cases cmd) (simp_all add: route_command_def submit_I cancel_I)

lemma outbox_I: "I k \<Longrightarrow> lres_all I (route_outbox E k)"
  by (simp add: route_outbox_def Let_def split_beta, intro conjI impI lres_all_fold command_I)
    (auto elim!: I_own)

lemma emit_I: "I k \<Longrightarrow> lres_all I (emit_portfolio E k)"
  by (auto simp: emit_portfolio_def I_def Let_def split: option.split)

lemma fold_report_I: "I k \<Longrightarrow> lres_all I (live_fold_report E now rep k)"
  using report [of "\<lparr>co_cache = lv_cache k, co_exec = lv_exec k, co_sim = sim_new\<rparr>" "lv_risk k"
      "lv_exec_client k" "lv_data_client k" rep now]
  by (auto simp: live_fold_report_def I_def split: option.split)

lemma on_report_I: "I k \<Longrightarrow> lres_all I (on_report E rep k)"
  by (simp add: on_report_def Let_def split_beta)
    (intro lres_all_bind fold_report_I outbox_I emit_I, auto elim!: I_own)

lemma on_market_I: "I k \<Longrightarrow> lres_all I (on_market_event E ev k)"
  by (simp add: on_market_event_def data_process_def Let_def split_beta,
      intro lres_all_bind outbox_I emit_I) (simp_all add: I_def market)

lemma client_I:
  assumes "I k"
  shows "lres_all I (on_data (dc_connect (le_data E)) k)" "lres_all I (on_exec (ec_connect (le_exec E)) k)"
    "lres_all I (on_data (\<lambda>d. lift_panic (dc_take_stream (le_data E) d)) k)"
    "lres_all I (on_exec (\<lambda>x. lift_panic (ec_take_reports (le_exec E) x)) k)"
    "lres_all I (on_data (dc_disconnect (le_data E)) k)" "lres_all I (on_exec (ec_disconnect (le_exec E)) k)"
  by (rule lres_all_data, use assms in \<open>simp add: I_def data_calls(1)\<close>)
    (rule lres_all_exec, use assms in \<open>simp add: I_def exec_calls(1)\<close>,
     rule lres_all_data, rule lres_all_lift, use assms in \<open>simp add: I_def\<close>, erule (1) data_calls(3),
     rule lres_all_exec, rule lres_all_lift, use assms in \<open>simp add: I_def\<close>, erule (1) exec_calls(3),
     rule lres_all_data, use assms in \<open>simp add: I_def data_calls(2)\<close>,
     rule lres_all_exec, use assms in \<open>simp add: I_def exec_calls(2)\<close>)

lemma start_connected_I:
  assumes "lres_all I (on_data (dc_connect (le_data E)) k)"
  shows "lres_all I (live_start E k)"
proof -
  have call: "I k \<Longrightarrow> lres_all I (route_outbox E (live_call E h k))" for h and k :: "('s, 'h, 'x, 'd) live"
    by (rule outbox_I) (simp add: I_def)
  have loop: "I k \<Longrightarrow> lres_all I (lfold (\<lambda>rep k. lbind (live_fold_report E now rep k) (emit_portfolio E)) reps k)"
    for now reps and k :: "('s, 'h, 'x, 'd) live"
    by (intro lres_all_fold lres_all_bind fold_report_I emit_I)
  have body: "I k \<Longrightarrow> lres_all I (let (now, k) = now_ns E k
       in case ec_reconcile (le_exec E) (lv_exec_client k) of
            (Inl e, x) \<Rightarrow> LErr e (k\<lparr>lv_exec_client := x\<rparr>)
          | (Inr reports, x) \<Rightarrow>
              lbind (lfold (\<lambda>rep k. lbind (live_fold_report E now rep k) (emit_portfolio E)) reports (k\<lparr>lv_exec_client := x\<rparr>))
                (\<lambda>k. route_outbox E (live_call E (st_on_start (le_strategy E)) k)))"
    for k :: "('s, 'h, 'x, 'd) live"
  proof -
    assume k: "I k"
    obtain r x where x: "ec_reconcile (le_exec E) (lv_exec_client k) = (r, x)" by (rule prod.exhaust)
    then have "I ((snd (now_ns E k))\<lparr>lv_exec_client := x\<rparr>)" using exec_calls(6) [of _ _ _ "lv_exec_client k"] k by (fastforce simp: I_def)
    then show ?thesis using x by (cases r) (auto simp: split_beta intro!: lres_all_bind call loop)
  qed
  show ?thesis
    unfolding live_start_def by (intro lres_all_bind [OF assms] lres_all_bind client_I body)
qed

lemma start_I: "I k \<Longrightarrow> lres_all I (live_start E k)"
  by (rule start_connected_I, rule client_I)

lemma round_I:
  assumes "I k" "select_round E k = Turn r"
  shows "lres_all I r"
proof (cases "\<exists>rep x. ec_recv (le_exec E) (lv_exec_client k) = (Got rep, x)")
  case True
  then obtain rep x where x: "ec_recv (le_exec E) (lv_exec_client k) = (Got rep, x)" by blast
  then have "I (k\<lparr>lv_exec_client := x\<rparr>)" using assms(1) exec_calls(4) by (fastforce simp: I_def)
  then show ?thesis using x assms(2) by (auto simp: select_round_def on_report_I split: if_split_asm)
next
  case False
  then obtain ev d where d: "dc_recv (le_data E) (lv_data_client k) = (Got ev, d)"
      "r = on_market_event E ev (k\<lparr>lv_data_client := d\<rparr>)"
    using assms(2) by (auto simp: select_round_def split: if_split_asm prod.split_asm recv.split_asm)
  then have "I (k\<lparr>lv_data_client := d\<rparr>)" using assms(1) data_calls(4) by (fastforce simp: I_def)
  then show ?thesis using d(2) by (simp add: on_market_I)
qed

lemma finish_I: "I k \<Longrightarrow> lres_all I (live_finish E k)"
  unfolding live_finish_def
  by (intro lres_all_bind client_I outbox_I) (simp_all add: I_def)

lemma loop_I: "I k \<Longrightarrow> live_loop n E k = Ended r \<Longrightarrow> lres_all I r"
proof (induction n arbitrary: k)
  case 0
  then show ?case by (auto simp: live_loop.simps [of 0] finish_I split: round.split_asm)
next
  case (Suc n)
  show ?case
  proof (cases "select_round E k")
    case (Turn q)
    note q = round_I [OF Suc.prems(1) Turn]
    then show ?thesis
      using Suc.IH Suc.prems(2) Turn by (cases q) (auto simp: live_loop.simps [of "Suc n"])
  qed (use Suc.prems in \<open>auto simp: live_loop.simps [of "Suc n"] finish_I\<close>)
qed

lemma run_I:
  assumes "lres_all I (on_data (dc_connect (le_data E)) k)" "live_run n E k = Ended r"
  shows "lres_all I r"
  using start_connected_I [OF assms(1)] assms(2) loop_I
  by (cases "live_start E k") (auto simp: live_run_def)

lemma steps_I:
  assumes "live_steps E V F k k'" "I k"
    and "\<And>c e g x x' d. J c e g x d \<Longrightarrow> V x x' \<Longrightarrow> J c e g x' d"
    and "\<And>c e g x d d'. J c e g x d \<Longrightarrow> F d d' \<Longrightarrow> J c e g x d'"
  shows "I k'"
  using assms(1,2)
proof (induction rule: live_steps.induct)
  case (steps_turn k k' k'')
  then show ?case using round_I [of k' "LOk k''"] by simp
next
  case (steps_venue k k' x)
  then show ?case using assms(3) by (fastforce simp: I_def)
next
  case (steps_feed k k' d)
  then show ?case using assms(4) by (fastforce simp: I_def)
qed (simp_all add: I_def request_stop_def)

end

end
