(* ===== verification/Backtest.thy ===== *)
theory Backtest
  imports Kernel_Props
begin

text \<open>
  The properties of backtest runs: order of time, independence of future data, termination,
  settlement and liquidation, the books, the kill switch.
\<close>

section \<open>Helper facts\<close>

lemma kernel_loop_unfold:
  "kernel_loop 0 E k = (case frontier E k of None \<Rightarrow> Finished k | Some f \<Rightarrow> OutOfFuel)"
  "kernel_loop (Suc n) E k = (case frontier E k of None \<Rightarrow> Finished k
     | Some f \<Rightarrow> (case kernel_turn E f k of None \<Rightarrow> Panicked | Some k' \<Rightarrow> kernel_loop n E k'))"
  by (simp_all add: kernel_loop.simps [of 0] kernel_loop.simps [of "Suc n"] split: option.split)

lemma loop_fuel: "kernel_loop n E k = r \<Longrightarrow> r \<noteq> OutOfFuel \<Longrightarrow> kernel_loop (n + m) E k = r"
proof (induction n arbitrary: k)
  case 0
  then have "frontier E k = None" "r = Finished k" by (auto simp: kernel_loop_unfold split: option.split_asm)
  then show ?case by (cases m) (simp_all add: kernel_loop_unfold)
next
  case (Suc n)
  then show ?case by (auto simp: kernel_loop_unfold split: option.split)
qed

lemma cancel_dead_desk:
  "cancel_dead E now c k = Some k' \<Longrightarrow> desk k' = desk k"
  by (auto simp: cancel_dead_def bind_eq_Some fold_notify [where obs = desk])
    (auto simp: desk_def exec_cancel_frame)

lemma seed_cache_ok: "cache_ok (seed_cache acc cfg)"
proof -
  have "cache_ok (fold add_instrument xs c)" if "cache_ok c" for xs c
    using that by (induction xs arbitrary: c) (simp_all add: cache_ok_marks)
  then show ?thesis by (simp add: seed_cache_def cache_ok_marks cache_ok_new)
qed

lemma build_ok: "books_ok (build_kernel cfg sid st)" "heaps_ok (build_kernel cfg sid st)"
  by (simp_all add: books_ok_def heaps_ok_def build_kernel_def seed_cache_ok sim_new_def dq_new_def dq_inv_def
      hclock_new_def)

lemma turns_invariant:
  assumes "kernel_invariant E P" "turns E k n k'" "P k"
  shows "P k'"
  using assms(2,1,3) by (induction rule: turns.induct) (auto dest: kernel_invariant.inv_turn)

lemma liquidate_one_frame:
  assumes "liquidate_one E now i k = Some k'" "cache_ok (kn_cache k)"
  shows "cache_instrument (kn_cache k') = cache_instrument (kn_cache k) \<and>
    cache_mark (kn_cache k') = cache_mark (kn_cache k) \<and>
    (\<forall>j. j \<noteq> i \<longrightarrow> cache_position (kn_cache k') j = cache_position (kn_cache k) j)"
proof (cases "cache_mark (kn_cache k) i")
  case None
  then show ?thesis using assms(1) by (simp add: liquidate_one_def)
next
  case (Some px)
  then have "close_position_at E i px now ''LIQ'' k = Some k'" using assms(1) by (simp add: liquidate_one_def)
  then show ?thesis by (rule close_position_frame [OF _ assms(2)])
qed

lemma liquidate_one_ok:
  "liquidate_one E now i k = Some k' \<Longrightarrow> books_ok k \<Longrightarrow> books_ok k'"
  using books.inv_close by (auto simp: liquidate_one_def split: option.split_asm)

text \<open>An instrument is due for closing, or closed already.\<close>

definition winding_down :: "'s kernel_env \<Rightarrow> unix_nanos \<Rightarrow> price \<Rightarrow> instrument_id \<Rightarrow> ('s, 'h) kernel \<Rightarrow> bool" where
  "winding_down E now px i k \<longleftrightarrow> books_ok k \<and> cache_mark (kn_cache k) i = Some px \<and>
     closable E now ''LIQ'' px k i"

lemma closable_cong:
  assumes "cache_instrument (kn_cache k') i = cache_instrument (kn_cache k) i"
    "cache_position (kn_cache k') i = cache_position (kn_cache k) i"
  shows "closable E now sfx px k' i = closable E now sfx px k i"
  using assms by (simp add: closable_def)

lemma liquidate_step:
  assumes "decimal_lib (ke_dec E)" "liquidate_one E now j k = Some k'" "winding_down E now px i k"
  shows "(j \<noteq> i \<longrightarrow> winding_down E now px i k') \<and> (j = i \<longrightarrow> flat_in k' i \<and> books_ok k')"
proof -
  have ok: "cache_ok (kn_cache k)" "books_ok k'"
    using assms(3) liquidate_one_ok [OF assms(2)] by (auto simp: winding_down_def books_ok_def)
  have "flat_in k' i" if "j = i"
    using that assms close_position_flat [OF assms(1) _ ok(1)]
    by (auto simp: liquidate_one_def winding_down_def)
  moreover have "winding_down E now px i k'" if "j \<noteq> i"
    using that assms(3) ok(2) liquidate_one_frame [OF assms(2) ok(1)] closable_cong [of k' i k]
    by (simp add: winding_down_def)
  ultimately show ?thesis using ok(2) by simp
qed

lemma flat_stays:
  assumes "liquidate_one E now j k = Some k'" "flat_in k i" "books_ok k"
  shows "flat_in k' i \<and> books_ok k'"
proof -
  have ok: "cache_ok (kn_cache k)" using assms(3) by (simp add: books_ok_def)
  have "flat_in k' i" if "j \<noteq> i"
    using that assms(2) liquidate_one_frame [OF assms(1) ok] by (simp add: flat_in_def)
  moreover have "flat_in k' i" if j: "j = i"
  proof (cases "cache_mark (kn_cache k) i")
    case None
    then show ?thesis using assms(1,2) j by (simp add: liquidate_one_def)
  next
    case (Some px)
    then have c: "close_position_at E i px now ''LIQ'' k = Some k'" using assms(1) j by (simp add: liquidate_one_def)
    from c show ?thesis
    proof (cases rule: close_position_cases)
      case (closed inst p f r p1)
      then have False using assms(2) closing_fill_eq [OF closed(3)] by (simp add: flat_in_def)
      then show ?thesis ..
    qed (use assms(2) in simp)
  qed
  ultimately show ?thesis using liquidate_one_ok [OF assms(1,3)] by blast
qed

lemma liquidate_all:
  assumes "decimal_lib (ke_dec E)"
  shows "fold_opt (liquidate_one E now) xs k = Some k' \<Longrightarrow> winding_down E now px i k \<Longrightarrow> i \<in> set xs \<Longrightarrow> flat_in k' i"
proof (induction xs arbitrary: k)
  case (Cons x xs)
  then obtain k1 where k1: "liquidate_one E now x k = Some k1" "fold_opt (liquidate_one E now) xs k1 = Some k'"
    by (auto simp: bind_eq_Some)
  show ?case
  proof (cases "x = i")
    case True
    then have "flat_in k1 i \<and> books_ok k1" using liquidate_step [OF assms k1(1) Cons.prems(2)] by simp
    with k1(2) have "flat_in k' i \<and> books_ok k'" by (rule fold_opt_inv) (auto dest: flat_stays)
    then show ?thesis ..
  next
    case False
    then show ?thesis using Cons liquidate_step [OF assms k1(1) Cons.prems(2)] k1(2) by simp
  qed
qed simp

section \<open>The venue under the kill switch\<close>

definition resting_ids :: "sim_state \<Rightarrow> client_order_id set" where
  "resting_ids s = (\<lambda>r. o_client_order_id (rs_order r)) ` set (sm_resting s)"

lemma remove_first_sub: "set (remove_first p xs) \<subseteq> set xs"
  by (induction xs) auto

lemma on_cancel_ids: "resting_ids (on_cancel B now coid s) \<subseteq> resting_ids s"
  using remove_first_sub [of "\<lambda>r. o_client_order_id (rs_order r) = coid" "sm_resting s"]
  by (auto simp: resting_ids_def on_cancel_def Let_def)

lemma settle_one_id:
  "settle_one B now inst (r, oc) s = Some (Some r', s') \<Longrightarrow>
     o_client_order_id (rs_order r') = o_client_order_id (rs_order r)"
  by (auto simp: settle_one_def bind_eq_Some Let_def split: option.split_asm if_split_asm)

lemma settle_all_ids:
  "settle_all B now inst xs s = Some (kept, s') \<Longrightarrow>
     (\<lambda>r. o_client_order_id (rs_order r)) ` set kept \<subseteq> (\<lambda>x. o_client_order_id (rs_order (fst x))) ` set xs"
proof (induction xs arbitrary: s kept)
  case (Cons x xs)
  obtain r oc where x: "x = (r, oc)" by (cases x)
  then obtain k s1 rest where k: "settle_one B now inst (r, oc) s = Some (k, s1)"
    "settle_all B now inst xs s1 = Some (rest, s')" "kept = (case k of Some r \<Rightarrow> r # rest | None \<Rightarrow> rest)"
    using Cons.prems by (auto simp: bind_eq_Some)
  then show ?case
    using Cons.IH [OF k(2)] settle_one_id [of B now inst r oc s _ s1] x by (cases k) auto
qed simp

lemma on_market_ids:
  assumes "on_market D B now c ev s = Some s'"
  shows "resting_ids s' \<subseteq> resting_ids s"
  using assms
proof (cases rule: on_market_cases)
  case (matched inst mv s1 xs kept s2)
  have "sm_resting s = map fst xs" using decide_all_map [OF matched(5)] by simp
  then have "(\<lambda>x. o_client_order_id (rs_order (fst x))) ` set xs = resting_ids s"
    by (simp add: resting_ids_def image_image)
  then show ?thesis using settle_all_ids [OF matched(6)] matched(7) by (simp add: resting_ids_def)
qed simp

definition halted :: "client_order_id set \<Rightarrow> ('s, 'h) kernel \<Rightarrow> bool" where
  "halted S k \<longleftrightarrow> is_killed (kn_risk k) \<and> resting_ids (co_sim (kn_core k)) \<subseteq> S"

lemma killed_submit:
  assumes "is_killed g" "exec_submit D B g pf o1 now k = Some (evs, k')"
  shows "co_sim k' = co_sim k"
  using assms(2)
proof (cases rule: exec_submit_cases)
  case (denied rs e)
  then show ?thesis using deny_order_eq by fastforce
next
  case (routed inst e o2)
  then show ?thesis using assms(1) by (simp add: gates_passed_def risk_check_def)
qed simp

interpretation halt: kernel_invariant E "halted S :: ('s, 'h) kernel \<Rightarrow> bool" for E :: "'s kernel_env" and S
proof unfold_locales
  fix k :: "('s, 'h) kernel" and h t msg n cv ts sy sg q px o1 now evs co coid rep f p ev k' m
  assume ok: "halted S k"
  then show "halted S (call_strategy E h k)" "halted S (kernel_publish t msg k)" "halted S (log_fill ts sy sg q px k)"
    "halted S (k\<lparr>kn_outbox := []\<rparr>)" "halted S (k\<lparr>kn_cursor := m\<rparr>)" "halted S (k\<lparr>kn_expiry_cursor := m\<rparr>)"
    "halted S (k\<lparr>kn_result := (kn_result k)\<lparr>rr_orders_submitted := n\<rparr>\<rparr>)"
    "halted S (k\<lparr>kn_result := (kn_result k)\<lparr>rr_orders_denied := n\<rparr>\<rparr>)"
    "halted S (k\<lparr>kn_result := (kn_result k)\<lparr>rr_equity_curve := cv\<rparr>\<rparr>)" "halted S (put_position p k)"
    "halted S (k\<lparr>kn_clock := advance_to f (kn_clock k)\<rparr>)" "halted S (k\<lparr>kn_clock := snd (pop_due f (kn_clock k))\<rparr>)"
    "halted S (k\<lparr>kn_core := (kn_core k)\<lparr>co_sim := snd (sim_drain_due f (co_sim (kn_core k)))\<rparr>\<rparr>)"
    by (simp_all add: halted_def resting_ids_def sim_drain_due_def split_beta)
  show "halted S (k\<lparr>kn_core := co\<rparr>)"
    if "exec_submit (ke_dec E) (ke_brokerage E) (kn_risk k) (kernel_portfolio E k) o1 now (kn_core k) = Some (evs, co)"
    using ok killed_submit [OF _ that] by (simp add: halted_def)
  show "halted S (k\<lparr>kn_core := co\<rparr>)"
    if "exec_cancel (ke_dec E) (ke_brokerage E) coid now (kn_core k) = Some (evs, co)"
    using ok that on_cancel_ids by (fastforce simp: halted_def exec_cancel_def bind_eq_Some)
  show "halted S (k\<lparr>kn_core := co\<rparr>)" if "apply_report (ke_dec E) rep now (kn_core k) = Some (evs, co)"
    using ok apply_report_sim [OF that] by (simp add: halted_def)
  show "halted S k'" if "feed_market E ev k = Some k'"
    using ok that on_market_ids by (fastforce simp: halted_def feed_market_def bind_eq_Some Let_def split_beta)
qed

section \<open>A sample run\<close>

definition idle_strategy :: "unit strategy" where
  "idle_strategy =
     \<lparr>st_on_start = \<lambda>_ _. ([], ()), st_on_quote = \<lambda>_ _ _. ([], ()), st_on_trade = \<lambda>_ _ _. ([], ()),
      st_on_bar = \<lambda>_ _ _. ([], ()), st_on_book = \<lambda>_ _ _. ([], ()), st_on_order_event = \<lambda>_ _ _. ([], ()),
      st_on_order_filled = \<lambda>_ _ _. ([], ()), st_on_timer = \<lambda>_ _ _. ([], ()), st_on_stop = \<lambda>_ _. ([], ())\<rparr>"

definition bt_cfg :: backtest_config where
  "bt_cfg = config_new rdec [sample_instrument] usdt (Money 100000 usdt)"

definition bt_env :: "unit kernel_env" where
  "bt_env = build_env rdec (\<lambda>x. x) (\<lambda>x. x) bt_cfg ''s1'' idle_strategy [sample_trade 1000]"

definition bt_kernel :: "(unit, unit) kernel" where
  "bt_kernel = build_kernel bt_cfg ''s1'' ()"

lemma bt_env_sel [simp]:
  "ke_dec bt_env = rdec" "ke_iter_positions bt_env = (\<lambda>x. x)" "ke_iter_orders bt_env = (\<lambda>x. x)"
  "ke_settle bt_env = usdt" "ke_strategy bt_env = idle_strategy" "ke_strategy_id bt_env = ''s1''"
  "ke_events bt_env = [sample_trade 1000]" "ke_expiries bt_env = []" "ke_maintenance_margin_rate bt_env = None"
  by (simp_all add: bt_env_def build_env_def bt_cfg_def config_new_def unlimited_def expiry_schedule_def
      map_filter_def sample_not_ashare)

lemma idle_call [simp]:
  "call_strategy E (st_on_start idle_strategy) k = k" "call_strategy E (st_on_trade idle_strategy t) k = k"
  "call_strategy E (st_on_order_event idle_strategy ev) k = k" "call_strategy E (st_on_order_filled idle_strategy f) k = k"
  for k :: "(unit, 'h) kernel"
  by (simp_all add: call_strategy_def idle_strategy_def kernel_ctx_def)

lemma idle_quiet: "market_driven idle_strategy"
  by (simp add: market_driven_def quiet_def idle_strategy_def)

lemma bt_frontier: "frontier bt_env (bt_kernel\<lparr>kn_risk := g\<rparr>) = Some 5"
  by (simp add: frontier_def next_market_def next_expiry_def bt_kernel_def build_kernel_def sample_trade_def
      sim_peek_due_def dq_peek_due_def sim_new_def dq_new_def peek_next_timer_def hclock_new_def least_def
      map_filter_def)

lemma bt_turn: "\<exists>k'. kernel_turn bt_env 5 (bt_kernel\<lparr>kn_risk := g\<rparr>) = Some k'"
proof -
  let ?k = "advance_clock 5 (bt_kernel\<lparr>kn_risk := g\<rparr>)"
  have d: "drain_reports bt_env 5 ?k = Some ?k"
    by (simp add: drain_reports_def sim_drain_due_def dq_drain_due_def advance_clock_def bt_kernel_def build_kernel_def
        sim_new_def dq_new_def)
  have o: "process_outbox E k = Some k" if "kn_outbox k = []" for E :: "unit kernel_env" and k :: "(unit, unit) kernel"
    using that by (simp add: process_outbox_def)
  have ob: "kn_outbox ?k = []" by (simp add: advance_clock_def bt_kernel_def build_kernel_def)
  have t: "fire_timers bt_env 5 ?k = Some ?k"
    by (simp add: fire_timers_def pop_due_def advance_clock_def bt_kernel_def build_kernel_def hclock_new_def advance_to_def)
  have "\<exists>k1. feed_market bt_env (sample_trade 1000) (?k\<lparr>kn_cursor := Suc (kn_cursor ?k)\<rparr>) = Some k1 \<and> kn_outbox k1 = []"
    using ob
    by (simp add: feed_market_def data_process_def on_market_def sample_trade_def Let_def advance_clock_def
        bt_kernel_def build_kernel_def sim_new_def split: option.split)
  then obtain k1 where "feed_market bt_env (sample_trade 1000) (?k\<lparr>kn_cursor := Suc (kn_cursor ?k)\<rparr>) = Some k1"
    "kn_outbox k1 = []" by blast
  then have "market_phase bt_env 5 (sample_trade 1000) ?k = Some k1"
    using o by (simp add: market_phase_def sample_trade_def dispatch_market_def)
  moreover have "next_market bt_env (bt_kernel\<lparr>kn_risk := g\<rparr>) = Some 5"
    by (simp add: next_market_def bt_kernel_def build_kernel_def sample_trade_def)
  ultimately show ?thesis
    using d o [OF ob] t
    by (simp add: kernel_turn_def settle_expiries_def check_liquidation_def must_liquidate_def
        bt_kernel_def build_kernel_def)
qed

section \<open>Properties\<close>

text \<open>
  C7: time runs forward and no event is skipped. A turn moves the clock to its frontier (never
  back); it feeds the next market event exactly when the event is stamped with the frontier, and
  every event still to come is stamped no earlier than that.
\<close>

theorem kernel_turn_orderly:
  assumes "sorted (map mev_ts_event (ke_events E))" "frontier E k = Some f" "kernel_turn E f k = Some k'"
  shows "kn_now k' = max (kn_now k) f \<and> kn_risk k' = kn_risk k \<and>
    kn_cursor k' = (if next_market E k = Some f then Suc (kn_cursor k) else kn_cursor k) \<and>
    (\<forall>i. kn_cursor k \<le> i \<and> i < length (ke_events E) \<longrightarrow> f \<le> mev_ts_event (ke_events E ! i))"
proof -
  have "f \<le> mev_ts_event (ke_events E ! i)" if "kn_cursor k \<le> i" "i < length (ke_events E)" for i
  proof -
    have "next_market E k = Some (mev_ts_event (ke_events E ! kn_cursor k))"
      using that by (simp add: next_market_def)
    then have "f \<le> mev_ts_event (ke_events E ! kn_cursor k)" by (rule frontier_least(3) [OF assms(2)])
    also have "\<dots> \<le> mev_ts_event (ke_events E ! i)"
      using sorted_nth_mono [OF assms(1), of "kn_cursor k" i] that by simp
    finally show ?thesis .
  qed
  then show ?thesis using kernel_turn_place [OF assms(3)] by (auto simp: place_def)
qed

lemma bt_kernel_same: "bt_kernel\<lparr>kn_risk := kn_risk bt_kernel\<rparr> = bt_kernel"
  by simp

theorem kernel_turn_orderly_witness:
  "\<exists>k'. kernel_turn bt_env 5 bt_kernel = Some k' \<and> kn_now k' = 5 \<and> kn_cursor k' = 1"
proof -
  have f: "frontier bt_env bt_kernel = Some 5" using bt_frontier [of "kn_risk bt_kernel"] by simp
  obtain k' where k': "kernel_turn bt_env 5 bt_kernel = Some k'" using bt_turn [of "kn_risk bt_kernel"] by auto
  have "next_market bt_env bt_kernel = Some 5" "kn_now bt_kernel = 0" "kn_cursor bt_kernel = 0"
    by (simp_all add: next_market_def bt_kernel_def build_kernel_def sample_trade_def hclock_new_def bt_cfg_def
        config_new_def)
  then show ?thesis using kernel_turn_orderly [OF _ f k'] k' by simp
qed

text \<open>
  C6: no look-ahead. Every state a backtest reaches before it has consumed event \<open>p\<close>, and the
  turn it takes from there, is the same whatever the data from \<open>p\<close> on: replacing the tail of the
  event list changes neither the states nor the next frontier nor the next turn.
\<close>

theorem kernel_no_look_ahead:
  assumes "turns E k n k'" "take p ys = take p (ke_events E)" "p \<le> length ys" "p \<le> length (ke_events E)"
    "kn_cursor k' < p"
  shows "turns (E\<lparr>ke_events := ys\<rparr>) k n k' \<and> frontier (E\<lparr>ke_events := ys\<rparr>) k' = frontier E k' \<and>
    kernel_turn (E\<lparr>ke_events := ys\<rparr>) f k' = kernel_turn E f k'"
  using turns_prefix [OF assms] frontier_prefix [OF assms(2-5)] by simp

theorem kernel_no_look_ahead_witness:
  "frontier (bt_env\<lparr>ke_events := [sample_trade 1000, sample_trade 7]\<rparr>) bt_kernel = Some 5"
proof -
  have "kn_cursor bt_kernel < 1" by (simp add: bt_kernel_def build_kernel_def)
  then show ?thesis
    using kernel_no_look_ahead [OF turns_0 [of bt_env bt_kernel], of 1 "[sample_trade 1000, sample_trade 7]"]
      bt_frontier [of "kn_risk bt_kernel"]
    by simp
qed

text \<open>
  Backtests of market-driven strategies end. For a strategy that makes its calls on start and
  on market data, whatever the configuration and the data, there is a number of turns after which
  the run has finished (or the decimal arithmetic has panicked), and more fuel changes nothing.
\<close>

theorem market_driven_run_ends:
  fixes st :: 's
  assumes "market_driven S"
  shows "\<exists>n r. r \<noteq> OutOfFuel \<and>
    (\<forall>m. kernel_run (n + m) (build_env D H G cfg sid S events) (build_kernel cfg sid st :: ('s, 'h) kernel) = r)"
proof -
  let ?E = "build_env D H G cfg sid S events" and ?k = "build_kernel cfg sid st :: ('s, 'h) kernel"
  have md: "market_driven (ke_strategy ?E)" using assms by (simp add: build_env_def)
  show ?thesis
  proof (cases "process_outbox ?E (call_strategy ?E (st_on_start (ke_strategy ?E)) ?k)")
    case None
    then have "kernel_run m ?E ?k = Panicked" for m by (simp add: kernel_run_def)
    then show ?thesis by auto
  next
    case (Some k1)
    have "heaps_ok k1" by (rule heaps.inv_process_outbox [OF heaps.inv_call [OF build_ok(2)] Some])
    then obtain n where n: "kernel_loop n ?E k1 \<noteq> OutOfFuel"
      using loop_finishes [OF md] process_outbox_empties [OF md Some] by blast
    then have "kernel_loop (n + m) ?E k1 = kernel_loop n ?E k1" for m by (rule loop_fuel [OF refl])
    then have "kernel_run (n + m) ?E ?k = kernel_run n ?E ?k" for m using Some by (simp add: kernel_run_def)
    moreover have "kernel_run n ?E ?k \<noteq> OutOfFuel"
      using Some n by (auto simp: kernel_run_def split: run_outcome.split option.split)
    ultimately show ?thesis by blast
  qed
qed

theorem market_driven_run_ends_witness:
  "\<exists>n (r :: (unit, unit) kernel run_outcome). r \<noteq> OutOfFuel \<and>
    (\<forall>m. kernel_run (n + m) (build_env rdec rev rev bt_cfg ''s1'' idle_strategy [sample_trade 1000, sample_trade 7])
      (build_kernel bt_cfg ''s1'' ()) = r)"
  by (rule market_driven_run_ends [OF idle_quiet])

text \<open>
  An expired contract is closed. Settling a contract that has a settlement price leaves its
  position flat whenever the position accepts the closing fill, and touches no other position.
\<close>

theorem expiry_settles_flat:
  assumes "decimal_lib (ke_dec E)" "cache_ok (kn_cache k)" "settle_contract E i now k = Some k'"
    "cache_instrument (kn_cache k) i = Some inst" "settlement_price (ke_dec E) (kn_cache k) i inst = Some (Some px)"
    "closable E now ''SETTLE'' px k i"
  shows "flat_in k' i \<and> (\<forall>j. j = i \<or> cache_position (kn_cache k') j = cache_position (kn_cache k) j)"
proof -
  obtain k1 where k1: "close_position_at E i px now ''SETTLE'' k = Some k1"
    "fold_opt (cancel_dead E now) (dead_orders E i k1) k1 = Some k'"
    using assms(3-5) by (auto simp: settle_contract_def bind_eq_Some)
  have "desk k' = desk k1"
    using k1(2) by (rule fold_opt_inv) (simp_all add: cancel_dead_desk)
  then show ?thesis
    using desk_caches [of k' k1] close_position_flat [OF assms(1) k1(1) assms(2,6)]
      close_position_frame [OF k1(1) assms(2)]
    by (auto simp: flat_in_def)
qed

definition held_kernel :: "(unit, unit) kernel" where
  "held_kernel = bt_kernel\<lparr>kn_core := sample_core\<rparr>"

definition held_fill :: "string \<Rightarrow> fill" where
  "held_fill sfx =
     (let tag = ''BTCUSDT.BINANCE-'' @ sfx
      in \<lparr>f_trade_id = tag, f_client_order_id = tag, f_venue_order_id = tag,
          f_instrument_id = InstrumentId ''BTCUSDT'' ''BINANCE'', f_side = Sell, f_last_px = Price 10400 2,
          f_last_qty = Quantity 3 0, f_fee = money_zero usdt, f_liquidity = Taker, f_ts_event = 9, f_ts_init = 9\<rparr>)"

lemma held_lookup:
  "cache_position (kn_cache held_kernel) (InstrumentId ''BTCUSDT'' ''BINANCE'') =
     Some (sample_position\<lparr>ps_realized_pnl := Money 1950 usdt\<rparr>)"
  "cache_instrument (kn_cache held_kernel) (InstrumentId ''BTCUSDT'' ''BINANCE'') = Some sample_instrument"
  "cache_mark (kn_cache held_kernel) (InstrumentId ''BTCUSDT'' ''BINANCE'') = Some (Price 10400 2)"
  "books_ok held_kernel"
proof -
  show "cache_position (kn_cache held_kernel) (InstrumentId ''BTCUSDT'' ''BINANCE'') =
      Some (sample_position\<lparr>ps_realized_pnl := Money 1950 usdt\<rparr>)"
    by (simp add: held_kernel_def sample_core_def) (simp add: sample_cache_def sample_position_def)
  show "books_ok held_kernel"
    by (simp add: books_ok_def held_kernel_def sample_core_def sample_cache_def bt_kernel_def build_kernel_def
        cache_ok_upsert cache_ok_marks cache_ok_new)
qed (simp_all add: held_kernel_def sample_core_def sample_cache_lookup)

lemma held_closing:
  "closing_fill (InstrumentId ''BTCUSDT'' ''BINANCE'') (Price 10400 2) 9 sfx sample_instrument
     (sample_position\<lparr>ps_realized_pnl := Money 1950 usdt\<rparr>) = Some (held_fill sfx)"
  by (simp add: closing_fill_def Let_def held_fill_def sample_position_def sample_instrument_def currency_pair_dyn_def
      instrument_id_display_def)

lemma held_closed:
  "\<exists>p1. position_apply_fill rdec (held_fill sfx) sample_instrument
     (sample_position\<lparr>ps_realized_pnl := Money 1950 usdt\<rparr>) = Some (Ok (), p1)"
proof -
  have "position_apply_fill rdec (held_fill sfx) = position_apply_fill rdec (held_fill [])"
    by (simp add: fun_eq_iff position_apply_fill_def held_fill_def Let_def cong: if_cong)
  moreover have "map_option fst (position_apply_fill rdec (held_fill []) sample_instrument
     (sample_position\<lparr>ps_realized_pnl := Money 1950 usdt\<rparr>)) = Some (Ok ())" by code_simp
  ultimately show ?thesis by auto
qed

lemma held_closable:
  assumes "ke_dec E = rdec"
  shows "closable E 9 sfx (Price 10400 2) held_kernel (InstrumentId ''BTCUSDT'' ''BINANCE'')"
  unfolding closable_def
  using held_lookup held_closing [of sfx] held_closed [of sfx] sample_position_ok assms
  by (auto simp: position_ok_def)

lemma idle_outbox: "kn_outbox k = [] \<Longrightarrow> process_outbox E k = Some k"
  by (simp add: process_outbox_def)

lemma idle_notify:
  "ke_strategy E = idle_strategy \<Longrightarrow> kn_outbox (notify_event E ev k) = kn_outbox k"
  using idle_quiet by (intro quiet_notify_outbox) simp

lemma held_close:
  assumes "ke_dec E = rdec" "ke_strategy E = idle_strategy"
  shows "\<exists>p1. close_position_at E (InstrumentId ''BTCUSDT'' ''BINANCE'') (Price 10400 2) 9 sfx held_kernel =
    Some (notify_event E (EvFilled (held_fill sfx)) (log_fill 9 ''BTCUSDT'' (side_sign (f_side (held_fill sfx)))
      (ps_quantity sample_position) (Price 10400 2) (put_position p1 held_kernel)))"
proof -
  obtain p1 where "position_apply_fill rdec (held_fill sfx) sample_instrument
     (sample_position\<lparr>ps_realized_pnl := Money 1950 usdt\<rparr>) = Some (Ok (), p1)" using held_closed by blast
  moreover have "kn_outbox held_kernel = []" by (simp add: held_kernel_def bt_kernel_def build_kernel_def)
  ultimately show ?thesis
    using assms held_lookup held_closing [of sfx]
    by (simp add: close_position_at_def idle_outbox idle_notify Let_def) blast
qed

theorem expiry_settles_flat_witness:
  "\<exists>k'. settle_contract bt_env (InstrumentId ''BTCUSDT'' ''BINANCE'') 9 held_kernel = Some k' \<and>
     flat_in k' (InstrumentId ''BTCUSDT'' ''BINANCE'')"
proof -
  let ?i = "InstrumentId ''BTCUSDT'' ''BINANCE''"
  have px: "settlement_price rdec (kn_cache held_kernel) ?i sample_instrument = Some (Some (Price 10400 2))"
    by (simp add: settlement_price_def held_lookup) (simp add: sample_instrument_def currency_pair_dyn_def)
  obtain k1 p1 where k1: "close_position_at bt_env ?i (Price 10400 2) 9 ''SETTLE'' held_kernel = Some k1"
    and "kn_cache k1 = upsert_position p1 (kn_cache held_kernel)"
    using held_close [of bt_env "''SETTLE''"] by auto
  then have "cache_orders (kn_cache k1) = []"
    by (simp add: cache_orders_def upsert_position_def held_kernel_def sample_core_def sample_cache_def
        set_mark_def add_instrument_def set_account_def cache_new_def)
  then have "dead_orders bt_env ?i k1 = []" by (simp add: dead_orders_def)
  then have s: "settle_contract bt_env ?i 9 held_kernel = Some k1"
    using k1 px by (simp add: settle_contract_def held_lookup)
  then show ?thesis
    using expiry_settles_flat [OF _ _ s] held_closable [of bt_env] held_lookup px rd.decimal_lib_axioms
    by (simp add: books_ok_def)
qed

text \<open>
  The maintenance test is exact. With equity and gross exposure given and the requirement a
  representable decimal, the kernel liquidates exactly when there is exposure and equity is below
  gross exposure times the maintenance rate.
\<close>

theorem liquidation_trigger_exact:
  assumes "decimal_lib (ke_dec E)" "ke_maintenance_margin_rate E = Some rate" "wf_dec rate"
    "pf_equity (kernel_portfolio E k) = Some eq" "pf_gross_exposure (kernel_portfolio E k) = Some gr"
    "valid_money eq" "\<bar>m_amount eq\<bar> < 2 ^ 96" "valid_money gr" "\<bar>m_amount gr\<bar> < 2 ^ 96"
    "representable (money_val gr * dval rate)"
  shows "must_liquidate E k = Some (0 < money_val gr \<and> money_val eq < money_val gr * dval rate)"
proof -
  let ?D = "ke_dec E"
  let ?g = "\<lparr>mantissa = m_amount gr, scale = c_prec (m_ccy gr)\<rparr>"
  have amounts: "money_amount ?D eq = Some \<lparr>mantissa = m_amount eq, scale = c_prec (m_ccy eq)\<rparr>"
    "money_amount ?D gr = Some ?g"
    using assms(6-9) decimal_lib.money_amount_eq [OF assms(1)] by simp_all
  have "wf_dec ?g"
    using assms(8,9) by (simp add: wf_dec_def valid_money_def valid_currency_def MAX_PRECISION_def)
  then obtain need where need: "d_mul ?D ?g rate = Some need" "dval need = money_val gr * dval rate"
    using decimal_lib.mul_exact [OF assms(1) _ assms(3), of ?g] assms(10) by auto
  show ?thesis
    using assms(2,4,5) amounts need
    by (simp add: must_liquidate_def decimal_lib.le_iff [OF assms(1)] not_le)
qed

definition liq_env :: "unit kernel_env" where
  "liq_env = bt_env\<lparr>ke_maintenance_margin_rate := Some (dec_int 10)\<rparr>"

lemma held_totals:
  "pf_equity (kernel_portfolio liq_env held_kernel) = Some (Money 103150 usdt)"
  "pf_gross_exposure (kernel_portfolio liq_env held_kernel) = Some (Money 31200 usdt)"
proof -
  show "pf_equity (kernel_portfolio liq_env held_kernel) = Some (Money 103150 usdt)"
    using rd.equity_sum [OF sample_settled, of "\<lambda>x. x"]
    by (simp add: kernel_portfolio_def portfolio_state_def liq_env_def held_kernel_def sample_core_def
        sample_cache_positions MAX_PRECISION_def)
  show "pf_gross_exposure (kernel_portfolio liq_env held_kernel) = Some (Money 31200 usdt)"
    using rd.gross_exposure_sum [OF sample_settled, of "\<lambda>x. x"]
    by (simp add: kernel_portfolio_def portfolio_state_def liq_env_def held_kernel_def sample_core_def
        sample_cache_positions MAX_PRECISION_def)
qed

theorem liquidation_trigger_exact_witness: "must_liquidate liq_env held_kernel = Some True"
proof -
  have v: "valid_money (Money 103150 usdt)" "valid_money (Money 31200 usdt)"
    by (simp_all add: valid_money_def valid_currency_def usdt_def in_i128_def MAX_PRECISION_def)
  have "representable 3120" "wf_dec (dec_int 10)"
    using representableI [of 3120 0] by (simp_all add: wf_dec_def dec_int_def)
  then show ?thesis
    using liquidation_trigger_exact [OF _ _ _ held_totals, of "dec_int 10"] v rd.decimal_lib_axioms
    by (simp add: liq_env_def money_val_def)
qed

text \<open>
  C12: liquidation flattens. When the account is below maintenance, every marked instrument whose
  position accepts the closing fill is flat afterwards, in whatever order the positions are
  visited; when it is not, nothing changes.
\<close>

theorem liquidation_flattens:
  assumes "decimal_lib (ke_dec E)" "books_ok k" "\<And>xs. set (ke_iter_positions E xs) = set xs"
    "check_liquidation E now k = Some k'" "cache_mark (kn_cache k) i = Some px" "closable E now ''LIQ'' px k i"
  shows "(must_liquidate E k = Some True \<longrightarrow> flat_in k' i) \<and> (must_liquidate E k = Some False \<longrightarrow> k' = k)"
proof -
  have "flat_in k' i" if liq: "must_liquidate E k = Some True"
  proof -
    have all: "fold_opt (liquidate_one E now) (open_instruments E k) k = Some k'"
      using assms(4) liq by (simp add: check_liquidation_def)
    have w: "winding_down E now px i k" using assms(2,5,6) by (simp add: winding_down_def)
    obtain inst p where p: "cache_position (kn_cache k) i = Some p" using assms(6) by (auto simp: closable_def)
    show ?thesis
    proof (cases "ps_side p = Flat")
      case True
      then have "flat_in k i \<and> books_ok k" using p assms(2) by (simp add: flat_in_def)
      with all have "flat_in k' i \<and> books_ok k'" by (rule fold_opt_inv) (auto dest: flat_stays)
      then show ?thesis ..
    next
      case False
      have "p \<in> set (cache_positions (kn_cache k))"
        using p by (auto simp: cache_positions_def cache_position_def dest!: map_of_SomeD intro: rev_image_eqI)
      moreover have "ps_instrument_id p = i" using assms(2) cache_position_key [OF _ p] by (simp add: books_ok_def)
      ultimately have "i \<in> set (open_instruments E k)" using False assms(3) by (auto simp: open_instruments_def)
      then show ?thesis by (rule liquidate_all [OF assms(1) all w])
    qed
  qed
  then show ?thesis using assms(4) by (auto simp: check_liquidation_def)
qed

theorem liquidation_flattens_witness:
  "\<exists>k'. check_liquidation liq_env 9 held_kernel = Some k' \<and> flat_in k' (InstrumentId ''BTCUSDT'' ''BINANCE'')"
proof -
  let ?i = "InstrumentId ''BTCUSDT'' ''BINANCE''"
  have D: "ke_dec liq_env = rdec" "ke_strategy liq_env = idle_strategy" by (simp_all add: liq_env_def)
  have amounts: "money_amount rdec (Money 103150 usdt) = Some (dec_new 103150 2)"
    "money_amount rdec (Money 31200 usdt) = Some (dec_new 31200 2)"
    "d_mul rdec (dec_new 31200 2) (dec_int 10) = Some (dec_new 312000 2)"
    "\<not> d_le rdec (dec_new 31200 2) dec_zero" "\<not> d_le rdec (dec_new 312000 2) (dec_new 103150 2)"
    by code_simp+
  then have liq: "must_liquidate liq_env held_kernel = Some True"
    using held_totals by (simp add: must_liquidate_def D) (simp add: liq_env_def)
  have "open_instruments liq_env held_kernel = [?i]"
    by (simp add: open_instruments_def liq_env_def held_kernel_def sample_core_def sample_cache_positions sample_position_def)
  then obtain k' where k': "check_liquidation liq_env 9 held_kernel = Some k'"
    using held_close [OF D, of "''LIQ''"] liq by (auto simp: check_liquidation_def liquidate_one_def held_lookup)
  then show ?thesis
    using liquidation_flattens [OF _ held_lookup(4) _ k' held_lookup(3)] held_closable [OF D(1)] liq rd.decimal_lib_axioms
    by (simp add: D) (simp add: liq_env_def)
qed

text \<open>
  C13: the books of a run stay in order. In every state a backtest reaches, orders and positions are
  filed once and under their own ids, every book is well formed, and the fill counter is the length
  of the fill log.
\<close>

theorem kernel_books:
  assumes "process_outbox E (call_strategy E (st_on_start (ke_strategy E)) (build_kernel cfg sid st)) = Some k"
    "turns E k n k'"
  shows "cache_ok (kn_cache k') \<and> rr_fills (kn_result k') = of_nat (length (rr_fills_log (kn_result k')))"
proof -
  have "books_ok k" by (rule books.inv_process_outbox [OF books.inv_call [OF build_ok(1)] assms(1)])
  then have "books_ok k'" by (rule turns_invariant [OF books.kernel_invariant_axioms assms(2)])
  then show ?thesis by (simp add: books_ok_def)
qed

theorem kernel_books_witness:
  "\<exists>k'. turns bt_env bt_kernel 1 k' \<and> cache_ok (kn_cache k')"
proof -
  obtain k' where "kernel_turn bt_env 5 bt_kernel = Some k'" using bt_turn [of "kn_risk bt_kernel"] by auto
  then have t: "turns bt_env bt_kernel 1 k'"
    using turns_Suc [OF turns_0, of bt_env bt_kernel 5 k'] bt_frontier [of "kn_risk bt_kernel"] by simp
  have "process_outbox bt_env (call_strategy bt_env (st_on_start (ke_strategy bt_env)) (build_kernel bt_cfg ''s1'' ())) =
      Some bt_kernel"
    by (simp add: process_outbox_def bt_kernel_def build_kernel_def)
  then show ?thesis using kernel_books [OF _ t] t by blast
qed

text \<open>
  C14: the kill switch halts new exposure. From the moment it is engaged, whatever the strategy
  submits, the orders resting at the venue are only ever some of those resting before.
\<close>

theorem kill_switch_halts_venue:
  assumes "turns E (kernel_kill_switch True k) n k'"
  shows "resting_ids (co_sim (kn_core k')) \<subseteq> resting_ids (co_sim (kn_core k)) \<and> is_killed (kn_risk k')"
proof -
  let ?S = "resting_ids (co_sim (kn_core k))"
  have "halted ?S (kernel_kill_switch True k)"
    by (simp add: halted_def kernel_kill_switch_def is_killed_def set_kill_switch_def)
  then have "halted ?S k'" by (rule turns_invariant [OF halt.kernel_invariant_axioms assms])
  then show ?thesis by (simp add: halted_def)
qed

theorem kill_switch_halts_venue_witness:
  "\<exists>k'. turns bt_env (kernel_kill_switch True bt_kernel) 1 k' \<and> is_killed (kn_risk k')"
proof -
  let ?k = "kernel_kill_switch True bt_kernel"
  have k: "?k = bt_kernel\<lparr>kn_risk := set_kill_switch True (kn_risk bt_kernel)\<rparr>" by (simp add: kernel_kill_switch_def)
  obtain k' where "kernel_turn bt_env 5 ?k = Some k'" unfolding k using bt_turn by blast
  moreover have "frontier bt_env ?k = Some 5" unfolding k by (rule bt_frontier)
  ultimately have t: "turns bt_env ?k 1 k'" using turns_Suc [OF turns_0, of bt_env ?k 5 k'] by simp
  then show ?thesis using kill_switch_halts_venue [OF t] by blast
qed

end
