(* ===== verification/Live_Session.thy ===== *)
theory Live_Session
  imports Live_Props Backtest
begin

text \<open>
  Sessions of the live kernel: no order is sent twice, submission agrees with the backtest where
  the exchange rules are silent, paper sessions end, and the books stay in order.
\<close>

section \<open>Sending once\<close>

text \<open>A client that also keeps the orders it was sent; the kernel cannot tell it from the client itself.\<close>

definition logged :: "'x exec_client \<Rightarrow> ('x \<times> order list) exec_client" where
  "logged P =
     \<lparr>ec_venue = (\<lambda>(x, l). ec_venue P x),
      ec_connect = (\<lambda>(x, l). map_lres (\<lambda>x. (x, l)) (ec_connect P x)),
      ec_submit_order = (\<lambda>o' (x, l). map_lres (\<lambda>x. (x, l @ [o'])) (ec_submit_order P o' x)),
      ec_cancel_order = (\<lambda>i j (x, l). map_lres (\<lambda>x. (x, l)) (ec_cancel_order P i j x)),
      ec_modify_order = (\<lambda>i (x, l). map_lres (\<lambda>x. (x, l)) (ec_modify_order P i x)),
      ec_reconcile = (\<lambda>(x, l). case ec_reconcile P x of (r, x) \<Rightarrow> (r, (x, l))),
      ec_take_reports = (\<lambda>(x, l). map_option (\<lambda>x. (x, l)) (ec_take_reports P x)),
      ec_recv = (\<lambda>(x, l). case ec_recv P x of (r, x) \<Rightarrow> (r, (x, l))),
      ec_disconnect = (\<lambda>(x, l). map_lres (\<lambda>x. (x, l)) (ec_disconnect P x))\<rparr>"

definition tracked_ids :: "cache \<Rightarrow> client_order_id set" where
  "tracked_ids c = {i. cache_order c i \<noteq> None}"

definition sent_once :: "cache \<Rightarrow> order list \<Rightarrow> bool" where
  "sent_once c l \<longleftrightarrow> distinct (map o_client_order_id l) \<and> o_client_order_id ` set l \<subseteq> tracked_ids c"

lemma tracked_ids_add [simp]: "tracked_ids (add_order o' c) = insert (o_client_order_id o') (tracked_ids c)"
  by (auto simp: tracked_ids_def)

lemma tracked_ids_upsert [simp]: "tracked_ids (upsert_position p c) = tracked_ids c"
  by (simp add: tracked_ids_def)

lemma lres_all_map: "lres_all Q (map_lres f r) = lres_all (Q \<circ> f) r"
  by (cases r) simp_all

lemma lres_all_const: "P \<Longrightarrow> lres_all (\<lambda>_. P) r"
  by (cases r) simp_all

lemma sent_once_mono: "sent_once c l \<Longrightarrow> tracked_ids c \<subseteq> tracked_ids c' \<Longrightarrow> sent_once c' l"
  by (auto simp: sent_once_def)

lemma apply_tracked_ids: "apply_tracked D coid ev c = Some (evs, c') \<Longrightarrow> tracked_ids c' = tracked_ids c"
  by (auto simp: apply_tracked_def bind_eq_Some tracked_ids_def split: option.split_asm if_split_asm)

lemma fill_order_ids: "fill_order D f c = Some (evs, c') \<Longrightarrow> tracked_ids c' = tracked_ids c"
  by (auto simp: fill_order_def bind_eq_Some dest: apply_tracked_ids split: option.split_asm)

lemma apply_report_ids:
  assumes "apply_report D rep now k = Some (evs, k')"
  shows "tracked_ids (co_cache k') = tracked_ids (co_cache k)"
proof (cases rep)
  case (RepFill f)
  then show ?thesis
    using assms fill_order_ids [of D f "co_cache k"]
    by (auto simp: apply_report_def apply_fill_report_def bind_eq_Some Let_def fold_position_def
        split: if_split_asm option.split_asm)
qed (use assms in \<open>auto simp: apply_report_def bind_eq_Some apply_tracked_ids\<close>)

lemma order_apply_id: "order_apply D ev o1 = Some (r, o2) \<Longrightarrow> o_client_order_id o2 = o_client_order_id o1"
  using order_apply_static [of D ev o1 r o2] by (simp add: order_static_def)

interpretation once: live_invariant "E\<lparr>le_exec := logged P\<rparr>"
  "\<lambda>c e g x d. sent_once c (snd x)" for E :: "('s, 'x \<times> order list, 'd) live_env" and P :: "'x exec_client"
proof unfold_locales
  fix c c' :: cache and e :: exec_state and g :: risk_gate and x x' :: "'x \<times> order list" and d d' :: 'd
    and coid ev evs o' rs now r o1 i inst mev co co' rep
  let ?E = "E\<lparr>le_exec := logged P\<rparr>"
  assume J: "sent_once c (snd x)"
  show "lres_all (\<lambda>d. sent_once c (snd x)) (dc_connect (le_data ?E) d)"
    "lres_all (\<lambda>d. sent_once c (snd x)) (dc_disconnect (le_data ?E) d)" "sent_once c (snd x)"
    using J by (simp_all add: lres_all_const)
  show "lres_all (\<lambda>x. sent_once c (snd x)) (ec_connect (le_exec ?E) x)"
    "lres_all (\<lambda>x. sent_once c (snd x)) (ec_disconnect (le_exec ?E) x)"
    "lres_all (\<lambda>x. sent_once c (snd x)) (ec_cancel_order (le_exec ?E) coid i x)"
    "sent_once c (snd (snd (ec_recv (le_exec ?E) x)))" "sent_once c (snd (snd (ec_reconcile (le_exec ?E) x)))"
    using J by (simp_all add: logged_def split_beta lres_all_map comp_def lres_all_const)
  show "sent_once c (snd x')" if "ec_take_reports (le_exec ?E) x = Some x'"
    using J that by (auto simp: logged_def split_beta)
  show "sent_once (refresh_cache mev c) (snd x)"
    using J by (simp add: sent_once_def tracked_ids_def cache_order_def refresh_cache_frame)
  show "sent_once c' (snd x)" if "apply_tracked (le_dec ?E) coid ev c = Some (evs, c')"
    using J apply_tracked_ids [OF that] by (simp add: sent_once_def)
  show "sent_once (add_order o1 c) (snd x)"
    using J by (auto simp: sent_once_def)
  show "lres_all (\<lambda>x. sent_once (add_order o1 c) (snd x)) (ec_submit_order (le_exec ?E) o1 x)"
    if "cache_order c (o_client_order_id o') = None" "order_apply (le_dec ?E) (EvSubmitted now) o' = Some (r, o1)"
    using J that(1) order_apply_id [OF that(2)]
    by (auto simp: logged_def split_beta lres_all_map comp_def sent_once_def tracked_ids_def intro!: lres_all_const)
next
  fix co co' :: core and g :: risk_gate and x :: "'x \<times> order list" and d :: 'd and rep now evs
  assume "sent_once (co_cache co) (snd x)" "apply_report (le_dec (E\<lparr>le_exec := logged P\<rparr>)) rep now co = Some (evs, co')"
  then show "sent_once (co_cache co') (snd x)" by (simp add: sent_once_def apply_report_ids)
qed

interpretation ledger: live_invariant E "\<lambda>c e g x d. cache_ok c" for E :: "('s, 'x, 'd) live_env"
proof unfold_locales
  fix co co' :: core and rep now evs
  assume "cache_ok (co_cache co)" "apply_report (le_dec E) rep now co = Some (evs, co')"
  then show "cache_ok (co_cache co')" by (simp add: apply_report_cache_ok)
qed (simp_all add: lres_all_const refresh_cache_ok cache_ok_add_order apply_tracked_ok)

section \<open>Paper sessions end\<close>

text \<open>What the loop of a paper session runs on: the two channels and the outbox.\<close>

definition fuel_left :: "('s, 'h, paper_client, replay_client) live \<Rightarrow> nat \<times> nat" where
  "fuel_left k = (length (ch_buf (rp_chan (lv_data_client k))), length (ch_buf (pc_chan (lv_exec_client k))))"

definition idle_feed :: "('s, 'h, 'x, replay_client) live \<Rightarrow> bool" where
  "idle_feed k \<longleftrightarrow> \<not> ch_open (rp_chan (lv_data_client k)) \<and> lv_outbox k = [] \<and> \<not> lv_stop k"

lemma quiet_live_call: "quiet h \<Longrightarrow> lv_outbox (live_call E h k) = lv_outbox k"
  by (simp add: quiet_def live_call_def now_ns_def live_ctx_def Let_def split_beta)

lemma quiet_live_notify: "market_driven (le_strategy E) \<Longrightarrow> lv_outbox (live_notify E ev k) = lv_outbox k"
  by (cases ev) (simp_all add: market_driven_def live_notify_def quiet_live_call Let_def)

lemma quiet_notifies:
  "market_driven (le_strategy E) \<Longrightarrow> lv_outbox (fold (live_notify E) evs k) = lv_outbox k"
  by (induction evs arbitrary: k) (simp_all add: quiet_live_notify)

lemma on_exec_sel:
  "on_exec f k = LOk k' \<Longrightarrow> lv_outbox k' = lv_outbox k \<and> lv_data_client k' = lv_data_client k \<and> lv_stop k' = lv_stop k"
  by (auto simp: on_exec_def split: lres.split_asm)

lemma route_command_quiet:
  assumes "market_driven (le_strategy E)" "route_command E now cmd k = LOk k'"
  shows "lv_outbox k' = lv_outbox k \<and> lv_data_client k' = lv_data_client k \<and> lv_stop k' = lv_stop k"
  using assms
  by (auto simp: route_command_def live_submit_def live_cancel_def Let_def track_order_def
      quiet_live_notify quiet_notifies
      split: strategy_command.split_asm if_split_asm option.split_asm risk_decision.split_asm
      dest!: on_exec_sel)

lemma lfold_route_quiet:
  assumes "market_driven (le_strategy E)"
  shows "lfold (route_command E now) cmds k = LOk k' \<Longrightarrow>
    lv_outbox k' = lv_outbox k \<and> lv_data_client k' = lv_data_client k \<and> lv_stop k' = lv_stop k"
proof (induction cmds arbitrary: k)
  case (Cons cmd cmds)
  then show ?case
    using route_command_quiet [OF assms, of now cmd k]
    by (cases "route_command E now cmd k") fastforce+
qed simp

lemma route_outbox_quiet:
  assumes "market_driven (le_strategy E)" "route_outbox E k = LOk k'"
  shows "lv_outbox k' = [] \<and> lv_data_client k' = lv_data_client k \<and> lv_stop k' = lv_stop k"
  using assms lfold_route_quiet [OF assms(1)]
  by (fastforce simp: route_outbox_def Let_def split_beta split: if_split_asm)

lemma route_outbox_empty: "lv_outbox k = [] \<Longrightarrow> route_outbox E k = LOk k"
  by (simp add: route_outbox_def)

lemma emit_sel:
  "emit_portfolio E k = LOk k' \<Longrightarrow> lv_outbox k' = lv_outbox k \<and> lv_data_client k' = lv_data_client k \<and>
    lv_exec_client k' = lv_exec_client k \<and> lv_stop k' = lv_stop k"
  by (auto simp: emit_portfolio_def Let_def split: option.split_asm)

lemma lbind_LOk: "lbind r f = LOk k \<longleftrightarrow> (\<exists>k1. r = LOk k1 \<and> f k1 = LOk k)"
  by (cases r) simp_all

lemma report_turn:
  assumes "market_driven (le_strategy E)" "on_report E rep k = LOk k'" "lv_outbox k = []"
  shows "lv_outbox k' = [] \<and> lv_data_client k' = lv_data_client k \<and> lv_exec_client k' = lv_exec_client k \<and>
    lv_stop k' = lv_stop k"
  using assms
  by (auto simp: on_report_def live_fold_report_def lbind_LOk split_beta quiet_notifies route_outbox_empty
      split: option.split_asm dest!: emit_sel)

lemma market_turn:
  assumes "market_driven (le_strategy E)" "on_market_event E ev k = LOk k'"
  shows "lv_outbox k' = [] \<and> lv_data_client k' = lv_data_client k \<and> lv_stop k' = lv_stop k"
  using assms
  by (auto simp: on_market_event_def lbind_LOk split_beta dest!: emit_sel route_outbox_quiet)

lemma paper_turn:
  assumes "market_driven (le_strategy E)" "le_exec E = paper_exec_client" "le_data E = replay_data_client"
    "select_round E k = Turn (LOk k')" "idle_feed k"
  shows "idle_feed k' \<and> (fuel_left k', fuel_left k) \<in> less_than <*lex*> less_than"
proof (cases "ch_buf (pc_chan (lv_exec_client k))")
  case (Cons rep reps)
  let ?k = "k\<lparr>lv_exec_client := (lv_exec_client k)\<lparr>pc_chan := (pc_chan (lv_exec_client k))\<lparr>ch_buf := reps\<rparr>\<rparr>\<rparr>"
  have "on_report E rep ?k = LOk k'"
    using assms(2,4) Cons by (simp add: select_round_def paper_exec_client_def chan_recv_def split: if_split_asm)
  from report_turn [OF assms(1) this] assms(5) Cons show ?thesis by (simp add: idle_feed_def fuel_left_def)
next
  case Nil
  then obtain ev evs where d: "ch_buf (rp_chan (lv_data_client k)) = ev # evs"
    using assms by (cases "ch_buf (rp_chan (lv_data_client k))")
      (auto simp: select_round_def paper_exec_client_def replay_data_client_def chan_recv_def idle_feed_def
        split: if_split_asm)
  let ?k = "k\<lparr>lv_data_client := (lv_data_client k)\<lparr>rp_chan := (rp_chan (lv_data_client k))\<lparr>ch_buf := evs\<rparr>\<rparr>\<rparr>"
  have "on_market_event E ev ?k = LOk k'"
    using assms(2-5) Nil d
    by (auto simp: select_round_def paper_exec_client_def replay_data_client_def chan_recv_def idle_feed_def
        split: if_split_asm)
  from market_turn [OF assms(1) this] assms(5) d show ?thesis by (simp add: idle_feed_def fuel_left_def)
qed

lemma paper_never_waits:
  "le_data E = replay_data_client \<Longrightarrow> idle_feed k \<Longrightarrow> select_round E k \<noteq> Wait"
  by (auto simp: select_round_def replay_data_client_def chan_recv_def idle_feed_def Let_def
      split: prod.split recv.split list.split)

lemma finish_data:
  assumes "market_driven (le_strategy E)" "le_data E = replay_data_client" "live_finish E k = LOk k'"
  shows "lv_data_client k' = lv_data_client k"
  using assms route_outbox_quiet [OF assms(1)]
  by (fastforce simp: live_finish_def lbind_LOk replay_data_client_def on_data_def dest!: on_exec_sel)

lemma break_drained:
  assumes "select_round E k = Break" "idle_feed k" "le_exec E = paper_exec_client" "le_data E = replay_data_client"
    "ch_open (pc_chan (lv_exec_client k))"
  shows "ch_buf (rp_chan (lv_data_client k)) = []"
  using assms
  by (auto simp: select_round_def paper_exec_client_def replay_data_client_def chan_recv_def idle_feed_def
      split: list.split_asm if_split_asm)

text \<open>The paper venue never closes its report channel.\<close>

interpretation paper_open: live_invariant "E\<lparr>le_exec := paper_exec_client\<rparr>"
  "\<lambda>c e g x d. ch_open (pc_chan x)" for E :: "('s, paper_client, 'd) live_env"
  by unfold_locales
    (auto simp: paper_exec_client_def paper_submit_order_def paper_cancel_order_def paper_take_reports_def
      paper_send_def try_send_def chan_recv_def Let_def lres_all_const split: list.split if_split_asm)

lemma paper_stays_open:
  assumes "le_exec E = paper_exec_client" "ch_open (pc_chan (lv_exec_client k))"
  shows "select_round E k = Turn (LOk k') \<Longrightarrow> ch_open (pc_chan (lv_exec_client k'))"
    and "live_start E k = LOk k' \<Longrightarrow> ch_open (pc_chan (lv_exec_client k'))"
proof -
  have E: "E\<lparr>le_exec := paper_exec_client\<rparr> = E" using assms(1) by simp
  show "ch_open (pc_chan (lv_exec_client k'))" if "select_round E k = Turn (LOk k')"
    using paper_open.round_I [of k E "LOk k'"] that assms(2) by (simp add: E paper_open.I_def)
  show "ch_open (pc_chan (lv_exec_client k'))" if "live_start E k = LOk k'"
    using paper_open.start_I [of k E] that assms(2) by (simp add: E paper_open.I_def)
qed

definition drained :: "('s, 'h, paper_client, replay_client) live lres \<Rightarrow> bool" where
  "drained r \<longleftrightarrow> (\<forall>k. r = LOk k \<longrightarrow> ch_buf (rp_chan (lv_data_client k)) = [])"

lemma paper_loop_ends:
  assumes E: "market_driven (le_strategy E)" "le_exec E = paper_exec_client" "le_data E = replay_data_client"
  shows "idle_feed k \<Longrightarrow> ch_open (pc_chan (lv_exec_client k)) \<Longrightarrow>
    \<exists>n r. drained r \<and> (\<forall>m. live_loop (n + m) E k = Ended r)"
proof (induction k rule: wf_induct_rule [OF wf_inv_image [OF wf_lex_prod [OF wf_less_than wf_less_than], of fuel_left]])
  case (1 k)
  show ?case
  proof (cases "select_round E k")
    case Break
    then have "drained (live_finish E k)"
      using break_drained [OF Break 1(2) E(2,3) 1(3)] by (auto simp: drained_def dest!: finish_data [OF E(1,3)])
    moreover have "live_loop m E k = Ended (live_finish E k)" for m using Break by (simp add: live_loop.simps)
    ultimately show ?thesis by blast
  next
    case Wait
    then show ?thesis using paper_never_waits [OF E(3) 1(2)] by simp
  next
    case (Turn r)
    have step: "live_loop (Suc n) E k = (case r of LOk k' \<Rightarrow> live_loop n E k' | _ \<Rightarrow> Ended r)" for n
      using Turn by (simp add: live_loop.simps [of "Suc n"])
    show ?thesis
    proof (cases "\<exists>k'. r = LOk k'")
      case True
      then obtain k' where r: "r = LOk k'" by blast
      note t = Turn [unfolded r]
      from paper_turn [OF E t 1(2)] paper_stays_open(1) [OF E(2) 1(3) t] 1(1) [of k']
      obtain n s where s: "drained s" "\<forall>m. live_loop (n + m) E k' = Ended s" by (auto simp: inv_image_def)
      then have "\<forall>m. live_loop (Suc n + m) E k = Ended s" using step r by simp
      with s(1) show ?thesis by blast
    next
      case False
      then have "live_loop (1 + m) E k = Ended r" for m using step by (cases r) auto
      moreover have "drained r" using False by (simp add: drained_def)
      ultimately show ?thesis by blast
    qed
  qed
qed

lemma send_all_buf: "send_all xs c = Some c' \<Longrightarrow> ch_buf c' = ch_buf c @ xs \<and> ch_cap c' = ch_cap c"
  by (induction xs arbitrary: c) (fastforce simp: bind_eq_Some try_send_def split: if_split_asm)+

lemma start_idle:
  assumes "market_driven (le_strategy E)" "le_exec E = paper_exec_client" "le_data E = replay_data_client"
    "live_start E k = LOk k'" "\<not> lv_stop k"
  shows "idle_feed k'"
proof -
  obtain k1 where k1: "on_data replay_connect k = LOk k1"
    and rest: "lbind (on_exec LOk k1) (\<lambda>k. lbind (on_data (\<lambda>d. lift_panic (replay_take_stream d)) k)
       (\<lambda>k. lbind (on_exec (\<lambda>x. lift_panic (paper_take_reports x)) k)
       (\<lambda>k. route_outbox E (live_call E (st_on_start (le_strategy E)) (snd (now_ns E k)))))) = LOk k'"
    using assms(2-4) by (auto simp: live_start_def lbind_LOk paper_exec_client_def replay_data_client_def split_beta Let_def)
  have c: "\<not> ch_open (rp_chan (lv_data_client k1)) \<and> \<not> lv_stop k1"
    using k1 assms(5) by (auto simp: on_data_def replay_connect_def split: if_split_asm option.split_asm)
  have d: "rp_chan (lv_data_client b) = rp_chan (lv_data_client a) \<and> lv_stop b = lv_stop a"
    if "on_data (\<lambda>d. lift_panic (replay_take_stream d)) a = LOk b" for a b :: "('a, 'b, paper_client, replay_client) live"
    using that by (auto simp: on_data_def replay_take_stream_def split: if_split_asm)
  show ?thesis
    using rest c
    by (auto simp: lbind_LOk idle_feed_def dest!: route_outbox_quiet [OF assms(1)] on_exec_sel d)
qed

section \<open>Submission, here and in a backtest\<close>

lemma exec_submit_plain:
  assumes "cache_order (co_cache k) (o_client_order_id o1) = None"
    "cache_instrument (co_cache k) (o_instrument_id o1) = Some inst" "\<not> is_ashare_equity inst"
    "case inst_expiry_ns inst of Some ex \<Rightarrow> now < ex | None \<Rightarrow> True"
  shows "exec_submit D B g pf o1 now k = route_order D B g pf inst o1 now k"
proof -
  have "\<not> (case inst_expiry_ns inst of Some ex \<Rightarrow> ex \<le> now | None \<Rightarrow> False)"
    using assms(4) by (simp add: not_le split: option.splits)
  then show ?thesis
    using assms(1-3)
    by (simp add: exec_submit_def t_plus_one_violation_def is_t_plus_one_def price_limit_violation_def)
qed

lemma live_submit_new:
  assumes "cache_order (lv_cache k) (o_client_order_id o1) = None"
    "cache_instrument (lv_cache k) (o_instrument_id o1) = Some inst"
    "risk_check (le_dec E) (lv_cache k) (lv_risk k) o1 (live_portfolio E k) inst = Some RiskApproved"
    "order_apply (le_dec E) (EvSubmitted now) o1 = Some (r, o2)"
  shows "live_submit E now o1 k =
    on_exec (ec_submit_order (le_exec E) o2) (live_notify E (EvSubmitted now) (track_order o2 k))"
  using assms by (simp add: live_submit_def)

text \<open>
  The live path applies no expiry rule: an order on an expired contract that the risk gate lets
  pass is denied by the execution engine of a backtest and sent to the venue by the live kernel.
\<close>

theorem live_ignores_expiry:
  assumes "cache_order (lv_cache k) (o_client_order_id o1) = None"
    "cache_instrument (lv_cache k) (o_instrument_id o1) = Some inst" "inst_expiry_ns inst = Some ex" "ex \<le> now"
    "risk_check (le_dec E) (lv_cache k) (lv_risk k) o1 (live_portfolio E k) inst = Some RiskApproved"
    "exec_submit (le_dec E) B (lv_risk k) (live_portfolio E k) o1 now
       \<lparr>co_cache = lv_cache k, co_exec = lv_exec k, co_sim = s\<rparr> = Some (evs, co)"
    "order_apply (le_dec E) (EvSubmitted now) o1 = Some (r, o2)"
  shows "evs = [EvDenied (Reason ''instrument expired'' []) now] \<and> co_sim co = s \<and>
    live_submit E now o1 k =
      on_exec (ec_submit_order (le_exec E) o2) (live_notify E (EvSubmitted now) (track_order o2 k))"
  using assms(1-6) deny_order_eq live_submit_new [OF assms(1,2,5,7)]
  by (fastforce simp: exec_submit_def)

section \<open>Properties\<close>

text \<open>
  C8: no order is sent twice. Whatever the strategy submits, and however venue, feed and stop
  requests interleave with the loop, the orders a live kernel has sent to the execution port have
  distinct client order ids, and each of them is tracked in the cache.
\<close>

theorem live_sends_once:
  assumes "le_exec E = logged P" "build_live env cfg sid st (x0, []) d0 = Some k0" "live_start E k0 = LOk k1"
    "live_steps E (\<lambda>x y. V (fst x) (fst y) \<and> snd y = snd x) F k1 k2"
  shows "distinct (map o_client_order_id (snd (lv_exec_client k2))) \<and>
    (\<forall>o'. o' \<notin> set (snd (lv_exec_client k2)) \<or> cache_order (lv_cache k2) (o_client_order_id o') \<noteq> None)"
proof -
  have E: "E\<lparr>le_exec := logged P\<rparr> = E" using assms(1) by simp
  have "once.I k0" using assms(2) unfolding once.I_def by (auto simp: build_live_def sent_once_def split: if_split_asm)
  then have "once.I k1" using once.start_I [of k0 P E] assms(3) by (simp add: E)
  then have "once.I k2" using once.steps_I [of P E _ F k1 k2] assms(4) by (auto simp: E)
  then show ?thesis unfolding once.I_def by (auto simp: sent_once_def tracked_ids_def)
qed

text \<open>
  C18: submission parity. For an instrument under no A-share rule and before its expiry, the live
  kernel tracks exactly what the execution engine of a backtest tracks and notifies the same
  events; it differs only in sending the order to the port where the engine hands it to the
  simulated venue.
\<close>

theorem live_submit_parity:
  assumes "exec_submit (le_dec E) B (lv_risk k) (live_portfolio E k) o1 now
       \<lparr>co_cache = lv_cache k, co_exec = lv_exec k, co_sim = s\<rparr> = Some (evs, co)"
    "cache_instrument (lv_cache k) (o_instrument_id o1) = Some inst" "\<not> is_ashare_equity inst"
    "case inst_expiry_ns inst of Some ex \<Rightarrow> now < ex | None \<Rightarrow> True"
  shows "live_submit E now o1 k =
    (if evs = [EvSubmitted now]
     then on_exec (ec_submit_order (le_exec E) (the (cache_order (co_cache co) (o_client_order_id o1)))) else LOk)
      (fold (live_notify E) evs (k\<lparr>lv_cache := co_cache co\<rparr>))"
proof (cases "cache_order (lv_cache k) (o_client_order_id o1)")
  case None
  with assms have "route_order (le_dec E) B (lv_risk k) (live_portfolio E k) inst o1 now
      \<lparr>co_cache = lv_cache k, co_exec = lv_exec k, co_sim = s\<rparr> = Some (evs, co)"
    using exec_submit_plain by simp
  note route = this
  then obtain dec where dec: "risk_check (le_dec E) (lv_cache k) (lv_risk k) o1 (live_portfolio E k) inst = Some dec"
    by (auto simp: route_order_def bind_eq_Some)
  let ?ev = "case dec of RiskApproved \<Rightarrow> EvSubmitted now | RiskDenied rs \<Rightarrow> EvDenied (Reason (deny_text rs) []) now"
  obtain r o2 where r: "order_apply (le_dec E) ?ev o1 = Some (r, o2)" "evs = [?ev]"
      "co_cache co = add_order o2 (lv_cache k)"
    using route dec by (cases dec) (auto simp: route_order_def deny_order_def bind_eq_Some Let_def)
  then show ?thesis
    using None assms(2) dec order_apply_id [OF r(1)]
    by (cases dec) (simp_all add: live_submit_def track_order_def)
next
  case (Some o2)
  then show ?thesis using assms(1) by (auto simp: exec_submit_def live_submit_def)
qed


section \<open>A session\<close>

definition stubborn :: "unit strategy" where
  "stubborn = idle_strategy\<lparr>st_on_start := \<lambda>_ _. ([CallSubmit sample_order, CallSubmit sample_order], ())\<rparr>"

definition paper_env :: "(unit, paper_client \<times> order list, replay_client) live_env" where
  "paper_env = live_env rdec rev SandboxEnv bt_cfg ''s1'' stubborn (logged paper_exec_client) replay_data_client of_nat None"

definition paper_live :: "(unit, unit, paper_client \<times> order list, replay_client) live" where
  "paper_live =
     \<lparr>lv_clock = sclock_new, lv_reads = 0, lv_cache = seed_cache ''LIVE'' bt_cfg, lv_exec = exec_new,
      lv_bus = bus_new, lv_risk = risk_gate_new unlimited, lv_strategy = (), lv_factory = factory_new ''s1'',
      lv_outbox = [], lv_exec_client = (paper_new ''BINANCE'' (Price 100000 2) usdt, []),
      lv_data_client = replay_new [sample_trade 1000], lv_emitted = [], lv_stop = False\<rparr>"

lemma paper_live_built:
  "build_live SandboxEnv bt_cfg ''s1'' () (paper_new ''BINANCE'' (Price 100000 2) usdt, []) (replay_new [sample_trade 1000]) =
     Some paper_live"
  by (simp add: build_live_def paper_live_def is_live_def bt_cfg_def config_new_def)

lemma paper_started:
  "case live_start paper_env paper_live of
     LOk k \<Rightarrow> map o_client_order_id (snd (lv_exec_client k)) = [''s1-1''] | _ \<Rightarrow> False"
  by code_simp

theorem live_sends_once_witness:
  "\<exists>k1. live_start paper_env paper_live = LOk k1 \<and> map o_client_order_id (snd (lv_exec_client k1)) = [''s1-1''] \<and>
     distinct (map o_client_order_id (snd (lv_exec_client k1)))"
proof -
  obtain k1 where k1: "live_start paper_env paper_live = LOk k1"
      "map o_client_order_id (snd (lv_exec_client k1)) = [''s1-1'']"
    using paper_started by (auto split: lres.split_asm)
  have "le_exec paper_env = logged paper_exec_client" by (simp add: paper_env_def live_env_def)
  from live_sends_once [OF this paper_live_built k1(1), of "\<lambda>_ _. False" "\<lambda>_ _. False" k1]
  show ?thesis using k1 by (auto intro: live_steps.steps_refl)
qed

theorem live_submit_parity_witness:
  "\<exists>evs co. exec_submit rdec (default_model rdec default_default) (lv_risk paper_live) (live_portfolio paper_env paper_live)
       sample_order 5 \<lparr>co_cache = lv_cache paper_live, co_exec = lv_exec paper_live, co_sim = sim_new\<rparr> = Some (evs, co) \<and>
     live_submit paper_env 5 sample_order paper_live =
       (if evs = [EvSubmitted 5]
        then on_exec (ec_submit_order (le_exec paper_env) (the (cache_order (co_cache co) ''s1-1''))) else LOk)
         (fold (live_notify paper_env) evs (paper_live\<lparr>lv_cache := co_cache co\<rparr>))"
proof -
  let ?k = "\<lparr>co_cache = lv_cache paper_live, co_exec = lv_exec paper_live, co_sim = sim_new\<rparr>"
  have D: "le_dec paper_env = rdec" by (simp add: paper_env_def live_env_def)
  have new: "cache_order (lv_cache paper_live) (o_client_order_id sample_order) = None" by code_simp
  have inst: "cache_instrument (lv_cache paper_live) (o_instrument_id sample_order) = Some sample_instrument"
    by (simp add: paper_live_def seed_cache_def bt_cfg_def config_new_def sample_order_def order_new_def set_account_def
        cache_instrument_def add_instrument_def sample_instrument_def currency_pair_dyn_def)
  have plain: "\<not> is_ashare_equity sample_instrument"
    "case inst_expiry_ns sample_instrument of Some ex \<Rightarrow> 5 < ex | None \<Rightarrow> True"
    by code_simp+
  have risk: "risk_check rdec (lv_cache paper_live) (lv_risk paper_live) sample_order (live_portfolio paper_env paper_live)
      sample_instrument = Some RiskApproved"
    by code_simp
  have "\<exists>r o2. order_apply rdec (EvSubmitted 5) sample_order = Some (r, o2)"
    by (simp add: order_apply_def order_guard_def order_goto_def order_ensure_def sample_order_def order_new_def)
  then obtain evs co where ex: "exec_submit (le_dec paper_env) (default_model rdec default_default) (lv_risk paper_live)
       (live_portfolio paper_env paper_live) sample_order 5 ?k = Some (evs, co)"
    using risk exec_submit_plain [of ?k, OF _ _ plain] new inst by (auto simp: D route_order_def Let_def)
  from live_submit_parity [OF ex inst plain] ex show ?thesis
    by (auto simp: D sample_order_def order_new_def)
qed


end
