(* ===== verification/Decimal_Text.thy ===== *)
theory Decimal_Text
  imports Decimal
begin

text \<open>
  The text interface of \<open>rust_decimal\<close> that the venue adapter uses: parsing, printing and the removal
  of trailing zeros. As with the arithmetic, the operations are a parameter, their documented
  behaviour is a locale, and one instance satisfies it.
\<close>

section \<open>Contract\<close>

record dec_text =
  dt_from_str :: "string \<Rightarrow> decimal option"
  dt_to_string :: "decimal \<Rightarrow> string"
  dt_normalize :: "decimal \<Rightarrow> decimal"

locale decimal_text =
  fixes T :: dec_text
  assumes from_str_wf: "dt_from_str T s = Some d \<Longrightarrow> wf_dec d"
    and print_parse: "wf_dec d \<Longrightarrow> dt_from_str T (dt_to_string T d) = Some d"
    and normalize_wf: "wf_dec d \<Longrightarrow> wf_dec (dt_normalize T d)"
    and normalize_val: "dval (dt_normalize T d) = dval d"
    and normalize_least: "dval e = dval d \<Longrightarrow> scale (dt_normalize T d) \<le> scale e"
section \<open>An instance\<close>

text \<open>Removing zeros from the right of the digits, at most as many as there are decimals.\<close>

fun strip_zeros :: "int \<Rightarrow> nat \<Rightarrow> int \<times> nat" where
  "strip_zeros m 0 = (m, 0)"
| "strip_zeros m (Suc s) = (if 10 dvd m then strip_zeros (m div 10) s else (m, Suc s))"

lemma strip_zeros_spec:
  "strip_zeros m s = (m', s') \<Longrightarrow>
    of_int m' / 10 ^ s' = (of_int m / 10 ^ s :: rat) \<and> s' \<le> s \<and> \<bar>m'\<bar> \<le> \<bar>m\<bar> \<and> (s' = 0 \<or> \<not> 10 dvd m')"
proof (induction m s rule: strip_zeros.induct)
  case (2 m s)
  show ?case
  proof (cases "10 dvd m")
    case True
    then obtain k where k: "m = 10 * k" by blast
    with True 2 have "of_int m' / 10 ^ s' = (of_int k / 10 ^ s :: rat) \<and> s' \<le> s \<and> \<bar>m'\<bar> \<le> \<bar>k\<bar> \<and> (s' = 0 \<or> \<not> 10 dvd m')"
      by simp
    then show ?thesis by (auto simp: k field_simps)
  qed (use 2 in auto)
qed auto

definition pad_left :: "nat \<Rightarrow> string \<Rightarrow> string" where
  "pad_left n s = replicate (n - length s) (CHR ''0'') @ s"

definition show_dec :: "decimal \<Rightarrow> string" where
  "show_dec d =
     (let ds = pad_left (Suc (scale d)) (show_nat (nat \<bar>mantissa d\<bar>)); k = length ds - scale d
      in (if mantissa d < 0 then ''-'' else []) @ take k ds @ (if scale d = 0 then [] else CHR ''.'' # drop k ds))"

definition read_unsigned :: "string \<Rightarrow> int \<times> nat" where
  "read_unsigned t =
     (let ip = takeWhile (\<lambda>c. c \<noteq> CHR ''.'') t; fp = tl (dropWhile (\<lambda>c. c \<noteq> CHR ''.'') t)
      in (int (read_nat (ip @ fp)), length fp))"

definition read_dec :: "string \<Rightarrow> decimal option" where
  "read_dec s =
     (let neg = (s \<noteq> [] \<and> hd s = CHR ''-''); (m, k) = read_unsigned (if neg then tl s else s)
      in if \<bar>m\<bar> < 2 ^ 96 \<and> k \<le> 28 then Some \<lparr>mantissa = (if neg then - m else m), scale = k\<rparr> else None)"

definition rtext :: dec_text where
  "rtext =
     \<lparr>dt_from_str = read_dec, dt_to_string = show_dec,
      dt_normalize = (\<lambda>d. if mantissa d = 0 then dec_zero
        else let (m, s) = strip_zeros (mantissa d) (scale d) in \<lparr>mantissa = m, scale = s\<rparr>)\<rparr>"

lemma show_nat_digits: "c \<in> set (show_nat n) \<Longrightarrow> \<exists>k < 10. c = digit_char k"
proof (induction n rule: show_nat.induct)
  case (1 n)
  have "\<exists>k < 10. digit_char (n mod 10) = digit_char k" by (intro exI [of _ "n mod 10"]) simp
  then show ?case using 1 by (cases "n < 10") (auto simp: show_nat.simps [of n])
qed

lemma digit_char_plain: "k < 10 \<Longrightarrow> digit_char k \<notin> {CHR ''.'', CHR ''-''}"
  by (auto simp: digit_char_def dest: arg_cong [where f = "of_char :: char \<Rightarrow> nat"])

lemma pad_left_plain: "c \<in> set (pad_left n (show_nat k)) \<Longrightarrow> c \<noteq> CHR ''.'' \<and> c \<noteq> CHR ''-''"
  using show_nat_digits digit_char_plain by (fastforce simp: pad_left_def)

lemma length_pad_left: "length (pad_left n s) = max n (length s)"
  by (simp add: pad_left_def)

definition show_unsigned :: "decimal \<Rightarrow> string" where
  "show_unsigned d =
     (let ds = pad_left (Suc (scale d)) (show_nat (nat \<bar>mantissa d\<bar>)); k = length ds - scale d
      in take k ds @ (if scale d = 0 then [] else CHR ''.'' # drop k ds))"

lemma show_dec_sign: "show_dec d = (if mantissa d < 0 then ''-'' else []) @ show_unsigned d"
  by (simp add: show_dec_def show_unsigned_def Let_def)

lemma show_unsigned_reads:
  "read_unsigned (show_unsigned d) = (\<bar>mantissa d\<bar>, scale d) \<and> show_unsigned d \<noteq> [] \<and> hd (show_unsigned d) \<noteq> CHR ''-''"
proof -
  define ds where "ds = pad_left (Suc (scale d)) (show_nat (nat \<bar>mantissa d\<bar>))"
  define k where "k = length ds - scale d"
  define t where "t = take k ds @ (if scale d = 0 then [] else CHR ''.'' # drop k ds)"
  have k: "0 < k" "k \<le> length ds" and len: "length (drop k ds) = scale d" by (simp_all add: k_def ds_def length_pad_left)
  have plain: "\<forall>c \<in> set (take k ds). c \<noteq> CHR ''.'' \<and> c \<noteq> CHR ''-''"
    using pad_left_plain unfolding ds_def by (blast dest: in_set_takeD)
  have parts: "takeWhile (\<lambda>c. c \<noteq> CHR ''.'') t = take k ds" "tl (dropWhile (\<lambda>c. c \<noteq> CHR ''.'') t) = drop k ds"
    using plain len unfolding t_def by (auto simp: takeWhile_append2 dropWhile_append2)
  have "int (read_nat ds) = \<bar>mantissa d\<bar>" by (simp add: ds_def pad_left_def read_nat_zeros)
  then have "read_unsigned t = (\<bar>mantissa d\<bar>, scale d)" using parts len by (simp add: read_unsigned_def)
  moreover have "t \<noteq> [] \<and> hd t \<noteq> CHR ''-''" using k plain unfolding t_def by (cases "take k ds") auto
  moreover have "show_unsigned d = t" by (simp add: show_unsigned_def t_def k_def ds_def Let_def)
  ultimately show ?thesis by simp
qed

lemma read_dec_show_dec:
  assumes "wf_dec d"
  shows "read_dec (show_dec d) = Some d"
  using show_unsigned_reads [of d] assms by (auto simp: read_dec_def show_dec_sign Let_def wf_dec_def split: prod.split)

interpretation rt: decimal_text rtext
proof unfold_locales
  fix s :: string and d e :: decimal
  show "wf_dec d" if "dt_from_str rtext s = Some d"
    using that by (auto simp: rtext_def read_dec_def wf_dec_def Let_def split: if_split_asm prod.split_asm)
  show "dt_from_str rtext (dt_to_string rtext d) = Some d" if "wf_dec d"
    using read_dec_show_dec [OF that] by (simp add: rtext_def)
  obtain m' s' where strip: "strip_zeros (mantissa d) (scale d) = (m', s')" by fastforce
  note spec = strip_zeros_spec [OF strip]
  show "wf_dec (dt_normalize rtext d)" if "wf_dec d"
    using that strip spec by (auto simp: rtext_def wf_dec_def dec_zero_def dec_int_def)
  show "dval (dt_normalize rtext d) = dval d"
    using strip spec by (auto simp: rtext_def dval_def dec_zero_def dec_int_def)
  show "scale (dt_normalize rtext d) \<le> scale e" if eq: "dval e = dval d"
  proof (rule ccontr)
    assume "\<not> ?thesis"
    then have n: "mantissa d \<noteq> 0" "scale e < s'"
      using strip by (auto simp: rtext_def dec_zero_def dec_int_def split: if_split_asm)
    then obtain k where k: "s' = scale e + k" using less_imp_add_positive by blast
    have "of_int m' / 10 ^ s' = (of_int (mantissa e) / 10 ^ scale e :: rat)" using eq spec by (simp add: dval_def)
    then have "of_int m' = (of_int (mantissa e * 10 ^ (s' - scale e)) :: rat)"
      by (simp add: k power_add field_simps)
    then have "m' = mantissa e * 10 ^ (s' - scale e)" by (simp only: of_int_eq_iff)
    then have "10 dvd m'" using n(2) by (auto intro: dvd_mult dvd_power)
    then show False using spec n(2) by auto
  qed
qed

end
