(* ===== verification/Depth.thy ===== *)
theory Depth
  imports Book
begin

text \<open>
  The market-data side of \<open>market-data/crates/coinext-adapters-binance\<close>: the gap detection of
  \<open>book.rs\<close>, and from \<open>data.rs\<close> the normalization of frames and the depth resynchronization.

  Text is turned into JSON values by \<open>serde_json\<close> and into decimals by \<open>rust_decimal\<close>; the model
  starts from JSON values and takes the decimal parser as an argument. A \<open>Result\<close> whose error is a
  diagnostic string is an option. Snapshots are fetched over the network: what the fetches of a
  frame answer is an argument.
\<close>

section \<open>Gap detection\<close>

record depth_update =
  du_first :: u64
  du_last :: u64
  du_prev :: "u64 option"

datatype apply_outcome = Applied | Skipped | Resync

definition check_first :: "depth_update \<Rightarrow> u64 \<Rightarrow> bool" where
  "check_first u s \<longleftrightarrow> du_first u \<le> s + 1 \<and> s + 1 \<le> du_last u"

definition check_next :: "depth_update \<Rightarrow> u64 \<Rightarrow> bool" where
  "check_next u p \<longleftrightarrow> (case du_prev u of Some pu \<Rightarrow> pu = p | None \<Rightarrow> du_first u = p + 1)"

record local_book =
  lb_last :: u64
  lb_synced :: bool

definition local_book_new :: local_book where
  "local_book_new = \<lparr>lb_last = 0, lb_synced = False\<rparr>"

definition install_snapshot :: "u64 \<Rightarrow> local_book \<Rightarrow> local_book" where
  "install_snapshot s b = \<lparr>lb_last = s, lb_synced = False\<rparr>"

definition apply_diff :: "depth_update \<Rightarrow> local_book \<Rightarrow> apply_outcome \<times> local_book" where
  "apply_diff u b =
     (if \<not> lb_synced b
      then if du_last u \<le> lb_last b then (Skipped, b)
           else if check_first u (lb_last b) then (Applied, \<lparr>lb_last = du_last u, lb_synced = True\<rparr>)
           else (Resync, b)
      else if du_last u \<le> lb_last b then (Skipped, b)
           else if check_next u (lb_last b) then (Applied, b\<lparr>lb_last := du_last u\<rparr>)
           else (Resync, b\<lparr>lb_synced := False\<rparr>))"

section \<open>Resynchronization\<close>

datatype depth_action = Continue | NeedSnapshot

record book_state =
  bk_book :: local_book
  bk_buffer :: "depth_update list"
  bk_awaiting :: bool

definition book_state_new :: book_state where
  "book_state_new = \<lparr>bk_book = local_book_new, bk_buffer = [], bk_awaiting = False\<rparr>"

type_synonym resyncer = "string \<rightharpoonup> book_state"

definition mark_all_for_resync :: "resyncer \<Rightarrow> resyncer" where
  "mark_all_for_resync m = (\<lambda>s. map_option (\<lambda>_. book_state_new) (m s))"

definition entry_or_default :: "string \<Rightarrow> resyncer \<Rightarrow> book_state" where
  "entry_or_default s m = (case m s of Some b \<Rightarrow> b | None \<Rightarrow> book_state_new)"

definition diff_state :: "depth_update \<Rightarrow> book_state \<Rightarrow> depth_action \<times> book_state" where
  "diff_state u b =
     (if bk_awaiting b then (NeedSnapshot, b\<lparr>bk_buffer := bk_buffer b @ [u]\<rparr>)
      else if \<not> lb_synced (bk_book b) \<and> lb_last (bk_book b) = 0
      then (NeedSnapshot, b\<lparr>bk_awaiting := True, bk_buffer := bk_buffer b @ [u]\<rparr>)
      else case apply_diff u (bk_book b) of
             (Resync, l) \<Rightarrow> (NeedSnapshot, \<lparr>bk_book = l, bk_buffer = [u], bk_awaiting = True\<rparr>)
           | (_, l) \<Rightarrow> (Continue, b\<lparr>bk_book := l\<rparr>))"

definition on_diff :: "string \<Rightarrow> depth_update \<Rightarrow> resyncer \<Rightarrow> depth_action \<times> resyncer" where
  "on_diff s u m = (let (a, b) = diff_state u (entry_or_default s m) in (a, m(s \<mapsto> b)))"

text \<open>Replaying the buffer over a snapshot: the book it leaves, or \<open>Resync\<close> with the book at the gap.\<close>

fun replay_buffer :: "u64 \<Rightarrow> depth_update list \<Rightarrow> local_book \<Rightarrow> bool \<times> local_book" where
  "replay_buffer s [] l = (True, l)"
| "replay_buffer s (u # us) l =
     (if du_last u \<le> s then replay_buffer s us l
      else case apply_diff u l of
             (Resync, l') \<Rightarrow> (False, l')
           | (_, l') \<Rightarrow> replay_buffer s us l')"

definition snapshot_state :: "u64 \<Rightarrow> book_state \<Rightarrow> depth_action \<times> book_state" where
  "snapshot_state s b =
     (case replay_buffer s (bk_buffer b) (install_snapshot s (bk_book b)) of
        (True, l) \<Rightarrow> (Continue, \<lparr>bk_book = l, bk_buffer = [], bk_awaiting = False\<rparr>)
      | (False, l) \<Rightarrow> (NeedSnapshot, \<lparr>bk_book = l, bk_buffer = [], bk_awaiting = True\<rparr>))"

definition on_snapshot :: "string \<Rightarrow> u64 \<Rightarrow> resyncer \<Rightarrow> depth_action \<times> resyncer" where
  "on_snapshot s n m = (let (a, b) = snapshot_state n (entry_or_default s m) in (a, m(s \<mapsto> b)))"

definition is_synced :: "string \<Rightarrow> resyncer \<Rightarrow> bool" where
  "is_synced s m = (case m s of Some b \<Rightarrow> lb_synced (bk_book b) | None \<Rightarrow> False)"

section \<open>Frames\<close>

datatype json =
    JNull
  | JBool bool
  | JInt int
  | JFloat string
  | JStr string
  | JArr "json list"
  | JObj "(string \<times> json) list"

fun json_get :: "string \<Rightarrow> json \<Rightarrow> json option" where
  "json_get k (JObj kvs) = map_of kvs k"
| "json_get k _ = None"

fun as_str :: "json \<Rightarrow> string option" where
  "as_str (JStr s) = Some s"
| "as_str _ = None"

fun as_u64 :: "json \<Rightarrow> u64 option" where
  "as_u64 (JInt n) = (if 0 \<le> n \<and> n < 2 ^ 64 then Some (of_int n) else None)"
| "as_u64 _ = None"

fun as_bool :: "json \<Rightarrow> bool option" where
  "as_bool (JBool b) = Some b"
| "as_bool _ = None"

fun as_array :: "json \<Rightarrow> json list option" where
  "as_array (JArr xs) = Some xs"
| "as_array _ = None"

fun array_get :: "nat \<Rightarrow> json list \<Rightarrow> json option" where
  "array_get i [] = None"
| "array_get 0 (x # xs) = Some x"
| "array_get (Suc i) (x # xs) = array_get i xs"

definition WIRE_PRECISION :: nat where
  "WIRE_PRECISION = 8"

definition saturating_ms :: "u64 \<Rightarrow> unix_nanos" where
  "saturating_ms ms = (if uint ms * 1000000 < 2 ^ 64 then ms * 1000000 else - 1)"

definition binance_id :: "symbol \<Rightarrow> instrument_id" where
  "binance_id s = InstrumentId s ''BINANCE''"

definition str_field :: "json \<Rightarrow> string \<Rightarrow> string option" where
  "str_field data key = Option.bind (json_get key data) as_str"

definition num_field :: "json \<Rightarrow> string \<Rightarrow> u64 option" where
  "num_field data key = Option.bind (json_get key data) as_u64"

text \<open>\<open>from_str\<close> is the decimal parser.\<close>

definition parse_price :: "dec_ops \<Rightarrow> (string \<Rightarrow> decimal option) \<Rightarrow> string \<Rightarrow> price option" where
  "parse_price D from_str s = do { d \<leftarrow> from_str s; result_ok (price_from_decimal D d WIRE_PRECISION) }"

definition parse_qty :: "dec_ops \<Rightarrow> (string \<Rightarrow> decimal option) \<Rightarrow> string \<Rightarrow> quantity option" where
  "parse_qty D from_str s = do { d \<leftarrow> from_str s; result_ok (qty_from_decimal D d WIRE_PRECISION) }"

definition normalize_trade ::
  "dec_ops \<Rightarrow> (string \<Rightarrow> decimal option) \<Rightarrow> json \<Rightarrow> unix_nanos \<Rightarrow> trade_tick option" where
  "normalize_trade D from_str data ts_init = do {
     sy \<leftarrow> str_field data ''s'';
     p \<leftarrow> str_field data ''p'';
     price \<leftarrow> parse_price D from_str p;
     q \<leftarrow> str_field data ''q'';
     size \<leftarrow> parse_qty D from_str q;
     trade_id \<leftarrow> num_field data ''t'';
     let buyer_is_maker = (case Option.bind (json_get ''m'' data) as_bool of Some b \<Rightarrow> b | None \<Rightarrow> False);
     t \<leftarrow> num_field data ''T'';
     Some \<lparr>tt_instrument_id = binance_id sy, tt_price = price, tt_size = size,
       tt_aggressor = (if buyer_is_maker then Sell else Buy), tt_trade_id = show_nat (unat trade_id),
       tt_ts_event = saturating_ms t, tt_ts_init = ts_init\<rparr> }"

definition normalize_book_ticker ::
  "dec_ops \<Rightarrow> (string \<Rightarrow> decimal option) \<Rightarrow> json \<Rightarrow> unix_nanos \<Rightarrow> quote_tick option" where
  "normalize_book_ticker D from_str data ts_init = do {
     sy \<leftarrow> str_field data ''s'';
     b \<leftarrow> str_field data ''b'';
     bid \<leftarrow> parse_price D from_str b;
     a \<leftarrow> str_field data ''a'';
     ask \<leftarrow> parse_price D from_str a;
     bs \<leftarrow> str_field data ''B'';
     bid_size \<leftarrow> parse_qty D from_str bs;
     as \<leftarrow> str_field data ''A'';
     ask_size \<leftarrow> parse_qty D from_str as;
     Some \<lparr>qt_instrument_id = binance_id sy, qt_bid = bid, qt_ask = ask, qt_bid_size = bid_size,
       qt_ask_size = ask_size, qt_ts_event = ts_init, qt_ts_init = ts_init\<rparr> }"

definition parse_level ::
  "dec_ops \<Rightarrow> (string \<Rightarrow> decimal option) \<Rightarrow> json \<Rightarrow> (price \<times> quantity) option" where
  "parse_level D from_str level = do {
     pair \<leftarrow> as_array level;
     p \<leftarrow> Option.bind (array_get 0 pair) as_str;
     price \<leftarrow> parse_price D from_str p;
     q \<leftarrow> Option.bind (array_get 1 pair) as_str;
     size \<leftarrow> parse_qty D from_str q;
     Some (price, size) }"

text \<open>One side of a frame: its levels in order, each a delta made by \<open>mk\<close>; the first bad level fails.\<close>

definition parse_side ::
  "dec_ops \<Rightarrow> (string \<Rightarrow> decimal option) \<Rightarrow> json \<Rightarrow> string \<Rightarrow> (price \<times> quantity \<Rightarrow> order_book_delta) \<Rightarrow>
   order_book_delta list option" where
  "parse_side D from_str data key mk = do {
     levels \<leftarrow> Option.bind (json_get key data) as_array;
     those (map (\<lambda>l. map_option mk (parse_level D from_str l)) levels) }"

definition normalize_depth ::
  "dec_ops \<Rightarrow> (string \<Rightarrow> decimal option) \<Rightarrow> json \<Rightarrow> unix_nanos \<Rightarrow> (depth_update \<times> order_book_delta list) option" where
  "normalize_depth D from_str data ts_init = do {
     sy \<leftarrow> str_field data ''s'';
     fst_id \<leftarrow> num_field data ''U'';
     seqn \<leftarrow> num_field data ''u'';
     let pu = Option.bind (json_get ''pu'' data) as_u64;
     e \<leftarrow> num_field data ''E'';
     let mk = (\<lambda>side (px, sz). \<lparr>bd_instrument_id = binance_id sy,
        bd_action = (if qty_is_zero sz then BookDelete else BookUpdate), bd_side = side, bd_price = px,
        bd_size = sz, bd_sequence = seqn, bd_ts_event = saturating_ms e, bd_ts_init = ts_init\<rparr>);
     bids \<leftarrow> parse_side D from_str data ''b'' (mk Buy);
     asks \<leftarrow> parse_side D from_str data ''a'' (mk Sell);
     Some (\<lparr>du_first = fst_id, du_last = seqn, du_prev = pu\<rparr>, bids @ asks) }"

definition parse_depth_snapshot_last_id :: "json \<Rightarrow> u64 option" where
  "parse_depth_snapshot_last_id v = Option.bind (json_get ''lastUpdateId'' v) as_u64"

definition normalize_depth_snapshot ::
  "dec_ops \<Rightarrow> (string \<Rightarrow> decimal option) \<Rightarrow> symbol \<Rightarrow> json \<Rightarrow> unix_nanos \<Rightarrow> unix_nanos \<Rightarrow>
   (u64 \<times> order_book_delta list) option" where
  "normalize_depth_snapshot D from_str sy v ts_event ts_init = do {
     n \<leftarrow> Option.bind (json_get ''lastUpdateId'' v) as_u64;
     px0 \<leftarrow> result_ok (price_from_raw 0 WIRE_PRECISION);
     sz0 \<leftarrow> result_ok (qty_from_raw 0 WIRE_PRECISION);
     let mk = (\<lambda>act side (px, sz). \<lparr>bd_instrument_id = binance_id sy, bd_action = act, bd_side = side,
        bd_price = px, bd_size = sz, bd_sequence = n, bd_ts_event = ts_event, bd_ts_init = ts_init\<rparr>);
     bids \<leftarrow> parse_side D from_str v ''bids'' (mk BookAdd Buy);
     asks \<leftarrow> parse_side D from_str v ''asks'' (mk BookAdd Sell);
     Some (n, mk BookClear Buy (px0, sz0) # bids @ asks) }"

definition kline_to_bar ::
  "dec_ops \<Rightarrow> (string \<Rightarrow> decimal option) \<Rightarrow> json \<Rightarrow> bar_type \<Rightarrow> bar option" where
  "kline_to_bar D from_str row bt = do {
     arr \<leftarrow> as_array row;
     close_ms \<leftarrow> Option.bind (array_get 6 arr) as_u64;
     o' \<leftarrow> Option.bind (Option.bind (array_get 1 arr) as_str) (parse_price D from_str);
     h \<leftarrow> Option.bind (Option.bind (array_get 2 arr) as_str) (parse_price D from_str);
     l \<leftarrow> Option.bind (Option.bind (array_get 3 arr) as_str) (parse_price D from_str);
     c \<leftarrow> Option.bind (Option.bind (array_get 4 arr) as_str) (parse_price D from_str);
     v \<leftarrow> Option.bind (Option.bind (array_get 5 arr) as_str) (parse_qty D from_str);
     let ts = saturating_ms close_ms;
     Some \<lparr>b_bar_type = bt, b_open = o', b_high = h, b_low = l, b_close = c, b_volume = v,
       b_ts_event = ts, b_ts_init = ts\<rparr> }"

text \<open>\<open>step.max(1)\<close> and the unit of a kline interval; ticks fall back to minutes.\<close>

definition bar_aggregation_to_interval :: "bar_aggregation \<Rightarrow> nat \<Rightarrow> string" where
  "bar_aggregation_to_interval agg step =
     show_nat (max step 1) @
     (case agg of AggSecond \<Rightarrow> ''s'' | AggMinute \<Rightarrow> ''m'' | AggHour \<Rightarrow> ''h'' | AggDay \<Rightarrow> ''d'' | AggTick \<Rightarrow> ''m'')"

section \<open>The pump\<close>

fun is_prefix_of :: "'a list \<Rightarrow> 'a list \<Rightarrow> bool" where
  "is_prefix_of [] ys = True"
| "is_prefix_of (x # xs) [] = False"
| "is_prefix_of (x # xs) (y # ys) = (x = y \<and> is_prefix_of xs ys)"

fun contains_str :: "string \<Rightarrow> string \<Rightarrow> bool" where
  "contains_str p [] = (p = [])"
| "contains_str p (c # cs) = (is_prefix_of p (c # cs) \<or> contains_str p cs)"

definition ends_with_str :: "string \<Rightarrow> string \<Rightarrow> bool" where
  "ends_with_str p s = is_prefix_of (rev p) (rev s)"

definition normalize_combined_frame ::
  "dec_ops \<Rightarrow> (string \<Rightarrow> decimal option) \<Rightarrow> json option \<Rightarrow> u64 \<Rightarrow> market_event list option" where
  "normalize_combined_frame D from_str parsed ts_init_ms = do {
     frame \<leftarrow> parsed;
     stream \<leftarrow> Option.bind (json_get ''stream'' frame) as_str;
     data \<leftarrow> json_get ''data'' frame;
     let ts_init = saturating_ms ts_init_ms;
     if ends_with_str ''@trade'' stream then map_option (\<lambda>t. [MTrade t]) (normalize_trade D from_str data ts_init)
     else if ends_with_str ''@bookTicker'' stream
     then map_option (\<lambda>q. [MQuote q]) (normalize_book_ticker D from_str data ts_init)
     else if contains_str ''@depth'' stream
     then map_option (\<lambda>(u, ds). map MDelta ds) (normalize_depth D from_str data ts_init)
     else None }"

text \<open>
  The fetch loop of \<open>process_frame\<close>: \<open>fetch i\<close> is the answer of the \<open>i\<close>-th request, \<open>None\<close> when it
  failed, which ends the frame. The result is the snapshot to flush, if the loop got through.
\<close>

function fetch_loop ::
  "(nat \<Rightarrow> (u64 \<times> order_book_delta list) option) \<Rightarrow> nat \<Rightarrow> string \<Rightarrow> depth_action \<Rightarrow> order_book_delta list \<Rightarrow> resyncer \<Rightarrow>
   order_book_delta list option \<times> resyncer" where
  "fetch_loop fetch i s Continue snap m = (Some snap, m)"
| "fetch_loop fetch i s NeedSnapshot snap m =
     (case fetch i of
        None \<Rightarrow> (None, m)
      | Some (n, snap') \<Rightarrow> (case on_snapshot s n m of (a, m') \<Rightarrow> fetch_loop fetch (Suc i) s a snap' m'))"
  by pat_completeness auto

text \<open>A refused snapshot empties the buffer, and nothing refuses a snapshot over an empty buffer.\<close>

lemma on_snapshot_refused:
  assumes "on_snapshot s n m = (NeedSnapshot, m')"
  shows "bk_buffer (entry_or_default s m) \<noteq> [] \<and> bk_buffer (entry_or_default s m') = []"
  using assms
  by (cases "bk_buffer (entry_or_default s m)")
    (auto simp: on_snapshot_def snapshot_state_def entry_or_default_def Let_def split: prod.split_asm bool.split_asm)

termination fetch_loop
proof (relation "measure (\<lambda>(fetch, i, s, a, snap, m).
    case a of Continue \<Rightarrow> 0 | NeedSnapshot \<Rightarrow> Suc (length (bk_buffer (entry_or_default s m))))")
  fix i s m and z :: "u64 \<times> order_book_delta list" and n snap' y a m'
  fix fetch :: "nat \<Rightarrow> (u64 \<times> order_book_delta list) option" and snap :: "order_book_delta list"
  assume "(a, m') = on_snapshot s n m"
  then show "((fetch, Suc i, s, a, snap', m'), fetch, i, s, NeedSnapshot, snap, m) \<in> measure (\<lambda>(fetch, i, s, a, snap, m).
    case a of Continue \<Rightarrow> 0 | NeedSnapshot \<Rightarrow> Suc (length (bk_buffer (entry_or_default s m))))"
    using on_snapshot_refused [of s n m m'] by (auto split: depth_action.split)
qed simp

definition depth_frame ::
  "dec_ops \<Rightarrow> (string \<Rightarrow> decimal option) \<Rightarrow> (string \<Rightarrow> nat \<Rightarrow> json option) \<Rightarrow> json \<Rightarrow> unix_nanos \<Rightarrow> resyncer \<Rightarrow>
   market_event list \<times> resyncer" where
  "depth_frame D from_str rest data ts_init m =
     (case (normalize_depth D from_str data ts_init, str_field data ''s'') of
        (Some (update, deltas), Some sy) \<Rightarrow>
          (let snap_ts = (case num_field data ''E'' of Some e \<Rightarrow> saturating_ms e | None \<Rightarrow> ts_init);
               fetch = (\<lambda>i. Option.bind (rest sy i) (\<lambda>body. normalize_depth_snapshot D from_str sy body snap_ts ts_init));
               (action, m1) = on_diff sy update m
           in case fetch_loop fetch 0 sy action [] m1 of
                (None, m2) \<Rightarrow> ([], m2)
              | (Some snap, m2) \<Rightarrow> (if is_synced sy m2 then map MDelta (snap @ deltas) else [], m2))
      | _ \<Rightarrow> ([], m))"

definition process_frame ::
  "dec_ops \<Rightarrow> (string \<Rightarrow> decimal option) \<Rightarrow> (string \<Rightarrow> nat \<Rightarrow> json option) \<Rightarrow> json option \<Rightarrow> u64 \<Rightarrow> resyncer \<Rightarrow>
   market_event list \<times> resyncer" where
  "process_frame D from_str rest parsed ts_init_ms m =
     (case (Option.bind parsed (\<lambda>f. Option.bind (json_get ''stream'' f) as_str), Option.bind parsed (json_get ''data'')) of
        (Some stream, Some data) \<Rightarrow>
          if contains_str ''@depth'' stream then depth_frame D from_str rest data (saturating_ms ts_init_ms) m
          else (case normalize_combined_frame D from_str parsed ts_init_ms of Some evs \<Rightarrow> evs | None \<Rightarrow> [], m)
      | _ \<Rightarrow> ([], m))"

text \<open>
  A message of the socket, with the time it is handled, the parse of its text and the answers of
  the requests made while it is handled.
\<close>

datatype ws_message =
    WsText "json option" u64 "string \<Rightarrow> nat \<Rightarrow> json option"
  | Reconnected

fun pump :: "dec_ops \<Rightarrow> (string \<Rightarrow> decimal option) \<Rightarrow> ws_message list \<Rightarrow> resyncer \<Rightarrow> market_event list \<times> resyncer" where
  "pump D from_str [] m = ([], m)"
| "pump D from_str (Reconnected # msgs) m = pump D from_str msgs (mark_all_for_resync m)"
| "pump D from_str (WsText parsed ms rest # msgs) m =
     (let (evs, m1) = process_frame D from_str rest parsed ms m;
          (evs', m2) = pump D from_str msgs m1
      in (evs @ evs', m2))"

section \<open>Continuity\<close>

text \<open>The diffs a book applies out of a stream, up to the first gap.\<close>

fun absorb :: "depth_update list \<Rightarrow> local_book \<Rightarrow> depth_update list \<times> local_book" where
  "absorb [] b = ([], b)"
| "absorb (u # us) b =
     (case apply_diff u b of
        (Applied, b') \<Rightarrow> (let (l, b2) = absorb us b' in (u # l, b2))
      | (Skipped, b') \<Rightarrow> absorb us b'
      | (Resync, b') \<Rightarrow> ([], b'))"

text \<open>The venue's numbering: the previous id a diff names is the one before its first.\<close>

definition well_numbered :: "depth_update \<Rightarrow> bool" where
  "well_numbered u \<longleftrightarrow> (case du_prev u of Some pu \<Rightarrow> du_first u = pu + 1 | None \<Rightarrow> True)"

lemma apply_diff_Applied:
  assumes "apply_diff u b = (Applied, b')" "well_numbered u"
  shows "lb_last b < du_last u \<and> du_first u \<le> lb_last b + 1 \<and> lb_last b' = du_last u \<and> lb_synced b'"
  using assms
  by (auto simp: apply_diff_def check_first_def check_next_def well_numbered_def split: if_split_asm option.split_asm)

lemma apply_diff_other: "apply_diff u b = (r, b') \<Longrightarrow> r \<noteq> Applied \<Longrightarrow> lb_last b' = lb_last b"
  by (auto simp: apply_diff_def split: if_split_asm)

lemma absorb_covers:
  "\<forall>u \<in> set us. well_numbered u \<Longrightarrow> absorb us b = (l, b') \<Longrightarrow> lb_last b < i \<Longrightarrow> i \<le> lb_last b' \<Longrightarrow>
    \<exists>u \<in> set l. du_first u \<le> i \<and> i \<le> du_last u"
proof (induction us arbitrary: b l)
  case (Cons u us)
  obtain r b1 where step: "apply_diff u b = (r, b1)" by fastforce
  show ?case
  proof (cases r)
    case Applied
    then obtain l' where l: "absorb us b1 = (l', b')" "l = u # l'"
      using Cons.prems(2) step by (auto split: prod.split_asm)
    note a = apply_diff_Applied [of u b b1]
    show ?thesis
    proof (cases "i \<le> du_last u")
      case True
      have "lb_last b + 1 \<le> i" using Cons.prems(3) by (rule inc_le)
      then show ?thesis using a step Applied Cons.prems(1) True l(2) by (auto intro: order_trans)
    next
      case False
      then show ?thesis using Cons.IH [OF _ l(1)] a step Applied Cons.prems l(2) by auto
    qed
  qed (use Cons step apply_diff_other [OF step] in auto)
qed auto

section \<open>Snapshots\<close>

lemma fetch_loop_two:
  assumes "fetch i = fetch' i" "fetch (Suc i) = fetch' (Suc i)"
  shows "fetch_loop fetch i s a snap m = fetch_loop fetch' i s a snap m"
proof (cases a)
  case NeedSnapshot
  have again: "fetch_loop fetch (Suc i) s c x m' = fetch_loop fetch' (Suc i) s c x m'"
    if "on_snapshot s n m = (c, m')" for c n m' x
  proof (cases c)
    case NeedSnapshot
    with that have "bk_buffer (entry_or_default s m') = []" using on_snapshot_refused by blast
    then have "fst (on_snapshot s k m') = Continue" for k using on_snapshot_refused [of s k m']
      by (cases "on_snapshot s k m'"; cases "fst (on_snapshot s k m')") auto
    then show ?thesis using NeedSnapshot assms(2) by (auto split: option.split prod.split) (metis fst_conv fetch_loop.simps(1))
  qed simp
  then show ?thesis using NeedSnapshot assms(1) by (auto split: option.split prod.split)
qed simp

lemma fetch_loop_snap:
  "fetch_loop fetch i s NeedSnapshot x m = (Some snap, m') \<Longrightarrow> \<exists>j n. fetch j = Some (n, snap)"
proof (induction fetch i s NeedSnapshot x m rule: fetch_loop.induct)
  case (2 fetch i s x m)
  then obtain n snap' where f: "fetch i = Some (n, snap')" by (auto split: option.split_asm)
  obtain a m1 where o: "on_snapshot s n m = (a, m1)" by fastforce
  show ?case
  proof (cases a)
    case Continue
    then show ?thesis using 2(2) f o by auto
  next
    case NeedSnapshot
    then show ?thesis using 2(1) [OF f refl, of m1] 2(2) f o by simp
  qed
qed

lemma snapshot_clears:
  assumes "normalize_depth_snapshot D fs sy v te ti = Some (n, snap)"
  shows "\<exists>c ds. snap = c # ds \<and> bd_action c = BookClear \<and> bd_sequence c = n"
  using assms by (auto simp: normalize_depth_snapshot_def bind_eq_Some Let_def)

section \<open>Properties\<close>

text \<open>
  C20: no update is lost. When the venue numbers its diffs as documented, every update id between
  the installed snapshot and the last id the book reports lies in a diff the book applied.
\<close>

theorem depth_no_gap:
  assumes "\<forall>u \<in> set us. well_numbered u" "absorb us (install_snapshot s b) = (l, b')" "s < i" "i \<le> lb_last b'"
  shows "\<exists>u \<in> set l. du_first u \<le> i \<and> i \<le> du_last u"
  using absorb_covers [OF assms(1,2) _ assms(4)] assms(3) by (simp add: install_snapshot_def)

theorem depth_no_gap_witness:
  "\<exists>u. u = \<lparr>du_first = 106, du_last = 110, du_prev = Some 105\<rparr> \<and> du_first u \<le> 108 \<and> 108 \<le> du_last u"
proof -
  let ?us = "[\<lparr>du_first = 90, du_last = 99, du_prev = None\<rparr>, \<lparr>du_first = 99, du_last = 105, du_prev = None\<rparr>,
    \<lparr>du_first = 106, du_last = 110, du_prev = Some 105\<rparr>]"
  have "absorb ?us (install_snapshot 100 local_book_new) = (tl ?us, \<lparr>lb_last = 110, lb_synced = True\<rparr>)"
    by code_simp
  moreover have "\<forall>u \<in> set ?us. well_numbered u" by (simp add: well_numbered_def)
  ultimately show ?thesis using depth_no_gap [of ?us 100 local_book_new _ _ 108] by force
qed

text \<open>
  A resynchronization asks for at most two snapshots. Whatever the later answers would be, the
  loop that fetches snapshots for a frame ends after the second one.
\<close>

theorem resync_two_fetches:
  assumes "fetch 0 = fetch' 0" "fetch 1 = fetch' 1"
  shows "fetch_loop fetch 0 s a snap m = fetch_loop fetch' 0 s a snap m"
  using fetch_loop_two [of fetch 0 fetch'] assms by simp

text \<open>
  A resynchronized book is the snapshot. When a frame triggers a snapshot and is emitted, the
  deltas start with the boundary of a fetched snapshot and end with the diff, and the levels they
  leave do not depend on the book they are applied to.
\<close>

theorem resync_rebuilds_book:
  assumes "normalize_depth D fs data ts = Some (u, ds)" "str_field data ''s'' = Some sy"
    "fst (on_diff sy u m) = NeedSnapshot" "depth_frame D fs rest data ts m = (evs, m')" "evs \<noteq> []"
  shows "\<exists>c adds. evs = map MDelta (c # adds @ ds) \<and> bd_action c = BookClear \<and>
    (\<forall>a b. abs_book (book_apply_all (c # adds @ ds) a) = abs_book (book_apply_all (c # adds @ ds) b))"
proof -
  let ?te = "case num_field data ''E'' of Some e \<Rightarrow> saturating_ms e | None \<Rightarrow> ts"
  let ?fetch = "\<lambda>i. Option.bind (rest sy i) (\<lambda>body. normalize_depth_snapshot D fs sy body ?te ts)"
  obtain m1 where od: "on_diff sy u m = (NeedSnapshot, m1)" using assms(3) by (cases "on_diff sy u m") simp
  obtain r m2 where fl: "fetch_loop ?fetch 0 sy NeedSnapshot [] m1 = (r, m2)" by fastforce
  have "\<exists>snap. r = Some snap \<and> evs = map MDelta (snap @ ds)"
    using assms(1,2,4,5) od fl by (cases r) (auto simp: depth_frame_def Let_def split: if_split_asm)
  then obtain snap where r: "r = Some snap" and evs: "evs = map MDelta (snap @ ds)" by blast
  then have "\<exists>j n. ?fetch j = Some (n, snap)" using fetch_loop_snap fl by blast
  then obtain c adds where c: "snap = c # adds" "bd_action c = BookClear"
    using snapshot_clears by (fastforce simp: bind_eq_Some)
  have "abs_book (book_apply_all (c # adds @ ds) a) = abs_book (book_apply_all (c # adds @ ds) b)" for a b
    using book_alike_apply_all [OF book_alike_clear [OF c(2), of a b], of "adds @ ds"]
    by (simp add: book_alike_def abs_book_def fun_eq_iff)
  then show ?thesis using evs c by auto
qed

text \<open>
  C37: a snapshot that is newer than the diff which asked for it is never emitted. The frame emits
  nothing, and the diff that later bridges the snapshot is emitted alone, so the book downstream
  is built from diffs without the levels of the snapshot.
\<close>

theorem newer_snapshot_swallowed:
  assumes "normalize_depth D fs data ts = Some (u, ds)" "str_field data ''s'' = Some sy" "m sy = None"
    "rest sy 0 = Some body" "normalize_depth_snapshot D fs sy body
       (case num_field data ''E'' of Some e \<Rightarrow> saturating_ms e | None \<Rightarrow> ts) ts = Some (n, snap)"
    "du_last u \<le> n" "n \<noteq> 0" "depth_frame D fs rest data ts m = (evs, m1)"
    "normalize_depth D fs data' ts' = Some (u', ds')" "str_field data' ''s'' = Some sy"
    "n < du_last u'" "check_first u' n"
  shows "evs = [] \<and> fst (depth_frame D fs rest' data' ts' m1) = map MDelta ds'"
proof -
  have m1: "evs = [] \<and> m1 sy = Some \<lparr>bk_book = \<lparr>lb_last = n, lb_synced = False\<rparr>, bk_buffer = [], bk_awaiting = False\<rparr>"
    using assms(1-8)
    by (auto simp: depth_frame_def on_diff_def diff_state_def entry_or_default_def book_state_new_def local_book_new_def
        on_snapshot_def snapshot_state_def install_snapshot_def is_synced_def Let_def)
  have "fst (depth_frame D fs rest' data' ts' m1) = map MDelta ds'"
    using m1 assms(7,9-12)
    by (auto simp: depth_frame_def on_diff_def diff_state_def entry_or_default_def apply_diff_def is_synced_def Let_def)
  with m1 show ?thesis by blast
qed

section \<open>A feed\<close>

definition wire_num :: "string \<Rightarrow> decimal option" where
  "wire_num s = Some (dec_int (int (read_nat s)))"

definition wire_frame :: "int \<Rightarrow> int \<Rightarrow> json" where
  "wire_frame a b =
     JObj [(''s'', JStr ''BTCUSDT''), (''E'', JInt 7), (''U'', JInt a), (''u'', JInt b),
       (''b'', JArr [JArr [JStr ''100'', JStr ''2'']]), (''a'', JArr [])]"

definition wire_snapshot :: "int \<Rightarrow> json" where
  "wire_snapshot n =
     JObj [(''lastUpdateId'', JInt n), (''bids'', JArr [JArr [JStr ''99'', JStr ''5'']]), (''asks'', JArr [])]"

definition wire_delta :: "book_action \<Rightarrow> int \<Rightarrow> int \<Rightarrow> u64 \<Rightarrow> order_book_delta" where
  "wire_delta act px sz n =
     \<lparr>bd_instrument_id = binance_id ''BTCUSDT'', bd_action = act, bd_side = Buy, bd_price = Price px 8,
      bd_size = Quantity sz 8, bd_sequence = n, bd_ts_event = 7000000, bd_ts_init = 3\<rparr>"

lemma wire_frame_parses:
  "normalize_depth rdec wire_num (wire_frame 99 105) 3 =
     Some (\<lparr>du_first = 99, du_last = 105, du_prev = None\<rparr>, [wire_delta BookUpdate 10000000000 200000000 105])"
  "normalize_depth rdec wire_num (wire_frame 106 110) 3 =
     Some (\<lparr>du_first = 106, du_last = 110, du_prev = None\<rparr>, [wire_delta BookUpdate 10000000000 200000000 110])"
  by code_simp+

lemma wire_snapshot_parses:
  "normalize_depth_snapshot rdec wire_num ''BTCUSDT'' (wire_snapshot 105) 7000000 3 =
     Some (105, [wire_delta BookClear 0 0 105, wire_delta BookAdd 9900000000 500000000 105])"
  by code_simp

lemma wire_symbol: "str_field (wire_frame a b) ''s'' = Some ''BTCUSDT''"
  by (simp add: str_field_def wire_frame_def)

lemma wire_time: "num_field (wire_frame a b) ''E'' = Some 7" "saturating_ms 7 = 7000000"
  by (simp_all add: num_field_def wire_frame_def saturating_ms_def)

theorem resync_two_fetches_witness:
  "fetch_loop (\<lambda>i. Some (5, [])) 0 ''X'' NeedSnapshot [] Map.empty =
   fetch_loop (\<lambda>i. if i < 2 then Some (5, []) else None) 0 ''X'' NeedSnapshot [] Map.empty"
  by (rule resync_two_fetches) simp_all

theorem resync_rebuilds_book_witness:
  "\<exists>c adds. fst (depth_frame rdec wire_num (\<lambda>_ _. Some (wire_snapshot 100)) (wire_frame 99 105) 3 Map.empty) =
     map MDelta (c # adds @ [wire_delta BookUpdate 10000000000 200000000 105]) \<and> bd_action c = BookClear"
proof -
  obtain evs m' where f: "depth_frame rdec wire_num (\<lambda>_ _. Some (wire_snapshot 100)) (wire_frame 99 105) 3 Map.empty = (evs, m')"
    by fastforce
  have "length (fst (depth_frame rdec wire_num (\<lambda>_ _. Some (wire_snapshot 100)) (wire_frame 99 105) 3 Map.empty)) = 3"
    by code_simp
  then have "evs \<noteq> []" using f by auto
  moreover have "fst (on_diff ''BTCUSDT'' \<lparr>du_first = 99, du_last = 105, du_prev = None\<rparr> Map.empty) = NeedSnapshot"
    by code_simp
  ultimately show ?thesis
    using resync_rebuilds_book [OF wire_frame_parses(1) wire_symbol _ f] f by auto
qed

theorem newer_snapshot_swallowed_witness:
  "fst (depth_frame rdec wire_num (\<lambda>_ _. None) (wire_frame 106 110) 3
      (snd (depth_frame rdec wire_num (\<lambda>_ _. Some (wire_snapshot 105)) (wire_frame 99 105) 3 Map.empty))) =
    [MDelta (wire_delta BookUpdate 10000000000 200000000 110)]"
proof -
  obtain evs m1 where f: "depth_frame rdec wire_num (\<lambda>_ _. Some (wire_snapshot 105)) (wire_frame 99 105) 3 Map.empty = (evs, m1)"
    by fastforce
  have "normalize_depth_snapshot rdec wire_num ''BTCUSDT'' (wire_snapshot 105)
      (case num_field (wire_frame 99 105) ''E'' of Some e \<Rightarrow> saturating_ms e | None \<Rightarrow> 3) 3 =
     Some (105, [wire_delta BookClear 0 0 105, wire_delta BookAdd 9900000000 500000000 105])"
    using wire_snapshot_parses by (simp add: wire_time)
  from newer_snapshot_swallowed [OF wire_frame_parses(1) wire_symbol _ _ this _ _ f wire_frame_parses(2) wire_symbol]
  show ?thesis using f by (simp add: check_first_def)
qed

end
