(* ===== verification/Network.thy ===== *)
theory Network
  imports Prelude
begin

text \<open>
  The REST side of \<open>market-data/crates/coinext-network\<close>: the encoding of queries and the signature
  (\<open>sign.rs\<close>), the weight limiter (\<open>ratelimit.rs\<close>), requests, the retry policy and the sending loop
  (\<open>rest.rs\<close>).

  The packages behind them are the fields of \<open>net_env\<close>, over a state of the outside world: the HTTP
  client and its builder, the HMAC digest, the limiter's bucket, the check of a header value; the wall clock and
  the timer are there too. A string is the list of its UTF-8 bytes.
\<close>

section \<open>Words\<close>

type_synonym u16 = "16 word"
type_synonym u32 = "32 word"

definition u64_saturating_mul :: "u64 \<Rightarrow> u64 \<Rightarrow> u64" where
  "u64_saturating_mul a b = (if uint a * uint b < 2 ^ 64 then a * b else - 1)"

lemma unat_next: "(a :: 'a :: len word) < b \<Longrightarrow> unat (a + 1) = Suc (unat a)"
proof -
  assume "a < b"
  then have "1 + a \<noteq> 0" by (metis add_eq_0_iff word_order.extremum_strict)
  then show ?thesis using unatSuc [of a] by (simp add: add.commute)
qed

section \<open>Errors\<close>

datatype net_error =
    NetNotConnected
  | NetTransport string
  | NetHttp u16 string
  | RateLimited u64
  | NetAuth string
  | NetTimeout u64
  | NetDecode string

section \<open>Queries and their signature\<close>

definition hex_digit :: "nat \<Rightarrow> char" where
  "hex_digit n = (if n < 10 then char_of (48 + n) else char_of (55 + n))"

definition unreserved :: "char \<Rightarrow> bool" where
  "unreserved c \<longleftrightarrow>
     (let n = of_char c :: nat
      in (65 \<le> n \<and> n \<le> 90) \<or> (97 \<le> n \<and> n \<le> 122) \<or> (48 \<le> n \<and> n \<le> 57) \<or> c \<in> {CHR ''-'', CHR ''_'', CHR ''.'', CHR ''~''})"

fun encode_byte :: "char \<Rightarrow> string" where
  "encode_byte c =
     (if unreserved c then [c] else [CHR ''%'', hex_digit (of_char c div 16), hex_digit (of_char c mod 16)])"

definition encode_value :: "string \<Rightarrow> string" where
  "encode_value v = concat (map encode_byte v)"

fun join :: "string \<Rightarrow> string list \<Rightarrow> string" where
  "join sep [] = []"
| "join sep [x] = x"
| "join sep (x # y # xs) = x @ sep @ join sep (y # xs)"

definition build_query :: "(string \<times> string) list \<Rightarrow> string" where
  "build_query params = join ''&'' (map (\<lambda>(k, v). k @ ''='' @ encode_value v) params)"

text \<open>\<open>digest secret payload\<close> is the lowercase hexadecimal HMAC-SHA256.\<close>

definition signed_query :: "(string \<Rightarrow> string \<Rightarrow> string) \<Rightarrow> (string \<times> string) list \<Rightarrow> string \<Rightarrow> string" where
  "signed_query digest params secret =
     (let base = build_query params; sig = digest secret base
      in if base = [] then ''signature='' @ sig else base @ ''&signature='' @ sig)"

section \<open>Requests\<close>

datatype http_method = HttpGet | HttpPost | HttpPut | HttpDelete

record rest_config =
  rf_base_url :: string
  rf_max_retries :: u32
  rf_base_backoff_ms :: u64
  rf_timeout_ms :: u64
  rf_recv_window_ms :: u64

definition rest_config_default :: rest_config where
  "rest_config_default =
     \<lparr>rf_base_url = [], rf_max_retries = 3, rf_base_backoff_ms = 100, rf_timeout_ms = 5000, rf_recv_window_ms = 5000\<rparr>"

record rest_request =
  rq_method :: http_method
  rq_path :: string
  rq_query :: "(string \<times> string) list"
  rq_body :: "string option"
  rq_signed :: bool
  rq_api_key :: bool
  rq_idempotent :: bool
  rq_weight :: u32

definition rest_get :: "string \<Rightarrow> u32 \<Rightarrow> rest_request" where
  "rest_get path weight =
     \<lparr>rq_method = HttpGet, rq_path = path, rq_query = [], rq_body = None, rq_signed = False, rq_api_key = False,
      rq_idempotent = True, rq_weight = weight\<rparr>"

definition rest_signed :: "http_method \<Rightarrow> string \<Rightarrow> u32 \<Rightarrow> rest_request" where
  "rest_signed m path weight =
     \<lparr>rq_method = m, rq_path = path, rq_query = [], rq_body = None, rq_signed = True, rq_api_key = False,
      rq_idempotent = (m = HttpGet), rq_weight = weight\<rparr>"

definition rest_api_key :: "http_method \<Rightarrow> string \<Rightarrow> u32 \<Rightarrow> rest_request" where
  "rest_api_key m path weight =
     \<lparr>rq_method = m, rq_path = path, rq_query = [], rq_body = None, rq_signed = False, rq_api_key = True,
      rq_idempotent = (m = HttpGet), rq_weight = weight\<rparr>"

definition with_param :: "string \<Rightarrow> string \<Rightarrow> rest_request \<Rightarrow> rest_request" where
  "with_param k v r = r\<lparr>rq_query := rq_query r @ [(k, v)]\<rparr>"

definition set_idempotent :: "bool \<Rightarrow> rest_request \<Rightarrow> rest_request" where
  "set_idempotent b r = r\<lparr>rq_idempotent := b\<rparr>"

section \<open>The retry policy\<close>

datatype failure_kind = Status u16 | TransportFailure

fun should_retry :: "bool \<Rightarrow> failure_kind \<Rightarrow> u32 \<Rightarrow> u32 \<Rightarrow> bool" where
  "should_retry idem (Status s) attempt m =
     (if m \<le> attempt then False
      else if s = 429 \<or> s = 418 then True
      else if 500 \<le> s \<and> s < 600 then idem
      else False)"
| "should_retry idem TransportFailure attempt m = (if m \<le> attempt then False else idem)"

text \<open>The pause before the given attempt.\<close>

definition backoff :: "u64 \<Rightarrow> u32 \<Rightarrow> u64" where
  "backoff base attempt = u64_saturating_mul base (2 ^ unat (min (attempt - 1) 16))"

section \<open>The weight limiter\<close>

text \<open>The quota is one cell per \<open>rl_cell_period\<close> nanoseconds with bursts up to \<open>rl_burst\<close>.\<close>

record rate_limiter =
  rl_capacity :: u32
  rl_cell_period :: nat
  rl_burst :: u32

definition limiter_new :: "u32 \<Rightarrow> nat \<Rightarrow> rate_limiter option" where
  "limiter_new capacity period =
     (let cap = max capacity 1; cell = period div unat cap
      in if cell = 0 then None else Some \<lparr>rl_capacity = capacity, rl_cell_period = cell, rl_burst = cap\<rparr>)"

definition per_minute :: "u32 \<Rightarrow> rate_limiter option" where
  "per_minute weight = limiter_new weight (60 * 10 ^ 9)"

definition per_secs :: "u32 \<Rightarrow> u64 \<Rightarrow> rate_limiter option" where
  "per_secs orders secs = limiter_new orders (unat (max secs 1) * 10 ^ 9)"

section \<open>The outside world\<close>

record http_call =
  hq_method :: http_method
  hq_url :: string
  hq_key :: "string option"
  hq_body :: "string option"

datatype http_answer = Response u16 string | BodyFailed string | SendFailed string

record 'w net_env =
  nv_now_ms :: "'w \<Rightarrow> u64"
  nv_sleep :: "u64 \<Rightarrow> 'w \<Rightarrow> 'w"
  nv_until_n_ready :: "rate_limiter \<Rightarrow> u32 \<Rightarrow> 'w \<Rightarrow> bool \<times> 'w"
  nv_check_n :: "rate_limiter \<Rightarrow> u32 \<Rightarrow> 'w \<Rightarrow> bool \<times> 'w"
  nv_header_ok :: "string \<Rightarrow> bool"
  nv_digest :: "string \<Rightarrow> string \<Rightarrow> string"
  nv_builder :: "u64 \<Rightarrow> string + unit"
  nv_http :: "http_call \<Rightarrow> 'w \<Rightarrow> http_answer \<times> 'w"

definition acquire :: "'w net_env \<Rightarrow> rate_limiter \<Rightarrow> u32 \<Rightarrow> 'w \<Rightarrow> (net_error + unit) \<times> 'w" where
  "acquire N rl cost w =
     (if cost = 0 then (Inr (), w)
      else if rl_capacity rl < cost then (Inl (RateLimited 0), w)
      else case nv_until_n_ready N rl cost w of
             (ok, w1) \<Rightarrow> (if ok then Inr () else Inl (RateLimited 0), w1))"

definition try_acquire :: "'w net_env \<Rightarrow> rate_limiter \<Rightarrow> u32 \<Rightarrow> 'w \<Rightarrow> bool \<times> 'w" where
  "try_acquire N rl cost w = (if cost = 0 then (True, w) else nv_check_n N rl cost w)"

section \<open>The client\<close>

record credentials =
  cr_api_key :: "string option"
  cr_secret :: "string option"

definition credentials_new :: "string \<Rightarrow> string \<Rightarrow> credentials" where
  "credentials_new k s = \<lparr>cr_api_key = Some k, cr_secret = Some s\<rparr>"

record rest_client =
  cl_config :: rest_config
  cl_limiter :: rate_limiter
  cl_creds :: credentials

definition rest_client_new ::
  "'w net_env \<Rightarrow> rest_config \<Rightarrow> rate_limiter \<Rightarrow> credentials \<Rightarrow> net_error + rest_client" where
  "rest_client_new N cfg rl creds =
     (case nv_builder N (rf_timeout_ms cfg) of
        Inl e \<Rightarrow> Inl (NetTransport e)
      | Inr _ \<Rightarrow> Inr \<lparr>cl_config = cfg, cl_limiter = rl, cl_creds = creds\<rparr>)"

definition can_sign :: "rest_client \<Rightarrow> bool" where
  "can_sign c \<longleftrightarrow> cr_secret (cl_creds c) \<noteq> None"

definition build_query_string :: "'w net_env \<Rightarrow> rest_client \<Rightarrow> rest_request \<Rightarrow> u64 \<Rightarrow> net_error + string" where
  "build_query_string N c r now_ms =
     (if \<not> rq_signed r then Inr (build_query (rq_query r))
      else case cr_secret (cl_creds c) of
             None \<Rightarrow> Inl (NetAuth ''signing requested but no api secret configured'')
           | Some secret \<Rightarrow>
               Inr (signed_query (nv_digest N)
                 (rq_query r @ [(''recvWindow'', show_nat (unat (rf_recv_window_ms (cl_config c)))),
                    (''timestamp'', show_nat (unat now_ms))]) secret))"

text \<open>The part of \<open>send\<close> that makes the HTTP request of an attempt.\<close>

definition prepare :: "'w net_env \<Rightarrow> rest_client \<Rightarrow> rest_request \<Rightarrow> u64 \<Rightarrow> net_error + http_call" where
  "prepare N c r now_ms =
     (case build_query_string N c r now_ms of
        Inl e \<Rightarrow> Inl e
      | Inr q \<Rightarrow>
          (let url = rf_base_url (cl_config c) @ rq_path r @ (if q = [] then [] else CHR ''?'' # q)
           in if rq_signed r \<or> rq_api_key r
              then case cr_api_key (cl_creds c) of
                     None \<Rightarrow> Inl (NetAuth ''api key required but none configured'')
                   | Some k \<Rightarrow>
                       if nv_header_ok N k
                       then Inr \<lparr>hq_method = rq_method r, hq_url = url, hq_key = Some k, hq_body = rq_body r\<rparr>
                       else Inl (NetAuth ''bad api key header'')
              else Inr \<lparr>hq_method = rq_method r, hq_url = url, hq_key = None, hq_body = rq_body r\<rparr>))"

definition pause :: "'w net_env \<Rightarrow> rest_client \<Rightarrow> u32 \<Rightarrow> 'w \<Rightarrow> 'w" where
  "pause N c attempt = nv_sleep N (backoff (rf_base_backoff_ms (cl_config c)) attempt)"

function send_loop ::
  "'w net_env \<Rightarrow> rest_client \<Rightarrow> rest_request \<Rightarrow> u32 \<Rightarrow> 'w \<Rightarrow> (net_error + u16 \<times> string) \<times> 'w" where
  "send_loop N c r attempt w =
     (case prepare N c r (nv_now_ms N w) of
        Inl e \<Rightarrow> (Inl e, w)
      | Inr call \<Rightarrow>
          (case nv_http N call w of
             (Response s body, w1) \<Rightarrow>
               if 200 \<le> s \<and> s < 300 then (Inr (s, body), w1)
               else if should_retry (rq_idempotent r) (Status s) attempt (rf_max_retries (cl_config c))
               then send_loop N c r (attempt + 1) (pause N c (attempt + 1) w1)
               else (Inl (NetHttp s body), w1)
           | (BodyFailed e, w1) \<Rightarrow> (Inl (NetTransport e), w1)
           | (SendFailed e, w1) \<Rightarrow>
               if should_retry (rq_idempotent r) TransportFailure attempt (rf_max_retries (cl_config c))
               then send_loop N c r (attempt + 1) (pause N c (attempt + 1) w1)
               else (Inl (NetTransport e), w1)))"
  by pat_completeness auto

lemma should_retry_bound: "should_retry idem k attempt m \<Longrightarrow> attempt < m"
  by (cases k) (auto split: if_split_asm)

lemma should_retry_less: "should_retry idem k attempt m \<Longrightarrow> unat m - unat (attempt + 1) < unat m - unat attempt"
  using should_retry_bound by (fastforce simp: unat_next word_less_nat_alt)

declare should_retry.simps [simp del]

termination send_loop
  by (relation "measure (\<lambda>(N, c, r, attempt, w). unat (rf_max_retries (cl_config c)) - unat attempt)")
    (auto simp: should_retry_less)

declare send_loop.simps [simp del]

definition send :: "'w net_env \<Rightarrow> rest_client \<Rightarrow> rest_request \<Rightarrow> 'w \<Rightarrow> (net_error + u16 \<times> string) \<times> 'w" where
  "send N c r w =
     (case acquire N (cl_limiter c) (rq_weight r) w of
        (Inl e, w1) \<Rightarrow> (Inl e, w1)
      | (Inr _, w1) \<Rightarrow> send_loop N c r 0 w1)"

section \<open>Reading a query\<close>

text \<open>What the venue does with a query: split it at the ampersands, each part at its first equals
  sign, and decode the values.\<close>

fun split_on :: "char \<Rightarrow> string \<Rightarrow> string list" where
  "split_on d [] = [[]]"
| "split_on d (c # cs) =
     (if c = d then [] # split_on d cs
      else case split_on d cs of [] \<Rightarrow> [[c]] | x # xs \<Rightarrow> (c # x) # xs)"

definition hex_value :: "char \<Rightarrow> nat" where
  "hex_value c = (if of_char c < (58 :: nat) then of_char c - 48 else of_char c - 55)"

fun decode_value :: "string \<Rightarrow> string" where
  "decode_value [] = []"
| "decode_value [c] = [c]"
| "decode_value [c, d] = [c, d]"
| "decode_value (c # d # e # cs) =
     (if c = CHR ''%'' then char_of (16 * hex_value d + hex_value e) # decode_value cs else c # decode_value (d # e # cs))"

definition parse_query :: "string \<Rightarrow> (string \<times> string) list" where
  "parse_query q =
     (if q = [] then []
      else map (\<lambda>s. (takeWhile (\<lambda>c. c \<noteq> CHR ''='') s, decode_value (tl (dropWhile (\<lambda>c. c \<noteq> CHR ''='') s)))) (split_on (CHR ''&'') q))"

lemma decode_plain: "c \<noteq> CHR ''%'' \<Longrightarrow> decode_value (c # cs) = c # decode_value cs"
  by (cases "(c # cs)" rule: decode_value.cases) auto

lemma hex_value_digit: "n < 16 \<Longrightarrow> hex_value (hex_digit n) = n"
  by (auto simp: hex_value_def hex_digit_def)

lemma decode_encode_byte: "decode_value (encode_byte c @ cs) = c # decode_value cs"
proof (cases "unreserved c")
  case True
  then have "c \<noteq> CHR ''%''" by (auto simp: unreserved_def Let_def)
  then show ?thesis using True by (simp add: decode_plain)
next
  case False
  have "of_char c div 16 < (16 :: nat)" by (rule less_mult_imp_div_less) simp
  then show ?thesis using False by (simp add: hex_value_digit)
qed

lemma decode_encode [simp]: "decode_value (encode_value v) = v"
proof -
  have "decode_value (encode_value v @ cs) = v @ decode_value cs" for cs
    by (induction v) (simp_all add: encode_value_def decode_encode_byte del: encode_byte.simps)
  from this [of "[]"] show ?thesis by simp
qed

lemma hex_digit_plain: "n < 16 \<Longrightarrow> CHR ''&'' \<noteq> hex_digit n \<and> CHR ''='' \<noteq> hex_digit n"
  by (auto simp: hex_digit_def dest: arg_cong [where f = "of_char :: char \<Rightarrow> nat"] split: if_split_asm)

lemma encode_byte_plain: "{CHR ''&'', CHR ''=''} \<inter> set (encode_byte c) = {}"
proof -
  have "of_char c div 16 < (16 :: nat)" by (rule less_mult_imp_div_less) simp
  then show ?thesis using hex_digit_plain [of "of_char c div 16"] hex_digit_plain [of "of_char c mod 16"]
    by (auto simp: unreserved_def Let_def)
qed

lemma encode_value_plain: "{CHR ''&'', CHR ''=''} \<inter> set (encode_value v) = {}"
  using encode_byte_plain by (fastforce simp: encode_value_def simp del: encode_byte.simps)

lemma split_on_plain: "d \<notin> set x \<Longrightarrow> split_on d x = [x]"
  by (induction x) auto

lemma split_on_append: "d \<notin> set x \<Longrightarrow> split_on d (x @ d # y) = x # split_on d y"
  by (induction x) auto

lemma split_on_join: "xs \<noteq> [] \<Longrightarrow> \<forall>x \<in> set xs. d \<notin> set x \<Longrightarrow> split_on d (join [d] xs) = xs"
  by (induction "[d]" xs rule: join.induct) (auto simp: split_on_plain split_on_append)

lemma join_snoc: "xs \<noteq> [] \<Longrightarrow> join sep (xs @ [x]) = join sep xs @ sep @ x"
  by (induction sep xs rule: join.induct) auto

definition plain_key :: "string \<Rightarrow> bool" where
  "plain_key k \<longleftrightarrow> {CHR ''&'', CHR ''=''} \<inter> set k = {}"

lemma build_query_parse:
  assumes "\<forall>(k, v) \<in> set ps. plain_key k"
  shows "parse_query (build_query ps) = ps"
proof (cases "ps = []")
  case True
  then show ?thesis by (simp add: build_query_def parse_query_def)
next
  case False
  let ?f = "\<lambda>(k, v). k @ ''='' @ encode_value v"
  have amp: "\<forall>x \<in> set (map ?f ps). CHR ''&'' \<notin> set x"
    using assms encode_value_plain by (auto simp: plain_key_def)
  have ne: "build_query ps \<noteq> []" using False by (cases ps rule: list.exhaust; cases "tl ps") (auto simp: build_query_def)
  have "split_on (CHR ''&'') (build_query ps) = map ?f ps"
    unfolding build_query_def using split_on_join [OF _ amp] False by simp
  moreover have "(takeWhile (\<lambda>c. c \<noteq> CHR ''='') (?f p), decode_value (tl (dropWhile (\<lambda>c. c \<noteq> CHR ''='') (?f p)))) = p"
    if "p \<in> set ps" for p
  proof -
    obtain k v where p: "p = (k, v)" by fastforce
    then have k: "\<forall>c \<in> set k. c \<noteq> CHR ''=''" using assms that by (auto simp: plain_key_def)
    then show ?thesis by (simp add: p takeWhile_append2 dropWhile_append2)
  qed
  ultimately show ?thesis using ne by (simp add: parse_query_def map_idI)
qed

section \<open>Sending\<close>

text \<open>
  The venue as the sender sees it. \<open>acct\<close> is the part of the world a request acts on and \<open>post\<close> its
  effect when it is processed. A request is processed or lost; one that is answered 429 or 418 was
  refused before it was processed, one that is answered with success was processed.
\<close>

definition venue_law :: "'w net_env \<Rightarrow> rest_client \<Rightarrow> rest_request \<Rightarrow> ('w \<Rightarrow> 'v) \<Rightarrow> ('v \<Rightarrow> 'v) \<Rightarrow> bool" where
  "venue_law N c r acct post \<longleftrightarrow>
     (\<forall>ms w. acct (nv_sleep N ms w) = acct w) \<and>
     (\<forall>rl n w. acct (snd (nv_until_n_ready N rl n w)) = acct w) \<and>
     (\<forall>t call w. prepare N c r t = Inr call \<longrightarrow> acct (snd (nv_http N call w)) \<in> {acct w, post (acct w)}) \<and>
     (\<forall>t call w s b w'. prepare N c r t = Inr call \<and> nv_http N call w = (Response s b, w') \<longrightarrow>
        (s \<in> {429, 418} \<longrightarrow> acct w' = acct w) \<and> (200 \<le> s \<and> s < 300 \<longrightarrow> acct w' = post (acct w)))"

text \<open>Every case of an attempt: the request cannot be made, the attempt is final, or there is another.\<close>

lemma send_loop_cases:
  obtains (refused) e where "prepare N c r (nv_now_ms N w) = Inl e" "send_loop N c r a w = (Inl e, w)"
  | (success) call s b w1 where "prepare N c r (nv_now_ms N w) = Inr call" "nv_http N call w = (Response s b, w1)"
      "200 \<le> s" "s < 300" "send_loop N c r a w = (Inr (s, b), w1)"
  | (failure) call x w1 e where "prepare N c r (nv_now_ms N w) = Inr call" "nv_http N call w = (x, w1)"
      "send_loop N c r a w = (Inl e, w1)"
  | (retry) call x w1 k where "prepare N c r (nv_now_ms N w) = Inr call" "nv_http N call w = (x, w1)"
      "should_retry (rq_idempotent r) k a (rf_max_retries (cl_config c))"
      "k = TransportFailure \<or> (\<exists>s b. x = Response s b \<and> k = Status s)"
      "send_loop N c r a w = send_loop N c r (a + 1) (pause N c (a + 1) w1)"
proof (cases "prepare N c r (nv_now_ms N w)")
  case (Inl e)
  then show ?thesis using refused by (simp add: send_loop.simps)
next
  case (Inr call)
  obtain x w1 where h: "nv_http N call w = (x, w1)" by fastforce
  show ?thesis
  proof (cases x)
    case (Response s b)
    then show ?thesis
      using Inr h success [OF Inr, of s b w1] failure [OF Inr h] retry [OF Inr h, of "Status s"]
      by (cases "200 \<le> s \<and> s < 300"; cases "should_retry (rq_idempotent r) (Status s) a (rf_max_retries (cl_config c))")
        (auto simp: send_loop.simps [of N c r a w])
  next
    case (BodyFailed e)
    then show ?thesis using Inr h failure [OF Inr h] by (simp add: send_loop.simps [of N c r a w])
  next
    case (SendFailed e)
    then show ?thesis
      using Inr h failure [OF Inr h] retry [OF Inr h, of TransportFailure]
      by (cases "should_retry (rq_idempotent r) TransportFailure a (rf_max_retries (cl_config c))")
        (auto simp: send_loop.simps [of N c r a w])
  qed
qed

lemma retry_not_applied:
  assumes "should_retry False k a m" shows "k = Status 429 \<or> k = Status 418"
  using assms by (cases k) (auto simp: should_retry.simps split: if_split_asm)

lemma send_loop_once:
  assumes V: "venue_law N c r acct post" and idem: "rq_idempotent r \<longrightarrow> (\<forall>v. post (post v) = post v)"
  shows "acct w = v \<or> rq_idempotent r \<and> acct w = post v \<Longrightarrow> send_loop N c r a w = (res, w') \<Longrightarrow>
    acct w' \<in> {v, post v} \<and> (\<forall>x. res = Inr x \<longrightarrow> acct w' = post v)"
proof (induction "unat (rf_max_retries (cl_config c)) - unat a" arbitrary: a w rule: less_induct)
  case less
  have effect: "acct w1 \<in> {v, post v} \<and> (rq_idempotent r \<longrightarrow> acct w1 = v \<or> acct w1 = post v)"
    if "prepare N c r t = Inr call" "nv_http N call w = (x, w1)" for t call x w1
    using V that less.prems(1) idem unfolding venue_law_def by (metis insert_iff singletonD snd_conv)
  show ?case
  proof (rule send_loop_cases [where N = N and c = c and r = r and w = w and a = a], goal_cases refused success failure retry)
    case (refused e)
    then show ?thesis using less.prems by auto
  next
    case (success call s b w1)
    then have "acct w1 = post (acct w)" using V unfolding venue_law_def by blast
    then show ?thesis using success less.prems idem by auto
  next
    case (failure call x w1 e)
    then show ?thesis using effect [OF failure(1,2)] less.prems(2) by auto
  next
    case (retry call x w1 k)
    have "acct w1 = v" if not_idem: "\<not> rq_idempotent r"
    proof -
      have "k = Status 429 \<or> k = Status 418" using retry(3) not_idem retry_not_applied [of k] by simp
      then obtain s b where "x = Response s b" "s \<in> {429, 418}" using retry(4) by auto
      then have "acct w1 = acct w" using V retry(1,2) unfolding venue_law_def by blast
      then show ?thesis using less.prems(1) not_idem by simp
    qed
    then have "acct (pause N c (a + 1) w1) = v \<or> rq_idempotent r \<and> acct (pause N c (a + 1) w1) = post v"
      using effect [OF retry(1,2)] V by (auto simp: pause_def venue_law_def)
    then show ?thesis using less.hyps [OF should_retry_less [OF retry(3)]] less.prems(2) retry(5) by simp
  qed
qed

lemma send_once:
  assumes V: "venue_law N c r acct post" and "rq_idempotent r \<longrightarrow> (\<forall>v. post (post v) = post v)"
    and "send N c r w = (res, w')"
  shows "acct w' \<in> {acct w, post (acct w)} \<and> (\<forall>x. res = Inr x \<longrightarrow> acct w' = post (acct w))"
proof -
  obtain q w1 where q: "acquire N (cl_limiter c) (rq_weight r) w = (q, w1)" by fastforce
  then have "acct w1 = acct w"
    using V by (auto simp: acquire_def venue_law_def split: if_split_asm prod.split_asm dest: arg_cong [where f = "\<lambda>x. acct (snd x)"])
  then show ?thesis
    using send_loop_once [OF assms(1,2), of w1 "acct w" 0 res w'] assms(3) q by (auto simp: send_def split: sum.split_asm)
qed

text \<open>The same environment, with a log of the requests made.\<close>

definition logged_env :: "'w net_env \<Rightarrow> ('w \<times> http_call list) net_env" where
  "logged_env N =
     \<lparr>nv_now_ms = (\<lambda>(w, l). nv_now_ms N w), nv_sleep = (\<lambda>ms (w, l). (nv_sleep N ms w, l)),
      nv_until_n_ready = (\<lambda>rl n (w, l). let (b, w1) = nv_until_n_ready N rl n w in (b, (w1, l))),
      nv_check_n = (\<lambda>rl n (w, l). let (b, w1) = nv_check_n N rl n w in (b, (w1, l))),
      nv_header_ok = nv_header_ok N, nv_digest = nv_digest N, nv_builder = nv_builder N,
      nv_http = (\<lambda>call (w, l). let (x, w1) = nv_http N call w in (x, (w1, l @ [call])))\<rparr>"

lemma send_loop_calls:
  "send_loop (logged_env N) c r a y = (res, y') \<Longrightarrow> a \<le> rf_max_retries (cl_config c) \<Longrightarrow>
    length (snd y') \<le> length (snd y) + Suc (unat (rf_max_retries (cl_config c)) - unat a)"
proof (induction "unat (rf_max_retries (cl_config c)) - unat a" arbitrary: a y rule: less_induct)
  case less
  have one: "snd y1 = snd y @ [call]" if "nv_http (logged_env N) call y = (x, y1)" for call x y1
    using that by (cases y) (auto simp: logged_env_def split: prod.split_asm)
  show ?case
  proof (rule send_loop_cases [where N = "logged_env N" and c = c and r = r and w = y and a = a], goal_cases refused success failure retry)
    case (retry call x y1 k)
    have "a < rf_max_retries (cl_config c)" using retry(3) by (rule should_retry_bound)
    then have "a + 1 \<le> rf_max_retries (cl_config c)" and "unat (a + 1) = Suc (unat a)"
      "unat a < unat (rf_max_retries (cl_config c))"
      by (simp_all add: inc_le unat_next word_less_nat_alt)
    moreover have "snd (pause (logged_env N) c (a + 1) y1) = snd y @ [call]"
      using one [OF retry(2)] by (cases y1) (simp add: pause_def logged_env_def)
    ultimately show ?thesis
      using less.hyps [OF should_retry_less [OF retry(3)]] less.prems(1) retry(5) by fastforce
  qed (use less.prems one in fastforce)+
qed

lemma lower_hex_plain:
  assumes "set sig \<subseteq> set ''0123456789abcdef''" shows "encode_value sig = sig"
proof -
  have "unreserved c" if "c \<in> set ''0123456789abcdef''" for c using that by (auto simp: unreserved_def)
  then show ?thesis using assms by (induction sig) (auto simp: encode_value_def)
qed

lemma signed_query_eq:
  assumes "set (digest secret (build_query ps)) \<subseteq> set ''0123456789abcdef''"
  shows "signed_query digest ps secret = build_query (ps @ [(''signature'', digest secret (build_query ps))])"
proof (cases "ps = []")
  case False
  then have "build_query ps \<noteq> []" by (cases ps; cases "tl ps") (auto simp: build_query_def)
  then show ?thesis using False assms
    by (simp add: signed_query_def build_query_def join_snoc lower_hex_plain Let_def)
qed (use assms in \<open>simp add: signed_query_def build_query_def lower_hex_plain\<close>)

section \<open>Properties\<close>

text \<open>
  Signed queries read back. The venue that takes a signed query apart gets the parameters as
  they were given, whatever bytes their values have, and last the signature, which is the digest
  of the query before it.
\<close>

theorem signed_query_reads_back:
  assumes "\<forall>(k, v) \<in> set ps. plain_key k" "set (digest secret (build_query ps)) \<subseteq> set ''0123456789abcdef''"
  shows "parse_query (signed_query digest ps secret) = ps @ [(''signature'', digest secret (build_query ps))]"
  using assms build_query_parse [of "ps @ [(''signature'', digest secret (build_query ps))]"]
  by (simp add: signed_query_eq plain_key_def)

theorem signed_query_reads_back_witness:
  "parse_query (signed_query (\<lambda>k p. ''0f'') [(''symbol'', ''BTCUSDT''), (''id'', ''a&b=%'')] ''key'') =
    [(''symbol'', ''BTCUSDT''), (''id'', ''a&b=%''), (''signature'', ''0f'')]"
  using signed_query_reads_back [of "[(''symbol'', ''BTCUSDT''), (''id'', ''a&b=%'')]" "\<lambda>k p. ''0f''" "''key''"]
  by (simp add: plain_key_def)

text \<open>
  C22: retries never act twice. A request that may not be repeated is processed by the venue at
  most once, however many attempts are made and whatever they answer, and it was processed when
  the client reports success. For a request marked idempotent the same holds if processing it
  again changes nothing.
\<close>

theorem retries_act_once:
  assumes "venue_law N c r acct post" "rq_idempotent r \<longrightarrow> (\<forall>v. post (post v) = post v)" "send N c r w = (res, w')"
  shows "if is_ok res then acct w' = post (acct w) else acct w' \<in> {acct w, post (acct w)}"
  using send_once [OF assms] by (cases res) auto

text \<open>
  The number of attempts is bounded. A call makes at most one request more than the
  configured number of retries.
\<close>

theorem attempts_bounded:
  assumes "send (logged_env N) c r (w, []) = (res, (w', l))"
  shows "length l \<le> Suc (unat (rf_max_retries (cl_config c)))"
proof -
  obtain q y where q: "acquire (logged_env N) (cl_limiter c) (rq_weight r) (w, []) = (q, y)" by (rule prod.exhaust)
  then have "snd y = []" by (auto simp: acquire_def logged_env_def split: if_split_asm prod.split_asm)
  then show ?thesis
    using send_loop_calls [of N c r 0 y res "(w', l)"] assms q by (auto simp: send_def split: sum.split_asm)
qed

section \<open>A venue\<close>

text \<open>A venue that answers from a script, then with success, and processes what it does not refuse.\<close>

definition script_env :: "('v \<Rightarrow> 'v) \<Rightarrow> (http_answer list \<times> 'v) net_env" where
  "script_env post =
     \<lparr>nv_now_ms = (\<lambda>w. 7), nv_sleep = (\<lambda>ms w. w), nv_until_n_ready = (\<lambda>rl n w. (True, w)),
      nv_check_n = (\<lambda>rl n w. (True, w)), nv_header_ok = (\<lambda>k. True), nv_digest = (\<lambda>k p. ''0f''), nv_builder = (\<lambda>ms. Inr ()),
      nv_http = (\<lambda>call (xs, v).
        case xs of
          [] \<Rightarrow> (Response 200 [], ([], post v))
        | x # xs' \<Rightarrow> (x, (xs', case x of Response s b \<Rightarrow> if s \<in> {429, 418} then v else post v | _ \<Rightarrow> v)))\<rparr>"

definition script_client :: rest_client where
  "script_client =
     \<lparr>cl_config = rest_config_default, cl_limiter = \<lparr>rl_capacity = 10, rl_cell_period = 1, rl_burst = 10\<rparr>,
      cl_creds = credentials_new ''k'' ''s''\<rparr>"

lemma script_law: "venue_law (script_env post) c r snd post"
  by (auto simp: venue_law_def script_env_def split: list.split list.split_asm http_answer.split)

theorem retries_act_once_witness:
  "snd (snd (send (script_env Suc) script_client (rest_api_key HttpDelete ''/o'' 1) ([Response 429 [], Response 418 []], 0))) = 1"
proof -
  let ?r = "rest_api_key HttpDelete ''/o'' 1"
  obtain res w' where s: "send (script_env Suc) script_client ?r ([Response 429 [], Response 418 []], 0) = (res, w')" by (rule prod.exhaust)
  have "is_ok (fst (send (script_env Suc) script_client ?r ([Response 429 [], Response 418 []], 0)))" by code_simp
  then show ?thesis
    using retries_act_once [OF script_law _ s] s by (simp add: rest_api_key_def)
qed

theorem attempts_bounded_witness:
  "length (snd (snd (send (logged_env (script_env Suc)) script_client (rest_get ''/o'' 1) ((replicate 9 (SendFailed []), 0), [])))) \<le> 4"
proof -
  obtain res w' l where s: "send (logged_env (script_env Suc)) script_client (rest_get ''/o'' 1)
      ((replicate 9 (SendFailed []), 0), []) = (res, (w', l))" by (metis prod.exhaust)
  show ?thesis using attempts_bounded [OF s] s by (simp add: script_client_def rest_config_default_def)
qed

end
