(* ===== verification/Socket.thy ===== *)
theory Socket
  imports Depth Network
begin

text \<open>
  The socket task of \<open>coinext-network/src/ws.rs\<close> and what it means for the depth feed that reads
  it. The task waits at three places: for a connection, for a frame, and for the end of a pause.
  What it meets there is an input; \<open>alive\<close> says whether the consumer still holds the receiver when
  a message is sent.
\<close>

section \<open>The task\<close>

record ws_config =
  wc_url :: string
  wc_max_backoff_ms :: u64
  wc_base_backoff_ms :: u64
  wc_channel_capacity :: nat

definition ws_config_default :: ws_config where
  "ws_config_default =
     \<lparr>wc_url = [], wc_max_backoff_ms = 30000, wc_base_backoff_ms = 500, wc_channel_capacity = 4096\<rparr>"

datatype ws_phase = Connecting | Pumping | BackingOff | Returned

record ws_state =
  wt_phase :: ws_phase
  wt_backoff :: u64
  wt_sent :: "ws_message list"

datatype ws_input =
    Shutdown
  | ConnectOk
  | ConnectErr
  | FrameText ws_message
  | FramePing
  | FrameOther
  | FrameClose
  | FrameErr
  | SleepDone

definition ws_start :: "ws_config \<Rightarrow> ws_state" where
  "ws_start cfg = \<lparr>wt_phase = Connecting, wt_backoff = wc_base_backoff_ms cfg, wt_sent = []\<rparr>"

text \<open>The head of the loop, for every connection but the first.\<close>

definition ws_retry :: "bool \<Rightarrow> ws_state \<Rightarrow> ws_state" where
  "ws_retry alive s =
     (if alive then s\<lparr>wt_phase := BackingOff, wt_sent := wt_sent s @ [Reconnected]\<rparr> else s\<lparr>wt_phase := Returned\<rparr>)"

text \<open>An input a phase does not wait for changes nothing.\<close>

definition ws_step :: "ws_config \<Rightarrow> bool \<Rightarrow> ws_input \<Rightarrow> ws_state \<Rightarrow> ws_state" where
  "ws_step cfg alive x s =
     (case wt_phase s of
        Returned \<Rightarrow> s
      | BackingOff \<Rightarrow>
          (case x of
             Shutdown \<Rightarrow> s\<lparr>wt_phase := Returned\<rparr>
           | SleepDone \<Rightarrow>
               s\<lparr>wt_phase := Connecting, wt_backoff := min (u64_saturating_mul (wt_backoff s) 2) (wc_max_backoff_ms cfg)\<rparr>
           | _ \<Rightarrow> s)
      | Connecting \<Rightarrow>
          (case x of
             Shutdown \<Rightarrow> s\<lparr>wt_phase := Returned\<rparr>
           | ConnectOk \<Rightarrow> s\<lparr>wt_phase := Pumping, wt_backoff := wc_base_backoff_ms cfg\<rparr>
           | ConnectErr \<Rightarrow> ws_retry alive s
           | _ \<Rightarrow> s)
      | Pumping \<Rightarrow>
          (case x of
             Shutdown \<Rightarrow> s\<lparr>wt_phase := Returned\<rparr>
           | FrameText t \<Rightarrow> (if alive then s\<lparr>wt_sent := wt_sent s @ [t]\<rparr> else s\<lparr>wt_phase := Returned\<rparr>)
           | FrameClose \<Rightarrow> ws_retry alive s
           | FrameErr \<Rightarrow> ws_retry alive s
           | _ \<Rightarrow> s))"

inductive ws_reach :: "ws_config \<Rightarrow> ws_state \<Rightarrow> bool" for cfg where
  start: "ws_reach cfg (ws_start cfg)"
| step: "ws_reach cfg s \<Longrightarrow> ws_reach cfg (ws_step cfg alive x s)"

section \<open>What every reachable state has\<close>

text \<open>Between two connections the consumer has been told, and nothing was sent since.\<close>

definition told :: "ws_state \<Rightarrow> bool" where
  "told s \<longleftrightarrow> wt_sent s = [] \<or> last (wt_sent s) = Reconnected"

lemma told_step:
  "wt_phase s \<in> {Connecting, BackingOff} \<longrightarrow> told s \<Longrightarrow>
    wt_phase (ws_step cfg alive x s) \<in> {Connecting, BackingOff} \<Longrightarrow> told (ws_step cfg alive x s)"
  by (auto simp: ws_step_def ws_retry_def told_def split: ws_phase.split_asm ws_input.split_asm if_split_asm)

lemma ws_reach_told: "ws_reach cfg s \<Longrightarrow> wt_phase s \<in> {Connecting, BackingOff} \<Longrightarrow> told s"
proof (induction rule: ws_reach.induct)
  case start
  show ?case by (simp add: told_def ws_start_def)
next
  case (step s alive x)
  then show ?case using told_step by blast
qed

lemma ws_backoff_bounded: "ws_reach cfg s \<Longrightarrow> wt_backoff s \<le> max (wc_base_backoff_ms cfg) (wc_max_backoff_ms cfg)"
proof (induction rule: ws_reach.induct)
  case (step s alive x)
  then show ?case
    by (auto simp: ws_step_def ws_retry_def le_max_iff_disj split: ws_phase.split ws_input.split)
qed (simp add: ws_start_def)

lemma pump_append:
  "snd (pump D fs (xs @ ys) m) = snd (pump D fs ys (snd (pump D fs xs m)))"
proof (induction xs arbitrary: m)
  case (Cons x xs)
  then show ?case by (cases x) (simp_all add: Let_def split_beta)
qed simp

definition all_fresh :: "resyncer \<Rightarrow> bool" where
  "all_fresh m \<longleftrightarrow> (\<forall>sy b. m sy = Some b \<longrightarrow> b = book_state_new)"

lemma pump_told:
  assumes "told s" shows "all_fresh (snd (pump D fs (wt_sent s) Map.empty))"
proof (cases "wt_sent s = []")
  case False
  then obtain xs where "wt_sent s = xs @ [Reconnected]" using assms by (auto simp: told_def) (metis append_butlast_last_id)
  then show ?thesis by (auto simp: pump_append all_fresh_def mark_all_for_resync_def)
qed (simp add: all_fresh_def)

lemma fresh_needs_snapshot: "all_fresh m \<Longrightarrow> fst (on_diff sy u m) = NeedSnapshot"
proof -
  assume "all_fresh m"
  then have "entry_or_default sy m = book_state_new" by (cases "m sy") (auto simp: all_fresh_def entry_or_default_def)
  then show ?thesis by (simp add: on_diff_def diff_state_def book_state_new_def local_book_new_def)
qed

section \<open>Properties\<close>

text \<open>
  C25: no book survives a reconnect. Whatever the socket went through before, when it is about to
  be connected the depth feed that consumed its messages trusts none of its books: the first diff
  of any symbol asks for a snapshot.
\<close>

theorem reconnect_resyncs:
  assumes "ws_reach cfg s" "wt_phase s = Connecting"
  shows "fst (on_diff sy u (snd (pump D fs (wt_sent s) Map.empty))) = NeedSnapshot"
  using assms by (intro fresh_needs_snapshot pump_told ws_reach_told) simp_all

text \<open>A session with a frame, a lost connection and a pause.\<close>

definition lost_session :: ws_state where
  "lost_session =
     fold (\<lambda>x. ws_step ws_config_default True x)
       [ConnectOk, FrameText (WsText (Some (JObj [(''stream'', JStr ''btcusdt@depth''), (''data'', wire_frame 99 105)])) 1
           (\<lambda>_ _. Some (wire_snapshot 100))), FrameErr, SleepDone] (ws_start ws_config_default)"

lemma lost_session_eval:
  "wt_phase lost_session = Connecting" "length (wt_sent lost_session) = 2" "wt_backoff lost_session = 1000"
  by (simp_all add: lost_session_def ws_step_def ws_start_def ws_retry_def ws_config_default_def u64_saturating_mul_def)

theorem reconnect_resyncs_witness:
  "fst (on_diff ''BTCUSDT'' \<lparr>du_first = 106, du_last = 110, du_prev = None\<rparr>
     (snd (pump rdec wire_num (wt_sent lost_session) Map.empty))) = NeedSnapshot"
proof -
  have "ws_reach ws_config_default lost_session"
    unfolding lost_session_def by (simp add: ws_reach.intros)
  then show ?thesis using reconnect_resyncs lost_session_eval(1) by blast
qed

end
