(* ===== verification/Binance.thy ===== *)
theory Binance
  imports Decimal_Text Socket Service
begin

text \<open>
  The trading side of \<open>market-data/crates/coinext-adapters-binance\<close>: endpoints (\<open>config.rs\<close>), order
  entry and the user-data stream (\<open>exec.rs\<close>), the loading of instruments (\<open>instruments.rs\<close>).

  What the adapter takes from packages is in the record \<open>wire\<close>: the network of \<open>Network\<close>, decimal
  arithmetic and text, the JSON parser. A \<open>Result\<close> whose error is a diagnostic string that is
  thrown away is an option.
\<close>

section \<open>Packages\<close>

record 'w wire =
  wr_net :: "'w net_env"
  wr_dec :: dec_ops
  wr_text :: dec_text
  wr_json :: "string \<Rightarrow> string + json"
  wr_json_list :: "string \<Rightarrow> string + json list"

section \<open>Endpoints\<close>

record binance_config =
  bn_api_key :: "string option"
  bn_api_secret :: "string option"
  bn_testnet :: bool

definition binance_public :: "bool \<Rightarrow> binance_config" where
  "binance_public testnet = \<lparr>bn_api_key = None, bn_api_secret = None, bn_testnet = testnet\<rparr>"

definition binance_default :: binance_config where
  "binance_default = \<lparr>bn_api_key = None, bn_api_secret = None, bn_testnet = True\<rparr>"

definition rest_base :: "binance_config \<Rightarrow> string" where
  "rest_base c = (if bn_testnet c then ''https://testnet.binance.vision'' else ''https://api.binance.com'')"

definition ws_market_base :: "binance_config \<Rightarrow> string" where
  "ws_market_base c =
     (if bn_testnet c then ''wss://stream.testnet.binance.vision/stream'' else ''wss://stream.binance.com:9443/stream'')"

definition ws_stream_base :: "binance_config \<Rightarrow> string" where
  "ws_stream_base c =
     (if bn_testnet c then ''wss://stream.testnet.binance.vision/ws'' else ''wss://stream.binance.com:9443/ws'')"

definition has_credentials :: "binance_config \<Rightarrow> bool" where
  "has_credentials c \<longleftrightarrow> bn_api_key c \<noteq> None \<and> bn_api_secret c \<noteq> None"

section \<open>Errors at the port\<close>

fun net_error_display :: "net_error \<Rightarrow> string" where
  "net_error_display NetNotConnected = ''not connected''"
| "net_error_display (NetTransport e) = ''transport error: '' @ e"
| "net_error_display (NetHttp s body) = ''http '' @ show_nat (unat s) @ '': '' @ body"
| "net_error_display (RateLimited ms) = ''rate limited: retry after '' @ show_nat (unat ms) @ '' ms''"
| "net_error_display (NetAuth e) = ''auth error: '' @ e"
| "net_error_display (NetTimeout ms) = ''timed out after '' @ show_nat (unat ms) @ '' ms''"
| "net_error_display (NetDecode e) = ''decode error: '' @ e"

definition net_to_port :: "net_error \<Rightarrow> port_error" where
  "net_to_port e = PortIo (net_error_display e)"

text \<open>The order path tells a refusal by the venue from a failure.\<close>

fun exec_net_to_port :: "net_error \<Rightarrow> port_error" where
  "exec_net_to_port (NetHttp s body) =
     (if 400 \<le> s \<and> s < 500 then PortRejected (net_error_display (NetHttp s body))
      else PortIo (net_error_display (NetHttp s body)))"
| "exec_net_to_port e = PortIo (net_error_display e)"

section \<open>Order parameters\<close>

fun tif_to_str :: "time_in_force \<Rightarrow> string" where
  "tif_to_str Gtc = ''GTC''"
| "tif_to_str Gtd = ''GTC''"
| "tif_to_str Day = ''GTC''"
| "tif_to_str Ioc = ''IOC''"
| "tif_to_str Fok = ''FOK''"

definition trim_decimal :: "dec_text \<Rightarrow> decimal \<Rightarrow> string" where
  "trim_decimal T d = dt_to_string T (dt_normalize T d)"

fun order_type_str :: "order_type \<Rightarrow> string option" where
  "order_type_str Market = Some ''MARKET''"
| "order_type_str Limit = Some ''LIMIT''"
| "order_type_str StopLimit = Some ''STOP_LOSS_LIMIT''"
| "order_type_str StopMarket = Some ''STOP_LOSS''"
| "order_type_str MarketIfTouched = Some ''TAKE_PROFIT''"
| "order_type_str TrailingStopMarket = None"

definition price_params :: "'w wire \<Rightarrow> order \<Rightarrow> (string + (string \<times> string) list) option" where
  "price_params W o' =
     (if o_order_type o' \<in> {Limit, StopLimit}
      then case o_price o' of
             None \<Rightarrow> Some (Inl ''limit order missing price'')
           | Some p \<Rightarrow> do {
               d \<leftarrow> price_as_decimal (wr_dec W) p;
               Some (Inr [(''price'', trim_decimal (wr_text W) d), (''timeInForce'', tif_to_str (o_tif o'))]) }
      else Some (Inr []))"

definition trigger_params :: "'w wire \<Rightarrow> order \<Rightarrow> (string \<times> string) list option" where
  "trigger_params W o' =
     (if o_order_type o' \<in> {StopLimit, StopMarket, MarketIfTouched}
      then case o_trigger o' of
             None \<Rightarrow> Some []
           | Some t \<Rightarrow> do { d \<leftarrow> price_as_decimal (wr_dec W) t; Some [(''stopPrice'', trim_decimal (wr_text W) d)] }
      else Some [])"

definition build_order_params :: "'w wire \<Rightarrow> order \<Rightarrow> (string + (string \<times> string) list) option" where
  "build_order_params W o' =
     (case order_type_str (o_order_type o') of
        None \<Rightarrow> Some (Inl ''trailing stop is unsupported on Binance spot'')
      | Some ty \<Rightarrow> do {
          q \<leftarrow> qty_as_decimal (wr_dec W) (o_quantity o');
          let base = [(''symbol'', ii_symbol (o_instrument_id o')), (''side'', if o_side o' = Buy then ''BUY'' else ''SELL''),
            (''type'', ty), (''quantity'', trim_decimal (wr_text W) q), (''newClientOrderId'', o_client_order_id o')];
          pp \<leftarrow> price_params W o';
          (case pp of
             Inl e \<Rightarrow> Some (Inl e)
           | Inr ps \<Rightarrow> map_option (\<lambda>ts. Inr (base @ ps @ ts)) (trigger_params W o')) })"

definition build_cancel_params :: "client_order_id \<Rightarrow> instrument_id \<Rightarrow> rest_request" where
  "build_cancel_params coid i =
     with_param ''origClientOrderId'' coid
       (with_param ''symbol'' (ii_symbol i) (rest_signed HttpDelete ''/api/v3/order'' 1))"

definition order_request :: "(string \<times> string) list \<Rightarrow> rest_request" where
  "order_request params = (set_idempotent True (rest_signed HttpPost ''/api/v3/order'' 1))\<lparr>rq_query := params\<rparr>"

definition keepalive_request :: "string \<Rightarrow> rest_request" where
  "keepalive_request key = with_param ''listenKey'' key (rest_api_key HttpPut ''/api/v3/userDataStream'' 2)"

section \<open>Reports\<close>

definition parse_listen_key :: "'w wire \<Rightarrow> string \<Rightarrow> string + string" where
  "parse_listen_key W body =
     (case wr_json W body of
        Inl e \<Rightarrow> Inl (''invalid json: '' @ e)
      | Inr v \<Rightarrow> (case str_field v ''listenKey'' of Some k \<Rightarrow> Inr k | None \<Rightarrow> Inl ''missing listenKey''))"

definition build_fill :: "'w wire \<Rightarrow> json \<Rightarrow> client_order_id \<Rightarrow> fill option" where
  "build_fill W v client_id = do {
     sy \<leftarrow> str_field v ''s'';
     i \<leftarrow> num_field v ''i'';
     t \<leftarrow> num_field v ''t'';
     sd \<leftarrow> str_field v ''S'';
     side \<leftarrow> (if sd = ''BUY'' then Some Buy else if sd = ''SELL'' then Some Sell else None);
     ps \<leftarrow> str_field v ''L'';
     last_px \<leftarrow> parse_price (wr_dec W) (dt_from_str (wr_text W)) ps;
     qs \<leftarrow> str_field v ''l'';
     last_qty \<leftarrow> parse_qty (wr_dec W) (dt_from_str (wr_text W)) qs;
     fee_amount \<leftarrow> dt_from_str (wr_text W) (case str_field v ''n'' of Some n \<Rightarrow> n | None \<Rightarrow> ''0'');
     fee_ccy \<leftarrow> result_ok (currency_new (case str_field v ''N'' of Some n \<Rightarrow> n | None \<Rightarrow> ''USDT'') WIRE_PRECISION);
     fee \<leftarrow> result_ok (money_from_decimal (wr_dec W) fee_amount fee_ccy);
     let is_maker = (case Option.bind (json_get ''m'' v) as_bool of Some b \<Rightarrow> b | None \<Rightarrow> False);
     let ts = saturating_ms (case num_field v ''T'' of Some n \<Rightarrow> n | None \<Rightarrow> 0);
     Some \<lparr>f_trade_id = show_nat (unat t), f_client_order_id = client_id, f_venue_order_id = show_nat (unat i),
       f_instrument_id = binance_id sy, f_side = side, f_last_px = last_px, f_last_qty = last_qty, f_fee = fee,
       f_liquidity = (if is_maker then Maker else Taker), f_ts_event = ts, f_ts_init = ts\<rparr> }"

definition report_of :: "'w wire \<Rightarrow> json \<Rightarrow> execution_report option" where
  "report_of W v =
     (if str_field v ''e'' \<noteq> Some ''executionReport'' then None
      else do {
        exec_type \<leftarrow> str_field v ''x'';
        client_id \<leftarrow> str_field v ''c'';
        (if exec_type = ''NEW'' then map_option (\<lambda>i. RepAccepted client_id (show_nat (unat i))) (num_field v ''i'')
         else if exec_type = ''TRADE'' then map_option RepFill (build_fill W v client_id)
         else if exec_type = ''CANCELED'' then Some (RepCanceled client_id)
         else if exec_type = ''REJECTED''
         then Some (RepRejected client_id (Reason (case str_field v ''r'' of Some r \<Rightarrow> r | None \<Rightarrow> ''NONE'') []))
         else if exec_type = ''EXPIRED'' then Some (RepExpired client_id)
         else None) })"

definition map_execution_report :: "'w wire \<Rightarrow> string \<Rightarrow> execution_report option" where
  "map_execution_report W text = (case wr_json W text of Inl e \<Rightarrow> None | Inr v \<Rightarrow> report_of W v)"

definition map_open_order :: "json \<Rightarrow> execution_report option" where
  "map_open_order row = do {
     c \<leftarrow> str_field row ''clientOrderId'';
     i \<leftarrow> num_field row ''orderId'';
     Some (RepAccepted c (show_nat (unat i))) }"

section \<open>The execution client\<close>

text \<open>The running socket is its URL; \<open>bx_world\<close> is what lies behind the network.\<close>

record 'w binance_exec =
  bx_config :: binance_config
  bx_rest :: rest_client
  bx_world :: 'w
  bx_chan :: "execution_report chan"
  bx_taken :: bool
  bx_listen_key :: "string option"
  bx_ws :: "string option"
  bx_keepalive :: bool

text \<open>\<open>None\<close> is the panic of a limiter without a cell period.\<close>

definition binance_exec_new :: "'w wire \<Rightarrow> binance_config \<Rightarrow> 'w \<Rightarrow> (port_error + 'w binance_exec) option" where
  "binance_exec_new W cfg w = do {
     rl \<leftarrow> per_minute 1200;
     let creds = (case (bn_api_key cfg, bn_api_secret cfg) of
         (Some k, Some s) \<Rightarrow> credentials_new k s
       | _ \<Rightarrow> \<lparr>cr_api_key = None, cr_secret = None\<rparr>);
     Some (case rest_client_new (wr_net W) (rest_config_default\<lparr>rf_base_url := rest_base cfg\<rparr>) rl creds of
         Inl e \<Rightarrow> Inl (exec_net_to_port e)
       | Inr rest \<Rightarrow>
           Inr \<lparr>bx_config = cfg, bx_rest = rest, bx_world = w, bx_chan = chan_new 2048, bx_taken = False,
             bx_listen_key = None, bx_ws = None, bx_keepalive = False\<rparr>) }"

definition bx_send :: "'w wire \<Rightarrow> rest_request \<Rightarrow> 'w binance_exec \<Rightarrow> (net_error + u16 \<times> string) \<times> 'w binance_exec" where
  "bx_send W r x = (case send (wr_net W) (bx_rest x) r (bx_world x) of (res, w) \<Rightarrow> (res, x\<lparr>bx_world := w\<rparr>))"

definition binance_connect :: "'w wire \<Rightarrow> 'w binance_exec \<Rightarrow> 'w binance_exec lres" where
  "binance_connect W x =
     (if \<not> has_credentials (bx_config x)
      then LErr (Unsupported ''BinanceExecutionClient::connect requires api credentials'') x
      else case bx_send W (rest_api_key HttpPost ''/api/v3/userDataStream'' 2) x of
             (Inl e, x1) \<Rightarrow> LErr (exec_net_to_port e) x1
           | (Inr (s, body), x1) \<Rightarrow>
               (case parse_listen_key W body of
                  Inl e \<Rightarrow> LErr (PortIo (''listenKey: '' @ e)) x1
                | Inr key \<Rightarrow>
                    LOk (x1\<lparr>bx_listen_key := Some key, bx_ws := Some (ws_stream_base (bx_config x1) @ ''/'' @ key),
                      bx_keepalive := True\<rparr>)))"

text \<open>One frame of the user stream; \<open>None\<close> when the pump waits for room in the channel.\<close>

definition user_frame :: "'w wire \<Rightarrow> string \<Rightarrow> 'w binance_exec \<Rightarrow> 'w binance_exec option" where
  "user_frame W text x =
     (case map_execution_report W text of
        None \<Rightarrow> Some x
      | Some rep \<Rightarrow> map_option (\<lambda>c. x\<lparr>bx_chan := c\<rparr>) (try_send rep (bx_chan x)))"

definition keepalive_listen_key :: "'w wire \<Rightarrow> string \<Rightarrow> 'w binance_exec \<Rightarrow> (port_error + unit) \<times> 'w binance_exec" where
  "keepalive_listen_key W key x =
     (case bx_send W (keepalive_request key) x of
        (Inl e, x1) \<Rightarrow> (Inl (exec_net_to_port e), x1)
      | (Inr _, x1) \<Rightarrow> (Inr (), x1))"

definition send_unit :: "'w wire \<Rightarrow> rest_request \<Rightarrow> 'w binance_exec \<Rightarrow> 'w binance_exec lres" where
  "send_unit W r x =
     (case bx_send W r x of (Inl e, x1) \<Rightarrow> LErr (exec_net_to_port e) x1 | (Inr _, x1) \<Rightarrow> LOk x1)"

definition binance_submit_order :: "'w wire \<Rightarrow> order \<Rightarrow> 'w binance_exec \<Rightarrow> 'w binance_exec lres" where
  "binance_submit_order W o' x =
     (case build_order_params W o' of
        None \<Rightarrow> LPanic
      | Some (Inl e) \<Rightarrow> LErr (PortRejected (''build order params: '' @ e)) x
      | Some (Inr params) \<Rightarrow> send_unit W (order_request params) x)"

definition binance_cancel_order ::
  "'w wire \<Rightarrow> client_order_id \<Rightarrow> instrument_id \<Rightarrow> 'w binance_exec \<Rightarrow> 'w binance_exec lres" where
  "binance_cancel_order W coid i = send_unit W (build_cancel_params coid i)"

definition binance_modify_order :: "client_order_id \<Rightarrow> 'w binance_exec \<Rightarrow> 'w binance_exec lres" where
  "binance_modify_order coid x =
     LErr (Unsupported ''Binance spot has no order modify; use cancel-replace (TODO)'') x"

definition binance_reconcile ::
  "'w wire \<Rightarrow> 'w binance_exec \<Rightarrow> (port_error + execution_report list) \<times> 'w binance_exec" where
  "binance_reconcile W x =
     (case bx_send W (rest_signed HttpGet ''/api/v3/openOrders'' 40) x of
        (Inl e, x1) \<Rightarrow> (Inl (exec_net_to_port e), x1)
      | (Inr (s, body), x1) \<Rightarrow>
          (case wr_json_list W body of
             Inl e \<Rightarrow> Inl (exec_net_to_port (NetDecode e))
           | Inr rows \<Rightarrow> Inr (List.map_filter map_open_order rows), x1))"

definition binance_take_reports :: "'w binance_exec \<Rightarrow> 'w binance_exec option" where
  "binance_take_reports x = (if bx_taken x then None else Some (x\<lparr>bx_taken := True\<rparr>))"

definition binance_disconnect :: "'w wire \<Rightarrow> 'w binance_exec \<Rightarrow> 'w binance_exec lres" where
  "binance_disconnect W x =
     (let x1 = x\<lparr>bx_keepalive := False, bx_ws := None\<rparr>
      in case bx_listen_key x1 of
           None \<Rightarrow> LOk x1
         | Some key \<Rightarrow>
             LOk (snd (bx_send W (with_param ''listenKey'' key (rest_api_key HttpDelete ''/api/v3/userDataStream'' 2))
               (x1\<lparr>bx_listen_key := None\<rparr>))))"

definition binance_exec_client :: "'w wire \<Rightarrow> 'w binance_exec exec_client" where
  "binance_exec_client W =
     \<lparr>ec_venue = (\<lambda>_. ''BINANCE''), ec_connect = binance_connect W, ec_submit_order = binance_submit_order W,
      ec_cancel_order = binance_cancel_order W, ec_modify_order = binance_modify_order,
      ec_reconcile = binance_reconcile W, ec_take_reports = binance_take_reports,
      ec_recv = (\<lambda>x. let (r, c) = chan_recv (bx_chan x) in (r, x\<lparr>bx_chan := c\<rparr>)),
      ec_disconnect = binance_disconnect W\<rparr>"

section \<open>What the venue reads\<close>

context decimal_lib
begin

lemma price_as_decimal_val: "price_as_decimal D p = Some d \<Longrightarrow> wf_dec d \<and> dval d = price_val p"
  by (auto simp: price_as_decimal_def from_i128_eq wf_dec_def split: if_split_asm)

end

lemma trim_reads:
  assumes "decimal_text T" "wf_dec d"
  shows "dt_from_str T (trim_decimal T d) = Some (dt_normalize T d)"
  using decimal_text.print_parse [OF assms(1) decimal_text.normalize_wf [OF assms]] by (simp add: trim_decimal_def)

lemma price_params_cases:
  assumes "price_params W o1 = Some (Inr ps)"
  obtains (other) "o_order_type o1 \<notin> {Limit, StopLimit}" "ps = []"
  | (limit) p d where "o_order_type o1 \<in> {Limit, StopLimit}" "o_price o1 = Some p" "price_as_decimal (wr_dec W) p = Some d"
      "ps = [(''price'', trim_decimal (wr_text W) d), (''timeInForce'', tif_to_str (o_tif o1))]"
  using assms by (auto simp: price_params_def bind_eq_Some split: if_split_asm option.split_asm)

lemma trigger_params_cases:
  assumes "trigger_params W o1 = Some ts"
  obtains (other) "o_order_type o1 \<notin> {StopLimit, StopMarket, MarketIfTouched} \<or> o_trigger o1 = None" "ts = []"
  | (stop) p d where "o_order_type o1 \<in> {StopLimit, StopMarket, MarketIfTouched}" "o_trigger o1 = Some p"
      "price_as_decimal (wr_dec W) p = Some d" "ts = [(''stopPrice'', trim_decimal (wr_text W) d)]"
  using assms by (auto simp: trigger_params_def bind_eq_Some split: if_split_asm option.split_asm)

lemma build_order_params_cases:
  assumes "build_order_params W o1 = Some (Inr ps)"
  obtains ty q pp ts where "order_type_str (o_order_type o1) = Some ty" "qty_as_decimal (wr_dec W) (o_quantity o1) = Some q"
    "price_params W o1 = Some (Inr pp)" "trigger_params W o1 = Some ts"
    "ps = [(''symbol'', ii_symbol (o_instrument_id o1)), (''side'', if o_side o1 = Buy then ''BUY'' else ''SELL''),
       (''type'', ty), (''quantity'', trim_decimal (wr_text W) q), (''newClientOrderId'', o_client_order_id o1)] @ pp @ ts"
proof (cases "price_params W o1")
  case (Some r)
  then show ?thesis
    using assms that by (cases r) (auto simp: build_order_params_def bind_eq_Some Let_def split: option.split_asm)
qed (use assms in \<open>auto simp: build_order_params_def bind_eq_Some Let_def split: option.split_asm\<close>)

text \<open>The decimal the venue reads under a key.\<close>

definition read_param :: "dec_text \<Rightarrow> (string \<times> string) list \<Rightarrow> string \<Rightarrow> rat option" where
  "read_param T ps k = map_option dval (Option.bind (map_of ps k) (dt_from_str T))"

text \<open>A venue that accepts an order id once.\<close>

definition place_by_id ::
  "(string \<times> string) list \<Rightarrow> (string \<rightharpoonup> (string \<times> string) list) \<Rightarrow> string \<rightharpoonup> (string \<times> string) list" where
  "place_by_id ps v =
     (case map_of ps ''newClientOrderId'' of None \<Rightarrow> v | Some i \<Rightarrow> if v i = None then v(i \<mapsto> ps) else v)"

lemma place_by_id_idem: "place_by_id ps (place_by_id ps v) = place_by_id ps v"
  by (simp add: place_by_id_def split: option.split)

lemma params_id: "build_order_params W o1 = Some (Inr ps) \<Longrightarrow> map_of ps ''newClientOrderId'' = Some (o_client_order_id o1)"
  by (erule build_order_params_cases) simp

lemma open_order_accepts: "map_open_order row = Some rep \<Longrightarrow> accepts rep"
  by (auto simp: map_open_order_def bind_eq_Some accepts_def)

lemma binance_reconcile_accepts:
  "fst (binance_reconcile W x) = Inr reports \<Longrightarrow> \<forall>rep \<in> set reports. accepts rep"
  by (auto simp: binance_reconcile_def map_filter_def split: prod.split_asm sum.split_asm) (rule open_order_accepts)

section \<open>Properties\<close>

text \<open>
  C24: the venue reads the order that was meant. The parameters of an accepted order have distinct
  names; the venue finds the symbol, the side and the client order id of the order, and reads the
  exact quantity, the exact limit price of a limit order and the exact trigger of a stop order.
\<close>

theorem order_params_read_back:
  assumes "decimal_lib (wr_dec W)" "decimal_text (wr_text W)" "build_order_params W o1 = Some (Inr ps)"
  shows "distinct (map fst ps) \<and> map_of ps ''symbol'' = Some (ii_symbol (o_instrument_id o1)) \<and>
    map_of ps ''newClientOrderId'' = Some (o_client_order_id o1) \<and>
    map_of ps ''side'' = Some (if o_side o1 = Buy then ''BUY'' else ''SELL'') \<and>
    read_param (wr_text W) ps ''quantity'' = Some (qty_val (o_quantity o1)) \<and>
    read_param (wr_text W) ps ''price'' =
      (if o_order_type o1 \<in> {Limit, StopLimit} then map_option price_val (o_price o1) else None) \<and>
    read_param (wr_text W) ps ''stopPrice'' =
      (if o_order_type o1 \<in> {StopLimit, StopMarket, MarketIfTouched} then map_option price_val (o_trigger o1) else None)"
proof -
  note px = decimal_lib.price_as_decimal_val [OF assms(1)]
  note trim = trim_reads [OF assms(2)] decimal_text.normalize_val [OF assms(2)]
  obtain ty q pp ts where ps: "qty_as_decimal (wr_dec W) (o_quantity o1) = Some q" "price_params W o1 = Some (Inr pp)"
      "trigger_params W o1 = Some ts" "ps = [(''symbol'', ii_symbol (o_instrument_id o1)),
       (''side'', if o_side o1 = Buy then ''BUY'' else ''SELL''), (''type'', ty), (''quantity'', trim_decimal (wr_text W) q),
       (''newClientOrderId'', o_client_order_id o1)] @ pp @ ts"
    using assms(3) by (rule build_order_params_cases)
  have q: "wf_dec q" "dval q = qty_val (o_quantity o1)"
    using decimal_lib.qty_as_decimal_val [OF assms(1) ps(1)] by simp_all
  show ?thesis
    using q by (cases rule: price_params_cases [OF ps(2)]; cases rule: trigger_params_cases [OF ps(3)])
      (auto simp: ps(4) read_param_def trim dest!: px)
qed

text \<open>
  C23: an order is placed once. Against a venue that accepts a client order id once, submitting an
  order with a new id leaves either nothing or exactly that order, whatever happens to the requests
  on the way, and exactly that order when the call reports success.
\<close>

theorem submit_places_once:
  assumes "build_order_params W o1 = Some (Inr ps)" "acct (bx_world x) (o_client_order_id o1) = None"
    "venue_law (wr_net W) (bx_rest x) (order_request ps) acct (place_by_id ps)"
  shows "case binance_submit_order W o1 x of
      LOk x' \<Rightarrow> acct (bx_world x') = (acct (bx_world x))(o_client_order_id o1 \<mapsto> ps)
    | LErr e x' \<Rightarrow> acct (bx_world x') \<in> {acct (bx_world x), (acct (bx_world x))(o_client_order_id o1 \<mapsto> ps)}
    | LPanic \<Rightarrow> False
    | LBlock \<Rightarrow> False"
proof -
  obtain res w' where s: "send (wr_net W) (bx_rest x) (order_request ps) (bx_world x) = (res, w')" by (rule prod.exhaust)
  have "place_by_id ps (acct (bx_world x)) = (acct (bx_world x))(o_client_order_id o1 \<mapsto> ps)"
    using params_id [OF assms(1)] assms(2) by (simp add: place_by_id_def)
  then have "acct w' \<in> {acct (bx_world x), (acct (bx_world x))(o_client_order_id o1 \<mapsto> ps)} \<and>
      (\<forall>y. res = Inr y \<longrightarrow> acct w' = (acct (bx_world x))(o_client_order_id o1 \<mapsto> ps))"
    using send_once [OF assms(3) _ s] place_by_id_idem [of ps] by simp
  then show ?thesis
    using s assms(1) by (cases res) (auto simp: binance_submit_order_def send_unit_def bx_send_def)
qed

text \<open>
  C27: start-up reconciliation with the venue converges. When the service reconciles its log with
  the open orders the venue lists, the open orders of the log afterwards are those that were open
  in it and those the venue lists, and the pass is called in order exactly when both agreed.
\<close>

theorem binance_reconcile_converges:
  assumes "store_ok l" "local_open_client_ids sqlite_event_store l = Some ids"
    "reconcile_on_start sqlite_event_store (binance_exec_client W) now clock x l = Some (sm, l')"
  shows "\<exists>reports. fst (binance_reconcile W x) = Inr reports \<and>
    local_open_client_ids sqlite_event_store l' = Some (ids \<union> report_client_order_id ` set reports) \<and>
    rc_ok sm = (ids = report_client_order_id ` set reports)"
proof -
  have rec: "ec_reconcile (binance_exec_client W) = binance_reconcile W" by (simp add: binance_exec_client_def)
  obtain reports where r: "fst (binance_reconcile W x) = Inr reports"
    using assms(3) by (auto simp: reconcile_on_start_def rec split: sum.split_asm)
  show ?thesis
    using reconcile_converges [OF assms(1) _ _ assms(3,2)] r binance_reconcile_accepts [OF r] rec by metis
qed

section \<open>A venue\<close>

definition venue_order :: order where
  "venue_order =
     order_new ''s1'' ''s1-1'' (binance_id ''BTCUSDT'') Buy Limit (Quantity 50 2) (Some (Price 100 0)) None Gtc flags_default 0"

definition venue_params :: "(string \<times> string) list" where
  "venue_params = [(''symbol'', ''BTCUSDT''), (''side'', ''BUY''), (''type'', ''LIMIT''), (''quantity'', ''0.5''),
     (''newClientOrderId'', ''s1-1''), (''price'', ''100''), (''timeInForce'', ''GTC'')]"

definition venue_wire :: "(http_answer list \<times> (string \<rightharpoonup> (string \<times> string) list)) wire" where
  "venue_wire =
     \<lparr>wr_net = script_env (place_by_id venue_params), wr_dec = rdec, wr_text = rtext, wr_json = (\<lambda>s. Inl []),
      wr_json_list = (\<lambda>s. Inr [JObj [(''clientOrderId'', JStr ''b''), (''orderId'', JInt 7)], JNull])\<rparr>"

definition venue_client :: "http_answer list \<Rightarrow> (http_answer list \<times> (string \<rightharpoonup> (string \<times> string) list)) binance_exec" where
  "venue_client xs =
     \<lparr>bx_config = binance_default, bx_rest = script_client\<lparr>cl_limiter := \<lparr>rl_capacity = 1200, rl_cell_period = 1, rl_burst = 1200\<rparr>\<rparr>,
      bx_world = (xs, Map.empty), bx_chan = chan_new 2048, bx_taken = False, bx_listen_key = None, bx_ws = None, bx_keepalive = False\<rparr>"

lemma venue_params_built: "build_order_params venue_wire venue_order = Some (Inr venue_params)"
  by code_simp

theorem order_params_read_back_witness:
  "read_param rtext venue_params ''quantity'' = Some (1 / 2) \<and> read_param rtext venue_params ''price'' = Some 100"
proof -
  have "wr_dec venue_wire = rdec" "wr_text venue_wire = rtext" by (simp_all add: venue_wire_def)
  then show ?thesis
    using order_params_read_back [OF _ _ venue_params_built] rd.decimal_lib_axioms rt.decimal_text_axioms
    by (simp add: venue_order_def order_new_def qty_val_def price_val_def)
qed

theorem submit_places_once_witness:
  "\<exists>x'. binance_submit_order venue_wire venue_order (venue_client [Response 503 []]) = LOk x' \<and>
     snd (bx_world x') = [''s1-1'' \<mapsto> venue_params]"
proof -
  let ?x = "venue_client [Response 503 []]"
  obtain x' where s: "binance_submit_order venue_wire venue_order ?x = LOk x'"
    using venue_params_built
    by (simp add: binance_submit_order_def send_unit_def bx_send_def venue_client_def venue_wire_def send_def acquire_def
        script_client_def order_request_def set_idempotent_def rest_signed_def send_loop.simps prepare_def
        build_query_string_def script_env_def should_retry.simps credentials_new_def rest_config_default_def pause_def Let_def)
  have "o_client_order_id venue_order = ''s1-1''" "wr_net venue_wire = script_env (place_by_id venue_params)"
    "snd (bx_world ?x) = Map.empty"
    by (simp_all add: venue_order_def order_new_def venue_wire_def venue_client_def)
  then show ?thesis
    using submit_places_once [OF venue_params_built, where acct = snd and x = ?x] script_law [of "place_by_id venue_params"] s by simp
qed

theorem binance_reconcile_converges_witness:
  "\<exists>sm l'. reconcile_on_start sqlite_event_store (binance_exec_client venue_wire) 5 (\<lambda>_. 6) (venue_client []) desk_log =
       Some (sm, l') \<and>
     local_open_client_ids sqlite_event_store l' = Some {''a'', ''b''} \<and> \<not> rc_ok sm"
proof -
  have rec: "fst (binance_reconcile venue_wire (venue_client [])) = Inr [RepAccepted ''b'' (show_nat 7)]"
    by (simp add: binance_reconcile_def bx_send_def venue_client_def venue_wire_def send_def acquire_def
        script_client_def rest_signed_def send_loop.simps prepare_def map_filter_def map_open_order_def str_field_def num_field_def
        build_query_string_def script_env_def credentials_new_def rest_config_default_def Let_def)
  then obtain sm l' where r: "reconcile_on_start sqlite_event_store (binance_exec_client venue_wire) 5 (\<lambda>_. 6)
      (venue_client []) desk_log = Some (sm, l')"
    by (simp add: reconcile_on_start_def binance_exec_client_def desk_log_open)
  from binance_reconcile_converges [OF desk_log_ok desk_log_open r] show ?thesis
    using r rec by (auto simp: insert_commute)
qed

end
