(* ===== verification/Float64.thy ===== *)
theory Float64
  imports Decimal
begin

text \<open>
  Binary floating point as the sources use it: the type \<open>f64\<close> of the language, IEEE 754 binary64
  with rounding to the nearest value, ties to even. A finite value is a sign and a rational
  magnitude, so that both zeros are there; every operation computes exactly and rounds once.
  There is one NaN: the sources never look at its bits.
\<close>

section \<open>Rounding to 53 bits\<close>

text \<open>The number of bits of a positive integer, and the exponent of the leading bit of a rational.\<close>

function blen :: "int \<Rightarrow> int" where
  "blen n = (if n \<le> 0 then 0 else 1 + blen (n div 2))"
  by pat_completeness auto
termination by (relation "measure nat") auto

declare blen.simps [simp del]

definition binexp :: "rat \<Rightarrow> int" where
  "binexp a = (case quotient_of a of (n, d) \<Rightarrow> let k = blen n - blen d in if 2 powi k \<le> a then k else k - 1)"

text \<open>The spacing of the values around \<open>r\<close>, subnormal values included, and the nearest of them.\<close>

definition ulp_exp :: "rat \<Rightarrow> int" where
  "ulp_exp r = max (binexp \<bar>r\<bar> - 52) (- 1074)"

definition rnd :: "rat \<Rightarrow> rat" where
  "rnd r = (if r = 0 then 0 else of_int (round_half_even (r / 2 powi ulp_exp r)) * 2 powi ulp_exp r)"

lemma pow2_pos [simp]: "0 < (2::rat) powi e"
  by simp

lemma pow2_nz [simp]: "(2::rat) powi e \<noteq> 0"
  by simp

lemma pow2_split: "a \<le> b \<Longrightarrow> (2::rat) powi b = of_int (2 ^ nat (b - a)) * 2 powi a"
  by (simp add: power_int_add [symmetric] power_int_nonneg_exp [symmetric])

lemma pow2_mono: "a \<le> b \<Longrightarrow> (2::rat) powi a \<le> 2 powi b"
  by (rule power_int_increasing) simp_all

lemma pow2_less_iff: "(2::rat) powi a < 2 powi b \<longleftrightarrow> a < b"
  using pow2_mono [of b a] power_int_strict_increasing [of a b "2::rat"] by fastforce

lemma blen_nonneg: "0 \<le> blen n"
  by (induction n rule: blen.induct) (subst blen.simps, simp)

lemma blen_bounds: "0 < n \<Longrightarrow> 2 powi (blen n - 1) \<le> (of_int n :: rat) \<and> (of_int n :: rat) < 2 powi blen n"
proof (induction n rule: blen.induct)
  case (1 n)
  show ?case
  proof (cases "n = 1")
    case True
    have "blen 1 = 1" by (simp add: blen.simps [of 1] blen.simps [of 0])
    then show ?thesis by (simp add: True)
  next
    case False
    let ?h = "n div 2"
    have h: "0 < ?h" using False 1(2) by simp
    have b: "blen n = 1 + blen ?h" using 1(2) by (subst blen.simps) simp
    have "2 * ?h \<le> n" "n \<le> 2 * ?h + 1" by auto
    then have "(of_int (2 * ?h) :: rat) \<le> of_int n" "(of_int n :: rat) \<le> of_int (2 * ?h + 1)"
      by (simp_all only: of_int_le_iff)
    then have r: "2 * (of_int ?h :: rat) \<le> of_int n" "(of_int n :: rat) \<le> 2 * of_int ?h + 1" by simp_all
    have ih: "2 powi (blen ?h - 1) \<le> (of_int ?h :: rat)" "(of_int ?h :: rat) < 2 powi blen ?h" using 1 h by auto
    have p: "(2::rat) powi blen ?h = of_int (2 ^ nat (blen ?h))" using blen_nonneg by (simp add: power_int_nonneg_exp)
    then have "?h < 2 ^ nat (blen ?h)" using ih(2) by (simp only: of_int_less_iff)
    then have "(of_int (?h + 1) :: rat) \<le> of_int (2 ^ nat (blen ?h))" by (simp only: of_int_le_iff zless_imp_add1_zle)
    then have "of_int ?h + 1 \<le> (2::rat) powi blen ?h" by (simp only: p of_int_add of_int_1)
    then have "of_int n < (2::rat) * 2 powi blen ?h" using r(2) by linarith
    moreover have "(2::rat) powi blen ?h \<le> of_int n" using ih(1) r(1) by (simp add: power_int_diff)
    ultimately show ?thesis by (simp add: b power_int_add)
  qed
qed

lemma binexp_bounds:
  assumes "0 < a"
  shows "2 powi binexp a \<le> a" "a < 2 powi (binexp a + 1)"
proof -
  obtain n d where q: "quotient_of a = (n, d)" by (rule prod.exhaust)
  have d: "0 < d" using quotient_of_denom_pos q by blast
  have a: "a = of_int n / of_int d" using quotient_of_div q by blast
  have n: "0 < n" using assms d unfolding a by (simp add: zero_less_divide_iff)
  let ?k = "blen n - blen d"
  note nb = blen_bounds [OF n] note db = blen_bounds [OF d]
  have "(2::rat) powi (?k - 1) * of_int d < 2 powi (?k - 1) * 2 powi blen d" using db by (intro mult_strict_left_mono) auto
  also have "\<dots> = (2::rat) powi (blen n - 1)" by (simp add: power_int_add [symmetric])
  finally have lo: "2 powi (?k - 1) \<le> a" using nb d by (simp add: a field_simps)
  have "(2::rat) powi blen n = 2 powi (?k + 1) * 2 powi (blen d - 1)" by (simp add: power_int_add [symmetric])
  also have "\<dots> \<le> 2 powi (?k + 1) * of_int d" using db by (intro mult_left_mono) auto
  finally have hi: "a < 2 powi (?k + 1)" using nb d by (simp add: a field_simps)
  show "2 powi binexp a \<le> a" "a < 2 powi (binexp a + 1)"
    using lo hi by (auto simp: binexp_def q Let_def)
qed

lemma binexp_less: "0 < a \<Longrightarrow> a < 2 powi k \<Longrightarrow> binexp a < k"
  using binexp_bounds(1) [of a] pow2_less_iff [of "binexp a" k] by linarith

lemma binexp_mono: "0 < a \<Longrightarrow> a \<le> b \<Longrightarrow> binexp a \<le> binexp b"
  using binexp_less [of a "binexp b + 1"] binexp_bounds(2) [of b] by linarith

lemma ulp_exp_ge: "- 1074 \<le> ulp_exp r"
  by (simp add: ulp_exp_def)

lemma rnd_minus [simp]: "rnd (- r) = - rnd r"
  by (simp add: rnd_def ulp_exp_def round_half_even_minus)

lemma rnd_zero [simp]: "rnd 0 = 0"
  by (simp add: rnd_def)

text \<open>A multiple of the spacing bounds the rounded value as it bounds the value.\<close>

lemma rnd_le_grid: "r \<le> of_int k * 2 powi ulp_exp r \<Longrightarrow> rnd r \<le> of_int k * 2 powi ulp_exp r"
proof (cases "r = 0")
  case False
  assume "r \<le> of_int k * 2 powi ulp_exp r"
  then have "r / 2 powi ulp_exp r \<le> of_int k" by (simp add: divide_le_eq)
  then show ?thesis using False round_half_even_le [of "r / 2 powi ulp_exp r" k] by (simp add: rnd_def)
qed simp

lemma rnd_ge_grid: "of_int k * 2 powi ulp_exp r \<le> r \<Longrightarrow> of_int k * 2 powi ulp_exp r \<le> rnd r"
  using rnd_le_grid [of "- r" "- k"] by (simp add: ulp_exp_def)

lemma rnd_nonneg [simp]: "0 \<le> r \<Longrightarrow> 0 \<le> rnd r"
  using rnd_ge_grid [of 0 r] by simp

text \<open>Values of at most 53 bits are kept.\<close>

lemma rnd_grid:
  assumes "\<bar>m\<bar> < 2 ^ 53" "- 1074 \<le> e"
  shows "rnd (of_int m * 2 powi e) = of_int m * 2 powi e"
proof (cases "m = 0")
  case False
  let ?v = "of_int m * 2 powi e :: rat"
  have "\<bar>?v\<bar> = of_int \<bar>m\<bar> * 2 powi e" by (simp add: abs_mult)
  also have "\<dots> < of_int (2 ^ 53) * 2 powi e"
    using assms(1) by (intro mult_strict_right_mono) (simp_all only: of_int_less_iff pow2_pos)
  also have "\<dots> = 2 powi (53 + e)" by (simp add: power_int_add)
  finally have "binexp \<bar>?v\<bar> < 53 + e" using False by (intro binexp_less) auto
  then have e: "ulp_exp ?v \<le> e" using assms(2) by (simp add: ulp_exp_def)
  define u where "u = ulp_exp ?v"
  have "(2::rat) powi e = of_int (2 ^ nat (e - u)) * 2 powi u" using e unfolding u_def by (rule pow2_split)
  then have v: "?v = of_int (m * 2 ^ nat (e - u)) * 2 powi u" by simp
  then have "?v / 2 powi u = of_int (m * 2 ^ nat (e - u))" by (metis nonzero_eq_divide_eq pow2_nz)
  then have "of_int (round_half_even (?v / 2 powi u)) * 2 powi u = ?v" by (metis v round_half_even_of_int)
  then show ?thesis using False by (simp add: rnd_def u_def)
qed simp

lemma rnd_grid_le:
  assumes "\<bar>m\<bar> \<le> 2 ^ 53" "- 1074 \<le> e"
  shows "rnd (of_int m * 2 powi e) = of_int m * 2 powi e"
proof (cases "\<bar>m\<bar> = 2 ^ 53")
  case True
  have "rnd (of_int (2 ^ 52) * 2 powi (e + 1)) = of_int (2 ^ 52) * 2 powi (e + 1)"
    using assms(2) by (intro rnd_grid) simp_all
  moreover have "(of_int (2 ^ 53) * 2 powi e :: rat) = of_int (2 ^ 52) * 2 powi (e + 1)"
    by (simp add: power_int_add)
  ultimately have "rnd (of_int (2 ^ 53) * 2 powi e) = of_int (2 ^ 53) * 2 powi e" by presburger
  moreover have "m = 2 ^ 53 \<or> m = - (2 ^ 53)" using True by auto
  ultimately show ?thesis by (auto simp del: of_int_power)
qed (use assms in \<open>simp add: rnd_grid\<close>)

lemma rnd_int [simp]: "\<bar>m\<bar> \<le> 2 ^ 53 \<Longrightarrow> rnd (of_int m) = of_int m"
  using rnd_grid_le [of m 0] by simp

lemma rnd_pow2 [simp]: "- 1074 \<le> e \<Longrightarrow> rnd (2 powi e) = 2 powi e"
  using rnd_grid [of 1 e] by simp

lemma rnd_on_grid: "\<exists>k. rnd r = of_int k * 2 powi ulp_exp r \<and> \<bar>k\<bar> \<le> 2 ^ 53"
proof (cases "r = 0")
  case False
  let ?e = "ulp_exp r" and ?k = "round_half_even (r / 2 powi ulp_exp r)"
  have "\<bar>r\<bar> < 2 powi (binexp \<bar>r\<bar> + 1)" using False binexp_bounds(2) by simp
  also have "\<dots> \<le> 2 powi (53 + ?e)" by (intro pow2_mono) (simp add: ulp_exp_def)
  also have "\<dots> = of_int (2 ^ 53) * 2 powi ?e" by (simp add: power_int_add)
  finally have "\<bar>r / 2 powi ?e\<bar> \<le> of_int (2 ^ 53)" by (simp add: abs_divide divide_le_eq del: of_int_power)
  then have "r / 2 powi ?e \<le> of_int (2 ^ 53)" "of_int (- (2 ^ 53)) \<le> r / 2 powi ?e" unfolding abs_le_iff of_int_minus by linarith+
  then have "\<bar>?k\<bar> \<le> 2 ^ 53" using round_half_even_le round_half_even_ge by (metis abs_leI minus_le_iff)
  then show ?thesis using False by (auto simp: rnd_def)
qed (rule exI [of _ 0], simp)

lemma rnd_idem [simp]: "rnd (rnd r) = rnd r"
  using rnd_on_grid [of r] rnd_grid_le [OF _ ulp_exp_ge] by metis

lemma rnd_mono_pos: "0 < r \<Longrightarrow> r \<le> s \<Longrightarrow> rnd r \<le> rnd s"
proof -
  assume r: "0 < r" and le: "r \<le> s"
  have b: "binexp r \<le> binexp s" using binexp_mono r le by blast
  show ?thesis
  proof (cases "ulp_exp r = ulp_exp s")
    case True
    have "round_half_even (r / 2 powi ulp_exp s) \<le> round_half_even (s / 2 powi ulp_exp s)"
      using le by (intro round_half_even_mono divide_right_mono) auto
    then show ?thesis using r le True by (simp add: rnd_def)
  next
    case False
    then have e: "ulp_exp r < ulp_exp s" "ulp_exp s = binexp s - 52" "binexp r + 1 \<le> binexp s"
      using b r le by (auto simp: ulp_exp_def max_def split: if_splits)
    have "r < 2 powi (binexp r + 1)" using binexp_bounds(2) r .
    also have "\<dots> \<le> 2 powi binexp s" using e(3) by (rule pow2_mono)
    finally have "r \<le> of_int (2 ^ nat (binexp s - ulp_exp r)) * 2 powi ulp_exp r"
      using e by (simp add: pow2_split [of "ulp_exp r" "binexp s"])
    then have "rnd r \<le> 2 powi binexp s"
      using rnd_le_grid pow2_split [of "ulp_exp r" "binexp s"] e by fastforce
    also have "\<dots> = of_int (2 ^ 52) * 2 powi ulp_exp s" by (simp add: e(2) power_int_diff)
    also have "\<dots> \<le> rnd s"
    proof (rule rnd_ge_grid)
      have "of_int (2 ^ 52) * 2 powi ulp_exp s = (2::rat) powi binexp s" by (simp add: e(2) power_int_diff)
      then show "of_int (2 ^ 52) * 2 powi ulp_exp s \<le> s" using binexp_bounds(1) [of s] r le by linarith
    qed
    finally show ?thesis .
  qed
qed

lemma rnd_mono: "r \<le> s \<Longrightarrow> rnd r \<le> rnd s"
proof -
  assume le: "r \<le> s"
  consider "0 < r" | "s < 0" | "r \<le> 0" "0 \<le> s" by linarith
  then show ?thesis
  proof cases
    case 1
    then show ?thesis using le by (rule rnd_mono_pos)
  next
    case 2
    then show ?thesis using le rnd_mono_pos [of "- s" "- r"] by simp
  next
    case 3
    then show ?thesis using rnd_nonneg [of s] rnd_nonneg [of "- r"] unfolding rnd_minus by linarith
  qed
qed

text \<open>Rounding never crosses a value of the type.\<close>

lemma rnd_le: "rnd v = v \<Longrightarrow> r \<le> v \<Longrightarrow> rnd r \<le> v"
  using rnd_mono [of r v] by simp

lemma rnd_ge: "rnd v = v \<Longrightarrow> v \<le> r \<Longrightarrow> v \<le> rnd r"
  using rnd_mono [of v r] by simp

section \<open>Values and operations\<close>

datatype f64 = FNan | FInf bool | FFin bool rat

text \<open>Finite values lie below \<open>2 ^ 1024\<close>.\<close>

definition f64_limit :: rat where
  "f64_limit = 2 ^ 1024"

fun fval :: "f64 \<Rightarrow> rat" where
  "fval (FFin neg m) = (if neg then - m else m)"
| "fval _ = 0"

fun f64_ok :: "f64 \<Rightarrow> bool" where
  "f64_ok (FFin neg m) \<longleftrightarrow> 0 \<le> m \<and> rnd m = m \<and> m < f64_limit"
| "f64_ok _ \<longleftrightarrow> True"

fun is_finite :: "f64 \<Rightarrow> bool" where
  "is_finite (FFin _ _) \<longleftrightarrow> True"
| "is_finite _ \<longleftrightarrow> False"

text \<open>The result of an operation with exact value \<open>r\<close>; \<open>neg\<close> is the sign of an exact zero.\<close>

definition round64 :: "bool \<Rightarrow> rat \<Rightarrow> f64" where
  "round64 neg r =
     (let v = rnd r in if f64_limit \<le> \<bar>v\<bar> then FInf (r < 0) else FFin (if r = 0 then neg else r < 0) \<bar>v\<bar>)"

definition flit :: "rat \<Rightarrow> f64" where
  "flit r = round64 False r"

abbreviation fzero :: f64 where
  "fzero \<equiv> FFin False 0"

fun fneg :: "f64 \<Rightarrow> f64" where
  "fneg FNan = FNan"
| "fneg (FInf a) = FInf (\<not> a)"
| "fneg (FFin a x) = FFin (\<not> a) x"

fun fabs :: "f64 \<Rightarrow> f64" where
  "fabs FNan = FNan"
| "fabs (FInf a) = FInf False"
| "fabs (FFin a x) = FFin False x"

fun fadd :: "f64 \<Rightarrow> f64 \<Rightarrow> f64" where
  "fadd FNan y = FNan"
| "fadd x FNan = FNan"
| "fadd (FInf a) (FInf b) = (if a = b then FInf a else FNan)"
| "fadd (FInf a) (FFin b y) = FInf a"
| "fadd (FFin a x) (FInf b) = FInf b"
| "fadd (FFin a x) (FFin b y) = round64 (a \<and> b) (fval (FFin a x) + fval (FFin b y))"

definition fsub :: "f64 \<Rightarrow> f64 \<Rightarrow> f64" where
  "fsub x y = fadd x (fneg y)"

fun fmul :: "f64 \<Rightarrow> f64 \<Rightarrow> f64" where
  "fmul FNan y = FNan"
| "fmul x FNan = FNan"
| "fmul (FInf a) (FInf b) = FInf (a \<noteq> b)"
| "fmul (FInf a) (FFin b y) = (if y = 0 then FNan else FInf (a \<noteq> b))"
| "fmul (FFin a x) (FInf b) = (if x = 0 then FNan else FInf (a \<noteq> b))"
| "fmul (FFin a x) (FFin b y) = round64 (a \<noteq> b) (fval (FFin a x) * fval (FFin b y))"

fun fdiv :: "f64 \<Rightarrow> f64 \<Rightarrow> f64" where
  "fdiv FNan y = FNan"
| "fdiv x FNan = FNan"
| "fdiv (FInf a) (FInf b) = FNan"
| "fdiv (FInf a) (FFin b y) = FInf (a \<noteq> b)"
| "fdiv (FFin a x) (FInf b) = FFin (a \<noteq> b) 0"
| "fdiv (FFin a x) (FFin b y) =
     (if y = 0 then if x = 0 then FNan else FInf (a \<noteq> b)
      else round64 (a \<noteq> b) (fval (FFin a x) / fval (FFin b y)))"

fun flt :: "f64 \<Rightarrow> f64 \<Rightarrow> bool" where
  "flt FNan y \<longleftrightarrow> False"
| "flt x FNan \<longleftrightarrow> False"
| "flt (FInf a) (FInf b) \<longleftrightarrow> a \<and> \<not> b"
| "flt (FInf a) (FFin b y) \<longleftrightarrow> a"
| "flt (FFin a x) (FInf b) \<longleftrightarrow> \<not> b"
| "flt (FFin a x) (FFin b y) \<longleftrightarrow> fval (FFin a x) < fval (FFin b y)"

fun feq :: "f64 \<Rightarrow> f64 \<Rightarrow> bool" where
  "feq FNan y \<longleftrightarrow> False"
| "feq x FNan \<longleftrightarrow> False"
| "feq (FInf a) (FInf b) \<longleftrightarrow> a = b"
| "feq (FInf a) (FFin b y) \<longleftrightarrow> False"
| "feq (FFin a x) (FInf b) \<longleftrightarrow> False"
| "feq (FFin a x) (FFin b y) \<longleftrightarrow> fval (FFin a x) = fval (FFin b y)"

definition fle :: "f64 \<Rightarrow> f64 \<Rightarrow> bool" where
  "fle x y \<longleftrightarrow> flt x y \<or> feq x y"

text \<open>\<open>f64::max\<close> returns the other argument when one is NaN.\<close>

definition fmax :: "f64 \<Rightarrow> f64 \<Rightarrow> f64" where
  "fmax x y = (if x = FNan then y else if y = FNan then x else if flt x y then y else x)"

text \<open>The integer square root, one bit at a time, and the rounded square root.\<close>

primrec isqrt_bits :: "nat \<Rightarrow> int \<Rightarrow> int \<Rightarrow> int" where
  "isqrt_bits 0 q r = r"
| "isqrt_bits (Suc k) q r = isqrt_bits k q (if (r + 2 ^ k) ^ 2 \<le> q then r + 2 ^ k else r)"

definition sqrt_rat :: "rat \<Rightarrow> rat" where
  "sqrt_rat m =
     (let e = binexp m div 2 - 52; q = m / 2 powi (2 * e); n = isqrt_bits 54 \<lfloor>q\<rfloor> 0;
          h = of_int n ^ 2 + of_int n + 1 / 4
      in of_int (if q < h then n else if h < q then n + 1 else if even n then n else n + 1) * 2 powi e)"

fun fsqrt :: "f64 \<Rightarrow> f64" where
  "fsqrt FNan = FNan"
| "fsqrt (FInf a) = (if a then FNan else FInf False)"
| "fsqrt (FFin a x) = (if x = 0 then FFin a 0 else if a then FNan else round64 False (sqrt_rat x))"

text \<open>The integer square root is exact.\<close>

lemma isqrt_bits_spec:
  "0 \<le> r \<Longrightarrow> r ^ 2 \<le> q \<Longrightarrow> q < (r + 2 ^ k) ^ 2 \<Longrightarrow> (isqrt_bits k q r) ^ 2 \<le> q \<and> q < (isqrt_bits k q r + 1) ^ 2"
proof (induction k arbitrary: r)
  case (Suc k)
  have "r + 2 ^ k + 2 ^ k = r + 2 ^ Suc k" by simp
  then show ?case using Suc by (simp add: add.assoc)
qed simp

section \<open>Facts of the arithmetic\<close>

lemma f64_limit_pos [simp]: "0 < f64_limit" "\<not> f64_limit \<le> 0"
  by (simp_all add: f64_limit_def)

lemma round64_ok [simp]: "f64_ok (round64 neg r)"
proof -
  have "rnd \<bar>rnd r\<bar> = \<bar>rnd r\<bar>" by (cases "0 \<le> rnd r") (simp_all add: abs_if)
  then show ?thesis by (simp add: round64_def Let_def)
qed

lemma flit_ok [simp]: "f64_ok (flit r)"
  by (simp add: flit_def)

lemma fneg_ok [simp]: "f64_ok (fneg x) = f64_ok x"
  by (cases x) auto

lemma fabs_ok [simp]: "f64_ok x \<Longrightarrow> f64_ok (fabs x)"
  by (cases x) auto

lemma fadd_ok [simp]: "f64_ok (fadd x y)"
  by (cases "(x, y)" rule: fadd.cases) auto

lemma fsub_ok [simp]: "f64_ok (fsub x y)"
  by (simp add: fsub_def)

lemma fmul_ok [simp]: "f64_ok (fmul x y)"
  by (cases "(x, y)" rule: fmul.cases) auto

lemma fdiv_ok [simp]: "f64_ok (fdiv x y)"
  by (cases "(x, y)" rule: fdiv.cases) auto

lemma fsqrt_ok [simp]: "f64_ok (fsqrt x)"
  by (cases x) auto

lemma fmax_ok [simp]: "f64_ok x \<Longrightarrow> f64_ok y \<Longrightarrow> f64_ok (fmax x y)"
  by (simp add: fmax_def)

text \<open>Values of the type are fixed points of rounding.\<close>

lemma rnd_fval: "f64_ok x \<Longrightarrow> rnd (fval x) = fval x"
  by (cases x) auto

lemma fval_bound: "f64_ok x \<Longrightarrow> \<bar>fval x\<bar> < f64_limit"
  by (cases x) auto

lemma round64_exact: "rnd r = r \<Longrightarrow> \<bar>r\<bar> < f64_limit \<Longrightarrow> round64 neg r = FFin (if r = 0 then neg else r < 0) \<bar>r\<bar>"
  by (simp add: round64_def)

lemma fval_round64: "rnd r = r \<Longrightarrow> \<bar>r\<bar> < f64_limit \<Longrightarrow> fval (round64 neg r) = r"
  by (simp add: round64_exact)

lemma flit_int [simp]: "0 \<le> m \<Longrightarrow> m \<le> 2 ^ 53 \<Longrightarrow> flit (of_int m) = FFin False (of_int m)"
proof -
  assume m: "0 \<le> m" "m \<le> 2 ^ 53"
  have "(of_int m :: rat) \<le> of_int (2 ^ 53)" using m(2) by (simp only: of_int_le_iff)
  also have "\<dots> < f64_limit" by (simp add: f64_limit_def)
  finally show ?thesis using m by (auto simp: flit_def round64_exact)
qed

lemma flit_nat [simp]: "n \<le> 2 ^ 53 \<Longrightarrow> flit (of_nat n) = FFin False (of_nat n)"
  using flit_int [of "int n"] by (simp add: nat_le_numeral_power_cancel_iff)

lemma round64_mono: "r \<le> s \<Longrightarrow> fle (round64 a r) (round64 b s)"
proof -
  assume le: "r \<le> s"
  have m: "rnd r \<le> rnd s" using le by (rule rnd_mono)
  consider "r < 0" "s < 0" | "r < 0" "0 \<le> s" | "0 \<le> r" "0 \<le> s" using le by linarith
  then show ?thesis
  proof cases
    case 1
    then have "rnd r \<le> 0" "rnd s \<le> 0" using rnd_mono [of r 0] rnd_mono [of s 0] by simp_all
    then show ?thesis using 1 m by (auto simp: round64_def Let_def fle_def)
  next
    case 2
    then have "rnd r \<le> 0" "0 \<le> rnd s" using rnd_mono [of r 0] by simp_all
    then show ?thesis using 2 m by (auto simp: round64_def Let_def fle_def order_less_le)
  next
    case 3
    then have "0 \<le> rnd r" "0 \<le> rnd s" by simp_all
    then show ?thesis using 3 m by (auto simp: round64_def Let_def fle_def order_less_le)
  qed
qed

lemma fle_refl: "x \<noteq> FNan \<Longrightarrow> fle x x"
  by (cases x) (auto simp: fle_def)

lemma fle_trans: "fle x y \<Longrightarrow> fle y z \<Longrightarrow> fle x z"
  by (cases x; cases y; cases z) (auto simp: fle_def split: if_splits)

lemma fle_fin: "fle (FFin a x) (FFin b y) \<longleftrightarrow> fval (FFin a x) \<le> fval (FFin b y)"
  by (auto simp: fle_def)

lemma round64_ge_val: "f64_ok (FFin a x) \<Longrightarrow> fval (FFin a x) \<le> r \<Longrightarrow> fle (FFin a x) (round64 b r)"
proof -
  assume ok: "f64_ok (FFin a x)" and le: "fval (FFin a x) \<le> r"
  have "fle (round64 b (fval (FFin a x))) (round64 b r)" using le by (rule round64_mono)
  moreover have "fle (FFin a x) (round64 b (fval (FFin a x)))"
    using ok rnd_fval [OF ok] fval_bound [OF ok] by (auto simp: round64_exact fle_fin)
  ultimately show ?thesis by (rule fle_trans [rotated])
qed

lemma round64_le_val: "f64_ok (FFin a x) \<Longrightarrow> r \<le> fval (FFin a x) \<Longrightarrow> fle (round64 b r) (FFin a x)"
proof -
  assume ok: "f64_ok (FFin a x)" and le: "r \<le> fval (FFin a x)"
  have "fle (round64 b r) (round64 b (fval (FFin a x)))" using le by (rule round64_mono)
  moreover have "fle (round64 b (fval (FFin a x))) (FFin a x)"
    using ok rnd_fval [OF ok] fval_bound [OF ok] by (auto simp: round64_exact fle_fin)
  ultimately show ?thesis by (rule fle_trans)
qed

text \<open>Results that are NaN or not negative.\<close>

definition fnn :: "f64 \<Rightarrow> bool" where
  "fnn x \<longleftrightarrow> x = FNan \<or> fle fzero x"

lemma fnn_simps [simp]: "fnn FNan" "fnn (FInf a) \<longleftrightarrow> \<not> a" "fnn (FFin a x) \<longleftrightarrow> 0 \<le> fval (FFin a x)"
  by (auto simp: fnn_def fle_def)

lemma fnn_round64 [simp]: "0 \<le> r \<Longrightarrow> fnn (round64 a r)"
  using round64_ge_val [of False 0 r a] by (simp add: fnn_def)

lemma fnn_fadd: "fnn x \<Longrightarrow> fnn y \<Longrightarrow> fnn (fadd x y)"
  by (cases x; cases y) (auto simp del: fval.simps)

lemma fnn_fmul: "f64_ok x \<Longrightarrow> f64_ok y \<Longrightarrow> fnn x \<Longrightarrow> fnn y \<Longrightarrow> fnn (fmul x y)"
  by (cases x; cases y) (auto split: if_splits intro!: fnn_round64 mult_nonneg_nonneg)

lemma fnn_fdiv: "f64_ok x \<Longrightarrow> f64_ok y \<Longrightarrow> fnn x \<Longrightarrow> fnn y \<Longrightarrow> \<not> feq y fzero \<Longrightarrow> fnn (fdiv x y)"
  by (cases x; cases y) (auto split: if_splits intro!: fnn_round64 divide_nonneg_nonneg)

lemma fnn_fabs [simp]: "f64_ok x \<Longrightarrow> fnn (fabs x)"
  by (cases x) auto

lemma fnn_fmax: "fnn x \<or> fnn y \<Longrightarrow> y \<noteq> FNan \<or> fnn x \<Longrightarrow> x \<noteq> FNan \<or> fnn y \<Longrightarrow> fnn (fmax x y)"
  by (cases x; cases y) (auto simp: fmax_def split: if_splits)

lemma fnn_flit [simp]: "0 \<le> r \<Longrightarrow> fnn (flit r)"
  by (simp add: flit_def)

end
