(* ===== verification/Lake.thy ===== *)
theory Lake
  imports Domain Float64
begin

text \<open>
  Bars as rows of columnar files: \<open>coinext-persistence/src/parquet.rs\<close>. A record batch is a list of named
  columns of equal length; the packages that encode and store it are the operations of \<open>lake_env\<close> on a
  state of the file system, among them the directory operations of the ingestion daemon. A reader
  returns the rows of a file in batches of a size of its own.
\<close>

section \<open>Floating point views\<close>

text \<open>
  \<open>as_f64\<close> of prices and quantities: the conversion of decimals to \<open>f64\<close> belongs to the decimal package.
  The precision of a value is at most 18, so that the decimal always exists.
\<close>

definition price_as_f64 :: "dec_ops \<Rightarrow> (decimal \<Rightarrow> f64 option) \<Rightarrow> price \<Rightarrow> f64" where
  "price_as_f64 D to_f64 p = (case Option.bind (price_as_decimal D p) to_f64 of None \<Rightarrow> FNan | Some x \<Rightarrow> x)"

definition qty_as_f64 :: "dec_ops \<Rightarrow> (decimal \<Rightarrow> f64 option) \<Rightarrow> quantity \<Rightarrow> f64" where
  "qty_as_f64 D to_f64 q = (case Option.bind (qty_as_decimal D q) to_f64 of None \<Rightarrow> FNan | Some x \<Rightarrow> x)"

text \<open>\<open>u64 as i64\<close> keeps the bits.\<close>

definition ts_as_i64 :: "unix_nanos \<Rightarrow> int" where
  "ts_as_i64 ts = sint ts"

section \<open>Batches\<close>

datatype column = ColUtf8 "string list" | ColU64 "u64 list" | ColI64 "int list" | ColF64 "f64 list"

type_synonym batch = "(string \<times> column) list"
type_synonym ohlcv_row = "int \<times> f64 \<times> f64 \<times> f64 \<times> f64 \<times> f64"
type_synonym path = "string list"

datatype persist_error = PersistIo string | PersistParquet string | PersistCorrupt string

fun col_length :: "column \<Rightarrow> nat" where
  "col_length (ColUtf8 xs) = length xs"
| "col_length (ColU64 xs) = length xs"
| "col_length (ColI64 xs) = length xs"
| "col_length (ColF64 xs) = length xs"

definition num_rows :: "batch \<Rightarrow> nat" where
  "num_rows b = (case b of [] \<Rightarrow> 0 | (_, c) # _ \<Rightarrow> col_length c)"

text \<open>\<open>RecordBatch::try_new\<close> refuses columns of different lengths.\<close>

definition batch_try_new :: "batch \<Rightarrow> persist_error + batch" where
  "batch_try_new b = (if \<forall>c \<in> set b. col_length (snd c) = num_rows b then Inr b else Inl (PersistParquet ''column lengths''))"

record 'w lake_env =
  le_exists :: "'w \<Rightarrow> path \<Rightarrow> bool"
  le_read :: "'w \<Rightarrow> path \<Rightarrow> persist_error + (persist_error + batch) list"
  le_write :: "path \<Rightarrow> batch \<Rightarrow> 'w \<Rightarrow> (persist_error + unit) \<times> 'w"
  le_create_dir_all :: "path \<Rightarrow> 'w \<Rightarrow> (string + unit) \<times> 'w"
  le_read_dir :: "'w \<Rightarrow> path \<Rightarrow> string list option"
  le_remove_file :: "path \<Rightarrow> 'w \<Rightarrow> 'w"

section \<open>Writing\<close>

definition bars_to_batch :: "dec_ops \<Rightarrow> (decimal \<Rightarrow> f64 option) \<Rightarrow> bar list \<Rightarrow> persist_error + batch" where
  "bars_to_batch D F bars =
     batch_try_new
       [(''instrument'', ColUtf8 (map (\<lambda>b. instrument_id_display (bt_instrument_id (b_bar_type b))) bars)),
        (''ts_event'', ColU64 (map b_ts_event bars)),
        (''open'', ColF64 (map (\<lambda>b. price_as_f64 D F (b_open b)) bars)),
        (''high'', ColF64 (map (\<lambda>b. price_as_f64 D F (b_high b)) bars)),
        (''low'', ColF64 (map (\<lambda>b. price_as_f64 D F (b_low b)) bars)),
        (''close'', ColF64 (map (\<lambda>b. price_as_f64 D F (b_close b)) bars)),
        (''volume'', ColF64 (map (\<lambda>b. qty_as_f64 D F (b_volume b)) bars))]"

definition write_batch :: "'w lake_env \<Rightarrow> path \<Rightarrow> persist_error + batch \<Rightarrow> 'w \<Rightarrow> (persist_error + unit) \<times> 'w" where
  "write_batch E path r w = (case r of Inl e \<Rightarrow> (Inl e, w) | Inr b \<Rightarrow> le_write E path b w)"

definition write_bars ::
  "'w lake_env \<Rightarrow> dec_ops \<Rightarrow> (decimal \<Rightarrow> f64 option) \<Rightarrow> path \<Rightarrow> bar list \<Rightarrow> 'w \<Rightarrow> (persist_error + unit) \<times> 'w" where
  "write_bars E D F path bars w = write_batch E path (bars_to_batch D F bars) w"

definition rows_to_batch :: "ohlcv_row list \<Rightarrow> persist_error + batch" where
  "rows_to_batch rows =
     batch_try_new
       [(''ts_event'', ColI64 (map (\<lambda>(t, _, _, _, _, _). t) rows)),
        (''open'', ColF64 (map (\<lambda>(_, x, _, _, _, _). x) rows)),
        (''high'', ColF64 (map (\<lambda>(_, _, x, _, _, _). x) rows)),
        (''low'', ColF64 (map (\<lambda>(_, _, _, x, _, _). x) rows)),
        (''close'', ColF64 (map (\<lambda>(_, _, _, _, x, _). x) rows)),
        (''volume'', ColF64 (map (\<lambda>(_, _, _, _, _, x). x) rows))]"

definition write_ohlcv_rows :: "'w lake_env \<Rightarrow> path \<Rightarrow> ohlcv_row list \<Rightarrow> 'w \<Rightarrow> (persist_error + unit) \<times> 'w" where
  "write_ohlcv_rows E path rows w = write_batch E path (rows_to_batch rows) w"

definition bar_row :: "dec_ops \<Rightarrow> (decimal \<Rightarrow> f64 option) \<Rightarrow> bar \<Rightarrow> ohlcv_row" where
  "bar_row D F b =
     (ts_as_i64 (b_ts_event b), price_as_f64 D F (b_open b), price_as_f64 D F (b_high b), price_as_f64 D F (b_low b),
      price_as_f64 D F (b_close b), qty_as_f64 D F (b_volume b))"

definition write_ohlcv ::
  "'w lake_env \<Rightarrow> dec_ops \<Rightarrow> (decimal \<Rightarrow> f64 option) \<Rightarrow> path \<Rightarrow> bar list \<Rightarrow> 'w \<Rightarrow> (persist_error + unit) \<times> 'w" where
  "write_ohlcv E D F path bars w = write_batch E path (rows_to_batch (map (bar_row D F) bars)) w"

section \<open>Reading\<close>

definition i64_column :: "batch \<Rightarrow> persist_error + int list" where
  "i64_column b =
     (case map_of b ''ts_event'' of
        None \<Rightarrow> Inl (PersistCorrupt ''missing ts_event'')
      | Some (ColI64 xs) \<Rightarrow> Inr xs
      | Some _ \<Rightarrow> Inl (PersistCorrupt ''ts_event not int64''))"

definition f64_column :: "string \<Rightarrow> batch \<Rightarrow> persist_error + f64 list" where
  "f64_column name b = (case map_of b name of Some (ColF64 xs) \<Rightarrow> Inr xs | _ \<Rightarrow> Inl (PersistCorrupt name))"

definition batch_rows :: "batch \<Rightarrow> persist_error + ohlcv_row list" where
  "batch_rows b =
     result_bind (i64_column b) (\<lambda>ts.
     result_bind (f64_column ''open'' b) (\<lambda>op.
     result_bind (f64_column ''high'' b) (\<lambda>hi.
     result_bind (f64_column ''low'' b) (\<lambda>lo.
     result_bind (f64_column ''close'' b) (\<lambda>cl.
     result_bind (f64_column ''volume'' b) (\<lambda>vo.
       Inr (map (\<lambda>i. (ts ! i, op ! i, hi ! i, lo ! i, cl ! i, vo ! i)) [0..<num_rows b])))))))"

primrec read_all :: "(batch \<Rightarrow> persist_error + 'a list) \<Rightarrow> (persist_error + batch) list \<Rightarrow> persist_error + 'a list" where
  "read_all f [] = Inr []"
| "read_all f (r # rs) =
     result_bind r (\<lambda>b. result_bind (f b) (\<lambda>xs. result_bind (read_all f rs) (\<lambda>ys. Inr (xs @ ys))))"

definition read_ohlcv :: "'w lake_env \<Rightarrow> path \<Rightarrow> 'w \<Rightarrow> persist_error + ohlcv_row list" where
  "read_ohlcv E path w = (if \<not> le_exists E w path then Inr [] else result_bind (le_read E w path) (read_all batch_rows))"

definition read_batches :: "'w lake_env \<Rightarrow> path \<Rightarrow> 'w \<Rightarrow> persist_error + batch list" where
  "read_batches E path w = result_bind (le_read E w path) (read_all (\<lambda>b. Inr [b]))"

definition close_column :: "batch \<Rightarrow> persist_error + f64 list" where
  "close_column b =
     (case map_of b ''close'' of
        None \<Rightarrow> Inl (PersistCorrupt ''missing close'')
      | Some (ColF64 xs) \<Rightarrow> Inr xs
      | Some _ \<Rightarrow> Inl (PersistCorrupt ''close is not Float64''))"

definition read_close_prices :: "'w lake_env \<Rightarrow> path \<Rightarrow> 'w \<Rightarrow> persist_error + f64 list" where
  "read_close_prices E path w = result_bind (read_batches E path w) (\<lambda>bs. read_all close_column (map Inr bs))"

section \<open>What the storage promises\<close>

fun col_map :: "(nat \<Rightarrow> nat) \<Rightarrow> nat \<Rightarrow> column \<Rightarrow> column" where
  "col_map f n (ColUtf8 xs) = ColUtf8 (map (\<lambda>i. xs ! f i) [0..<n])"
| "col_map f n (ColU64 xs) = ColU64 (map (\<lambda>i. xs ! f i) [0..<n])"
| "col_map f n (ColI64 xs) = ColI64 (map (\<lambda>i. xs ! f i) [0..<n])"
| "col_map f n (ColF64 xs) = ColF64 (map (\<lambda>i. xs ! f i) [0..<n])"

text \<open>The rows from \<open>i\<close> on, \<open>n\<close> of them; a file read in batches of the given sizes.\<close>

definition slice :: "nat \<Rightarrow> nat \<Rightarrow> batch \<Rightarrow> batch" where
  "slice i n b = map (\<lambda>(name, c). (name, col_map (\<lambda>j. i + j) n c)) b"

primrec chunks :: "nat list \<Rightarrow> nat \<Rightarrow> batch \<Rightarrow> batch list" where
  "chunks [] i b = []"
| "chunks (n # ns) i b = slice i n b # chunks ns (i + n) b"

text \<open>A file that was written is there and reads back as the batch, in pieces.\<close>

definition storage_law :: "'w lake_env \<Rightarrow> bool" where
  "storage_law E \<longleftrightarrow>
     (\<forall>path b w w'. le_write E path b w = (Inr (), w') \<longrightarrow>
        le_exists E w' path \<and> (\<exists>ns. sum_list ns = num_rows b \<and> le_read E w' path = Inr (map Inr (chunks ns 0 b))))"

section \<open>Rows read back\<close>

lemma rows_to_batch_ok [simp]: "rows_to_batch rows = Inr
    [(''ts_event'', ColI64 (map (\<lambda>(t, _, _, _, _, _). t) rows)), (''open'', ColF64 (map (\<lambda>(_, x, _, _, _, _). x) rows)),
     (''high'', ColF64 (map (\<lambda>(_, _, x, _, _, _). x) rows)), (''low'', ColF64 (map (\<lambda>(_, _, _, x, _, _). x) rows)),
     (''close'', ColF64 (map (\<lambda>(_, _, _, _, x, _). x) rows)), (''volume'', ColF64 (map (\<lambda>(_, _, _, _, _, x). x) rows))]"
  by (simp add: rows_to_batch_def batch_try_new_def num_rows_def)

lemma slice_rows:
  assumes "rows_to_batch rows = Inr b" "i + n \<le> length rows"
  shows "batch_rows (slice i n b) = Inr (take n (drop i rows))"
proof -
  have "map (\<lambda>j. rows ! (i + j)) [0..<n] = take n (drop i rows)"
    using assms(2) by (intro nth_equalityI) auto
  moreover have "(\<lambda>(t, o1, h, l, c, v). t) r = fst r" for r :: ohlcv_row by (cases r) simp
  ultimately show ?thesis
    using assms by (auto simp: slice_def batch_rows_def i64_column_def f64_column_def num_rows_def intro!: nth_equalityI split: prod.splits)
qed

lemma read_chunks:
  "rows_to_batch rows = Inr b \<Longrightarrow> i + sum_list ns \<le> length rows \<Longrightarrow>
     read_all batch_rows (map Inr (chunks ns i b)) = Inr (take (sum_list ns) (drop i rows))"
proof (induction ns arbitrary: i)
  case (Cons n ns)
  have "read_all batch_rows (map Inr (chunks ns (i + n) b)) = Inr (take (sum_list ns) (drop (i + n) rows))"
    using Cons by simp
  moreover have "batch_rows (slice i n b) = Inr (take n (drop i rows))" using slice_rows Cons.prems by simp
  ultimately show ?case by (simp add: take_add add.commute)
qed simp

text \<open>However the reader cuts a file into batches, rows that were written are read back in their order.\<close>

lemma ohlcv_rows_stored:
  assumes "storage_law E" "write_ohlcv_rows E path rows w = (Inr (), w')"
  shows "read_ohlcv E path w' = Inr rows"
proof -
  obtain b where b: "rows_to_batch rows = Inr b" "num_rows b = length rows" by (simp add: num_rows_def)
  then have "le_write E path b w = (Inr (), w')" using assms(2) by (simp add: write_ohlcv_rows_def write_batch_def)
  then obtain ns where "le_exists E w' path" "sum_list ns = length rows" "le_read E w' path = Inr (map Inr (chunks ns 0 b))"
    using assms(1) b(2) unfolding storage_law_def by metis
  then show ?thesis using read_chunks [OF b(1), of 0 ns] by (simp add: read_ohlcv_def)
qed

section \<open>A file system in memory\<close>

text \<open>A file system in memory that keeps what is written, as one batch.\<close>

type_synonym mem_lake = "path \<rightharpoonup> batch"

definition mem_env :: "mem_lake lake_env" where
  "mem_env =
     \<lparr>le_exists = (\<lambda>w p. w p \<noteq> None),
      le_read = (\<lambda>w p. case w p of None \<Rightarrow> Inl (PersistIo ''not found'') | Some b \<Rightarrow> Inr [Inr b]),
      le_write = (\<lambda>p b w. (Inr (), w(p \<mapsto> slice 0 (num_rows b) b))),
      le_create_dir_all = (\<lambda>_ w. (Inr (), w)), le_read_dir = (\<lambda>_ _. Some []), le_remove_file = (\<lambda>p w. w(p := None))\<rparr>"

lemma mem_env_law: "storage_law mem_env"
  unfolding storage_law_def mem_env_def
  by (auto intro!: exI [of _ "[num_rows b]" for b])

end
