(* ===== verification/Calendar.thy ===== *)
theory Calendar
  imports Prelude
begin

text \<open>
  The month a timestamp falls into: the conversion \<open>yyyymm_of\<close> of \<open>coinext-ingest/src/sinks.rs\<close>, which
  splits the days since 1970 into eras of 400 years, and the calendar itself, counted month by month.
\<close>

section \<open>The conversion\<close>

definition yyyymm_of :: "unix_nanos \<Rightarrow> int" where
  "yyyymm_of ts =
     (let secs = int (unat (ts div 1000000000));
          days = secs div 86400;
          z = days + 719468;
          era = z div 146097;
          doe = z - era * 146097;
          yoe = (doe - doe div 1460 + doe div 36524 - doe div 146096) div 365;
          y = yoe + era * 400;
          doy = doe - (365 * yoe + yoe div 4 - yoe div 100);
          mp = (5 * doy + 2) div 153;
          m = mp + (if mp < 10 then 3 else - 9);
          y = y + (if m \<le> 2 then 1 else 0)
      in y * 100 + m)"

section \<open>The calendar\<close>

definition leap_year :: "int \<Rightarrow> bool" where
  "leap_year y \<longleftrightarrow> y mod 4 = 0 \<and> (y mod 100 \<noteq> 0 \<or> y mod 400 = 0)"

definition month_days :: "int \<Rightarrow> int \<Rightarrow> int" where
  "month_days y m = (if m = 2 then if leap_year y then 29 else 28 else if m \<in> {4, 6, 9, 11} then 30 else 31)"

definition next_month :: "int \<times> int \<Rightarrow> int \<times> int" where
  "next_month ym = (case ym of (y, m) \<Rightarrow> if m = 12 then (y + 1, 1) else (y, m + 1))"

lemma month_days_pos: "28 \<le> month_days y m"
  by (simp add: month_days_def)

text \<open>The month of the day \<open>d\<close> days after the first of the given month.\<close>

function month_at :: "int \<Rightarrow> int \<times> int \<Rightarrow> int \<times> int" where
  "month_at d ym = (if d < month_days (fst ym) (snd ym) then ym else month_at (d - month_days (fst ym) (snd ym)) (next_month ym))"
  by pat_completeness auto
termination
proof (relation "measure (\<lambda>(d, ym). nat d)")
  fix d ym
  assume "\<not> d < month_days (fst ym) (snd ym)"
  then show "((d - month_days (fst ym) (snd ym), next_month ym), d, ym) \<in> measure (\<lambda>(d, ym). nat d)"
    using month_days_pos [of "fst ym" "snd ym"] by simp
qed simp

definition calendar_month :: "unix_nanos \<Rightarrow> int \<times> int" where
  "calendar_month ts = month_at (int (unat ts) div (86400 * 1000000000)) (1970, 1)"

section \<open>First days of months\<close>

definition leaps :: "int \<Rightarrow> int" where
  "leaps y = y div 4 - y div 100 + y div 400"

text \<open>Days before a month, counted in years that begin in March.\<close>

definition month_start :: "int \<times> int \<Rightarrow> int" where
  "month_start ym =
     (case ym of (y, m) \<Rightarrow>
        let y' = if m \<le> 2 then y - 1 else y; mp = if m \<le> 2 then m + 9 else m - 3
        in 365 * y' + leaps y' + (153 * mp + 2) div 5 - 719468)"

definition is_month :: "int \<times> int \<Rightarrow> bool" where
  "is_month ym \<longleftrightarrow> 1 \<le> snd ym \<and> snd ym \<le> 12"

lemma is_month_next [simp]: "is_month ym \<Longrightarrow> is_month (next_month ym)"
  by (auto simp: is_month_def next_month_def split: prod.split)

lemma div_pred: "0 < k \<Longrightarrow> (y::int) div k - (y - 1) div k = (if y mod k = 0 then 1 else 0)"
proof -
  assume k: "0 < k"
  show ?thesis
  proof (cases "y mod k = 0")
    case True
    then obtain q where "y = k * q" by auto
    moreover have "(k * q - 1) div k = q - 1"
    proof -
      have "k * q - 1 = (q - 1) * k + (k - 1)" by (simp add: algebra_simps)
      then show ?thesis using k by (metis add.right_neutral diff_ge_0_iff_ge div_mult_self3 div_pos_pos_trivial less_add_one diff_add_cancel not_less_iff_gr_or_eq zero_less_one int_one_le_iff_zero_less add.commute)
    qed
    ultimately show ?thesis using k by simp
  next
    case False
    then have "0 < y mod k" using k by (simp add: order_less_le)
    then have "(y - 1) div k = y div k"
      using k by (intro int_div_pos_eq [where r = "y mod k - 1"]) (auto simp: minus_mod_eq_mult_div [symmetric] less_imp_le dest: pos_mod_bound [of k y])
    then show ?thesis using False by simp
  qed
qed

lemma leap_count: "leaps y = leaps (y - 1) + (if leap_year y then 1 else 0)"
proof -
  have cases: "(if A \<and> (\<not> B \<or> C) then 1 else 0 :: int) = (if A then 1 else 0) - (if B then 1 else 0) + (if C then 1 else 0)"
    if "B \<Longrightarrow> A" "C \<Longrightarrow> B" for A B C using that by auto
  have "y mod 100 = 0 \<Longrightarrow> y mod 4 = 0" "y mod 400 = 0 \<Longrightarrow> y mod 100 = 0"
    using dvd_trans [of 4 100 y] dvd_trans [of 100 400 y] by (simp_all only: dvd_eq_mod_eq_0, simp_all)
  from cases [OF this] have "(if leap_year y then 1 else 0 :: int) =
      (y div 4 - (y - 1) div 4) - (y div 100 - (y - 1) div 100) + (y div 400 - (y - 1) div 400)"
    unfolding leap_year_def by (simp only: div_pred [of 4 y, simplified] div_pred [of 100 y, simplified] div_pred [of 400 y, simplified])
  then show ?thesis unfolding leaps_def by (simp only: algebra_simps)
qed

lemma month_start_next:
  assumes "is_month (y, m)"
  shows "month_start (next_month (y, m)) = month_start (y, m) + month_days y m"
proof (cases "m = 2")
  case True
  then show ?thesis using leap_count [of y]
    by (cases "leap_year y") (simp_all add: month_start_def next_month_def month_days_def)
next
  case False
  then have "m \<in> {1, 3, 4, 5, 6, 7, 8, 9, 10, 11, 12}"
    using assms unfolding is_month_def fst_conv snd_conv insert_iff empty_iff by presburger
  then show ?thesis
    by (elim insertE emptyE) (simp_all add: month_start_def next_month_def month_days_def)
qed

lemma month_at_bounds:
  "is_month ym \<Longrightarrow> 0 \<le> d \<Longrightarrow>
     is_month (month_at d ym) \<and> month_start (month_at d ym) \<le> month_start ym + d \<and>
     month_start ym + d < month_start (next_month (month_at d ym))"
proof (induction d ym rule: month_at.induct)
  case (1 d ym)
  obtain y m where ym: "ym = (y, m)" by (rule prod.exhaust)
  show ?case
  proof (cases "d < month_days y m")
    case True
    then show ?thesis using 1(2,3) month_start_next by (simp add: ym month_at.simps)
  next
    case False
    then have "month_at d ym = month_at (d - month_days y m) (next_month ym)" by (simp add: ym month_at.simps [of d])
    moreover have "month_start (next_month ym) = month_start ym + month_days y m" using month_start_next 1(2) ym by simp
    ultimately show ?thesis using 1(1) [of] False 1(2) ym by (simp add: algebra_simps)
  qed
qed

text \<open>Months in their order, and the order of their first days.\<close>

definition month_index :: "int \<times> int \<Rightarrow> int" where
  "month_index ym = 12 * fst ym + snd ym"

lemma month_index_inj: "is_month a \<Longrightarrow> is_month b \<Longrightarrow> month_index a = month_index b \<Longrightarrow> a = b"
proof -
  have "y = y' \<and> m = m'" if "1 \<le> m" "m \<le> 12" "1 \<le> m'" "m' \<le> 12" "12 * y + m = 12 * y' + m'" for y m y' m' :: int
  proof -
    have "\<not> y < y'" "\<not> y' < y" using that by linarith+
    then show ?thesis using that by linarith
  qed
  from this [of "snd a" "snd b" "fst a" "fst b"]
  show "is_month a \<Longrightarrow> is_month b \<Longrightarrow> month_index a = month_index b \<Longrightarrow> a = b"
    by (simp add: is_month_def month_index_def prod_eq_iff)
qed

lemma month_index_next: "month_index (next_month a) = month_index a + 1"
  by (cases a) (simp add: month_index_def next_month_def)

lemma month_start_mono:
  assumes "is_month a" "is_month b" "month_index a < month_index b"
  shows "month_start (next_month a) \<le> month_start b"
proof -
  have "month_index a + 1 + int k = month_index b \<Longrightarrow> is_month a \<Longrightarrow> month_start (next_month a) \<le> month_start b" for k a
  proof (induction k arbitrary: a)
    case 0
    have "next_month a = b" using 0 assms(2) by (intro month_index_inj) (simp_all add: month_index_next)
    then show ?case by simp
  next
    case (Suc k)
    have "month_start (next_month (next_month a)) \<le> month_start b" using Suc by (simp add: month_index_next)
    moreover have "month_start (next_month a) \<le> month_start (next_month (next_month a))"
      using month_start_next [of "fst (next_month a)" "snd (next_month a)"] month_days_pos Suc.prems(2)
      by (metis add_increasing2 is_month_next order_trans prod.collapse order_refl numeral_le_iff semiring_norm zero_le_numeral)
    ultimately show ?case by simp
  qed
  from this [of a "nat (month_index b - month_index a - 1)"] show ?thesis using assms by simp
qed

lemma month_unique:
  assumes "is_month a" "is_month b" "month_start a \<le> d" "d < month_start (next_month a)" "month_start b \<le> d" "d < month_start (next_month b)"
  shows "a = b"
proof -
  have "month_index a = month_index b"
    using month_start_mono [of a b] month_start_mono [of b a] assms by linarith
  then show ?thesis using assms(1,2) by (rule month_index_inj [rotated 2])
qed

section \<open>Days of an era\<close>

text \<open>
  A day of an era lies in a year \<open>100 c + 4 b + a\<close> of the era (years begin in March) at the day
  \<open>D\<close>; only a leap year has a day 365.
\<close>

definition era_ok :: "int \<Rightarrow> int \<Rightarrow> int \<Rightarrow> int \<Rightarrow> bool" where
  "era_ok a b c D \<longleftrightarrow> 0 \<le> c \<and> c < 4 \<and> 0 \<le> b \<and> b < 25 \<and> 0 \<le> a \<and> a < 4 \<and> 0 \<le> D \<and> D \<le> 365 \<and>
     (D = 365 \<longrightarrow> a = 3 \<and> (b = 24 \<longrightarrow> c = 3))"

lemma era_day:
  assumes "0 \<le> doe" "doe < 146097"
  shows "\<exists>a b c D. doe = 36524 * c + 1461 * b + 365 * a + D \<and> era_ok a b c D"
proof -
  define c where "c = min 3 (doe div 36524)"
  define r where "r = doe - 36524 * c"
  define b where "b = r div 1461"
  define t where "t = r - 1461 * b"
  define a where "a = min 3 (t div 365)"
  define D where "D = t - 365 * a"
  have c: "0 \<le> c" "c < 4" "0 \<le> r" "r \<le> 36524" "c < 3 \<Longrightarrow> r < 36524"
    using assms by (auto simp: c_def r_def min_def)
  have b: "0 \<le> b" "b < 25" "0 \<le> t" "t < 1461" using c(3,4) by (auto simp: b_def t_def)
  have a: "0 \<le> a" "a < 4" "0 \<le> D" "D \<le> 365" "D = 365 \<Longrightarrow> t = 1460" "D = 365 \<Longrightarrow> a = 3"
  proof -
    have m: "t = 365 * (t div 365) + t mod 365" "0 \<le> t mod 365" "t mod 365 < 365" by simp_all
    have q: "0 \<le> t div 365" "t div 365 \<le> 4" using b(3,4) m by linarith+
    show "0 \<le> a" "a < 4" "0 \<le> D" "D \<le> 365" "D = 365 \<Longrightarrow> t = 1460" "D = 365 \<Longrightarrow> a = 3"
      using b(4) m q by (cases "3 \<le> t div 365"; simp add: a_def D_def)+
  qed
  have "b = 24 \<longrightarrow> c = 3" if "D = 365"
    using a(5) [OF that] c by (cases "c < 3") (auto simp: t_def)
  moreover have "doe = 36524 * c + 1461 * b + 365 * a + D" by (simp add: D_def t_def r_def)
  moreover have "era_ok a b c D" using a b c calculation(1) by (simp add: era_ok_def)
  ultimately show ?thesis by blast
qed

lemma div_split: "(0::int) \<le> r \<Longrightarrow> r < k \<Longrightarrow> (k * q + r) div k = q"
  by (simp add: div_pos_pos_trivial)

lemma year_of_era:
  fixes a b c D :: int
  assumes "0 \<le> c" "c < 4" "0 \<le> b" "b < 25" "0 \<le> a" "a < 4" "0 \<le> D" "D \<le> 365" "D = 365 \<longrightarrow> a = 3 \<and> (b = 24 \<longrightarrow> c = 3)"
    and doe: "doe = 36524 * c + 1461 * b + 365 * a + D"
  shows "(doe - doe div 1460 + doe div 36524 - doe div 146096) div 365 = 100 * c + 4 * b + a"
proof -
  define q where "q = (24 * c + b + 365 * a + D) div 1460"
  have cb: "a = 3 \<and> (b = 24 \<longrightarrow> c = 3)" if "D = 365" using assms(9) that by simp
  have q: "q = (if 1460 \<le> 24 * c + b + 365 * a + D then 1 else 0)"
    using assms(1-8) by (auto simp: q_def intro: div_pos_pos_trivial int_div_pos_eq [where r = "24 * c + b + 365 * a + D - 1460"])
  have q1: "D - q \<le> 364" "0 \<le> D - q"
    using assms(1-8) cb by (cases "D = 365"; auto simp: q split: if_splits)+
  have "doe = 1460 * (25 * c + b) + (24 * c + b + 365 * a + D)" by (simp add: doe)
  then have d1: "doe div 1460 = 25 * c + b + q" by (simp add: q_def)
  have d2: "doe div 36524 - doe div 146096 = c"
  proof (cases "1461 * b + 365 * a + D = 36524")
    case True
    then have "b = 24" "D = 365" using assms(3-8) by linarith+
    then have "b = 24" "c = 3" using cb by simp_all
    then show ?thesis using True doe by simp
  next
    case False
    then have r: "0 \<le> 1461 * b + 365 * a + D" "1461 * b + 365 * a + D < 36524" using assms(1-8) cb by linarith+
    have "doe div 36524 = c" using div_split [OF r, of c] doe by (simp add: add.assoc)
    moreover have "doe div 146096 = 0" using r assms(1,2) doe by (simp add: div_pos_pos_trivial)
    ultimately show ?thesis by simp
  qed
  have "doe - doe div 1460 + doe div 36524 - doe div 146096 = 365 * (100 * c + 4 * b + a) + (D - q)"
    using d1 d2 doe by simp
  then show ?thesis using q1 div_split [of "D - q" 365 "100 * c + 4 * b + a"] by simp
qed

section \<open>The conversion is the calendar\<close>

text \<open>Days since 1970 to the first day of the month the conversion names, and of the month after it.\<close>

lemma leaps_era:
  fixes a b c era :: int
  assumes "0 \<le> c" "c < 4" "0 \<le> b" "b < 25" "0 \<le> a" "a < 4"
  shows "leaps (100 * c + 4 * b + a + era * 400) = 97 * era + 24 * c + b"
proof -
  have "(100 * c + 4 * b + a + era * 400) div 4 = 100 * era + 25 * c + b"
    using assms div_split [of a 4 "100 * era + 25 * c + b"] by (simp add: algebra_simps)
  moreover have "(100 * c + 4 * b + a + era * 400) div 100 = 4 * era + c"
    using assms div_split [of "4 * b + a" 100 "4 * era + c"] by (simp add: algebra_simps)
  moreover have "(100 * c + 4 * b + a + era * 400) div 400 = era"
    using assms div_split [of "100 * c + 4 * b + a" 400 era] by (simp add: algebra_simps)
  ultimately show ?thesis by (simp add: leaps_def)
qed

text \<open>A year that begins in March has 366 days exactly when the February at its end has a leap day.\<close>

lemma march_year_length:
  fixes a b c era :: int
  assumes "0 \<le> c" "c < 4" "0 \<le> b" "b < 25" "0 \<le> a" "a < 4" "a = 3 \<and> (b = 24 \<longrightarrow> c = 3)"
  shows "leaps (100 * c + 4 * b + a + era * 400 + 1) = leaps (100 * c + 4 * b + a + era * 400) + 1"
proof -
  consider "b < 24" | "b = 24" "c = 3" using assms by linarith
  then show ?thesis
  proof cases
    case 1
    have "100 * c + 4 * b + a + era * 400 + 1 = 100 * c + 4 * (b + 1) + 0 + era * 400" using assms(7) by simp
    then show ?thesis using leaps_era [of c "b + 1" 0 era] leaps_era [of c b a era] assms 1 by (simp add: algebra_simps)
  next
    case 2
    have "100 * c + 4 * b + a + era * 400 + 1 = 100 * 0 + 4 * 0 + 0 + (era + 1) * 400" using assms(7) 2 by simp
    then show ?thesis using leaps_era [of 0 0 0 "era + 1"] leaps_era [of c b a era] assms 2 by (simp add: algebra_simps)
  qed
qed

lemma leaps_mono1: "leaps y \<le> leaps (y + 1)"
  using leap_count [of "y + 1"] by simp

text \<open>The month at the day \<open>D\<close> of the year that begins in March of \<open>y\<close>.\<close>

definition march_month :: "int \<Rightarrow> int \<Rightarrow> int \<times> int" where
  "march_month y D =
     (let mp = (5 * D + 2) div 153; m = mp + (if mp < 10 then 3 else - 9) in (y + (if m \<le> 2 then 1 else 0), m))"

lemma march_month_bounds:
  assumes "0 \<le> D" "D \<le> 365" "D = 365 \<Longrightarrow> leaps (y + 1) = leaps y + 1"
  shows "is_month (march_month y D)"
    "month_start (march_month y D) \<le> 365 * y + leaps y + D - 719468"
    "365 * y + leaps y + D - 719468 < month_start (next_month (march_month y D))"
proof -
  define mp where "mp = (5 * D + 2) div 153"
  have mp: "153 * mp \<le> 5 * D + 2" "5 * D + 2 < 153 * mp + 153"
    using pos_mod_sign [of 153 "5 * D + 2"] pos_mod_bound [of 153 "5 * D + 2"] minus_div_mult_eq_mod [of "5 * D + 2" 153]
    unfolding mp_def by linarith+
  have range: "0 \<le> mp" "mp \<le> 11" using mp assms(1,2) by linarith+
  define t where "t = (153 * mp + 2) div 5"
  define u where "u = (153 * mp + 155) div 5"
  have t: "t \<le> D" using mp(1) unfolding t_def by (simp add: zdiv_mono1 [of "153 * mp + 2" "5 * D + 4" 5, simplified] order_trans)
  have u: "D < u" using mp(2) unfolding u_def by (simp add: less_le_trans zdiv_mono1)
  have next_year: "D < 365 + (leaps (y + 1) - leaps y)"
    using assms leaps_mono1 [of y] by (cases "D = 365") auto
  have month: "march_month y D = (if mp < 10 then (y, mp + 3) else (y + 1, mp - 9))"
    using range by (auto simp: march_month_def mp_def [symmetric] Let_def)
  have start: "month_start (march_month y D) = 365 * y + leaps y + t - 719468"
    using range by (auto simp: month month_start_def t_def)
  show "is_month (march_month y D)" using range by (auto simp: month is_month_def)
  show "month_start (march_month y D) \<le> 365 * y + leaps y + D - 719468" using start t by simp
  show "365 * y + leaps y + D - 719468 < month_start (next_month (march_month y D))"
  proof (cases "mp = 11")
    case True
    then have "month_start (next_month (march_month y D)) = 365 * (y + 1) + leaps (y + 1) - 719468"
      by (simp add: month month_start_def next_month_def)
    then show ?thesis using next_year by simp
  next
    case False
    then consider "mp = 9" | "mp = 10" | "mp < 9" using range by linarith
    then have "month_start (next_month (march_month y D)) = 365 * y + leaps y + u - 719468"
    proof cases
      case 3
      have "153 * (mp + 4 - 3) + 2 = 153 * mp + 155" by simp
      then show ?thesis using 3 range by (simp add: month month_start_def next_month_def u_def)
    qed (simp_all add: month month_start_def next_month_def u_def)
    then show ?thesis using u by simp
  qed
qed

lemma month_of_calendar:
  "yyyymm_of ts = 100 * fst (calendar_month ts) + snd (calendar_month ts)"
proof -
  define days where "days = int (unat ts) div (86400 * 1000000000)"
  have days: "int (unat (ts div 1000000000)) div 86400 = days" "0 \<le> days"
    using pos_imp_zdiv_nonneg_iff [of "86400 * 1000000000" "int (unat ts)"]
    by (simp_all add: days_def unat_div zdiv_int zdiv_zmult2_eq mult.commute)
  define era where "era = (days + 719468) div 146097"
  have "0 \<le> (days + 719468) mod 146097" "(days + 719468) mod 146097 < 146097" by simp_all
  from era_day [OF this] obtain a b c D where
    m: "(days + 719468) mod 146097 = 36524 * c + 1461 * b + 365 * a + D" and ok: "era_ok a b c D" by blast
  have z: "days + 719468 = era * 146097 + (36524 * c + 1461 * b + 365 * a + D)"
    by (simp only: era_def m [symmetric] div_mult_mod_eq)
  have r: "0 \<le> c" "c < 4" "0 \<le> b" "b < 25" "0 \<le> a" "a < 4" "0 \<le> D" "D \<le> 365" and l: "D = 365 \<longrightarrow> a = 3 \<and> (b = 24 \<longrightarrow> c = 3)"
    using ok by (simp_all add: era_ok_def)
  define Y where "Y = 100 * c + 4 * b + a"
  have y4: "Y div 4 = 25 * c + b" "Y div 100 = c"
    using r div_split [of a 4 "25 * c + b"] div_split [of "4 * b + a" 100 c] by (simp_all add: Y_def)
  define doe where "doe = 36524 * c + 1461 * b + 365 * a + D"
  have e: "days + 719468 - era * 146097 = doe" using z unfolding doe_def by linarith
  have y: "(doe - doe div 1460 + doe div 36524 - doe div 146096) div 365 = Y"
    using year_of_era [OF r l doe_def] by (simp only: Y_def)
  have doy: "doe - (365 * Y + Y div 4 - Y div 100) = D" by (simp only: y4) (simp add: doe_def Y_def)
  have conv: "yyyymm_of ts = 100 * fst (march_month (Y + era * 400) D) + snd (march_month (Y + era * 400) D)"
    unfolding yyyymm_of_def Let_def days(1) era_def [symmetric] e y doy march_month_def fst_conv snd_conv
    by (simp only: mult.commute)
  have day: "365 * (Y + era * 400) + leaps (Y + era * 400) + D - 719468 = days"
    using leaps_era [OF r(1-6), of era] z by (simp add: Y_def)
  have leap: "leaps (Y + era * 400 + 1) = leaps (Y + era * 400) + 1" if "D = 365"
    using march_year_length [OF r(1-6) l [rule_format, OF that], of era] by (simp add: Y_def)
  note m = march_month_bounds [OF r(7,8) leap, unfolded day]
  have "month_start (1970, 1) = 0" by (simp add: month_start_def leaps_def)
  then have "month_at days (1970, 1) = march_month (Y + era * 400) D"
    using month_at_bounds [of "(1970, 1)" days] days(2) m by (intro month_unique) (auto simp: is_month_def)
  then show ?thesis using conv by (simp add: calendar_month_def days_def)
qed

section \<open>Property of the conversion\<close>

text \<open>
  The month of a bar is its month in the calendar. For every timestamp the era arithmetic of
  \<open>yyyymm_of\<close> gives the year and the month one reaches by counting the days of the months from
  January 1970, leap years included.
\<close>

theorem yyyymm_is_calendar_month:
  "yyyymm_of ts = 100 * fst (calendar_month ts) + snd (calendar_month ts) \<and>
     1 \<le> snd (calendar_month ts) \<and> snd (calendar_month ts) \<le> 12"
proof -
  have "is_month (calendar_month ts)"
    using month_at_bounds [of "(1970, 1)"] pos_imp_zdiv_nonneg_iff [of "86400 * 1000000000" "int (unat ts)"]
    by (simp add: calendar_month_def is_month_def)
  then show ?thesis using month_of_calendar by (simp add: is_month_def)
qed

end
