(* ===== verification/Instruments.thy ===== *)
theory Instruments
  imports Binance
begin

text \<open>
  \<open>coinext-adapters-binance/src/instruments.rs\<close>: the parser of the venue's \<open>exchangeInfo\<close> and the
  provider that loads and caches instruments.
\<close>

section \<open>Parsing\<close>

definition DEFAULT_MAKER_FEE :: string where "DEFAULT_MAKER_FEE = ''0.001''"

definition DEFAULT_TAKER_FEE :: string where "DEFAULT_TAKER_FEE = ''0.001''"

definition filter_field :: "json list \<Rightarrow> string \<Rightarrow> string \<Rightarrow> string option" where
  "filter_field filters ty field =
     Option.bind (List.find (\<lambda>f. str_field f ''filterType'' = Some ty) filters) (\<lambda>f. str_field f field)"

definition decimal_scale :: "dec_text \<Rightarrow> string \<Rightarrow> nat option" where
  "decimal_scale T s = map_option (\<lambda>d. min (scale (dt_normalize T d)) 255) (dt_from_str T s)"

definition parse_min_notional :: "'w wire \<Rightarrow> json list \<Rightarrow> currency \<Rightarrow> money option option" where
  "parse_min_notional W filters quote =
     (case (case filter_field filters ''NOTIONAL'' ''minNotional'' of
              Some s \<Rightarrow> Some s | None \<Rightarrow> filter_field filters ''MIN_NOTIONAL'' ''minNotional'') of
        None \<Rightarrow> Some None
      | Some s \<Rightarrow> do {
          d \<leftarrow> dt_from_str (wr_text W) s;
          (if dec_is_zero d then Some None else map_option Some (result_ok (money_from_decimal (wr_dec W) d quote))) })"

text \<open>A symbol that passed the filters on its status and assets.\<close>

definition parse_pair :: "'w wire \<Rightarrow> decimal \<Rightarrow> decimal \<Rightarrow> json \<Rightarrow> string \<Rightarrow> string \<Rightarrow> string \<Rightarrow> currency_pair option" where
  "parse_pair W maker taker row sy base_asset quote_asset = do {
     filters \<leftarrow> Option.bind (json_get ''filters'' row) as_array;
     tick_size \<leftarrow> filter_field filters ''PRICE_FILTER'' ''tickSize'';
     step_size \<leftarrow> filter_field filters ''LOT_SIZE'' ''stepSize'';
     price_precision \<leftarrow> decimal_scale (wr_text W) tick_size;
     size_precision \<leftarrow> decimal_scale (wr_text W) step_size;
     tick_dec \<leftarrow> dt_from_str (wr_text W) tick_size;
     step_dec \<leftarrow> dt_from_str (wr_text W) step_size;
     price_increment \<leftarrow> result_ok (price_from_decimal (wr_dec W) tick_dec price_precision);
     size_increment \<leftarrow> result_ok (qty_from_decimal (wr_dec W) step_dec size_precision);
     quote_ccy \<leftarrow> result_ok (currency_new quote_asset price_precision);
     base_ccy \<leftarrow> result_ok (currency_new base_asset size_precision);
     min_notional \<leftarrow> parse_min_notional W filters quote_ccy;
     Some \<lparr>cp_id = binance_id sy, cp_base = base_ccy, cp_quote = quote_ccy, cp_price_precision = price_precision,
       cp_size_precision = size_precision, cp_price_increment = price_increment, cp_size_increment = size_increment,
       cp_min_notional = min_notional, cp_maker_fee = maker, cp_taker_fee = taker\<rparr> }"

text \<open>\<open>None\<close> is an error, which ends the parse; \<open>Some None\<close> is a symbol that is skipped.\<close>

definition parse_symbol :: "'w wire \<Rightarrow> decimal \<Rightarrow> decimal \<Rightarrow> json \<Rightarrow> instrument option option" where
  "parse_symbol W maker taker row =
     (if str_field row ''status'' \<noteq> Some ''TRADING'' then Some None
      else case (str_field row ''symbol'', str_field row ''baseAsset'', str_field row ''quoteAsset'') of
             (Some sy, Some (b # bs), Some (q # qs)) \<Rightarrow>
               map_option (\<lambda>p. Some (currency_pair_dyn p)) (parse_pair W maker taker row sy (b # bs) (q # qs))
           | _ \<Rightarrow> Some None)"

definition parse_exchange_info :: "'w wire \<Rightarrow> string \<Rightarrow> instrument list option" where
  "parse_exchange_info W body =
     (case wr_json W body of
        Inl e \<Rightarrow> None
      | Inr info \<Rightarrow> do {
          symbols \<leftarrow> Option.bind (json_get ''symbols'' info) as_array;
          maker \<leftarrow> dt_from_str (wr_text W) DEFAULT_MAKER_FEE;
          taker \<leftarrow> dt_from_str (wr_text W) DEFAULT_TAKER_FEE;
          fold_opt (\<lambda>row out. map_option (\<lambda>r. case r of Some i \<Rightarrow> out @ [i] | None \<Rightarrow> out) (parse_symbol W maker taker row))
            symbols [] })"

section \<open>The provider\<close>

record 'w instrument_provider =
  ip_config :: binance_config
  ip_rest :: rest_client
  ip_world :: 'w
  ip_cache :: "instrument_id \<rightharpoonup> instrument"

definition provider_new :: "'w wire \<Rightarrow> binance_config \<Rightarrow> 'w \<Rightarrow> (port_error + 'w instrument_provider) option" where
  "provider_new W cfg w = do {
     rl \<leftarrow> per_minute 1200;
     Some (case rest_client_new (wr_net W) (rest_config_default\<lparr>rf_base_url := rest_base cfg\<rparr>) rl
             \<lparr>cr_api_key = None, cr_secret = None\<rparr> of
         Inl e \<Rightarrow> Inl (net_to_port e)
       | Inr rest \<Rightarrow> Inr \<lparr>ip_config = cfg, ip_rest = rest, ip_world = w, ip_cache = Map.empty\<rparr>) }"

definition provider_find :: "instrument_id \<Rightarrow> 'w instrument_provider \<Rightarrow> instrument option" where
  "provider_find i p = ip_cache p i"

definition cache_all :: "instrument list \<Rightarrow> (instrument_id \<rightharpoonup> instrument) \<Rightarrow> instrument_id \<rightharpoonup> instrument" where
  "cache_all insts m = fold (\<lambda>i m. m(inst_id i \<mapsto> i)) insts m"

definition fetch_info ::
  "'w wire \<Rightarrow> rest_request \<Rightarrow> 'w instrument_provider \<Rightarrow> (port_error + instrument list) \<times> 'w instrument_provider" where
  "fetch_info W r p =
     (case send (wr_net W) (ip_rest p) r (ip_world p) of
        (Inl e, w) \<Rightarrow> (Inl (net_to_port e), p\<lparr>ip_world := w\<rparr>)
      | (Inr (s, body), w) \<Rightarrow>
          (case parse_exchange_info W body of
             None \<Rightarrow> (Inl (PortIo ''exchangeInfo parse''), p\<lparr>ip_world := w\<rparr>)
           | Some insts \<Rightarrow> (Inr insts, p\<lparr>ip_world := w, ip_cache := cache_all insts (ip_cache p)\<rparr>)))"

definition load_all ::
  "'w wire \<Rightarrow> 'w instrument_provider \<Rightarrow> (port_error + instrument list) \<times> 'w instrument_provider" where
  "load_all W = fetch_info W (rest_get ''/api/v3/exchangeInfo'' 20)"

definition load_one ::
  "'w wire \<Rightarrow> instrument_id \<Rightarrow> 'w instrument_provider \<Rightarrow> (port_error + instrument) \<times> 'w instrument_provider" where
  "load_one W i p =
     (case provider_find i p of
        Some inst \<Rightarrow> (Inr inst, p)
      | None \<Rightarrow>
          (case fetch_info W (with_param ''symbol'' (ii_symbol i) (rest_get ''/api/v3/exchangeInfo'' 20)) p of
             (Inl e, p1) \<Rightarrow> (Inl e, p1)
           | (Inr _, p1) \<Rightarrow>
               (case ip_cache p1 i of
                  Some inst \<Rightarrow> Inr inst
                | None \<Rightarrow> Inl (PortIo (''symbol '' @ instrument_id_display i @ '' not found in exchangeInfo'')), p1)))"

section \<open>What a listed instrument has\<close>

lemma result_ok_Some: "result_ok r = Some x \<longleftrightarrow> r = Inr x"
  by (cases r) simp_all

lemma scaled_exact: "scale e \<le> prec \<Longrightarrow> dval e * 10 ^ prec = of_int (mantissa e * 10 ^ (prec - scale e))"
  by (auto simp: dval_def power_add dest!: le_Suc_ex)

context decimal_lib
begin

text \<open>A decimal whose scale is within the precision is kept exactly.\<close>

lemma price_from_decimal_exact:
  assumes "wf_dec d" "scale e \<le> prec" "dval e = dval d" "price_from_decimal D d prec = Ok p"
  shows "price_val p = dval d"
proof -
  have v: "dval d * 10 ^ prec = of_int (mantissa e * 10 ^ (prec - scale e))"
    using scaled_exact [OF assms(2)] assms(3) by simp
  then have "p = Price (mantissa e * 10 ^ (prec - scale e)) prec"
    using assms(4) quantize_spec [OF assms(1), of prec]
    by (auto simp: price_from_decimal_def result_bind_Inr i64_try_from_def price_from_raw_Ok
        simp del: of_int_mult of_int_power split: if_split_asm)
  then show ?thesis using v by (simp add: price_val_def field_simps)
qed

lemma qty_from_decimal_exact:
  assumes "wf_dec d" "scale e \<le> prec" "dval e = dval d" "qty_from_decimal D d prec = Ok q"
  shows "qty_val q = dval d"
proof -
  have v: "dval d * 10 ^ prec = of_int (mantissa e * 10 ^ (prec - scale e))"
    using scaled_exact [OF assms(2)] assms(3) by simp
  then have "q = Quantity (mantissa e * 10 ^ (prec - scale e)) prec"
    using assms(4) quantize_spec [OF assms(1), of prec]
    by (auto simp: qty_from_decimal_def result_bind_Inr i64_try_from_def qty_from_raw_Ok
        simp del: of_int_mult of_int_power split: if_split_asm)
  then show ?thesis using v by (simp add: qty_val_def field_simps)
qed

end

lemma decimal_scale_exact:
  assumes "decimal_text T" "decimal_scale T s = Some n" "dt_from_str T s = Some d" "n \<le> MAX_PRECISION"
  shows "wf_dec d \<and> scale (dt_normalize T d) \<le> n \<and> dval (dt_normalize T d) = dval d"
  using assms decimal_text.from_str_wf [OF assms(1,3)] decimal_text.normalize_val [OF assms(1)]
  by (auto simp: decimal_scale_def MAX_PRECISION_def)

text \<open>
  An instrument comes from a symbol of the listing that trades and has its id; its increments are
  the exact values of the venue's filters.
\<close>

definition lists :: "dec_text \<Rightarrow> json \<Rightarrow> instrument \<Rightarrow> bool" where
  "lists T row i \<longleftrightarrow>
     str_field row ''status'' = Some ''TRADING'' \<and> map_option binance_id (str_field row ''symbol'') = Some (inst_id i) \<and>
     (\<exists>filters. Option.bind (json_get ''filters'' row) as_array = Some filters \<and>
        map_option dval (Option.bind (filter_field filters ''PRICE_FILTER'' ''tickSize'') (dt_from_str T)) =
          Some (price_val (inst_price_increment i)) \<and>
        map_option dval (Option.bind (filter_field filters ''LOT_SIZE'' ''stepSize'') (dt_from_str T)) =
          Some (qty_val (inst_size_increment i)))"

text \<open>The types of an instrument: its increments and currencies are well formed and have its precisions.\<close>

definition listing_ok :: "instrument \<Rightarrow> bool" where
  "listing_ok i \<longleftrightarrow>
     valid_price (inst_price_increment i) \<and> p_prec (inst_price_increment i) = inst_price_precision i \<and>
     valid_qty (inst_size_increment i) \<and> q_prec (inst_size_increment i) = inst_size_precision i \<and>
     valid_currency (inst_quote_currency i) \<and> c_prec (inst_quote_currency i) = inst_price_precision i \<and>
     valid_currency (inst_base_currency i) \<and> c_prec (inst_base_currency i) = inst_size_precision i \<and>
     (case inst_min_notional i of None \<Rightarrow> True | Some m \<Rightarrow> m_ccy m = inst_quote_currency i)"

lemma currency_new_valid: "currency_new code prec = Ok c \<Longrightarrow> valid_currency c \<and> c_prec c = prec"
  by (auto simp: currency_new_def result_bind_Inr check_precision_def valid_currency_def split: if_split_asm)

lemma parse_pair_ok:
  assumes "parse_pair W maker taker row sy b q = Some p"
  shows "listing_ok (currency_pair_dyn p)"
  using assms
  by (auto simp: parse_pair_def parse_min_notional_def bind_eq_Some result_ok_Some listing_ok_def currency_pair_dyn_def
      money_from_decimal_def result_bind_Inr
      dest!: price_from_decimal_valid qty_from_decimal_valid currency_new_valid split: option.split option.split_asm if_split_asm)

lemma parse_pair_lists:
  assumes "decimal_lib (wr_dec W)" "decimal_text (wr_text W)" "parse_pair W maker taker row sy b q = Some p"
    "str_field row ''status'' = Some ''TRADING''" "str_field row ''symbol'' = Some sy"
  shows "lists (wr_text W) row (currency_pair_dyn p)"
proof -
  let ?fs = "dt_from_str (wr_text W)"
  obtain filters tick step pp sp td sd pinc sinc where
    f: "Option.bind (json_get ''filters'' row) as_array = Some filters"
    "filter_field filters ''PRICE_FILTER'' ''tickSize'' = Some tick" "filter_field filters ''LOT_SIZE'' ''stepSize'' = Some step"
    "decimal_scale (wr_text W) tick = Some pp" "decimal_scale (wr_text W) step = Some sp" "?fs tick = Some td" "?fs step = Some sd"
    "price_from_decimal (wr_dec W) td pp = Ok pinc" "qty_from_decimal (wr_dec W) sd sp = Ok sinc"
    and p: "cp_id p = binance_id sy" "cp_price_increment p = pinc" "cp_size_increment p = sinc"
    using assms(3) by (auto simp: parse_pair_def bind_eq_Some result_ok_Some)
  have "pp \<le> MAX_PRECISION" "sp \<le> MAX_PRECISION"
    using price_from_decimal_valid [OF f(8)] qty_from_decimal_valid [OF f(9)] by (auto simp: valid_price_def valid_qty_def)
  then have "price_val pinc = dval td" "qty_val sinc = dval sd"
    using decimal_scale_exact [OF assms(2) f(4,6)] decimal_scale_exact [OF assms(2) f(5,7)]
      decimal_lib.price_from_decimal_exact [OF assms(1) _ _ _ f(8)] decimal_lib.qty_from_decimal_exact [OF assms(1) _ _ _ f(9)]
    by auto
  then show ?thesis using f p assms(4,5) by (simp add: lists_def currency_pair_dyn_def)
qed

lemma collect_fold:
  "fold_opt (\<lambda>x out. map_option (\<lambda>r. case r of Some i \<Rightarrow> out @ [i] | None \<Rightarrow> out) (f x)) xs out = Some ys \<Longrightarrow>
    y \<in> set ys \<Longrightarrow> y \<in> set out \<or> (\<exists>x \<in> set xs. f x = Some (Some y))"
proof (induction xs arbitrary: out)
  case (Cons x xs)
  then obtain r where "f x = Some r" by (auto simp: bind_eq_Some)
  then show ?case using Cons.IH [of "case r of Some i \<Rightarrow> out @ [i] | None \<Rightarrow> out"] Cons.prems
    by (auto split: option.split_asm)
qed simp

lemma exchange_info_row:
  assumes "parse_exchange_info W body = Some insts" "i \<in> set insts"
  obtains info rows row maker taker where "wr_json W body = Inr info"
    "Option.bind (json_get ''symbols'' info) as_array = Some rows" "row \<in> set rows"
    "parse_symbol W maker taker row = Some (Some i)"
  using assms collect_fold [where out = "[]" and y = i]
  by (fastforce simp: parse_exchange_info_def bind_eq_Some split: sum.split_asm)

lemma parse_symbol_pair:
  assumes "parse_symbol W maker taker row = Some (Some i)"
  obtains sy b q p where "str_field row ''status'' = Some ''TRADING''" "str_field row ''symbol'' = Some sy"
    "parse_pair W maker taker row sy b q = Some p" "i = currency_pair_dyn p"
  using assms by (auto simp: parse_symbol_def split: if_split_asm option.split_asm list.split_asm)

lemma exchange_info_ok: "parse_exchange_info W body = Some insts \<Longrightarrow> i \<in> set insts \<Longrightarrow> listing_ok i"
  by (erule (1) exchange_info_row, erule parse_symbol_pair) (simp add: parse_pair_ok)

section \<open>The cache of the provider\<close>

definition filed :: "(instrument_id \<rightharpoonup> instrument) \<Rightarrow> bool" where
  "filed m \<longleftrightarrow> (\<forall>i inst. m i = Some inst \<longrightarrow> inst_id inst = i \<and> listing_ok inst)"

definition provider_ok :: "'w instrument_provider \<Rightarrow> bool" where
  "provider_ok p \<longleftrightarrow> filed (ip_cache p)"

lemma filed_insert: "filed m \<Longrightarrow> listing_ok inst \<Longrightarrow> filed (m(inst_id inst \<mapsto> inst))"
  by (simp add: filed_def)

lemma filed_cache_all: "filed m \<Longrightarrow> (\<And>inst. inst \<in> set insts \<Longrightarrow> listing_ok inst) \<Longrightarrow> filed (cache_all insts m)"
  unfolding cache_all_def
proof (induction insts arbitrary: m)
  case (Cons inst insts)
  show ?case using Cons.IH [OF filed_insert] Cons.prems by simp
qed simp

lemma fetch_info_ok:
  assumes "provider_ok p" "fetch_info W r p = (res, p')"
  shows "provider_ok p'"
proof -
  obtain q w where "send (wr_net W) (ip_rest p) r (ip_world p) = (q, w)" by (rule prod.exhaust)
  then show ?thesis
    using assms filed_cache_all [OF _ exchange_info_ok]
    by (cases q) (auto simp: fetch_info_def provider_ok_def split: option.split_asm)
qed

lemma provider_new_ok: "provider_new W cfg w = Some (Inr p) \<Longrightarrow> provider_ok p"
  by (cases "rest_client_new (wr_net W) (rest_config_default\<lparr>rf_base_url := rest_base cfg\<rparr>) (the (per_minute 1200))
        \<lparr>cr_api_key = None, cr_secret = None\<rparr>")
    (auto simp: provider_new_def provider_ok_def filed_def bind_eq_Some)

section \<open>Properties\<close>

text \<open>
  C28: the provider hands out well-typed instruments. Loading keeps every cached instrument under
  its own id and well formed, and the instrument returned is the one asked for.
\<close>

theorem provider_typed:
  assumes "provider_ok p" "load_one W i p = (res, p')"
  shows "provider_ok p' \<and> (case res of Inr inst \<Rightarrow> inst_id inst = i \<and> listing_ok inst | Inl e \<Rightarrow> True)"
proof (cases "provider_find i p")
  case None
  obtain q p1 where f: "fetch_info W (with_param ''symbol'' (ii_symbol i) (rest_get ''/api/v3/exchangeInfo'' 20)) p = (q, p1)"
    by (rule prod.exhaust)
  have "provider_ok p1" using fetch_info_ok [OF assms(1) f] .
  then show ?thesis
    using assms(2) None f by (cases q) (auto simp: load_one_def provider_ok_def filed_def split: option.split_asm)
qed (use assms in \<open>auto simp: load_one_def provider_ok_def filed_def provider_find_def\<close>)

text \<open>
  Increments are the venue's. Each instrument parsed from a listing belongs to a symbol of the
  listing that trades, and its price and size increments are exactly the venue's tick and step.
\<close>

theorem listed_increments_exact:
  assumes "decimal_lib (wr_dec W)" "decimal_text (wr_text W)" "parse_exchange_info W body = Some insts" "i \<in> set insts"
  shows "\<exists>info rows row. wr_json W body = Inr info \<and> Option.bind (json_get ''symbols'' info) as_array = Some rows \<and>
    row \<in> set rows \<and> lists (wr_text W) row i"
proof -
  obtain info rows row maker taker where r: "wr_json W body = Inr info" "Option.bind (json_get ''symbols'' info) as_array = Some rows"
    "row \<in> set rows" "parse_symbol W maker taker row = Some (Some i)"
    using assms(3,4) by (rule exchange_info_row)
  obtain sy b q p where "str_field row ''status'' = Some ''TRADING''" "str_field row ''symbol'' = Some sy"
    "parse_pair W maker taker row sy b q = Some p" "i = currency_pair_dyn p"
    using r(4) by (rule parse_symbol_pair)
  then show ?thesis using parse_pair_lists [OF assms(1,2)] r(1-3) by blast
qed

section \<open>A listing\<close>

definition info_json :: json where
  "info_json = JObj [(''symbols'', JArr
     [JObj [(''symbol'', JStr ''BTCUSDT''), (''status'', JStr ''TRADING''), (''baseAsset'', JStr ''BTC''),
        (''quoteAsset'', JStr ''USDT''), (''filters'', JArr
          [JObj [(''filterType'', JStr ''PRICE_FILTER''), (''tickSize'', JStr ''0.010'')],
           JObj [(''filterType'', JStr ''LOT_SIZE''), (''stepSize'', JStr ''0.1'')]])],
      JObj [(''symbol'', JStr ''DEADUSDT''), (''status'', JStr ''HALT'')]])]"

definition info_wire :: "(http_answer list \<times> nat) wire" where
  "info_wire =
     \<lparr>wr_net = script_env id, wr_dec = rdec, wr_text = rtext, wr_json = (\<lambda>s. Inr info_json), wr_json_list = (\<lambda>s. Inr [])\<rparr>"

definition info_provider :: "(http_answer list \<times> nat) instrument_provider" where
  "info_provider =
     \<lparr>ip_config = binance_default, ip_rest = script_client\<lparr>cl_limiter := \<lparr>rl_capacity = 1200, rl_cell_period = 1, rl_burst = 1200\<rparr>\<rparr>,
      ip_world = ([], 0), ip_cache = Map.empty\<rparr>"

lemma info_parses: "map_option (map (\<lambda>i. (inst_id i, inst_price_increment i))) (parse_exchange_info info_wire []) =
    Some [(binance_id ''BTCUSDT'', Price 1 2)]"
  by code_simp

lemma info_loads: "map_sum id inst_id (fst (load_one info_wire (binance_id ''BTCUSDT'') info_provider)) = Inr (binance_id ''BTCUSDT'')"
  by code_simp

theorem provider_typed_witness:
  "\<exists>inst. fst (load_one info_wire (binance_id ''BTCUSDT'') info_provider) = Inr inst \<and> listing_ok inst"
proof -
  obtain res p' where l: "load_one info_wire (binance_id ''BTCUSDT'') info_provider = (res, p')" by (rule prod.exhaust)
  have "provider_ok info_provider" by (simp add: provider_ok_def filed_def info_provider_def)
  from provider_typed [OF this l] show ?thesis using info_loads l by (cases res) auto
qed

theorem listed_increments_exact_witness:
  "\<exists>i rows row. parse_exchange_info info_wire [] = Some [i] \<and> Option.bind (json_get ''symbols'' info_json) as_array = Some rows \<and>
     row \<in> set rows \<and> lists rtext row i"
proof -
  obtain i where i: "parse_exchange_info info_wire [] = Some [i]" using info_parses by auto
  have w: "wr_dec info_wire = rdec" "wr_text info_wire = rtext" "wr_json info_wire [] = Inr info_json"
    by (simp_all add: info_wire_def)
  from listed_increments_exact [OF _ _ i, of i] show ?thesis
    using i w rd.decimal_lib_axioms rt.decimal_text_axioms by auto
qed

end
