(* ===== verification/Feed.thy ===== *)
theory Feed
  imports Instruments Clients
begin

text \<open>
  The market-data client of \<open>coinext-adapters-binance/src/data.rs\<close>: subscriptions, the address of the
  socket, snapshots and historical bars over REST, and the pump of \<open>Depth\<close> at work on the channel to
  the core. Symbols are ASCII, so lower-casing is that of ASCII letters.
\<close>

section \<open>State\<close>

text \<open>
  The subscribed streams are the elements of a \<open>BTreeSet\<close>, in ascending order. \<open>dx_resyncer\<close> belongs
  to the pump task, which \<open>connect\<close> starts with an empty one.
\<close>

record 'w binance_data =
  dx_config :: binance_config
  dx_rest :: rest_client
  dx_world :: 'w
  dx_chan :: "market_event chan"
  dx_taken :: bool
  dx_streams :: "string list"
  dx_ws :: "string option"
  dx_resyncer :: resyncer

definition binance_data_new :: "'w wire \<Rightarrow> binance_config \<Rightarrow> 'w \<Rightarrow> (port_error + 'w binance_data) option" where
  "binance_data_new W cfg w = do {
     rl \<leftarrow> per_minute 1200;
     Some (case rest_client_new (wr_net W) (rest_config_default\<lparr>rf_base_url := rest_base cfg\<rparr>) rl
             \<lparr>cr_api_key = None, cr_secret = None\<rparr> of
         Inl e \<Rightarrow> Inl (net_to_port e)
       | Inr rest \<Rightarrow>
           Inr \<lparr>dx_config = cfg, dx_rest = rest, dx_world = w, dx_chan = chan_new 4096, dx_taken = False,
             dx_streams = [], dx_ws = None, dx_resyncer = Map.empty\<rparr>) }"

section \<open>Requests\<close>

definition dx_send :: "'w wire \<Rightarrow> rest_request \<Rightarrow> 'w binance_data \<Rightarrow> (net_error + u16 \<times> string) \<times> 'w binance_data" where
  "dx_send W r x = (case send (wr_net W) (dx_rest x) r (dx_world x) of (res, w) \<Rightarrow> (res, x\<lparr>dx_world := w\<rparr>))"

definition depth_request :: "string \<Rightarrow> rest_request" where
  "depth_request sy = with_param ''limit'' ''1000'' (with_param ''symbol'' sy (rest_get ''/api/v3/depth'' 50))"

text \<open>\<open>None\<close> when the request or the parse fails.\<close>

definition fetch_depth_snapshot ::
  "'w wire \<Rightarrow> string \<Rightarrow> unix_nanos \<Rightarrow> unix_nanos \<Rightarrow> 'w binance_data \<Rightarrow> (u64 \<times> order_book_delta list) option \<times> 'w binance_data" where
  "fetch_depth_snapshot W sy ts_event ts_init x =
     (case dx_send W (depth_request sy) x of
        (Inl e, x1) \<Rightarrow> (None, x1)
      | (Inr (s, body), x1) \<Rightarrow>
          (case wr_json W body of
             Inl e \<Rightarrow> None
           | Inr v \<Rightarrow> normalize_depth_snapshot (wr_dec W) (dt_from_str (wr_text W)) sy v ts_event ts_init, x1))"

definition bars_request :: "bar_type \<Rightarrow> unix_nanos \<Rightarrow> unix_nanos \<Rightarrow> rest_request" where
  "bars_request bt start stop =
     with_param ''limit'' ''1000''
       (with_param ''endTime'' (show_nat (unat (stop div 1000000)))
         (with_param ''startTime'' (show_nat (unat (start div 1000000)))
           (with_param ''interval'' (bar_aggregation_to_interval (bs_aggregation (bt_spec bt)) (bs_step (bt_spec bt)))
             (with_param ''symbol'' (ii_symbol (bt_instrument_id bt)) (rest_get ''/api/v3/klines'' 2)))))"

definition request_bars ::
  "'w wire \<Rightarrow> bar_type \<Rightarrow> unix_nanos \<Rightarrow> unix_nanos \<Rightarrow> 'w binance_data \<Rightarrow> (port_error + bar list) \<times> 'w binance_data" where
  "request_bars W bt start stop x =
     (case dx_send W (bars_request bt start stop) x of
        (Inl e, x1) \<Rightarrow> (Inl (net_to_port e), x1)
      | (Inr (s, body), x1) \<Rightarrow>
          (case wr_json_list W body of
             Inl e \<Rightarrow> Inl (net_to_port (NetDecode e))
           | Inr rows \<Rightarrow>
               (case fold_opt (\<lambda>row bars. map_option (\<lambda>b. bars @ [b]) (kline_to_bar (wr_dec W) (dt_from_str (wr_text W)) row bt)) rows [] of
                  None \<Rightarrow> Inl (PortIo ''kline -> Bar'')
                | Some bars \<Rightarrow> Inr bars), x1))"

section \<open>Subscriptions\<close>

definition stream_names :: "subscription \<Rightarrow> string list" where
  "stream_names sub =
     (let sy = to_ascii_lowercase (ii_symbol (sub_instrument_id sub))
      in case sub_sub_kind sub of
           SubQuotes \<Rightarrow> [sy @ ''@bookTicker'']
         | SubTrades \<Rightarrow> [sy @ ''@trade'']
         | SubBookL2 _ \<Rightarrow> [sy @ ''@depth@100ms'']
         | SubBars spec \<Rightarrow> [sy @ ''@kline_'' @ bar_aggregation_to_interval (bs_aggregation spec) (bs_step spec)])"

definition str_less :: "string \<Rightarrow> string \<Rightarrow> bool" where
  "str_less a b = lex_less (str_key a) (str_key b)"

definition stream_insert :: "string \<Rightarrow> string list \<Rightarrow> string list" where
  "stream_insert s ss = (if s \<in> set ss then ss else insert_sorted_by str_less s ss)"

definition data_subscribe :: "subscription \<Rightarrow> 'w binance_data \<Rightarrow> 'w binance_data" where
  "data_subscribe sub x = x\<lparr>dx_streams := fold stream_insert (stream_names sub) (dx_streams x)\<rparr>"

definition data_unsubscribe :: "subscription \<Rightarrow> 'w binance_data \<Rightarrow> 'w binance_data" where
  "data_unsubscribe sub x = x\<lparr>dx_streams := fold remove1 (stream_names sub) (dx_streams x)\<rparr>"

definition market_url :: "'w binance_data \<Rightarrow> string" where
  "market_url x =
     (if dx_streams x = [] then ws_market_base (dx_config x)
      else ws_market_base (dx_config x) @ ''?streams='' @ join ''/'' (dx_streams x))"

definition data_connect :: "'w binance_data \<Rightarrow> 'w binance_data lres" where
  "data_connect x = LOk (x\<lparr>dx_ws := Some (market_url x), dx_resyncer := Map.empty\<rparr>)"

text \<open>One message at the pump; \<open>None\<close> when it waits for room in the channel.\<close>

definition data_message :: "'w wire \<Rightarrow> ws_message \<Rightarrow> 'w binance_data \<Rightarrow> 'w binance_data option" where
  "data_message W msg x =
     (case msg of
        Reconnected \<Rightarrow> Some (x\<lparr>dx_resyncer := mark_all_for_resync (dx_resyncer x)\<rparr>)
      | WsText parsed ms rest \<Rightarrow>
          (case process_frame (wr_dec W) (dt_from_str (wr_text W)) rest parsed ms (dx_resyncer x) of
             (evs, m) \<Rightarrow> map_option (\<lambda>c. x\<lparr>dx_chan := c, dx_resyncer := m\<rparr>) (send_all evs (dx_chan x))))"

definition data_take_stream :: "'w binance_data \<Rightarrow> 'w binance_data option" where
  "data_take_stream x = (if dx_taken x then None else Some (x\<lparr>dx_taken := True\<rparr>))"

definition data_disconnect :: "'w binance_data \<Rightarrow> 'w binance_data lres" where
  "data_disconnect x = LOk (x\<lparr>dx_ws := None\<rparr>)"

definition binance_data_client :: "'w binance_data data_client" where
  "binance_data_client =
     \<lparr>dc_connect = data_connect, dc_take_stream = data_take_stream,
      dc_recv = (\<lambda>x. let (r, c) = chan_recv (dx_chan x) in (r, x\<lparr>dx_chan := c\<rparr>)), dc_disconnect = data_disconnect\<rparr>"

section \<open>Streams\<close>

lemma set_stream_insert [simp]: "set (stream_insert s ss) = insert s (set ss)"
  by (auto simp: stream_insert_def)

lemma subscribe_streams: "set (dx_streams (data_subscribe sub x)) = set (dx_streams x) \<union> set (stream_names sub)"
proof -
  have "set (fold stream_insert ns ss) = set ss \<union> set ns" for ns ss by (induction ns arbitrary: ss) auto
  then show ?thesis by (simp add: data_subscribe_def)
qed

lemma contains_skip: "c \<notin> set xs \<Longrightarrow> contains_str (c # p) (xs @ ys) = contains_str (c # p) ys"
  by (induction xs) auto

lemma contains_none: "c \<notin> set xs \<Longrightarrow> \<not> contains_str (c # p) xs"
  by (induction xs) auto

lemma interval_shape:
  "\<exists>ds u. bar_aggregation_to_interval agg step = ds @ [u] \<and> u \<in> set ''smhd'' \<and> CHR ''@'' \<notin> set ds"
proof -
  have "CHR ''@'' \<noteq> digit_char k" if "k < 10" for k
    using that by (auto simp: digit_char_def dest: arg_cong [where f = "of_char :: char \<Rightarrow> nat"])
  then have "CHR ''@'' \<notin> set (show_nat (max step 1))" using show_nat_digits by blast
  then show ?thesis by (auto simp: bar_aggregation_to_interval_def split: bar_aggregation.split)
qed

lemma lowercase_at: "CHR ''@'' \<notin> set s \<Longrightarrow> CHR ''@'' \<notin> set (to_ascii_lowercase s)"
  by (auto simp: to_ascii_lowercase_def Let_def dest: arg_cong [where f = "of_char :: char \<Rightarrow> nat"])

lemma kline_stream_unknown:
  assumes "CHR ''@'' \<notin> set sy" "stream = sy @ ''@kline_'' @ bar_aggregation_to_interval agg step"
  shows "\<not> contains_str ''@depth'' stream \<and> \<not> ends_with_str ''@trade'' stream \<and> \<not> ends_with_str ''@bookTicker'' stream"
proof -
  obtain ds u where i: "bar_aggregation_to_interval agg step = ds @ [u]" "u \<in> set ''smhd''" "CHR ''@'' \<notin> set ds"
    using interval_shape by blast
  then have "CHR ''@'' \<notin> set (''kline_'' @ ds @ [u])" by auto
  then have "\<not> contains_str ''@depth'' stream"
    using contains_skip [OF assms(1), of "''depth''"] contains_none [of "CHR ''@''" "''kline_'' @ ds @ [u]" "''depth''"]
    by (auto simp: assms(2) i(1))
  moreover have "rev stream = u # rev (sy @ ''@kline_'' @ ds)" by (simp add: assms(2) i(1))
  ultimately show ?thesis using i(2) by (auto simp: ends_with_str_def)
qed

section \<open>Properties\<close>

text \<open>
  Subscribed bars never arrive. A subscription to bars puts a kline stream into the address of
  the socket, but every frame of such a stream leaves the client as it was: no bar is sent to the
  core.
\<close>

theorem kline_frames_dropped:
  assumes "CHR ''@'' \<notin> set (ii_symbol (sub_instrument_id sub))" "sub_sub_kind sub = SubBars spec"
    "name \<in> set (stream_names sub)" "json_get ''stream'' frame = Some (JStr name)"
  shows "data_message W (WsText (Some frame) ms rest) x = Some x"
proof -
  let ?m = "dx_resyncer x"
  have n: "name = to_ascii_lowercase (ii_symbol (sub_instrument_id sub)) @ ''@kline_'' @
      bar_aggregation_to_interval (bs_aggregation spec) (bs_step spec)"
    using assms(2,3) by (simp add: stream_names_def Let_def)
  note u = kline_stream_unknown [OF lowercase_at [OF assms(1)] n]
  have "process_frame (wr_dec W) (dt_from_str (wr_text W)) rest (Some frame) ms ?m = ([], ?m)"
    using u assms(4) by (auto simp: process_frame_def normalize_combined_frame_def split: option.split)
  then show ?thesis by (simp add: data_message_def)
qed

definition bar_feed :: "(http_answer list \<times> nat) binance_data" where
  "bar_feed =
     \<lparr>dx_config = binance_default, dx_rest = script_client, dx_world = ([], 0), dx_chan = chan_new 4096, dx_taken = False,
      dx_streams = [''btcusdt@kline_1m''], dx_ws = None, dx_resyncer = Map.empty\<rparr>"

theorem kline_frames_dropped_witness:
  "data_message info_wire (WsText (Some (JObj [(''stream'', JStr ''btcusdt@kline_1m''), (''data'', JObj [])])) 0 (\<lambda>_ _. None)) bar_feed =
     Some bar_feed"
proof (rule kline_frames_dropped)
  let ?sub = "\<lparr>sub_instrument_id = binance_id ''BTCUSDT'', sub_sub_kind = SubBars \<lparr>bs_step = 1, bs_aggregation = AggMinute, bs_price_type = PtLast\<rparr>\<rparr>"
  show "CHR ''@'' \<notin> set (ii_symbol (sub_instrument_id ?sub))" by (simp add: binance_id_def)
  show "sub_sub_kind ?sub = SubBars \<lparr>bs_step = 1, bs_aggregation = AggMinute, bs_price_type = PtLast\<rparr>" by simp
  show "''btcusdt@kline_1m'' \<in> set (stream_names ?sub)" by code_simp
  show "json_get ''stream'' (JObj [(''stream'', JStr ''btcusdt@kline_1m''), (''data'', JObj [])]) = Some (JStr ''btcusdt@kline_1m'')" by code_simp
qed

end
