(* ===== verification/Ingest.thy ===== *)
theory Ingest
  imports Lake Calendar Feed
begin

text \<open>
  The ingestion daemon \<open>coinext-ingest\<close>: its sinks (\<open>sinks.rs\<close>) and the connection loop (\<open>main.rs\<close>). The
  file system, the encoders and the Redis connection are operations on a state of the world. Counters
  are 64-bit and wrap, as the atomics do; a bar buffer is a hash map that \<open>flush\<close> iterates, in an order
  that is a parameter.
\<close>

section \<open>Metrics and gap tracking\<close>

record ingest_metrics =
  im_events_logged :: u64
  im_bars_flushed :: u64
  im_redis_published :: u64
  im_redis_errors :: u64
  im_ws_connects :: u64
  im_ws_reconnects :: u64
  im_ws_errors :: u64
  im_book_gaps :: u64

definition metrics_default :: ingest_metrics where
  "metrics_default =
     \<lparr>im_events_logged = 0, im_bars_flushed = 0, im_redis_published = 0, im_redis_errors = 0, im_ws_connects = 0,
      im_ws_reconnects = 0, im_ws_errors = 0, im_book_gaps = 0\<rparr>"

type_synonym gap_tracker = "string \<rightharpoonup> u64"

definition observe :: "string \<Rightarrow> u64 \<Rightarrow> gap_tracker \<Rightarrow> bool \<times> gap_tracker" where
  "observe k seqn t =
     (let gap = (case t k of Some prev \<Rightarrow> prev + 1 < seqn | None \<Rightarrow> False);
          entry = (case t k of Some prev \<Rightarrow> prev | None \<Rightarrow> 0)
      in (gap, t(k \<mapsto> (if entry \<le> seqn then seqn else entry))))"

section \<open>Messages\<close>

datatype msg_type = MtQuote | MtTrade | MtBar | MtDelta | MtOrderEvent | MtFill | MtTimer | MtCmd | MtCtrl

datatype pval = PStr string | PF64 f64 | PU64 u64

record envelope =
  ev_schema_version :: nat
  ev_msg_type :: msg_type
  ev_trace_id :: "nat list"
  ev_ts_init :: u64
  ev_payload :: string

definition envelope_new :: "msg_type \<Rightarrow> nat list \<Rightarrow> u64 \<Rightarrow> string \<Rightarrow> envelope" where
  "envelope_new mt trace ts payload =
     \<lparr>ev_schema_version = 1, ev_msg_type = mt, ev_trace_id = trace, ev_ts_init = ts, ev_payload = payload\<rparr>"

record 'w ingest_env =
  ie_lake :: "'w lake_env"
  ie_dec :: dec_ops
  ie_to_f64 :: "decimal \<Rightarrow> f64 option"
  ie_json :: "(string \<times> pval) list \<Rightarrow> string + string"
  ie_msgpack :: "(string \<times> pval) list \<Rightarrow> string + string"
  ie_frame :: "envelope \<Rightarrow> string + string"
  ie_append_line :: "path \<Rightarrow> string \<Rightarrow> 'w \<Rightarrow> bool \<times> 'w"
  ie_xadd :: "string \<Rightarrow> string \<Rightarrow> 'w \<Rightarrow> (string + unit) \<times> 'w"
  ie_now_ns :: "'w \<Rightarrow> u64"

fun event_fields :: "'w ingest_env \<Rightarrow> market_event \<Rightarrow> msg_type \<times> string \<times> (string \<times> pval) list" where
  "event_fields E (MQuote q) =
     (MtQuote, ''quote'',
      [(''instrument'', PStr (instrument_id_display (qt_instrument_id q))),
       (''bid'', PF64 (price_as_f64 (ie_dec E) (ie_to_f64 E) (qt_bid q))), (''ask'', PF64 (price_as_f64 (ie_dec E) (ie_to_f64 E) (qt_ask q))),
       (''bid_sz'', PF64 (qty_as_f64 (ie_dec E) (ie_to_f64 E) (qt_bid_size q))), (''ask_sz'', PF64 (qty_as_f64 (ie_dec E) (ie_to_f64 E) (qt_ask_size q))),
       (''ts_event'', PU64 (qt_ts_event q))])"
| "event_fields E (MTrade t) =
     (MtTrade, ''trade'',
      [(''instrument'', PStr (instrument_id_display (tt_instrument_id t))),
       (''px'', PF64 (price_as_f64 (ie_dec E) (ie_to_f64 E) (tt_price t))), (''qty'', PF64 (qty_as_f64 (ie_dec E) (ie_to_f64 E) (tt_size t))),
       (''ts_event'', PU64 (tt_ts_event t))])"
| "event_fields E (MBar b) =
     (MtBar, ''bar'',
      [(''instrument'', PStr (instrument_id_display (bt_instrument_id (b_bar_type b)))),
       (''open'', PF64 (price_as_f64 (ie_dec E) (ie_to_f64 E) (b_open b))), (''high'', PF64 (price_as_f64 (ie_dec E) (ie_to_f64 E) (b_high b))),
       (''low'', PF64 (price_as_f64 (ie_dec E) (ie_to_f64 E) (b_low b))), (''close'', PF64 (price_as_f64 (ie_dec E) (ie_to_f64 E) (b_close b))),
       (''volume'', PF64 (qty_as_f64 (ie_dec E) (ie_to_f64 E) (b_volume b))), (''ts_event'', PU64 (b_ts_event b))])"
| "event_fields E (MDelta d) =
     (MtDelta, ''delta'',
      [(''instrument'', PStr (instrument_id_display (bd_instrument_id d))),
       (''px'', PF64 (price_as_f64 (ie_dec E) (ie_to_f64 E) (bd_price d))), (''sz'', PF64 (qty_as_f64 (ie_dec E) (ie_to_f64 E) (bd_size d))),
       (''seq'', PU64 (bd_sequence d)), (''ts_event'', PU64 (bd_ts_event d))])"

definition event_to_json_line :: "'w ingest_env \<Rightarrow> market_event \<Rightarrow> string + string" where
  "event_to_json_line E ev = (case event_fields E ev of (_, kind, kvs) \<Rightarrow> ie_json E ((''kind'', PStr kind) # kvs))"

definition event_payload :: "'w ingest_env \<Rightarrow> market_event \<Rightarrow> string + msg_type \<times> string" where
  "event_payload E ev =
     (case event_fields E ev of (mt, _, kvs) \<Rightarrow> result_bind (ie_msgpack E kvs) (\<lambda>payload. Inr (mt, payload)))"

section \<open>The sinks\<close>

record 'w ingest_sinks =
  is_world :: 'w
  is_lake_root :: "path option"
  is_event_log :: "path option"
  is_redis :: bool
  is_bar_buf :: "(string \<times> bar list) list"
  is_bar_flush_every :: nat
  is_published :: u64
  is_written_events :: u64
  is_flushed_bars :: u64
  is_metrics :: ingest_metrics
  is_gaps :: gap_tracker

text \<open>
  \<open>from_env\<close>: the environment variables, whether the Redis URL connects, and the parser of the flush
  size. An empty value counts as unset.
\<close>

definition blank :: "string \<Rightarrow> bool" where
  "blank s \<longleftrightarrow> (\<forall>c \<in> set s. c \<in> {CHR '' '', CHR 0x09, CHR 0x0A, CHR 0x0B, CHR 0x0C, CHR 0x0D})"

definition set_var :: "(string \<Rightarrow> string option) \<Rightarrow> string \<Rightarrow> string option" where
  "set_var env k = (case env k of Some v \<Rightarrow> if blank v then None else Some v | None \<Rightarrow> None)"

definition sinks_from_env ::
  "(string \<Rightarrow> string option) \<Rightarrow> (string \<Rightarrow> bool) \<Rightarrow> (string \<Rightarrow> nat option) \<Rightarrow> 'w \<Rightarrow> 'w ingest_sinks" where
  "sinks_from_env env redis_connects parse_usize w =
     (let lake = map_option (\<lambda>s. [s]) (set_var env ''COINEXT__DATA__LAKE_ROOT'');
          event_log = (case set_var env ''COINEXT__INGEST__EVENT_LOG'' of
              Some s \<Rightarrow> Some [s]
            | None \<Rightarrow> map_option (\<lambda>r. r @ [''ingest'', ''events.ndjson'']) lake);
          redis = (case set_var env ''COINEXT__REDIS__URL'' of Some url \<Rightarrow> redis_connects url | None \<Rightarrow> False);
          every = (case Option.bind (env ''COINEXT__INGEST__BAR_FLUSH'') parse_usize of Some n \<Rightarrow> n | None \<Rightarrow> 32)
      in \<lparr>is_world = w, is_lake_root = lake, is_event_log = event_log, is_redis = redis, is_bar_buf = [],
          is_bar_flush_every = max every 1, is_published = 0, is_written_events = 0, is_flushed_bars = 0,
          is_metrics = metrics_default, is_gaps = Map.empty\<rparr>)"

definition append_event_log :: "'w ingest_env \<Rightarrow> market_event \<Rightarrow> 'w ingest_sinks \<Rightarrow> 'w ingest_sinks" where
  "append_event_log E ev s =
     (case is_event_log s of
        None \<Rightarrow> s
      | Some path \<Rightarrow>
          let s1 = s\<lparr>is_world := snd (le_create_dir_all (ie_lake E) (butlast path) (is_world s))\<rparr>
          in case event_to_json_line E ev of
               Inl e \<Rightarrow> s1
             | Inr line \<Rightarrow>
                 (case ie_append_line E path line (is_world s1) of
                    (True, w) \<Rightarrow>
                      s1\<lparr>is_world := w, is_written_events := is_written_events s1 + 1,
                         is_metrics := is_metrics s1\<lparr>im_events_logged := im_events_logged (is_metrics s1) + 1\<rparr>\<rparr>
                  | (False, w) \<Rightarrow> s1\<lparr>is_world := w\<rparr>))"

definition bar_series_key :: "bar \<Rightarrow> string" where
  "bar_series_key b =
     (let iid = instrument_id_display (bt_instrument_id (b_bar_type b));
          (sy, venue) = (case rsplit_once (CHR ''.'') iid of Some p \<Rightarrow> p | None \<Rightarrow> (iid, ''BINANCE''));
          spec = bt_spec (b_bar_type b);
          step = show_nat (max (bs_step spec) 1);
          interval = (case bs_aggregation spec of
              AggMinute \<Rightarrow> step @ ''m'' | AggHour \<Rightarrow> step @ ''h'' | AggDay \<Rightarrow> step @ ''d'' | _ \<Rightarrow> ''1m'')
      in venue @ ''/'' @ sy @ ''/'' @ interval)"

section \<open>Merging a batch of bars\<close>

text \<open>Sorted by time, one row for each time, the last one of the input.\<close>

definition merge_rows :: "ohlcv_row list \<Rightarrow> ohlcv_row list" where
  "merge_rows rows = map snd (fold (\<lambda>r m. btm_insert (fst r) r m) (sort_key fst rows) [])"

definition is_part :: "string \<Rightarrow> string \<Rightarrow> bool" where
  "is_part yyyymm name \<longleftrightarrow> is_prefix_of (yyyymm @ ''-'') name \<and> ends_with_str ''.parquet'' name"

text \<open>The leftover parts of the month: their rows, as far as they can be read, and the world without them.\<close>

primrec fold_parts ::
  "'w ingest_env \<Rightarrow> path \<Rightarrow> string \<Rightarrow> string list \<Rightarrow> ohlcv_row list \<times> 'w \<Rightarrow> ohlcv_row list \<times> 'w" where
  "fold_parts E dir yyyymm [] rw = rw"
| "fold_parts E dir yyyymm (name # names) rw =
     (case rw of (rows, w) \<Rightarrow>
        fold_parts E dir yyyymm names
          (if is_part yyyymm name
           then (rows @ unwrap_or (read_ohlcv (ie_lake E) (dir @ [name]) w) [], le_remove_file (ie_lake E) (dir @ [name]) w)
           else (rows, w)))"

definition series_dir :: "path \<Rightarrow> string \<Rightarrow> string \<Rightarrow> string \<Rightarrow> path" where
  "series_dir base venue sy interval = base @ [''bars'', ''venue='' @ venue, ''symbol='' @ sy, ''interval='' @ interval]"

definition month_name :: "bar list \<Rightarrow> string" where
  "month_name bars = show_nat (nat (yyyymm_of (b_ts_event (hd bars))))"

definition flush_bar_batch :: "'w ingest_env \<Rightarrow> string \<Rightarrow> bar list \<Rightarrow> 'w ingest_sinks \<Rightarrow> (string + unit) \<times> 'w ingest_sinks" where
  "flush_bar_batch E key bars s =
     (if bars = [] then (Inr (), s)
      else case is_lake_root s of
          None \<Rightarrow> (Inr (), s)
        | Some base \<Rightarrow>
            (case split_on (CHR ''/'') key of
               [venue, sy, interval] \<Rightarrow>
                 let yyyymm = month_name bars; dir = series_dir base venue sy interval
                 in (case le_create_dir_all (ie_lake E) dir (is_world s) of
                       (Inl e, w) \<Rightarrow> (Inl e, s\<lparr>is_world := w\<rparr>)
                     | (Inr _, w) \<Rightarrow>
                         let monthly = dir @ [yyyymm @ ''.parquet''];
                             rows = unwrap_or (read_ohlcv (ie_lake E) monthly w) [];
                             (rows, w) = (case le_read_dir (ie_lake E) w dir of
                                 None \<Rightarrow> (rows, w) | Some names \<Rightarrow> fold_parts E dir yyyymm names (rows, w));
                             merged = merge_rows (rows @ map (bar_row (ie_dec E) (ie_to_f64 E)) bars)
                         in (case write_ohlcv_rows (ie_lake E) monthly merged w of
                               (Inl e, w) \<Rightarrow> (Inl ''write'', s\<lparr>is_world := w\<rparr>)
                             | (Inr _, w) \<Rightarrow>
                                 (Inr (), s\<lparr>is_world := w, is_flushed_bars := is_flushed_bars s + of_nat (length bars),
                                    is_metrics := is_metrics s\<lparr>im_bars_flushed := im_bars_flushed (is_metrics s) + of_nat (length bars)\<rparr>\<rparr>)))
             | _ \<Rightarrow> (Inl ''bad series key'', s)))"

definition hm_remove :: "'k \<Rightarrow> ('k \<times> 'v) list \<Rightarrow> ('k \<times> 'v) list" where
  "hm_remove k m = filter (\<lambda>e. fst e \<noteq> k) m"

text \<open>A batch taken out of the buffer is put back when it cannot be written.\<close>

definition flush_key :: "'w ingest_env \<Rightarrow> string \<Rightarrow> bar list \<Rightarrow> 'w ingest_sinks \<Rightarrow> 'w ingest_sinks" where
  "flush_key E key bars s =
     (case flush_bar_batch E key bars (s\<lparr>is_bar_buf := hm_remove key (is_bar_buf s)\<rparr>) of
        (Inr _, s1) \<Rightarrow> s1
      | (Inl e, s1) \<Rightarrow> s1\<lparr>is_bar_buf := hm_insert key bars (is_bar_buf s1)\<rparr>)"

definition buffer_bar :: "'w ingest_env \<Rightarrow> bar \<Rightarrow> 'w ingest_sinks \<Rightarrow> 'w ingest_sinks" where
  "buffer_bar E b s =
     (let key = bar_series_key b;
          buf = (case map_of (is_bar_buf s) key of Some bs \<Rightarrow> bs | None \<Rightarrow> []) @ [b];
          s1 = s\<lparr>is_bar_buf := hm_insert key buf (is_bar_buf s)\<rparr>
      in if is_bar_flush_every s \<le> length buf then flush_key E key buf s1 else s1)"

definition sinks_flush :: "'w ingest_env \<Rightarrow> string list \<Rightarrow> 'w ingest_sinks \<Rightarrow> 'w ingest_sinks" where
  "sinks_flush E keys s =
     fold (\<lambda>k s. case map_of (is_bar_buf s) k of Some bars \<Rightarrow> flush_key E k bars s | None \<Rightarrow> s) keys s"

section \<open>Publishing and handling\<close>

definition publish_redis :: "'w ingest_env \<Rightarrow> market_event \<Rightarrow> 'w ingest_sinks \<Rightarrow> 'w ingest_sinks" where
  "publish_redis E ev s =
     (if \<not> is_redis s then s
      else case result_bind (event_payload E ev)
               (\<lambda>(mt, payload). ie_frame E (envelope_new mt (replicate 16 0) (ie_now_ns E (is_world s)) payload)) of
          Inl e \<Rightarrow> s
        | Inr frame \<Rightarrow>
            (case ie_xadd E ''coinext.market'' frame (is_world s) of
               (Inr _, w) \<Rightarrow>
                 s\<lparr>is_world := w, is_published := is_published s + 1,
                   is_metrics := is_metrics s\<lparr>im_redis_published := im_redis_published (is_metrics s) + 1\<rparr>\<rparr>
             | (Inl e, w) \<Rightarrow>
                 s\<lparr>is_world := w, is_metrics := is_metrics s\<lparr>im_redis_errors := im_redis_errors (is_metrics s) + 1\<rparr>\<rparr>))"

definition track_gap :: "order_book_delta \<Rightarrow> 'w ingest_sinks \<Rightarrow> 'w ingest_sinks" where
  "track_gap d s =
     (case observe (instrument_id_display (bd_instrument_id d)) (bd_sequence d) (is_gaps s) of
        (gap, t) \<Rightarrow>
          s\<lparr>is_gaps := t,
            is_metrics := (if gap then is_metrics s\<lparr>im_book_gaps := im_book_gaps (is_metrics s) + 1\<rparr> else is_metrics s)\<rparr>)"

definition sinks_handle :: "'w ingest_env \<Rightarrow> market_event \<Rightarrow> 'w ingest_sinks \<Rightarrow> 'w ingest_sinks" where
  "sinks_handle E ev s =
     (let s = append_event_log E ev s;
          s = (case ev of MBar b \<Rightarrow> buffer_bar E b s | _ \<Rightarrow> s);
          s = (case ev of MDelta d \<Rightarrow> track_gap d s | _ \<Rightarrow> s)
      in publish_redis E ev s)"

definition sinks_stats :: "'w ingest_sinks \<Rightarrow> u64 \<times> u64 \<times> u64" where
  "sinks_stats s = (is_written_events s, is_flushed_bars s, is_published s)"

section \<open>The connection loop\<close>

text \<open>
  \<open>run_live\<close>: each attempt builds a client, subscribes and connects; what it then gets is one value of
  \<open>attempt\<close>. The loop ends when the wanted number of events was handled (\<open>max = 0\<close> means never); the list of
  attempts is what the network offers, and the first component tells whether the loop ended.
\<close>

definition ingest_subs :: "string list \<Rightarrow> subscription list" where
  "ingest_subs symbols =
     concat (map (\<lambda>sy. case instrument_id_parse sy of
         None \<Rightarrow> []
       | Some iid \<Rightarrow> map (\<lambda>k. \<lparr>sub_instrument_id = iid, sub_sub_kind = k\<rparr>) [SubTrades, SubQuotes, SubBookL2 20]) symbols)"

definition subscribe_all :: "string list \<Rightarrow> 'w binance_data \<Rightarrow> 'w binance_data" where
  "subscribe_all symbols x = fold data_subscribe (ingest_subs symbols) x"

definition reconnect_backoff :: "u64 \<Rightarrow> u64" where
  "reconnect_backoff attempt = min 30 (push_bit (unat (min attempt 5)) 1)"

datatype attempt = AttemptBuildError | AttemptConnectError | AttemptStream "market_event list"

definition bump_errors :: "'w ingest_sinks \<Rightarrow> 'w ingest_sinks" where
  "bump_errors s = s\<lparr>is_metrics := is_metrics s\<lparr>im_ws_errors := im_ws_errors (is_metrics s) + 1\<rparr>\<rparr>"

definition begin_attempt :: "u64 \<Rightarrow> 'w ingest_sinks \<Rightarrow> 'w ingest_sinks" where
  "begin_attempt attempt s =
     (if 1 < attempt then s\<lparr>is_metrics := is_metrics s\<lparr>im_ws_reconnects := im_ws_reconnects (is_metrics s) + 1\<rparr>\<rparr> else s)"

definition mark_connected :: "'w ingest_sinks \<Rightarrow> 'w ingest_sinks" where
  "mark_connected s = s\<lparr>is_metrics := is_metrics s\<lparr>im_ws_connects := im_ws_connects (is_metrics s) + 1\<rparr>\<rparr>"

primrec stream_loop ::
  "'w ingest_env \<Rightarrow> ((string \<times> bar list) list \<Rightarrow> string list) \<Rightarrow> u64 \<Rightarrow> market_event list \<Rightarrow> u64 \<Rightarrow> 'w ingest_sinks \<Rightarrow>
   bool \<times> u64 \<times> 'w ingest_sinks" where
  "stream_loop E ord max_events [] seen s = (False, seen, s)"
| "stream_loop E ord max_events (ev # evs) seen s =
     (let s1 = sinks_handle E ev s; seen1 = seen + 1
      in if max_events \<noteq> 0 \<and> max_events \<le> seen1 then (True, seen1, sinks_flush E (ord (is_bar_buf s1)) s1)
         else stream_loop E ord max_events evs seen1 s1)"

primrec run_live ::
  "'w ingest_env \<Rightarrow> ((string \<times> bar list) list \<Rightarrow> string list) \<Rightarrow> u64 \<Rightarrow> attempt list \<Rightarrow> u64 \<Rightarrow> u64 \<Rightarrow> 'w ingest_sinks \<Rightarrow>
   bool \<times> u64 \<times> 'w ingest_sinks" where
  "run_live E ord max_events [] attempt seen s = (False, seen, s)"
| "run_live E ord max_events (a # as) attempt seen s =
     (let attempt = attempt + 1; s = begin_attempt attempt s
      in case a of
           AttemptStream evs \<Rightarrow>
             (case stream_loop E ord max_events evs seen (mark_connected s) of
                (True, r) \<Rightarrow> (True, r)
              | (False, seen, s) \<Rightarrow> run_live E ord max_events as attempt seen (bump_errors s))
         | _ \<Rightarrow> run_live E ord max_events as attempt seen (bump_errors s))"

section \<open>Accounting of bars\<close>

definition buffered :: "(string \<times> bar list) list \<Rightarrow> nat" where
  "buffered m = sum_list (map (\<lambda>e. length (snd e)) m)"

lemma hm_remove_absent [simp]: "k \<notin> fst ` set m \<Longrightarrow> hm_remove k m = m"
  unfolding hm_remove_def by (rule filter_True) force

lemma hm_remove_Cons [simp]: "hm_remove k ((k', v) # m) = (if k' = k then hm_remove k m else (k', v) # hm_remove k m)"
  by (simp add: hm_remove_def)

lemma set_fst_hm_remove [simp]: "fst ` set (hm_remove k m) = fst ` set m - {k}"
  by (auto simp: hm_remove_def)

lemma distinct_hm_remove [simp]: "distinct (map fst m) \<Longrightarrow> distinct (map fst (hm_remove k m))"
  by (simp add: hm_remove_def distinct_map_filter)

lemma buffered_remove: "distinct (map fst m) \<Longrightarrow> map_of m k = Some v \<Longrightarrow> buffered m = length v + buffered (hm_remove k m)"
  by (induction m) (auto simp: buffered_def split: if_splits)

lemma buffered_insert_new: "k \<notin> fst ` set m \<Longrightarrow> buffered (hm_insert k v m) = buffered m + length v"
  by (induction k v m rule: hm_insert.induct) (auto simp: buffered_def)

lemma buffered_push:
  "distinct (map fst m) \<Longrightarrow>
     buffered (hm_insert k ((case map_of m k of Some bs \<Rightarrow> bs | None \<Rightarrow> []) @ [b]) m) = buffered m + 1"
proof (induction m)
  case (Cons e m)
  have "map_of m k = None" if "k = fst e" using Cons.prems that by (simp add: map_of_eq_None_iff)
  then show ?case using Cons by (cases e) (auto simp: buffered_def)
qed (simp add: buffered_def)

definition bars_seen :: "'w ingest_sinks \<Rightarrow> u64" where
  "bars_seen s = is_flushed_bars s + of_nat (buffered (is_bar_buf s))"

definition bars_kept :: "'w ingest_sinks \<Rightarrow> bool" where
  "bars_kept s \<longleftrightarrow> is_lake_root s \<noteq> None \<and> distinct (map fst (is_bar_buf s))"

lemma flush_bar_batch_frame:
  assumes "flush_bar_batch E key bars s = (r, s')" "is_lake_root s \<noteq> None"
  shows "is_bar_buf s' = is_bar_buf s \<and> is_lake_root s' = is_lake_root s \<and>
    is_flushed_bars s' = (if r = Inr () then is_flushed_bars s + of_nat (length bars) else is_flushed_bars s)"
  using assms
  by (cases "bars = []") (auto simp: flush_bar_batch_def Let_def split: option.splits list.splits prod.splits sum.splits)

lemma flush_key_keeps:
  assumes "bars_kept s" "map_of (is_bar_buf s) key = Some bars"
  shows "bars_kept (flush_key E key bars s) \<and> bars_seen (flush_key E key bars s) = bars_seen s"
proof -
  let ?s0 = "s\<lparr>is_bar_buf := hm_remove key (is_bar_buf s)\<rparr>"
  obtain r s1 where f: "flush_bar_batch E key bars ?s0 = (r, s1)" by (rule prod.exhaust)
  note fr = flush_bar_batch_frame [OF f]
  have m: "buffered (is_bar_buf s) = length bars + buffered (hm_remove key (is_bar_buf s))"
    using buffered_remove assms by (simp add: bars_kept_def)
  have "buffered (hm_insert key bars (hm_remove key (is_bar_buf s))) = buffered (is_bar_buf s)"
    using m by (simp add: buffered_insert_new)
  then show ?thesis using fr f m assms
    by (cases r) (auto simp: flush_key_def bars_kept_def bars_seen_def)
qed

lemma sinks_flush_keeps: "bars_kept s \<Longrightarrow> bars_kept (sinks_flush E keys s) \<and> bars_seen (sinks_flush E keys s) = bars_seen s"
proof (induction keys arbitrary: s)
  case (Cons k keys)
  let ?s = "case map_of (is_bar_buf s) k of Some bars \<Rightarrow> flush_key E k bars s | None \<Rightarrow> s"
  have "bars_kept ?s \<and> bars_seen ?s = bars_seen s" using flush_key_keeps Cons.prems by (cases "map_of (is_bar_buf s) k") auto
  then show ?case using Cons.IH [of ?s] by (simp add: sinks_flush_def)
qed (simp add: sinks_flush_def)

lemma buffer_bar_keeps: "bars_kept s \<Longrightarrow> bars_kept (buffer_bar E b s) \<and> bars_seen (buffer_bar E b s) = bars_seen s + 1"
proof -
  assume k: "bars_kept s"
  let ?buf = "(case map_of (is_bar_buf s) (bar_series_key b) of Some bs \<Rightarrow> bs | None \<Rightarrow> []) @ [b]"
  let ?s1 = "s\<lparr>is_bar_buf := hm_insert (bar_series_key b) ?buf (is_bar_buf s)\<rparr>"
  have "bars_kept ?s1" "bars_seen ?s1 = bars_seen s + 1"
    using k buffered_push [of "is_bar_buf s"] by (simp_all add: bars_kept_def bars_seen_def)
  then show ?thesis using flush_key_keeps [of ?s1 "bar_series_key b" ?buf E] by (auto simp: buffer_bar_def Let_def)
qed

definition is_bar_event :: "market_event \<Rightarrow> bool" where
  "is_bar_event ev = (case ev of MBar _ \<Rightarrow> True | _ \<Rightarrow> False)"

lemma frame_keeps:
  "is_bar_buf s' = is_bar_buf s \<Longrightarrow> is_lake_root s' = is_lake_root s \<Longrightarrow> is_flushed_bars s' = is_flushed_bars s \<Longrightarrow>
     bars_kept s' = bars_kept s \<and> bars_seen s' = bars_seen s"
  by (simp add: bars_kept_def bars_seen_def)

lemma log_keeps: "bars_kept (append_event_log E ev s) = bars_kept s \<and> bars_seen (append_event_log E ev s) = bars_seen s"
  by (rule frame_keeps) (auto simp: append_event_log_def Let_def split: option.splits sum.splits prod.splits bool.splits)

lemma redis_keeps: "bars_kept (publish_redis E ev s) = bars_kept s \<and> bars_seen (publish_redis E ev s) = bars_seen s"
  by (rule frame_keeps) (auto simp: publish_redis_def split: sum.splits prod.splits)

lemma gap_keeps: "bars_kept (track_gap d s) = bars_kept s \<and> bars_seen (track_gap d s) = bars_seen s"
  by (rule frame_keeps) (simp_all add: track_gap_def split: prod.splits)

lemma handle_keeps:
  "bars_kept s \<Longrightarrow>
     bars_kept (sinks_handle E ev s) \<and> bars_seen (sinks_handle E ev s) = bars_seen s + (if is_bar_event ev then 1 else 0)"
  by (cases ev) (simp_all add: sinks_handle_def is_bar_event_def log_keeps redis_keeps gap_keeps buffer_bar_keeps)

lemma run_keeps:
  "bars_kept s \<Longrightarrow> bars_kept (fold (sinks_handle E) evs s) \<and>
     bars_seen (fold (sinks_handle E) evs s) = bars_seen s + of_nat (length (filter is_bar_event evs))"
proof (induction evs arbitrary: s)
  case (Cons ev evs)
  then show ?case using handle_keeps [OF Cons.prems, of E ev] Cons.IH [of "sinks_handle E ev s"] by simp
qed simp

section \<open>Merged rows\<close>

definition keyed :: "ohlcv_row list \<Rightarrow> (int \<times> ohlcv_row) list" where
  "keyed rows = map (\<lambda>r. (fst r, r)) rows"

lemma map_of_keyed: "map_of (keyed rows) t = (case filter (\<lambda>r. fst r = t) rows of [] \<Rightarrow> None | r # _ \<Rightarrow> Some r)"
  by (induction rows) (auto simp: keyed_def)

lemma fold_btm: "map_of (fold (\<lambda>r m. btm_insert (fst r) r m) rows m) = map_of m ++ map_of (rev (keyed rows))"
  by (induction rows arbitrary: m) (auto simp: keyed_def map_of_btm_insert fun_eq_iff map_add_def split: option.split)

lemma fold_btm_ok: "btm_ok m \<Longrightarrow> btm_ok (fold (\<lambda>r m. btm_insert (fst r) r m) rows m)"
  by (induction rows arbitrary: m) auto

lemma fold_btm_self: "\<forall>e \<in> set m. fst e = fst (snd e) \<Longrightarrow>
  \<forall>e \<in> set (fold (\<lambda>r m. btm_insert (fst r) r m) rows m). fst e = fst (snd e)"
proof (induction rows arbitrary: m)
  case (Cons r rows)
  have "set (btm_insert k v m) \<subseteq> insert (k, v) (set m)" for k v m by (induction k v m rule: btm_insert.induct) auto
  then have "\<forall>e \<in> set (btm_insert (fst r) r m). fst e = fst (snd e)" using Cons.prems by fastforce
  then show ?case using Cons.IH by simp
qed simp

lemma merge_rows_sorted: "sorted_wrt (<) (map fst (merge_rows rows))"
proof -
  let ?m = "fold (\<lambda>r m. btm_insert (fst r) r m) (sort_key fst rows) []"
  have eq: "map fst (map snd ?m) = map fst ?m" using fold_btm_self [of "[]" "sort_key fst rows"] by simp
  show ?thesis using fold_btm_ok [of "[]" "sort_key fst rows"] unfolding merge_rows_def btm_ok_def eq by simp
qed

text \<open>For each time the last row of the input is kept.\<close>

lemma merge_rows_last: "map_of (keyed (merge_rows rows)) t = map_of (rev (keyed rows)) t"
proof -
  let ?m = "fold (\<lambda>r m. btm_insert (fst r) r m) (sort_key fst rows) []"
  have "keyed (map snd ?m) = ?m"
    using fold_btm_self [of "[]" "sort_key fst rows"] by (auto simp: keyed_def intro!: map_idI)
  then have "map_of (keyed (merge_rows rows)) t = map_of (keyed (rev (sort_key fst rows))) t"
    by (simp add: merge_rows_def fold_btm keyed_def rev_map)
  also have "\<dots> = map_of (keyed (rev rows)) t" by (simp add: map_of_keyed rev_filter [symmetric] sort_key_stable)
  finally show ?thesis by (simp add: keyed_def rev_map)
qed

section \<open>Properties of the ingestion\<close>

text \<open>
  No bar is lost between the feed and the lake. With a lake configured, whatever events arrive, and
  whatever reads, writes and directory operations fail, the bars counted as written plus the bars still
  in the buffer are the bars received, also after a flush in any order of the series.
\<close>

theorem ingest_accounts_bars:
  assumes "s = sinks_from_env env redis_connects parse_usize w" "is_lake_root s \<noteq> None"
  shows "bars_seen (sinks_flush E keys (fold (sinks_handle E) evs s)) = of_nat (length (filter is_bar_event evs))"
proof -
  have "bars_kept s" "bars_seen s = 0"
    using assms by (simp_all add: sinks_from_env_def Let_def bars_kept_def bars_seen_def buffered_def)
  then show ?thesis
    using run_keeps [of s E evs] sinks_flush_keeps [of "fold (sinks_handle E) evs s" E keys] by simp
qed

text \<open>A configured lake in memory and one bar, for evaluation.\<close>

definition mem_ingest :: "mem_lake ingest_env" where
  "mem_ingest =
     \<lparr>ie_lake = mem_env, ie_dec = rdec, ie_to_f64 = (\<lambda>d. Some (flit (dval d))), ie_json = (\<lambda>_. Inr []), ie_msgpack = (\<lambda>_. Inr []),
      ie_frame = (\<lambda>_. Inr []), ie_append_line = (\<lambda>_ _ w. (True, w)), ie_xadd = (\<lambda>_ _ w. (Inr (), w)), ie_now_ns = (\<lambda>_. 0)\<rparr>"

definition lake_var :: "string \<Rightarrow> string option" where
  "lake_var k = (if k = ''COINEXT__DATA__LAKE_ROOT'' then Some ''lake'' else None)"

definition lake_sinks :: "mem_lake ingest_sinks" where
  "lake_sinks = sinks_from_env lake_var (\<lambda>_. False) (\<lambda>_. None) Map.empty"

definition minute_bar :: "u64 \<Rightarrow> bar" where
  "minute_bar ts =
     \<lparr>b_bar_type = \<lparr>bt_instrument_id = binance_id ''BTCUSDT'',
        bt_spec = \<lparr>bs_step = 1, bs_aggregation = AggMinute, bs_price_type = PtLast\<rparr>, bt_source = External\<rparr>,
      b_open = Price 100 2, b_high = Price 120 2, b_low = Price 90 2, b_close = Price 110 2, b_volume = Quantity 5 0,
      b_ts_event = ts, b_ts_init = ts\<rparr>"

lemma lake_sinks_root: "is_lake_root lake_sinks = Some [''lake'']"
  by (simp add: lake_sinks_def sinks_from_env_def set_var_def lake_var_def blank_def Let_def)

theorem ingest_accounts_bars_witness:
  "bars_seen (sinks_flush mem_ingest [''BINANCE/BTCUSDT/1m''] (fold (sinks_handle mem_ingest) [MBar (minute_bar 60), MBar (minute_bar 120)] lake_sinks)) = 2"
  using ingest_accounts_bars [OF lake_sinks_def, of mem_ingest "[''BINANCE/BTCUSDT/1m'']" "[MBar (minute_bar 60), MBar (minute_bar 120)]"]
  by (simp add: lake_sinks_root is_bar_event_def)

text \<open>
  C31: a flush merges a batch into the file of its month. With no leftover parts, after a successful flush
  the monthly file reads back as rows in strictly increasing time, and for every time the row is the one
  of the batch, or the one stored before when the batch has none; within the batch a later bar wins.
\<close>

definition monthly_file :: "path \<Rightarrow> string \<Rightarrow> string \<Rightarrow> string \<Rightarrow> bar list \<Rightarrow> path" where
  "monthly_file base venue sy interval bars = series_dir base venue sy interval @ [month_name bars @ ''.parquet'']"

lemma fold_parts_none: "\<forall>n \<in> set names. \<not> is_part m n \<Longrightarrow> fold_parts E dir m names (rows, w) = (rows, w)"
  by (induction names) simp_all

lemma flush_writes:
  assumes "storage_law (ie_lake E)" "bars \<noteq> []" "is_lake_root s = Some base" "split_on (CHR ''/'') key = [venue, sy, interval]"
    "le_create_dir_all (ie_lake E) (series_dir base venue sy interval) (is_world s) = (Inr (), w)"
    "le_read_dir (ie_lake E) w (series_dir base venue sy interval) = Some names" "\<forall>n \<in> set names. \<not> is_part (month_name bars) n"
    "flush_bar_batch E key bars s = (Inr (), s')"
  shows "read_ohlcv (ie_lake E) (monthly_file base venue sy interval bars) (is_world s') =
    Inr (merge_rows (unwrap_or (read_ohlcv (ie_lake E) (monthly_file base venue sy interval bars) w) [] @
      map (bar_row (ie_dec E) (ie_to_f64 E)) bars))" (is "_ = Inr ?merged")
proof -
  obtain r w' where f: "write_ohlcv_rows (ie_lake E) (monthly_file base venue sy interval bars) ?merged w = (r, w')" by (rule prod.exhaust)
  have "r = Inr () \<and> is_world s' = w'"
    using assms(8) f unfolding flush_bar_batch_def monthly_file_def
    by (auto simp: assms(2-6) fold_parts_none [OF assms(7)] split: sum.splits)
  then show ?thesis using ohlcv_rows_stored [OF assms(1)] f by simp
qed


lemma split_series_key: "split_on (CHR ''/'') ''BINANCE/BTCUSDT/1m'' = [''BINANCE'', ''BTCUSDT'', ''1m'']"
  by simp


text \<open>
  A batch that spans two months is filed under the first. After a successful flush every bar of the
  batch has a row in the file named after the calendar month of the first bar, also a bar that belongs to
  another month.
\<close>

theorem month_boundary_misfiled:
  assumes "storage_law (ie_lake E)" "bars \<noteq> []" "is_lake_root s = Some base" "split_on (CHR ''/'') key = [venue, sy, interval]"
    "le_create_dir_all (ie_lake E) (series_dir base venue sy interval) (is_world s) = (Inr (), w)"
    "le_read_dir (ie_lake E) w (series_dir base venue sy interval) = Some names" "\<forall>n \<in> set names. \<not> is_part (month_name bars) n"
    "flush_bar_batch E key bars s = (Inr (), s')" "b \<in> set bars"
    "calendar_month (b_ts_event b) \<noteq> calendar_month (b_ts_event (hd bars))"
  shows "\<exists>rows y m. calendar_month (b_ts_event (hd bars)) = (y, m) \<and>
    read_ohlcv (ie_lake E) (series_dir base venue sy interval @ [show_nat (nat (100 * y + m)) @ ''.parquet'']) (is_world s') = Inr rows \<and>
    ts_as_i64 (b_ts_event b) \<in> fst ` set rows"
proof -
  let ?old = "unwrap_or (read_ohlcv (ie_lake E) (monthly_file base venue sy interval bars) w) []"
  let ?rows = "merge_rows (?old @ map (bar_row (ie_dec E) (ie_to_f64 E)) bars)"
  obtain y m where ym: "calendar_month (b_ts_event (hd bars)) = (y, m)" by (rule prod.exhaust)
  then have "monthly_file base venue sy interval bars = series_dir base venue sy interval @ [show_nat (nat (100 * y + m)) @ ''.parquet'']"
    by (simp add: monthly_file_def month_name_def month_of_calendar)
  then have "read_ohlcv (ie_lake E) (series_dir base venue sy interval @ [show_nat (nat (100 * y + m)) @ ''.parquet'']) (is_world s') = Inr ?rows"
    using flush_writes [OF assms(1-8)] by simp
  moreover have "ts_as_i64 (b_ts_event b) \<in> fst ` set ?rows"
  proof -
    have "ts_as_i64 (b_ts_event b) \<in> fst ` set (keyed (?old @ map (bar_row (ie_dec E) (ie_to_f64 E)) bars))"
      using assms(9) by (force simp: keyed_def bar_row_def)
    then have "map_of (rev (keyed (?old @ map (bar_row (ie_dec E) (ie_to_f64 E)) bars))) (ts_as_i64 (b_ts_event b)) \<noteq> None"
      by (simp add: map_of_eq_None_iff)
    then have "map_of (keyed ?rows) (ts_as_i64 (b_ts_event b)) \<noteq> None" by (simp add: merge_rows_last)
    then show ?thesis by (auto simp: map_of_eq_None_iff keyed_def image_image)
  qed
  ultimately show ?thesis using ym by blast
qed

text \<open>
  Consecutive depth updates are reported as gaps. The deltas of a frame carry the last id of its diff,
  so when a diff covers more than one id the tracker counts a gap although the venue's rule says that
  nothing is missing between the two frames.
\<close>

lemma those_map_image: "those (map f xs) = Some ys \<Longrightarrow> y \<in> set ys \<Longrightarrow> \<exists>x. f x = Some y"
  by (induction xs arbitrary: ys) (auto split: option.splits)

lemma normalize_depth_sequence:
  assumes "normalize_depth D from_str data ts = Some (u, ds)" "d \<in> set ds"
  shows "bd_sequence d = du_last u"
  using assms
  by (auto simp: normalize_depth_def parse_side_def split: bind_split_asm dest!: those_map_image)

theorem contiguous_update_flagged:
  assumes "normalize_depth D from_str data1 ts1 = Some (u1, ds1)" "d1 \<in> set ds1"
    "normalize_depth D from_str data2 ts2 = Some (u2, ds2)" "d2 \<in> set ds2" "bd_instrument_id d1 = bd_instrument_id d2"
    "check_next u2 (du_last u1)" "du_last u1 + 1 < du_last u2"
    "case is_gaps s (instrument_id_display (bd_instrument_id d1)) of Some n \<Rightarrow> n \<le> du_last u1 | None \<Rightarrow> True"
  shows "im_book_gaps (is_metrics (track_gap d2 (track_gap d1 s))) = im_book_gaps (is_metrics (track_gap d1 s)) + 1"
proof -
  have "is_gaps (track_gap d1 s) (instrument_id_display (bd_instrument_id d2)) = Some (du_last u1)"
    using normalize_depth_sequence [OF assms(1,2)] assms(5,8)
    by (auto simp: track_gap_def observe_def Let_def split: option.splits)
  then show ?thesis using normalize_depth_sequence [OF assms(3,4)] assms(7)
    by (simp add: track_gap_def [of d2] observe_def Let_def)
qed

section \<open>The daemon stops\<close>

fun delivered :: "attempt list \<Rightarrow> market_event list" where
  "delivered [] = []"
| "delivered (AttemptStream evs # as) = evs @ delivered as"
| "delivered (_ # as) = delivered as"

lemma metrics_keep [simp]: "bars_kept (s\<lparr>is_metrics := m\<rparr>) = bars_kept s" "bars_seen (s\<lparr>is_metrics := m\<rparr>) = bars_seen s"
  by (simp_all add: bars_kept_def bars_seen_def)

lemma bump_keeps [simp]: "bars_kept (bump_errors s) = bars_kept s" "bars_seen (bump_errors s) = bars_seen s"
  by (simp_all add: bump_errors_def)

lemma attempt_keeps [simp]:
  "bars_kept (begin_attempt n s) = bars_kept s" "bars_seen (begin_attempt n s) = bars_seen s"
  "bars_kept (mark_connected s) = bars_kept s" "bars_seen (mark_connected s) = bars_seen s"
  by (simp_all add: begin_attempt_def mark_connected_def)

definition bars_in :: "market_event list \<Rightarrow> u64" where
  "bars_in evs = of_nat (length (filter is_bar_event evs))"

lemma bars_in_Cons: "bars_in (ev # evs) = (if is_bar_event ev then 1 else 0) + bars_in evs" "bars_in [] = 0"
  by (simp_all add: bars_in_def)

text \<open>A stream either delivers the last wanted event or is handled whole.\<close>

lemma stream_loop_stops:
  assumes "bars_kept s" "unat seen < unat max_events" "unat max_events - unat seen \<le> length evs"
  shows "\<exists>s'. stream_loop E ord max_events evs seen s = (True, max_events, s') \<and> bars_kept s' \<and>
    bars_seen s' = bars_seen s + bars_in (take (unat max_events - unat seen) evs)"
  using assms
proof (induction evs arbitrary: seen s)
  case (Cons ev evs)
  let ?s1 = "sinks_handle E ev s"
  note h = handle_keeps [OF Cons.prems(1), of E ev]
  have c: "unat (seen + 1) = unat seen + 1" using unat_next [of seen max_events] Cons.prems(2) by (simp add: word_less_nat_alt)
  have nz: "max_events \<noteq> 0" using Cons.prems(2) by auto
  show ?case
  proof (cases "max_events \<le> seen + 1")
    case True
    then have "unat max_events = unat seen + 1" using c Cons.prems(2) by (simp add: word_le_nat_alt)
    then have "seen + 1 \<le> max_events" using c by (simp add: word_le_nat_alt)
    then have "max_events = seen + 1" using True by (rule order_antisym [rotated])
    then show ?thesis using nz True h sinks_flush_keeps [of ?s1] \<open>unat max_events = unat seen + 1\<close> by (simp add: bars_in_Cons Let_def)
  next
    case False
    then have lt: "unat (seen + 1) < unat max_events" by (simp add: word_le_nat_alt)
    have "unat max_events - unat seen = Suc (unat max_events - unat (seen + 1))" using lt c by simp
    then show ?thesis using Cons.IH [of ?s1 "seen + 1"] h lt c Cons.prems(3) False nz by (auto simp: bars_in_Cons add.assoc)
  qed
qed simp

lemma stream_loop_continues:
  assumes "bars_kept s" "unat seen < unat max_events" "length evs < unat max_events - unat seen"
  shows "\<exists>seen' s'. stream_loop E ord max_events evs seen s = (False, seen', s') \<and> unat seen' = unat seen + length evs \<and> bars_kept s' \<and>
    bars_seen s' = bars_seen s + bars_in evs"
  using assms
proof (induction evs arbitrary: seen s)
  case (Cons ev evs)
  let ?s1 = "sinks_handle E ev s"
  note h = handle_keeps [OF Cons.prems(1), of E ev]
  have c: "unat (seen + 1) = unat seen + 1" using unat_next [of seen max_events] Cons.prems(2) by (simp add: word_less_nat_alt)
  have "\<not> max_events \<le> seen + 1" using c Cons.prems(3) by (simp add: word_le_nat_alt)
  then show ?case using Cons.IH [of ?s1 "seen + 1"] h c Cons.prems(2,3) by (auto simp: bars_in_Cons add.assoc)
qed (simp add: bars_in_def)

lemma bars_in_append: "bars_in (xs @ ys) = bars_in xs + bars_in ys"
  by (simp add: bars_in_def)

lemma run_live_stops:
  assumes "bars_kept s" "unat seen < unat max_events" "unat max_events - unat seen \<le> length (delivered as)"
  shows "\<exists>s'. run_live E ord max_events as attempt seen s = (True, max_events, s') \<and>
    bars_seen s' = bars_seen s + bars_in (take (unat max_events - unat seen) (delivered as))"
  using assms
proof (induction as arbitrary: attempt seen s)
  case (Cons a as)
  show ?case
  proof (cases a)
    case (AttemptStream evs)
    let ?s = "mark_connected (begin_attempt (attempt + 1) s)"
    have k: "bars_kept ?s" "bars_seen ?s = bars_seen s" using Cons.prems(1) by simp_all
    show ?thesis
    proof (cases "unat max_events - unat seen \<le> length evs")
      case True
      then show ?thesis using stream_loop_stops [OF k(1) Cons.prems(2) True, of E ord] k(2) AttemptStream by (auto simp: Let_def)
    next
      case False
      then obtain seen' s' where c: "stream_loop E ord max_events evs seen ?s = (False, seen', s')" "unat seen' = unat seen + length evs"
          "bars_kept s'" "bars_seen s' = bars_seen s + bars_in evs"
        using stream_loop_continues [OF k(1) Cons.prems(2), of evs E ord] k(2) by auto
      have n: "unat max_events - unat seen = length evs + (unat max_events - unat seen')" "unat seen' < unat max_events"
        using c(2) False by simp_all
      then have "unat max_events - unat seen' \<le> length (delivered as)" using Cons.prems(3) AttemptStream by simp
      then obtain s'' where "run_live E ord max_events as (attempt + 1) seen' (bump_errors s') = (True, max_events, s'')"
          "bars_seen s'' = bars_seen s' + bars_in (take (unat max_events - unat seen') (delivered as))"
        using Cons.IH [of "bump_errors s'" seen' "attempt + 1"] c(3) n(2) by auto
      then show ?thesis using c AttemptStream by (simp add: Let_def bars_in_append n(1) add.assoc)
    qed
  qed (use Cons.IH [of "bump_errors (begin_attempt (attempt + 1) s)" seen "attempt + 1"] Cons.prems in \<open>auto simp: Let_def\<close>)
qed simp



end
