(* ===== verification/Report.thy ===== *)
theory Report
  imports Live_Session Lake
begin

text \<open>
  What the kernels report in \<open>f64\<close>: \<open>equity\<close>, \<open>realized_total\<close> and the \<open>RunResult\<close> of
  \<open>coinext-kernel/src/backtest.rs\<close>, and the \<open>PortfolioSnapshot\<close> of \<open>types.rs\<close>. The kernels'
  theories keep the exact amounts; a report converts each of them and adds the floats in
  iteration order, as the code does. The conversions between floats and decimals belong to the
  decimal package and are arguments.
\<close>

section \<open>Conversions\<close>

text \<open>\<open>Decimal::from_f64_retain\<close>, \<open>Decimal::from_f64\<close> and \<open>Decimal::to_f64\<close>.\<close>

record float_env =
  fe_dec :: dec_ops
  fe_retain :: "f64 \<Rightarrow> decimal option"
  fe_from :: "f64 \<Rightarrow> decimal option"
  fe_to :: "decimal \<Rightarrow> f64 option"

definition dec_f64 :: "float_env \<Rightarrow> decimal \<Rightarrow> f64" where
  "dec_f64 F d = (case fe_to F d of None \<Rightarrow> FNan | Some x \<Rightarrow> x)"

definition money_as_f64 :: "float_env \<Rightarrow> money \<Rightarrow> f64" where
  "money_as_f64 F m = (case money_amount (fe_dec F) m of None \<Rightarrow> FNan | Some d \<Rightarrow> dec_f64 F d)"

abbreviation px_f64 :: "float_env \<Rightarrow> price \<Rightarrow> f64" where
  "px_f64 F \<equiv> price_as_f64 (fe_dec F) (fe_to F)"

abbreviation qx_f64 :: "float_env \<Rightarrow> quantity \<Rightarrow> f64" where
  "qx_f64 F \<equiv> qty_as_f64 (fe_dec F) (fe_to F)"

text \<open>The conversions yield numbers of the format.\<close>

definition floats_ok :: "float_env \<Rightarrow> bool" where
  "floats_ok F \<longleftrightarrow> (\<forall>d x. fe_to F d = Some x \<longrightarrow> f64_ok x)"

section \<open>Run results\<close>

definition equity_view :: "float_env \<Rightarrow> f64 \<Rightarrow> equity_terms \<Rightarrow> f64" where
  "equity_view F start terms =
     (let realized = fold (\<lambda>(r, _) s. fadd s (dec_f64 F r)) terms fzero;
          unreal = fold (\<lambda>(_, u) s. case u of None \<Rightarrow> s | Some u \<Rightarrow> fadd s (dec_f64 F u)) terms fzero
      in fadd (fadd start realized) unreal)"

text \<open>\<open>Iterator::sum\<close> of floats starts from the neutral element of addition, negative zero.\<close>

definition realized_view :: "float_env \<Rightarrow> decimal list \<Rightarrow> f64" where
  "realized_view F ds = fold (\<lambda>d s. fadd s (dec_f64 F d)) ds (FFin True 0)"

record run_view =
  rv_equity_curve :: "(u64 \<times> f64) list"
  rv_fills :: u64
  rv_fills_log :: "(u64 \<times> symbol \<times> int \<times> f64 \<times> f64) list"
  rv_orders_submitted :: u64
  rv_orders_denied :: u64
  rv_starting_equity :: f64
  rv_final_equity :: f64
  rv_realized_pnl :: f64

definition run_view_of :: "float_env \<Rightarrow> backtest_config \<Rightarrow> run_result \<Rightarrow> run_view" where
  "run_view_of F cfg r =
     (let start = money_as_f64 F (bc_starting_balance cfg)
      in \<lparr>rv_equity_curve = map (\<lambda>(ts, terms). (ts, equity_view F start terms)) (rr_equity_curve r),
          rv_fills = rr_fills r,
          rv_fills_log = map (\<lambda>(ts, sy, sd, q, p). (ts, sy, sd, qx_f64 F q, px_f64 F p)) (rr_fills_log r),
          rv_orders_submitted = rr_orders_submitted r, rv_orders_denied = rr_orders_denied r,
          rv_starting_equity = start, rv_final_equity = equity_view F start (rr_final_equity r),
          rv_realized_pnl = realized_view F (rr_realized_pnl r)\<rparr>)"

section \<open>Portfolio snapshots\<close>

record position_view =
  pw_symbol :: symbol
  pw_venue :: venue
  pw_net_qty :: f64
  pw_avg_price :: f64
  pw_mark_price :: f64
  pw_realized_pnl :: f64
  pw_unrealized_pnl :: f64
  pw_notional :: f64

record portfolio_view =
  pv_cash_balance :: f64
  pv_realized_pnl :: f64
  pv_equity :: f64
  pv_gross_exposure :: f64
  pv_net_exposure :: f64
  pv_unrealized_pnl :: f64
  pv_positions :: "position_view list"

fun side_f64 :: "position_side \<Rightarrow> f64" where
  "side_f64 Long = FFin False 1"
| "side_f64 Short = FFin True 1"
| "side_f64 Flat = fzero"

definition position_view_of :: "float_env \<Rightarrow> position_snapshot \<Rightarrow> position_view" where
  "position_view_of F p =
     (let (mark, unreal, notional) = (case sn_marked p of
          Some (m, u, n) \<Rightarrow> (px_f64 F m, money_as_f64 F u, money_as_f64 F n)
        | None \<Rightarrow> (fzero, fzero, fzero))
      in \<lparr>pw_symbol = sn_symbol p, pw_venue = sn_venue p,
          pw_net_qty = fmul (side_f64 (sn_side p)) (qx_f64 F (sn_net_qty p)),
          pw_avg_price = px_f64 F (sn_avg_price p), pw_mark_price = mark,
          pw_realized_pnl = money_as_f64 F (sn_realized p), pw_unrealized_pnl = unreal, pw_notional = notional\<rparr>)"

text \<open>One turn of the loop over the positions: realized, unrealized, gross and net exposure.\<close>

definition exposure_step :: "float_env \<Rightarrow> position_snapshot \<Rightarrow> f64 \<times> f64 \<times> f64 \<times> f64 \<Rightarrow> f64 \<times> f64 \<times> f64 \<times> f64" where
  "exposure_step F p acc =
     (let (realized, unreal, gross, net) = acc; v = position_view_of F p
      in (fadd realized (pw_realized_pnl v), fadd unreal (pw_unrealized_pnl v),
          fadd gross (fabs (pw_notional v)), fadd net (fmul (side_f64 (sn_side p)) (pw_notional v))))"

definition portfolio_view_of :: "float_env \<Rightarrow> portfolio_snapshot \<Rightarrow> portfolio_view" where
  "portfolio_view_of F s =
     (let cash = (case sn_cash_balance s of None \<Rightarrow> fzero | Some m \<Rightarrow> money_as_f64 F m);
          (realized, unreal, gross, net) = fold (exposure_step F) (sn_positions s) (fzero, fzero, fzero, fzero)
      in \<lparr>pv_cash_balance = cash, pv_realized_pnl = realized, pv_equity = fadd (fadd cash realized) unreal,
          pv_gross_exposure = gross, pv_net_exposure = net, pv_unrealized_pnl = unreal,
          pv_positions = map (position_view_of F) (sn_positions s)\<rparr>)"

section \<open>Sums of absolute values dominate sums\<close>

definition fdom :: "f64 \<Rightarrow> f64 \<Rightarrow> bool" where
  "fdom x y \<longleftrightarrow> x = FNan \<or> y = FNan \<or> fle (fabs x) y"

lemma fabs_round64: "fabs (round64 a r) = round64 False \<bar>r\<bar>"
proof (cases "r < 0")
  case True
  then have "round64 False \<bar>r\<bar> = round64 False (- r)" by simp
  then show ?thesis using True by (simp add: round64_def Let_def)
next
  case False
  then show ?thesis by (auto simp: round64_def Let_def)
qed

lemma fadd_NaN [simp]: "fadd x FNan = FNan"
  by (cases x) simp_all

lemma fadd_dom:
  assumes "fdom x g" "fdom y h" "f64_ok x" "f64_ok y" "fnn g" "fnn h"
  shows "fdom (fadd x y) (fadd g h)"
proof -
  consider "x = FNan \<or> y = FNan \<or> g = FNan \<or> h = FNan"
    | "fle (fabs x) g" "fle (fabs y) h" "x \<noteq> FNan" "y \<noteq> FNan" "g \<noteq> FNan" "h \<noteq> FNan"
    using assms(1, 2) by (auto simp: fdom_def)
  then show ?thesis
  proof cases
    case 1
    then show ?thesis by (auto simp: fdom_def)
  next
    case 2
    show ?thesis
    proof (cases "is_finite x \<and> is_finite y \<and> is_finite g \<and> is_finite h")
      case True
      then obtain a b c d p q r s where v: "x = FFin a p" "y = FFin b q" "g = FFin c r" "h = FFin d s"
        by (cases x; cases y; cases g; cases h; simp)
      have "p \<le> fval g" "q \<le> fval h" using 2 by (simp_all add: v fle_fin)
      moreover have "0 \<le> p" "0 \<le> q" using assms(3, 4) by (simp_all add: v)
      ultimately have "\<bar>fval x + fval y\<bar> \<le> fval g + fval h" by (auto simp: v)
      then show ?thesis by (simp add: fdom_def v fabs_round64 round64_mono)
    next
      case False
      then show ?thesis using 2 assms(5, 6)
        by (cases x; cases y; cases g; cases h) (auto simp: fdom_def fle_def round64_def Let_def)
    qed
  qed
qed

lemma fmul_sign_dom: "f64_ok n \<Longrightarrow> fdom (fmul (side_f64 sd) n) (fabs n)"
proof (cases n)
  case (FFin a m)
  assume ok: "f64_ok n"
  have e: "\<exists>b'. round64 b r = FFin b' m" if "\<bar>r\<bar> = m" for b r
    using ok that by (cases "r < 0") (auto simp: FFin round64_def Let_def)
  have "\<exists>b k. fmul (side_f64 sd) n = FFin b k \<and> (k = m \<or> k = 0)"
    using e [of "fval (FFin a m)" a] e [of "- fval (FFin a m)" "\<not> a"] ok
    by (cases sd) (auto simp: FFin round64_def)
  then show ?thesis using ok by (auto simp: FFin fdom_def fle_fin)
qed (cases sd; simp add: fdom_def fle_def)+

lemma money_as_f64_ok: "floats_ok F \<Longrightarrow> f64_ok (money_as_f64 F m)"
  by (auto simp: money_as_f64_def dec_f64_def floats_ok_def split: option.split)

lemma notional_ok: "floats_ok F \<Longrightarrow> f64_ok (pw_notional (position_view_of F p))"
  by (auto simp: position_view_of_def Let_def money_as_f64_ok split: option.split)

lemma exposure_fold:
  "floats_ok F \<Longrightarrow> f64_ok n \<Longrightarrow> fnn g \<Longrightarrow> fdom n g \<Longrightarrow>
   fold (exposure_step F) ps (r, u, g, n) = (r', u', g', n') \<Longrightarrow> fdom n' g'"
proof (induction ps arbitrary: r u g n)
  case (Cons p ps)
  let ?v = "pw_notional (position_view_of F p)"
  have v: "f64_ok ?v" by (rule notional_ok [OF Cons.prems(1)])
  have "fdom (fadd n (fmul (side_f64 (sn_side p)) ?v)) (fadd g (fabs ?v))"
    by (rule fadd_dom [OF Cons.prems(4) fmul_sign_dom [OF v] Cons.prems(2) _ Cons.prems(3)]) (simp_all add: v)
  moreover have "fnn (fadd g (fabs ?v))" using Cons.prems(3) v by (simp add: fnn_fadd)
  moreover have "fold (exposure_step F) ps
      (fadd r (pw_realized_pnl (position_view_of F p)), fadd u (pw_unrealized_pnl (position_view_of F p)),
       fadd g (fabs ?v), fadd n (fmul (side_f64 (sn_side p)) ?v)) = (r', u', g', n')"
    using Cons.prems(5) unfolding fold_Cons o_apply by (simp only: exposure_step_def Let_def prod.case)
  ultimately show ?case by (intro Cons.IH [OF Cons.prems(1) fadd_ok])
qed simp

section \<open>Properties\<close>

text \<open>
  Net exposure never exceeds gross exposure. However the roundings fall, in every portfolio
  snapshot the reported net exposure is at most the reported gross exposure in absolute value,
  unless one of them is not a number.
\<close>

theorem net_within_gross:
  assumes "floats_ok F"
  shows "let v = portfolio_view_of F s in
    pv_net_exposure v = FNan \<or> pv_gross_exposure v = FNan \<or> fle (fabs (pv_net_exposure v)) (pv_gross_exposure v)"
proof -
  obtain r u g n where f: "fold (exposure_step F) (sn_positions s) (fzero, fzero, fzero, fzero) = (r, u, g, n)"
    by (metis prod_cases4)
  have "fdom n g" by (rule exposure_fold [OF assms _ _ _ f]) (simp_all add: fdom_def fle_fin)
  then show ?thesis by (simp add: portfolio_view_of_def f fdom_def Let_def)
qed

theorem net_within_gross_witness:
  "let F = \<lparr>fe_dec = rdec, fe_retain = (\<lambda>_. None), fe_from = (\<lambda>_. None), fe_to = (\<lambda>d. Some (flit (dval d)))\<rparr>;
       p = (\<lambda>sd n. \<lparr>sn_symbol = ''BTC'', sn_venue = ''X'', sn_side = sd, sn_net_qty = Quantity 1 0, sn_avg_price = Price 1 0,
              sn_marked = Some (Price 1 0, Money 0 usdt, Money n usdt), sn_realized = Money 0 usdt\<rparr>);
       v = portfolio_view_of F \<lparr>sn_cash_balance = None, sn_positions = [p Long 100, p Short 300]\<rparr>
   in pv_net_exposure v = FNan \<or> pv_gross_exposure v = FNan \<or> fle (fabs (pv_net_exposure v)) (pv_gross_exposure v)"
  unfolding Let_def by (rule net_within_gross [unfolded Let_def]) (simp add: floats_ok_def)

end
