(* ===== verification/Process.thy ===== *)
theory Process
  imports Service Live_Session Binance Ingest Report
begin

text \<open>
  The process around the order management: \<open>coinext-exec-svc/src/main.rs\<close>, with the connection of
  \<open>venue.rs\<close> and the envelopes of \<open>oms.rs\<close>. Its tasks share the kill switch and the order
  management and run concurrently; the model interleaves what they consume as one sequence of
  events, in any order: replies and errors of the two stream consumers, requests to the control
  server and reports of the venue.

  Redis, the message packing and the environment are arguments: what a read of a stream answers is an
  event, decoding and encoding of frames are functions of the record \<open>codec\<close>. A panic of a venue
  client ends the task that called it. The handling of one command is one step: a switch engaged
  while a submit waits for the venue holds from the next command on.
\<close>

section \<open>Messages\<close>

datatype redis_value = BulkString string | SimpleString string | OtherValue

type_synonym stream_msg = "string \<times> (string \<rightharpoonup> redis_value)"

fun value_bytes :: "redis_value \<Rightarrow> string option" where
  "value_bytes (BulkString b) = Some b"
| "value_bytes (SimpleString s) = Some s"
| "value_bytes OtherValue = None"

definition stream_field_bytes :: "stream_msg \<Rightarrow> string option" where
  "stream_field_bytes msg =
     (let get = (\<lambda>k. Option.bind (snd msg k) value_bytes)
      in case get ''e'' of Some b \<Rightarrow> Some b | None \<Rightarrow> get ''data'')"

text \<open>A frame is a schema number, a message type, a trace id, a time and a payload.\<close>

record 'f codec =
  cd_frame :: "string \<Rightarrow> (nat \<times> nat \<times> string \<times> nat \<times> string) option"
  cd_control :: "string \<Rightarrow> (string \<times> bool) option"
  cd_command :: "string \<Rightarrow> 'f exec_command option"
  cd_event :: "'f oms_msg \<Rightarrow> u64 \<Rightarrow> string option"
  cd_note :: "(string \<times> pval) list \<Rightarrow> u64 \<Rightarrow> string option"

definition parse_kill_switch :: "'f codec \<Rightarrow> string \<Rightarrow> bool option" where
  "parse_kill_switch C frame = do {
     (schema, msg_type, trace, ts, payload) \<leftarrow> cd_frame C frame;
     if msg_type \<noteq> 8 then None
     else do {
       (kind, engaged) \<leftarrow> cd_control C payload;
       if kind \<noteq> ''CtrlKillSwitch'' then None else Some engaged } }"

definition decode_cmd_envelope :: "'f codec \<Rightarrow> string \<Rightarrow> 'f exec_command option" where
  "decode_cmd_envelope C frame = do {
     (schema, msg_type, trace, ts, payload) \<leftarrow> cd_frame C frame;
     if msg_type \<noteq> 7 then None else cd_command C payload }"

section \<open>State\<close>

text \<open>
  \<open>pr_published\<close> are the frames handed to \<open>XADD\<close>, \<open>pr_cmd_alive\<close> is false once the command
  consumer's task has died, and \<open>pr_reads\<close> counts the readings of the clock. \<open>pe_redis\<close> says whether
  a Redis URL is configured; \<open>pe_reason\<close> and \<open>pe_debug\<close> print.
\<close>

record ('l, 'c, 'x) process =
  pr_oms :: "('l, 'c, 'x) oms"
  pr_control_id :: string
  pr_cmd_id :: string
  pr_cmd_alive :: bool
  pr_published :: "string list"
  pr_reads :: nat

record ('l, 'c, 'x, 'f) process_env =
  pe_oms :: "('l, 'c, 'x, 'f) oms_env"
  pe_codec :: "'f codec"
  pe_clock :: "nat \<Rightarrow> u64"
  pe_redis :: bool
  pe_floats :: float_env
  pe_reason :: "reason \<Rightarrow> string"
  pe_debug :: "execution_report \<Rightarrow> string"

definition set_kill :: "bool \<Rightarrow> ('l, 'c, 'x) process \<Rightarrow> ('l, 'c, 'x) process" where
  "set_kill b p = p\<lparr>pr_oms := (pr_oms p)\<lparr>om_kill := b\<rparr>\<rparr>"

section \<open>The control consumer\<close>

definition control_message ::
  "('l, 'c, 'x, 'f) process_env \<Rightarrow> stream_msg \<Rightarrow> ('l, 'c, 'x) process \<Rightarrow> ('l, 'c, 'x) process" where
  "control_message E msg p =
     (let p1 = p\<lparr>pr_control_id := fst msg\<rparr>
      in case Option.bind (stream_field_bytes msg) (parse_kill_switch (pe_codec E)) of
           Some engaged \<Rightarrow> set_kill engaged p1
         | None \<Rightarrow> p1)"

text \<open>Does the lower-cased message contain the word \<open>timeout\<close>?\<close>

definition contains :: "string \<Rightarrow> string \<Rightarrow> bool" where
  "contains s t \<longleftrightarrow> (\<exists>n \<in> {..length s}. take (length t) (drop n s) = t)"

definition is_timeout :: "string \<Rightarrow> bool" where
  "is_timeout e \<longleftrightarrow> contains (to_ascii_lowercase e) ''timeout''"

text \<open>Any other error ends the loop; the task starts it anew, from the end of the stream.\<close>

definition control_error :: "string \<Rightarrow> ('l, 'c, 'x) process \<Rightarrow> ('l, 'c, 'x) process" where
  "control_error e p = (if is_timeout e then p else p\<lparr>pr_control_id := ''$''\<rparr>)"

section \<open>The command consumer\<close>

definition publish_event ::
  "('l, 'c, 'x, 'f) process_env \<Rightarrow> 'f oms_msg \<Rightarrow> ('l, 'c, 'x) process \<Rightarrow> ('l, 'c, 'x) process" where
  "publish_event E msg p =
     (let p1 = p\<lparr>pr_reads := Suc (pr_reads p)\<rparr>
      in case cd_event (pe_codec E) msg (pe_clock E (pr_reads p)) of
           Some frame \<Rightarrow> p1\<lparr>pr_published := pr_published p1 @ [frame]\<rparr>
         | None \<Rightarrow> p1)"

definition run_exec_command ::
  "('l, 'c, 'x, 'f) process_env \<Rightarrow> 'f exec_command \<Rightarrow> ('l, 'c, 'x) process \<Rightarrow> ('l, 'c, 'x) process" where
  "run_exec_command E cmd p =
     (case handle_async (pe_oms E) cmd (pe_clock E (pr_reads p)) (pr_oms p) of
        None \<Rightarrow> p\<lparr>pr_cmd_alive := False\<rparr>
      | Some (msgs, s) \<Rightarrow> fold (publish_event E) msgs (p\<lparr>pr_oms := s, pr_reads := Suc (pr_reads p)\<rparr>))"

definition cmd_message ::
  "('l, 'c, 'x, 'f) process_env \<Rightarrow> stream_msg \<Rightarrow> ('l, 'c, 'x) process \<Rightarrow> ('l, 'c, 'x) process" where
  "cmd_message E msg p =
     (if \<not> pr_cmd_alive p then p
      else let p1 = p\<lparr>pr_cmd_id := fst msg\<rparr>
           in case Option.bind (stream_field_bytes msg) (decode_cmd_envelope (pe_codec E)) of
                None \<Rightarrow> p1
              | Some cmd \<Rightarrow> run_exec_command E cmd p1)"

definition cmd_error :: "string \<Rightarrow> ('l, 'c, 'x) process \<Rightarrow> ('l, 'c, 'x) process" where
  "cmd_error e p = (if is_timeout e \<or> \<not> pr_cmd_alive p then p else p\<lparr>pr_cmd_id := ''$''\<rparr>)"

text \<open>Each poll opens a connection of its own; when that fails the loop ends, whatever the error says.\<close>

definition cmd_connect_error :: "('l, 'c, 'x) process \<Rightarrow> ('l, 'c, 'x) process" where
  "cmd_connect_error p = (if pr_cmd_alive p then p\<lparr>pr_cmd_id := ''$''\<rparr> else p)"

section \<open>The control server\<close>

definition first_line :: "string \<Rightarrow> string" where
  "first_line s =
     (let l = takeWhile (\<lambda>c. c \<noteq> CHR 0x0A) s
      in if length l < length s \<and> l \<noteq> [] \<and> last l = CHR 0x0D then butlast l else l)"

definition show_bool :: "bool \<Rightarrow> string" where
  "show_bool b = (if b then ''true'' else ''false'')"

text \<open>Status and body of the answer, and the kill switch afterwards. \<open>req\<close> is the first read of the connection.\<close>

definition control_answer :: "string \<Rightarrow> bool \<Rightarrow> (nat \<times> string) \<times> bool" where
  "control_answer req kill =
     (let line = first_line req; starts = (\<lambda>p. take (length p) line = p)
      in if starts ''GET /health'' \<or> starts ''GET /healthz''
         then ((200, ''{\"status\":\"ok\",\"service\":\"exec-svc\",\"killswitch\":'' @ show_bool kill @ '',\"oms\":\"paper\"}''), kill)
         else if starts ''GET /killswitch''
         then ((200, ''{\"engaged\":'' @ show_bool kill @ ''}''), kill)
         else if starts ''POST /killswitch''
         then let engage = \<not> (contains req ''\"engage\":false'' \<or> contains req ''\"engage\": false'')
              in ((200, ''{\"engaged\":'' @ show_bool engage @ '',\"note\":\"in-process flag; paper OMS honours this\"}''), engage)
         else if starts ''GET /reconcile''
         then ((200, ''{\"note\":\"see Prometheus coinext_reconcile_* gauges for last venue reconcile\",\"killswitch\":'' @
                  show_bool kill @ ''}''), kill)
         else ((404, ''{\"error\":\"not found\"}''), kill))"

definition http_response :: "string \<Rightarrow> nat \<Rightarrow> string \<Rightarrow> string \<Rightarrow> string" where
  "http_response reason status ctype body =
     (let crlf = [CHR 0x0D, CHR 0x0A]
      in ''HTTP/1.1 '' @ show_nat status @ '' '' @ reason @ crlf @ ''Content-Type: '' @ ctype @ crlf @
         ''Content-Length: '' @ show_nat (length body) @ crlf @ ''Connection: close'' @ crlf @ crlf @ body)"

definition handle_control :: "string \<Rightarrow> ('l, 'c, 'x) process \<Rightarrow> string \<times> ('l, 'c, 'x) process" where
  "handle_control req p =
     (let ((status, body), kill) = control_answer req (om_kill (pr_oms p))
      in (http_response (if status = 200 then ''OK'' else ''Not Found'') status ''application/json'' body, set_kill kill p))"

section \<open>The venue\<close>

text \<open>ASCII white space: tab, line feed, vertical tab, form feed, carriage return and space.\<close>

definition is_white :: "char \<Rightarrow> bool" where
  "is_white c \<longleftrightarrow> (of_char c :: nat) \<in> {9, 10, 11, 12, 13, 32}"

text \<open>\<open>str::trim\<close> on ASCII.\<close>

definition str_trim :: "string \<Rightarrow> string" where
  "str_trim s = rev (dropWhile is_white (rev (dropWhile is_white s)))"

definition env_or :: "(string \<Rightarrow> string option) \<Rightarrow> string \<Rightarrow> string \<Rightarrow> string" where
  "env_or getenv key d = (case getenv key of Some v \<Rightarrow> v | None \<Rightarrow> d)"

definition venue_config :: "(string \<Rightarrow> string option) \<Rightarrow> binance_config option" where
  "venue_config getenv =
     (let secret = (\<lambda>k. case getenv k of None \<Rightarrow> None | Some s \<Rightarrow> if list_all is_white s then None else Some s)
      in case (secret ''COINEXT__BINANCE__API_KEY'', secret ''COINEXT__BINANCE__API_SECRET'') of
           (Some k, Some s) \<Rightarrow>
             Some \<lparr>bn_api_key = Some k, bn_api_secret = Some s,
               bn_testnet = (case getenv ''COINEXT__BINANCE__TESTNET'' of Some v \<Rightarrow> to_ascii_lowercase v \<noteq> ''false'' | None \<Rightarrow> True)\<rparr>
         | _ \<Rightarrow> None)"

record venue_gauges =
  vg_venue_open :: nat
  vg_orphans :: nat
  vg_missing_local :: nat

definition gauges_of :: "reconcile_summary \<Rightarrow> venue_gauges" where
  "gauges_of s = \<lparr>vg_venue_open = rc_venue_open s, vg_orphans = rc_orphans s, vg_missing_local = rc_missing_local s\<rparr>"

datatype 'x connection = NoKeys | ConnectFailed | Connected 'x venue_gauges

text \<open>The outer \<open>None\<close>: the client panicked or waits for ever.\<close>

definition try_from_env ::
  "(string \<Rightarrow> string option) \<Rightarrow> 'w wire \<Rightarrow> 'l event_store \<Rightarrow> unix_nanos \<Rightarrow> (nat \<Rightarrow> unix_nanos) \<Rightarrow> 'w \<Rightarrow> 'l \<Rightarrow>
   ('w binance_exec connection \<times> 'l) option" where
  "try_from_env getenv W ES now clock w l =
     (case venue_config getenv of
        None \<Rightarrow> Some (NoKeys, l)
      | Some cfg \<Rightarrow> (case binance_exec_new W cfg w of
          None \<Rightarrow> None
        | Some (Inl e) \<Rightarrow> Some (ConnectFailed, l)
        | Some (Inr x) \<Rightarrow> (case binance_connect W x of
            LPanic \<Rightarrow> None
          | LBlock \<Rightarrow> None
          | LErr e x1 \<Rightarrow> Some (ConnectFailed, l)
          | LOk x1 \<Rightarrow> (case reconcile_on_start ES (binance_exec_client W) now clock x1 l of
              None \<Rightarrow> Some (ConnectFailed, l)
            | Some (summary, l1) \<Rightarrow>
                map_option (\<lambda>x2. (Connected x2 (gauges_of summary), l1)) (binance_take_reports x1)))))"

definition reconcile_now ::
  "'l event_store \<Rightarrow> 'x exec_client \<Rightarrow> unix_nanos \<Rightarrow> (nat \<Rightarrow> unix_nanos) \<Rightarrow> 'x \<Rightarrow> venue_gauges \<Rightarrow> 'l \<Rightarrow>
   (reconcile_summary \<times> venue_gauges \<times> 'l) option" where
  "reconcile_now ES C now clock x g l =
     map_option (\<lambda>(summary, l1). (summary, gauges_of summary, l1)) (reconcile_on_start ES C now clock x l)"

text \<open>What is published of a report, and the task that drains the reports into the log and the stream.\<close>

fun report_note :: "('l, 'c, 'x, 'f) process_env \<Rightarrow> execution_report \<Rightarrow> string \<times> (string \<times> pval) list" where
  "report_note E (RepAccepted c v) = (''accepted'', [(''venue_order_id'', PStr v)])"
| "report_note E (RepFill f) =
     (''filled'', [(''qty'', PF64 (qx_f64 (pe_floats E) (f_last_qty f))), (''px'', PF64 (px_f64 (pe_floats E) (f_last_px f))),
       (''instrument'', PStr (instrument_id_display (f_instrument_id f)))])"
| "report_note E (RepCanceled c) = (''canceled'', [])"
| "report_note E (RepRejected c r) = (''rejected'', [(''reason'', PStr (pe_reason E r))])"
| "report_note E rep = (''report'', [(''detail'', PStr (pe_debug E rep))])"

definition venue_payload :: "('l, 'c, 'x, 'f) process_env \<Rightarrow> u64 \<Rightarrow> execution_report \<Rightarrow> (string \<times> pval) list" where
  "venue_payload E now rep =
     (let (kind, extra) = report_note E rep
      in [(''kind'', PStr kind), (''client_order_id'', PStr (report_client_order_id rep)), (''source'', PStr ''venue''),
          (''ts_ns'', PU64 now)] @ extra)"

definition pump_report ::
  "('l, 'c, 'x, 'f) process_env \<Rightarrow> execution_report \<Rightarrow> ('l, 'c, 'x) process \<Rightarrow> ('l, 'c, 'x) process" where
  "pump_report E rep p =
     (let now = pe_clock E (pr_reads p);
          p1 = p\<lparr>pr_oms := (pr_oms p)\<lparr>om_store := publish_venue_report (oe_store (pe_oms E)) now rep (om_store (pr_oms p))\<rparr>,
                 pr_reads := Suc (pr_reads p)\<rparr>
      in if \<not> pe_redis E then p1
         else let p2 = p1\<lparr>pr_reads := Suc (pr_reads p1)\<rparr>
              in case cd_note (pe_codec E) (venue_payload E now rep) (pe_clock E (pr_reads p1)) of
                   Some frame \<Rightarrow> p2\<lparr>pr_published := pr_published p2 @ [frame]\<rparr>
                 | None \<Rightarrow> p2)"

section \<open>Start\<close>

text \<open>
  \<open>main\<close> up to its tasks; the service exits when the cursor does not answer, and goes on without a
  venue when the connection fails.
\<close>

definition boot ::
  "(string \<Rightarrow> string option) \<Rightarrow> 'w wire \<Rightarrow> ('l, 'c, 'w binance_exec, 'f) oms_env \<Rightarrow> unix_nanos \<Rightarrow> (nat \<Rightarrow> unix_nanos) \<Rightarrow> 'w \<Rightarrow> 'l \<Rightarrow> 'c \<Rightarrow>
   (('l, 'c, 'w binance_exec) process \<times> venue_gauges option) option" where
  "boot getenv W E now clock w l c =
     (case oe_next E ''exec-svc-boot'' c of
        (None, _) \<Rightarrow> None
      | (Some _, c1) \<Rightarrow>
          (case try_from_env getenv W (oe_store E) now clock w l of
             None \<Rightarrow> None
           | Some (conn, l1) \<Rightarrow>
               let (venue, gauges) = (case conn of Connected x g \<Rightarrow> (Some x, Some g) | _ \<Rightarrow> (None, None))
               in Some (\<lparr>pr_oms = oms_new l1 c1 venue False, pr_control_id = ''$'', pr_cmd_id = ''$'', pr_cmd_alive = True,
                         pr_published = [], pr_reads = 0\<rparr>, gauges)))"

section \<open>Metrics\<close>

definition metric :: "string \<Rightarrow> string \<Rightarrow> string \<Rightarrow> nat \<Rightarrow> string" where
  "metric nm help kind v =
     (let nl = [CHR 0x0A]
      in ''# HELP '' @ nm @ '' '' @ help @ nl @ ''# TYPE '' @ nm @ '' '' @ kind @ nl @ nm @ '' '' @ show_nat v @ nl)"

definition metrics_body :: "('l, 'c, 'x) process \<Rightarrow> venue_gauges option \<Rightarrow> string" where
  "metrics_body p g =
     (let s = pr_oms p;
          (v_open, v_orph, v_miss, v_mode) = (case g of
              Some v \<Rightarrow> (vg_venue_open v, vg_orphans v, vg_missing_local v, 1)
            | None \<Rightarrow> (0, 0, 0, 0))
      in metric ''coinext_exec_svc_up'' ''1 if process is serving'' ''gauge'' 1 @
         metric ''coinext_killswitch_engaged'' ''1 if kill-switch is on'' ''gauge'' (if om_kill s then 1 else 0) @
         metric ''coinext_oms_submits_total'' ''OMS submits'' ''counter'' (unat (om_submits s)) @
         metric ''coinext_oms_cancels_total'' ''OMS cancels'' ''counter'' (unat (om_cancels s)) @
         metric ''risk_denials'' ''Total risk denials (kill-switch + gate)'' ''counter'' (unat (om_denials s)) @
         metric ''coinext_venue_mode'' ''1 if Binance venue client is connected'' ''gauge'' v_mode @
         metric ''coinext_reconcile_venue_open'' ''open orders on venue at last reconcile'' ''gauge'' v_open @
         metric ''coinext_reconcile_orphans'' ''local opens missing on venue'' ''gauge'' v_orph @
         metric ''coinext_reconcile_missing_local'' ''venue opens missing locally'' ''gauge'' v_miss)"

definition serve_metrics :: "('l, 'c, 'x) process \<Rightarrow> venue_gauges option \<Rightarrow> string" where
  "serve_metrics p g = http_response ''OK'' 200 ''text/plain; version=0.0.4'' (metrics_body p g)"

section \<open>Interleaved tasks\<close>

datatype process_event =
    ControlReply "stream_msg list list"
  | ControlError string
  | CommandReply "stream_msg list list"
  | CommandError string
  | CommandConnectError
  | HttpRequest string
  | VenueReport execution_report

fun process_step ::
  "('l, 'c, 'x, 'f) process_env \<Rightarrow> process_event \<Rightarrow> ('l, 'c, 'x) process \<Rightarrow> ('l, 'c, 'x) process" where
  "process_step E (ControlReply streams) p = fold (control_message E) (concat streams) p"
| "process_step E (ControlError e) p = control_error e p"
| "process_step E (CommandReply streams) p = fold (cmd_message E) (concat streams) p"
| "process_step E (CommandError e) p = cmd_error e p"
| "process_step E CommandConnectError p = cmd_connect_error p"
| "process_step E (HttpRequest req) p = snd (handle_control req p)"
| "process_step E (VenueReport rep) p = pump_report E rep p"

section \<open>While the switch is engaged\<close>

text \<open>What releases the switch: a control message that says so, or such a request.\<close>

definition releases :: "('l, 'c, 'x, 'f) process_env \<Rightarrow> process_event \<Rightarrow> bool" where
  "releases E ev \<longleftrightarrow>
     (case ev of
        ControlReply streams \<Rightarrow>
          (\<exists>msg \<in> set (concat streams). Option.bind (stream_field_bytes msg) (parse_kill_switch (pe_codec E)) = Some False)
      | HttpRequest req \<Rightarrow> \<not> snd (control_answer req True)
      | _ \<Rightarrow> False)"

text \<open>The switch is on, and neither the submit counter nor the orders the venue got have moved.\<close>

definition held :: "u64 \<Rightarrow> order list option \<Rightarrow> ('l, 'c, 'x \<times> order list) process \<Rightarrow> bool" where
  "held n sent p \<longleftrightarrow>
     om_kill (pr_oms p) \<and> om_submits (pr_oms p) = n \<and> map_option snd (om_venue (pr_oms p)) = sent"

lemma fold_inv: "P p \<Longrightarrow> (\<And>x p. x \<in> set xs \<Longrightarrow> P p \<Longrightarrow> P (f x p)) \<Longrightarrow> P (fold f xs p)"
  by (induction xs arbitrary: p) auto

lemma publish_held: "held n sent (publish_event E msg p) = held n sent p"
  by (simp add: publish_event_def held_def Let_def split: option.split)

lemma control_held:
  assumes "held n sent p" "Option.bind (stream_field_bytes msg) (parse_kill_switch (pe_codec E)) \<noteq> Some False"
  shows "held n sent (control_message E msg p)"
  using assms by (auto simp: control_message_def held_def set_kill_def Let_def split: option.split)

lemma logged_cancel:
  assumes "client_answer sh (ec_cancel_order (logged C) coid i (x, l)) = Some (r, x')"
  shows "snd x' = l"
  using assms by (cases "ec_cancel_order C coid i x") (auto simp: logged_def)

lemma handle_held:
  assumes "oe_client E = logged C" "handle_async E cmd now s = Some (msgs, s')" "om_kill s"
  shows "om_kill s' \<and> om_submits s' = om_submits s \<and> map_option snd (om_venue s') = map_option snd (om_venue s)"
proof -
  have submit: ?thesis if h: "handle_submit E cmd now s = Some (msgs, s')"
  proof -
    obtain coid s1 where m: "mint_id E cmd s = (coid, s1)" by (rule prod.exhaust)
    then have s1: "\<exists>c. s1 = s\<lparr>om_cursor := c\<rparr>"
      by (auto simp: mint_id_def intro: exI [of _ "om_cursor s"] split: option.split_asm list.split_asm prod.split_asm)
    then have "om_kill s1" using assms(3) by auto
    then show ?thesis using h m s1 by (auto simp: handle_submit_def log_event_def Let_def)
  qed
  have cancel: ?thesis if "handle_cancel E cmd now s = Some (msgs, s')"
    using that assms(1, 3)
    by (auto simp: handle_cancel_def log_event_def Let_def bridge_cancel_def dest!: logged_cancel
        split: option.split_asm list.split_asm prod.split_asm sum.split_asm)
  show ?thesis
    using assms(2, 3) submit cancel by (auto simp: handle_async_def Let_def split: if_split_asm)
qed

lemma cmd_held:
  assumes "oe_client (pe_oms E) = logged C" "held n sent p"
  shows "held n sent (cmd_message E msg p)"
proof -
  have "held n sent (run_exec_command E cmd q)" if "held n sent q" for cmd q
  proof (cases "handle_async (pe_oms E) cmd (pe_clock E (pr_reads q)) (pr_oms q)")
    case None
    then show ?thesis using that by (simp add: run_exec_command_def held_def)
  next
    case (Some r)
    then obtain msgs s where s: "handle_async (pe_oms E) cmd (pe_clock E (pr_reads q)) (pr_oms q) = Some (msgs, s)"
      by (cases r) auto
    have "held n sent (q\<lparr>pr_oms := s, pr_reads := Suc (pr_reads q)\<rparr>)"
      using handle_held [OF assms(1) s] that by (auto simp: held_def)
    then have "held n sent (fold (publish_event E) msgs (q\<lparr>pr_oms := s, pr_reads := Suc (pr_reads q)\<rparr>))"
      by (rule fold_inv) (simp add: publish_held)
    then show ?thesis by (simp add: run_exec_command_def s)
  qed
  then show ?thesis using assms(2) by (auto simp: cmd_message_def Let_def held_def split: option.split)
qed

lemma step_held:
  assumes "oe_client (pe_oms E) = logged C" "held n sent p" "\<not> releases E ev"
  shows "held n sent (process_step E ev p)"
proof (cases ev)
  case (ControlReply streams)
  have "held n sent (fold (control_message E) (concat streams) p)"
    by (rule fold_inv [where P = "held n sent", OF assms(2)], rule control_held, assumption)
      (use assms(3) ControlReply in \<open>auto simp: releases_def\<close>)
  then show ?thesis by (simp add: ControlReply)
next
  case (CommandReply streams)
  have "held n sent (fold (cmd_message E) (concat streams) p)"
    by (rule fold_inv [where P = "held n sent", OF assms(2)], rule cmd_held [OF assms(1)])
  then show ?thesis by (simp add: CommandReply)
next
  case (HttpRequest req)
  then show ?thesis
    using assms by (auto simp: releases_def handle_control_def held_def set_kill_def split_beta Let_def)
qed (use assms in \<open>auto simp: control_error_def cmd_error_def cmd_connect_error_def pump_report_def held_def Let_def split: option.split\<close>)

section \<open>Reading a stream\<close>

text \<open>
  What \<open>XREAD\<close> promises of an id that is in the stream: the entries after it, in order.
\<close>

definition xread_law :: "(stream_msg list \<Rightarrow> string \<Rightarrow> stream_msg list) \<Rightarrow> bool" where
  "xread_law xr \<longleftrightarrow> (\<forall>pre e post. distinct (map fst (pre @ e # post)) \<longrightarrow> xr (pre @ e # post) (fst e) = post)"

text \<open>Polls of the command consumer, each of the stream as it is then.\<close>

definition polls ::
  "('l, 'c, 'x, 'f) process_env \<Rightarrow> (stream_msg list \<Rightarrow> string \<Rightarrow> stream_msg list) \<Rightarrow> stream_msg list list \<Rightarrow>
   ('l, 'c, 'x) process \<Rightarrow> ('l, 'c, 'x) process" where
  "polls E xr streams p = fold (\<lambda>S p. process_step E (CommandReply [xr S (pr_cmd_id p)]) p) streams p"

lemma publish_sel [simp]:
  "pr_cmd_id (publish_event E m p) = pr_cmd_id p" "pr_cmd_alive (publish_event E m p) = pr_cmd_alive p"
  by (simp_all add: publish_event_def Let_def split: option.split)

lemma publish_all_sel [simp]:
  "pr_cmd_id (fold (publish_event E) ms p) = pr_cmd_id p" "pr_cmd_alive (fold (publish_event E) ms p) = pr_cmd_alive p"
  by (induction ms arbitrary: p) simp_all

lemma cmd_message_sel:
  "pr_cmd_alive p \<Longrightarrow> pr_cmd_id (cmd_message E msg p) = fst msg"
  "\<not> pr_cmd_alive p \<Longrightarrow> cmd_message E msg p = p"
  by (simp_all add: cmd_message_def run_exec_command_def Let_def split: option.split prod.split)

lemma dead_ignores: "\<not> pr_cmd_alive p \<Longrightarrow> fold (cmd_message E) ms p = p"
  by (induction ms) (simp_all add: cmd_message_sel)

lemma alive_id:
  "pr_cmd_alive (fold (cmd_message E) ms p) \<Longrightarrow>
   pr_cmd_id (fold (cmd_message E) ms p) = (if ms = [] then pr_cmd_id p else fst (last ms))"
proof (induction ms arbitrary: p)
  case (Cons m ms)
  have "pr_cmd_alive p"
  proof (rule ccontr)
    assume "\<not> pr_cmd_alive p"
    then show False using Cons.prems dead_ignores [of p E "m # ms"] by simp
  qed
  then show ?case using Cons by (auto simp: cmd_message_sel)
qed simp

lemma poll_step:
  assumes "xread_law xr" "distinct (map fst (pre @ e # post))" "pr_cmd_id p = fst e" "i \<le> j"
  shows "process_step E (CommandReply [xr (pre @ e # take j post) (pr_cmd_id (fold (cmd_message E) (take i post) p))])
    (fold (cmd_message E) (take i post) p) = fold (cmd_message E) (take j post) p"
proof -
  let ?q = "fold (cmd_message E) (take i post) p"
  have tk: "take j post = take i post @ drop i (take j post)"
    using append_take_drop_id [of i "take j post"] assms(4) by (simp add: min_def)
  then have q: "fold (cmd_message E) (take j post) p = fold (cmd_message E) (drop i (take j post)) ?q"
    by (metis fold_append o_apply)
  show ?thesis
  proof (cases "pr_cmd_alive ?q")
    case False
    then show ?thesis using q by (simp add: dead_ignores)
  next
    case True
    let ?es = "e # take i post"
    have l: "pr_cmd_id ?q = fst (last ?es)" using alive_id [OF True] assms(3) by (auto simp: last_ConsR)
    have split: "pre @ e # take j post = (pre @ butlast ?es) @ last ?es # drop i (take j post)"
    proof -
      have "(pre @ butlast ?es) @ last ?es # drop i (take j post) = pre @ (butlast ?es @ [last ?es]) @ drop i (take j post)" by simp
      also have "butlast ?es @ [last ?es] = ?es" by (rule append_butlast_last_id) simp
      finally show ?thesis using tk by simp
    qed
    have "map fst (pre @ e # take j post) = take (length pre + Suc j) (map fst (pre @ e # post))" by (simp add: take_map)
    then have "distinct (map fst (pre @ e # take j post))" using distinct_take assms(2) by metis
    then have "xr (pre @ e # take j post) (pr_cmd_id ?q) = drop i (take j post)"
      unfolding l split using assms(1) [unfolded xread_law_def] by blast
    then show ?thesis using q by simp
  qed
qed

section \<open>A desk\<close>

definition desk_codec :: "int codec" where
  "desk_codec =
     \<lparr>cd_frame = (\<lambda>b. if b = ''c'' then Some (1, 7, ''t'', 0, ''p'') else if b = ''k'' then Some (1, 8, ''t'', 0, ''p'') else None),
      cd_control = (\<lambda>_. Some (''CtrlKillSwitch'', True)), cd_command = (\<lambda>_. Some desk_cmd), cd_event = (\<lambda>_ _. Some ''ev''),
      cd_note = (\<lambda>_ _. Some ''nt'')\<rparr>"

definition with_client :: "'x exec_client \<Rightarrow> (sqlite_store, sqlite_cursor, 'x, int) oms_env" where
  "with_client C =
     \<lparr>oe_store = sqlite_event_store, oe_next = sqlite_next, oe_client = C, oe_qty = oe_qty desk_env, oe_zero = oe_zero desk_env,
      oe_show = oe_show desk_env, oe_show_model = oe_show_model desk_env\<rparr>"

definition desk_process_env :: "(sqlite_store, sqlite_cursor, unit \<times> order list, int) process_env" where
  "desk_process_env = \<lparr>pe_oms = with_client (logged (listing [])), pe_codec = desk_codec, pe_clock = of_nat,
     pe_redis = True, pe_floats = \<lparr>fe_dec = rdec, fe_retain = (\<lambda>_. None), fe_from = (\<lambda>_. None), fe_to = (\<lambda>_. None)\<rparr>,
     pe_reason = (\<lambda>_. []), pe_debug = (\<lambda>_. [])\<rparr>"

definition desk_process :: "bool \<Rightarrow> (sqlite_store, sqlite_cursor, unit \<times> order list) process" where
  "desk_process kill =
     \<lparr>pr_oms = oms_new desk_log [] (Some ((), [])) kill, pr_control_id = ''$'', pr_cmd_id = ''1'', pr_cmd_alive = True,
      pr_published = [], pr_reads = 0\<rparr>"

definition desk_msg :: "string \<Rightarrow> stream_msg" where
  "desk_msg i = (i, [''e'' \<mapsto> BulkString ''c''])"

definition entries_after :: "stream_msg list \<Rightarrow> string \<Rightarrow> stream_msg list" where
  "entries_after S i = tl (dropWhile (\<lambda>m. fst m \<noteq> i) S)"

lemma entries_after_law: "xread_law entries_after"
proof -
  have "dropWhile (\<lambda>m. fst m \<noteq> fst e) (pre @ e # post) = e # post" if "fst e \<notin> fst ` set pre" for pre post :: "stream_msg list" and e
    using that by (induction pre) auto
  then show ?thesis by (simp add: xread_law_def entries_after_def)
qed

definition desk_getenv :: "string \<Rightarrow> string option" where
  "desk_getenv = [''COINEXT__BINANCE__API_KEY'' \<mapsto> ''k'', ''COINEXT__BINANCE__API_SECRET'' \<mapsto> ''s'']"

lemma desk_config: "venue_config desk_getenv = Some \<lparr>bn_api_key = Some ''k'', bn_api_secret = Some ''s'', bn_testnet = True\<rparr>"
  by (simp add: venue_config_def desk_getenv_def is_white_def)

lemma desk_connect_fails:
  "try_from_env desk_getenv venue_wire sqlite_event_store 5 of_nat ([], Map.empty) desk_log = Some (ConnectFailed, desk_log)"
  by (simp add: try_from_env_def desk_config binance_exec_new_def per_minute_def limiter_new_def rest_client_new_def
      binance_connect_def has_credentials_def bx_send_def venue_wire_def send_def acquire_def rest_api_key_def send_loop.simps prepare_def
      parse_listen_key_def build_query_string_def script_env_def credentials_new_def rest_config_default_def Let_def)

section \<open>Properties\<close>



text \<open>
  C16: commands are handled once and in order. Once the consumer has read an entry, polling the growing
  stream piecewise, in however many replies, has the effect of handling every later entry exactly
  once in stream order.
\<close>

theorem commands_handled_once:
  assumes "xread_law xr" "distinct (map fst (pre @ e # post))" "pr_cmd_id p = fst e" "sorted ns"
  shows "polls E xr (map (\<lambda>n. pre @ e # take n post) ns) p = fold (cmd_message E) (take (foldl (\<lambda>_ n. n) 0 ns) post) p"
proof -
  have "polls E xr (map (\<lambda>n. pre @ e # take n post) ns) (fold (cmd_message E) (take i post) p) =
      fold (cmd_message E) (take (foldl (\<lambda>_ n. n) i ns) post) p" if "sorted (i # ns)" for i
    using that
  proof (induction ns arbitrary: i)
    case (Cons n ns)
    then show ?case using poll_step [OF assms(1-3), of i n E] by (simp add: polls_def)
  qed (simp add: polls_def)
  from this [of 0] show ?thesis using assms(4) by simp
qed

theorem commands_handled_once_witness:
  "polls desk_process_env entries_after [[desk_msg ''1'', desk_msg ''2''], [desk_msg ''1'', desk_msg ''2'', desk_msg ''3'']] (desk_process False) =
   fold (cmd_message desk_process_env) [desk_msg ''2'', desk_msg ''3''] (desk_process False)"
  using commands_handled_once [OF entries_after_law, of "[]" "desk_msg ''1''" "[desk_msg ''2'', desk_msg ''3'']" "desk_process False" "[1, 2]" desk_process_env]
  by (simp add: desk_msg_def desk_process_def)

text \<open>
  C38: a failed connection turns venue orders into paper fills. When keys are configured but the
  connection or the reconciliation fails, the service comes up without a venue, and every submit
  is answered as accepted and filled although nothing was sent.
\<close>

theorem failed_connect_fills_on_paper:
  assumes "try_from_env getenv W (oe_store E) now clock w l = Some (ConnectFailed, l1)" "venue_config getenv = Some cfg"
    "oe_next E ''exec-svc-boot'' c = (Some n, c1)" "to_ascii_lowercase (xc_kind cmd) \<in> {''submitmarket'', ''submit_market'', ''submit''}"
  shows "\<exists>p coid sid inst side qty s. boot getenv W E now clock w l c = Some (p, None) \<and>
    handle_async E cmd t (pr_oms p) =
      Some ([OmsSubmitted coid sid inst side qty PaperMode t, OmsAccepted coid (''PAPER-'' @ coid) t, OmsFilled coid inst side qty t], s)"
proof -
  let ?o = "oms_new l1 c1 None False :: ('b, 'c, 'a binance_exec) oms"
  obtain coid s1 where m: "mint_id E cmd ?o = (coid, s1)" by (rule prod.exhaust)
  then have "\<not> om_kill s1 \<and> om_venue s1 = None"
    by (auto simp: mint_id_def oms_new_def split: option.split_asm list.split_asm prod.split_asm)
  then have "\<exists>sid inst side qty s. handle_async E cmd t ?o =
      Some ([OmsSubmitted coid sid inst side qty PaperMode t, OmsAccepted coid (''PAPER-'' @ coid) t, OmsFilled coid inst side qty t], s)"
    using assms(4) m by (simp add: handle_async_def handle_submit_def log_event_def Let_def)
  moreover have "\<exists>p. boot getenv W E now clock w l c = Some (p, None) \<and> pr_oms p = ?o"
    using assms(1, 3) by (simp add: boot_def)
  ultimately show ?thesis by metis
qed

theorem failed_connect_fills_on_paper_witness:
  "\<exists>p coid sid inst side qty s. boot desk_getenv venue_wire (with_client (binance_exec_client venue_wire)) 5 of_nat ([], Map.empty) desk_log [] = Some (p, None) \<and>
    handle_async (with_client (binance_exec_client venue_wire)) desk_cmd 9 (pr_oms p) =
      Some ([OmsSubmitted coid sid inst side qty PaperMode 9, OmsAccepted coid (''PAPER-'' @ coid) 9, OmsFilled coid inst side qty 9], s)"
proof -
  obtain n c1 where n: "oe_next (with_client (binance_exec_client venue_wire)) ''exec-svc-boot'' [] = (Some n, c1)"
    by (simp add: with_client_def sqlite_next_def)
  have t: "try_from_env desk_getenv venue_wire (oe_store (with_client (binance_exec_client venue_wire))) 5 of_nat ([], Map.empty) desk_log =
      Some (ConnectFailed, desk_log)"
    using desk_connect_fails by (simp add: with_client_def)
  show ?thesis using failed_connect_fills_on_paper [OF t desk_config n, of desk_cmd 9] by (simp add: desk_kind)
qed

text \<open>
  A restart forgets the kill switch: whatever was engaged before, the service comes up with the switch
  released and both consumers at the end of their streams.
\<close>

theorem boot_releases:
  assumes "boot getenv W E now clock w l c = Some (p, g)"
  shows "\<not> om_kill (pr_oms p) \<and> pr_control_id p = ''$'' \<and> pr_cmd_id p = ''$''"
  using assms by (auto simp: boot_def oms_new_def Let_def split_beta split: prod.split_asm option.split_asm)

end
