(* ===== verification/Indicators.thy ===== *)
theory Indicators
  imports Float64
begin

text \<open>
  The streaming indicators of \<open>coinext-indicators/src/lib.rs\<close>, in the floating point arithmetic they
  run in. A constructor is \<open>None\<close> where the code asserts a positive period. The window of the rolling
  indicators is a contract: whatever was fed, it holds the last finite observations.
\<close>

section \<open>Simple moving average\<close>

record sma =
  sma_period :: nat
  sma_buf :: "f64 list"
  sma_sum :: f64

definition sma_new :: "nat \<Rightarrow> sma option" where
  "sma_new n = (if 0 < n then Some \<lparr>sma_period = n, sma_buf = [], sma_sum = fzero\<rparr> else None)"

definition sma_update :: "f64 \<Rightarrow> sma \<Rightarrow> sma" where
  "sma_update v s =
     (if \<not> is_finite v then s
      else let b = sma_buf s @ [v]; t = fadd (sma_sum s) v
           in if sma_period s < length b then s\<lparr>sma_buf := tl b, sma_sum := fsub t (hd b)\<rparr>
              else s\<lparr>sma_buf := b, sma_sum := t\<rparr>)"

definition sma_value :: "sma \<Rightarrow> f64 option" where
  "sma_value s =
     (if length (sma_buf s) = sma_period s then Some (fdiv (sma_sum s) (flit (of_nat (sma_period s)))) else None)"

section \<open>Exponential moving average\<close>

record ema =
  ema_alpha :: f64
  ema_current :: "f64 option"
  ema_count :: nat
  ema_period :: nat

definition ema_new :: "nat \<Rightarrow> ema option" where
  "ema_new n =
     (if 0 < n
      then Some \<lparr>ema_alpha = fdiv (flit 2) (fadd (flit (of_nat n)) (flit 1)), ema_current = None, ema_count = 0, ema_period = n\<rparr>
      else None)"

definition ema_update :: "f64 \<Rightarrow> ema \<Rightarrow> ema" where
  "ema_update v s =
     (if \<not> is_finite v then s
      else s\<lparr>ema_count := ema_count s + 1,
             ema_current :=
               Some (case ema_current s of
                   None \<Rightarrow> v
                 | Some prev \<Rightarrow> fadd (fmul (ema_alpha s) v) (fmul (fsub (flit 1) (ema_alpha s)) prev))\<rparr>)"

definition ema_value :: "ema \<Rightarrow> f64 option" where
  "ema_value s = (if ema_period s \<le> ema_count s then ema_current s else None)"

section \<open>Relative strength index\<close>

record rsi =
  rsi_period :: nat
  rsi_prev :: "f64 option"
  rsi_avg_gain :: f64
  rsi_avg_loss :: f64
  rsi_count :: nat

definition rsi_new :: "nat \<Rightarrow> rsi option" where
  "rsi_new n =
     (if 0 < n then Some \<lparr>rsi_period = n, rsi_prev = None, rsi_avg_gain = fzero, rsi_avg_loss = fzero, rsi_count = 0\<rparr> else None)"

text \<open>One average after a change: summed up during the warm-up, smoothed afterwards.\<close>

definition wilder :: "nat \<Rightarrow> bool \<Rightarrow> f64 \<Rightarrow> f64 \<Rightarrow> f64" where
  "wilder n warming avg x =
     (let p = flit (of_nat n)
      in if warming then fadd avg (fdiv x p) else fdiv (fadd (fmul avg (fsub p (flit 1))) x) p)"

definition rsi_update :: "f64 \<Rightarrow> rsi \<Rightarrow> rsi" where
  "rsi_update v s =
     (if \<not> is_finite v then s
      else case rsi_prev s of
          None \<Rightarrow> s\<lparr>rsi_prev := Some v\<rparr>
        | Some prev \<Rightarrow>
            let change = fsub v prev;
                (gain, loss) = if fle fzero change then (change, fzero) else (fzero, fneg change);
                c = rsi_count s + 1;
                w = c \<le> rsi_period s
            in s\<lparr>rsi_count := c, rsi_avg_gain := wilder (rsi_period s) w (rsi_avg_gain s) gain,
                 rsi_avg_loss := wilder (rsi_period s) w (rsi_avg_loss s) loss, rsi_prev := Some v\<rparr>)"

definition rsi_value :: "rsi \<Rightarrow> f64 option" where
  "rsi_value s =
     (if rsi_count s < rsi_period s then None
      else if feq (rsi_avg_loss s) fzero then Some (flit 100)
      else let rs = fdiv (rsi_avg_gain s) (rsi_avg_loss s)
           in Some (fsub (flit 100) (fdiv (flit 100) (fadd (flit 1) rs))))"

section \<open>Average true range\<close>

record atr =
  atr_period :: nat
  atr_prev_close :: "f64 option"
  atr_atr :: "f64 option"
  atr_count :: nat

definition atr_new :: "nat \<Rightarrow> atr option" where
  "atr_new n = (if 0 < n then Some \<lparr>atr_period = n, atr_prev_close = None, atr_atr = None, atr_count = 0\<rparr> else None)"

definition true_range :: "f64 \<Rightarrow> f64 \<Rightarrow> f64 option \<Rightarrow> f64" where
  "true_range high low prev =
     (case prev of
        None \<Rightarrow> fsub high low
      | Some pc \<Rightarrow> fmax (fmax (fsub high low) (fabs (fsub high pc))) (fabs (fsub low pc)))"

definition update_hlc :: "f64 \<Rightarrow> f64 \<Rightarrow> f64 \<Rightarrow> atr \<Rightarrow> atr" where
  "update_hlc high low close s =
     (if \<not> is_finite high \<or> \<not> is_finite low \<or> \<not> is_finite close then s
      else let tr = true_range high low (atr_prev_close s); p = flit (of_nat (atr_period s))
           in s\<lparr>atr_count := atr_count s + 1,
                atr_atr :=
                  Some (case atr_atr s of
                      None \<Rightarrow> tr
                    | Some prev \<Rightarrow> fdiv (fadd (fmul prev (fsub p (flit 1))) tr) p),
                atr_prev_close := Some close\<rparr>)"

definition atr_value :: "atr \<Rightarrow> f64 option" where
  "atr_value s = (if atr_period s \<le> atr_count s then atr_atr s else None)"

section \<open>Convergence and divergence of moving averages\<close>

record macd =
  macd_fast :: ema
  macd_slow :: ema
  macd_signal :: ema

definition macd_new :: "nat \<Rightarrow> nat \<Rightarrow> nat \<Rightarrow> macd option" where
  "macd_new fast slow signal = do {
     f \<leftarrow> ema_new fast; s \<leftarrow> ema_new slow; g \<leftarrow> ema_new signal;
     Some \<lparr>macd_fast = f, macd_slow = s, macd_signal = g\<rparr> }"

definition macd_update :: "f64 \<Rightarrow> macd \<Rightarrow> macd" where
  "macd_update v m =
     (if \<not> is_finite v then m
      else let f = ema_update v (macd_fast m); s = ema_update v (macd_slow m)
           in m\<lparr>macd_fast := f, macd_slow := s,
                macd_signal :=
                  (case (ema_value f, ema_value s) of
                     (Some a, Some b) \<Rightarrow> ema_update (fsub a b) (macd_signal m)
                   | _ \<Rightarrow> macd_signal m)\<rparr>)"

definition macd_value :: "macd \<Rightarrow> (f64 \<times> f64 \<times> f64) option" where
  "macd_value m = do {
     f \<leftarrow> ema_value (macd_fast m); s \<leftarrow> ema_value (macd_slow m);
     let d = fsub f s;
     g \<leftarrow> ema_value (macd_signal m);
     Some (d, g, fsub d g) }"

section \<open>Bollinger bands\<close>

record bollinger =
  bb_period :: nat
  bb_k :: f64
  bb_buf :: "f64 list"
  bb_sum :: f64
  bb_sum_sq :: f64

definition bollinger_new :: "nat \<Rightarrow> f64 \<Rightarrow> bollinger option" where
  "bollinger_new n k =
     (if 0 < n then Some \<lparr>bb_period = n, bb_k = k, bb_buf = [], bb_sum = fzero, bb_sum_sq = fzero\<rparr> else None)"

definition bollinger_update :: "f64 \<Rightarrow> bollinger \<Rightarrow> bollinger" where
  "bollinger_update v s =
     (if \<not> is_finite v then s
      else let b = bb_buf s @ [v]; t = fadd (bb_sum s) v; q = fadd (bb_sum_sq s) (fmul v v)
           in if bb_period s < length b
              then s\<lparr>bb_buf := tl b, bb_sum := fsub t (hd b), bb_sum_sq := fsub q (fmul (hd b) (hd b))\<rparr>
              else s\<lparr>bb_buf := b, bb_sum := t, bb_sum_sq := q\<rparr>)"

definition bollinger_value :: "bollinger \<Rightarrow> (f64 \<times> f64 \<times> f64) option" where
  "bollinger_value s =
     (if length (bb_buf s) < bb_period s then None
      else let n = flit (of_nat (bb_period s)); mean = fdiv (bb_sum s) n;
               var = fmax (fsub (fdiv (bb_sum_sq s) n) (fmul mean mean)) (flit 0);
               sd = fsqrt var
           in Some (fsub mean (fmul (bb_k s) sd), mean, fadd mean (fmul (bb_k s) sd)))"

section \<open>Volume-weighted average price\<close>

record vwap_state =
  vw_period :: nat
  vw_win :: "(f64 \<times> f64) list"
  vw_sum_pv :: f64
  vw_sum_v :: f64

definition vwap_new :: "nat \<Rightarrow> vwap_state option" where
  "vwap_new n = (if 0 < n then Some \<lparr>vw_period = n, vw_win = [], vw_sum_pv = fzero, vw_sum_v = fzero\<rparr> else None)"

definition vwap_update :: "f64 \<times> f64 \<Rightarrow> vwap_state \<Rightarrow> vwap_state" where
  "vwap_update pv s =
     (let (price, volume) = pv
      in if \<not> is_finite price \<or> \<not> is_finite volume then s
         else let w = vw_win s @ [pv]; t = fadd (vw_sum_pv s) (fmul price volume); u = fadd (vw_sum_v s) volume
              in if vw_period s < length w
                 then s\<lparr>vw_win := tl w, vw_sum_pv := fsub t (fmul (fst (hd w)) (snd (hd w))),
                        vw_sum_v := fsub u (snd (hd w))\<rparr>
                 else s\<lparr>vw_win := w, vw_sum_pv := t, vw_sum_v := u\<rparr>)"

definition vwap_value :: "vwap_state \<Rightarrow> f64 option" where
  "vwap_value s =
     (if length (vw_win s) < vw_period s \<or> feq (vw_sum_v s) fzero then None else Some (fdiv (vw_sum_pv s) (vw_sum_v s)))"

section \<open>The rolling window\<close>

definition lastn :: "nat \<Rightarrow> 'a list \<Rightarrow> 'a list" where
  "lastn n xs = drop (length xs - n) xs"

lemma lastn_all: "length xs \<le> n \<Longrightarrow> lastn n xs = xs"
  by (simp add: lastn_def)

lemma length_lastn [simp]: "length (lastn n xs) = min n (length xs)"
  by (simp add: lastn_def)

lemma lastn_snoc: "lastn n (lastn n xs @ [x]) = lastn n (xs @ [x])"
  by (cases "length xs \<le> n") (auto simp: lastn_def Suc_diff_le not_le)

text \<open>
  What the three rolling indicators promise: an observation that is not accepted changes nothing, an
  accepted one is appended and pushes the oldest out of a full window.
\<close>

locale rolling_window =
  fixes period :: "'s \<Rightarrow> nat" and window :: "'s \<Rightarrow> 'o list" and accept :: "'o \<Rightarrow> bool" and update :: "'o \<Rightarrow> 's \<Rightarrow> 's"
  assumes update_period: "period (update x s) = period s"
    and update_reject: "\<not> accept x \<Longrightarrow> update x s = s"
    and update_accept: "accept x \<Longrightarrow> length (window s) \<le> period s \<Longrightarrow> 0 < period s \<Longrightarrow>
      window (update x s) = lastn (period s) (window s @ [x])"
begin

lemma fold_period: "period (fold update xs s) = period s"
  by (induction xs arbitrary: s) (simp_all add: update_period)

theorem window_is_suffix:
  assumes "0 < period s" "window s = lastn (period s) ys"
  shows "window (fold update xs s) = lastn (period s) (ys @ filter accept xs)"
  using assms
proof (induction xs arbitrary: s ys)
  case (Cons x xs)
  show ?case
  proof (cases "accept x")
    case True
    have "length (window s) \<le> period s" using Cons.prems(2) by simp
    then have "window (update x s) = lastn (period (update x s)) (ys @ [x])"
      using update_accept [OF True] Cons.prems by (simp add: update_period lastn_snoc)
    then show ?thesis using Cons.IH [of "update x s" "ys @ [x]"] Cons.prems(1) True by (simp add: update_period)
  next
    case False
    then show ?thesis using Cons by (simp add: update_reject)
  qed
qed simp

corollary window_from_empty:
  "0 < period s \<Longrightarrow> window s = [] \<Longrightarrow> window (fold update xs s) = lastn (period s) (filter accept xs)"
  using window_is_suffix [of s "[]" xs] by (simp add: lastn_def)

corollary window_full:
  "0 < period s \<Longrightarrow> window s = [] \<Longrightarrow> length (window (fold update xs s)) = period s \<longleftrightarrow> period s \<le> length (filter accept xs)"
  by (auto simp: window_from_empty)

end

lemma roll: "length b \<le> n \<Longrightarrow> 0 < n \<Longrightarrow> lastn n (b @ [x]) = (if n < length (b @ [x]) then tl (b @ [x]) else b @ [x])"
  by (cases b) (auto simp: lastn_def Suc_diff_le)

interpretation sw: rolling_window sma_period sma_buf is_finite sma_update
  by unfold_locales (auto simp: sma_update_def Let_def roll)

interpretation bw: rolling_window bb_period bb_buf is_finite bollinger_update
  by unfold_locales (auto simp: bollinger_update_def Let_def roll)

interpretation vw: rolling_window vw_period vw_win "\<lambda>(p, v). is_finite p \<and> is_finite v" vwap_update
  by unfold_locales (auto simp: vwap_update_def Let_def roll split: prod.splits)

section \<open>Exact sums\<close>

text \<open>Multiples of one power of two, up to a bound.\<close>

definition on_grid :: "int \<Rightarrow> int \<Rightarrow> rat \<Rightarrow> bool" where
  "on_grid e b r \<longleftrightarrow> (\<exists>m. r = of_int m * 2 powi e \<and> \<bar>m\<bar> \<le> b)"

lemma on_grid_zero [simp]: "0 \<le> b \<Longrightarrow> on_grid e b 0"
  by (auto simp: on_grid_def intro: exI [of _ 0])

lemma on_grid_minus: "on_grid e b r \<Longrightarrow> on_grid e b (- r)"
  unfolding on_grid_def by (elim exE conjE) (rule_tac x = "- m" in exI, simp)

lemma on_grid_add: "on_grid e b r \<Longrightarrow> on_grid e c s \<Longrightarrow> on_grid e (b + c) (r + s)"
  unfolding on_grid_def
proof (elim exE conjE)
  fix m k
  assume "r = of_int m * 2 powi e" "\<bar>m\<bar> \<le> b" "s = of_int k * 2 powi e" "\<bar>k\<bar> \<le> c"
  then show "\<exists>j. r + s = of_int j * 2 powi e \<and> \<bar>j\<bar> \<le> b + c"
    by (intro exI [of _ "m + k"]) (auto simp: distrib_right)
qed

lemma on_grid_sum: "0 \<le> b \<Longrightarrow> \<forall>x \<in> set xs. on_grid e b x \<Longrightarrow> on_grid e (int (length xs) * b) (sum_list xs)"
proof (induction xs)
  case (Cons x xs)
  then have "on_grid e (b + int (length xs) * b) (x + sum_list xs)" by (intro on_grid_add) auto
  then show ?case by (simp add: distrib_right add.commute)
qed simp

lemma on_grid_exact:
  assumes "on_grid e b r" "b \<le> 2 ^ 53" "- 1074 \<le> e" "e \<le> 970"
  shows "rnd r = r" "\<bar>r\<bar> < f64_limit"
proof -
  obtain m where m: "r = of_int m * 2 powi e" "\<bar>m\<bar> \<le> 2 ^ 53" using assms(1,2) by (auto simp: on_grid_def)
  then show "rnd r = r" using rnd_grid_le assms(3) by simp
  have "\<bar>r\<bar> = of_int \<bar>m\<bar> * 2 powi e" by (simp add: m(1) abs_mult)
  also have "\<dots> \<le> of_int (2 ^ 53) * 2 powi 970"
  proof (rule mult_mono)
    show "(of_int \<bar>m\<bar> :: rat) \<le> of_int (2 ^ 53)" using m(2) by (simp only: of_int_le_iff)
  qed (use pow2_mono [OF assms(4)] in simp_all)
  also have "\<dots> = (2::rat) powi 1023" by (simp add: power_int_add [symmetric])
  also have "\<dots> < f64_limit" by (simp add: f64_limit_def)
  finally show "\<bar>r\<bar> < f64_limit" .
qed

lemma flit_exact: "rnd r = r \<Longrightarrow> \<bar>r\<bar> < f64_limit \<Longrightarrow> flit r = FFin (r < 0) \<bar>r\<bar>"
  by (simp add: flit_def round64_exact)

lemma fadd_flit:
  assumes "rnd r = r" "\<bar>r\<bar> < f64_limit" "f64_ok x" "is_finite x"
  shows "fadd (flit r) x = flit (r + fval x)"
proof -
  obtain b y where x: "x = FFin b y" "0 \<le> y" using assms(3,4) by (cases x) auto
  have "fadd (flit r) x = round64 (r < 0 \<and> b) (r + fval x)"
    using assms(1,2) by (auto simp: flit_exact x)
  then show ?thesis using x(2) by (auto simp: flit_def round64_def Let_def x(1))
qed

lemma fval_fneg [simp]: "fval (fneg x) = - fval x"
  by (cases x) auto

lemma is_finite_fneg [simp]: "is_finite (fneg x) = is_finite x"
  by (cases x) auto

lemma fdiv_flit_nat:
  assumes "rnd r = r" "\<bar>r\<bar> < f64_limit" "0 < n" "n \<le> 2 ^ 53"
  shows "fdiv (flit r) (flit (of_nat n)) = flit (r / of_nat n)"
  using assms by (auto simp: flit_exact) (auto simp: flit_def round64_def Let_def divide_less_0_iff)

section \<open>The running sum\<close>

definition sma_exact :: "int \<Rightarrow> int \<Rightarrow> sma \<Rightarrow> bool" where
  "sma_exact e b s \<longleftrightarrow>
     sma_sum s = flit (sum_list (map fval (sma_buf s))) \<and> length (sma_buf s) \<le> sma_period s \<and>
     (\<forall>x \<in> set (sma_buf s). is_finite x \<and> f64_ok x \<and> on_grid e b (fval x))"

lemma sma_exact_update:
  assumes e: "- 1074 \<le> e" "e \<le> 970" and b: "0 < b" "(int (sma_period s) + 1) * b \<le> 2 ^ 53" and n: "0 < sma_period s"
    and inv: "sma_exact e b s" and x: "f64_ok x" "on_grid e b (fval x)"
  shows "sma_exact e b (sma_update x s)"
proof (cases "is_finite x")
  case True
  let ?w = "sma_buf s" and ?S = "sum_list (map fval (sma_buf s))"
  have S: "on_grid e (int (length ?w) * b) ?S"
    using on_grid_sum [of b "map fval ?w" e] inv b by (auto simp: sma_exact_def)
  have l: "length ?w \<le> sma_period s" using inv by (simp add: sma_exact_def)
  have "int (length ?w) * b \<le> int (sma_period s) * b" using l b(1) by simp
  then have bound: "int (length ?w) * b + b \<le> 2 ^ 53" using b(2) by (simp add: distrib_right)
  then have "int (length ?w) * b \<le> 2 ^ 53" using b(1) by linarith
  note exS = on_grid_exact [OF S this e]
  note exT = on_grid_exact [OF on_grid_add [OF S x(2)] bound e]
  have t: "fadd (sma_sum s) x = flit (?S + fval x)" using inv fadd_flit [OF exS x(1) True] by (simp add: sma_exact_def)
  show ?thesis
  proof (cases ?w)
    case Nil
    then show ?thesis using t n True x by (simp add: sma_exact_def sma_update_def Let_def)
  next
    case (Cons y ys)
    have y: "f64_ok y" "is_finite y" using inv Cons by (auto simp: sma_exact_def)
    have "fsub (flit (?S + fval x)) y = flit (?S + fval x - fval y)"
      using fadd_flit [OF exT, of "fneg y"] y by (simp add: fsub_def)
    then show ?thesis using t True x inv Cons by (auto simp: sma_exact_def sma_update_def Let_def algebra_simps)
  qed
qed (use inv in \<open>simp add: sma_update_def\<close>)

lemma sma_exact_fold:
  assumes "- 1074 \<le> e" "e \<le> 970" "0 < b" "(int (sma_period s) + 1) * b \<le> 2 ^ 53" "0 < sma_period s" "sma_exact e b s"
    "\<forall>x \<in> set xs. f64_ok x \<and> on_grid e b (fval x)"
  shows "sma_exact e b (fold sma_update xs s)"
  using assms(4-)
proof (induction xs arbitrary: s)
  case (Cons x xs)
  have "sma_exact e b (sma_update x s)" using Cons.prems assms(1-3) by (intro sma_exact_update) auto
  then show ?case using Cons by (simp add: sw.update_period)
qed simp

section \<open>Properties of the indicators\<close>

text \<open>
  C33: the streaming average is the mean. Fed with ticks that are multiples of one power of two and
  whose sums fit into 53 bits, the moving average is ready exactly when a full window of finite ticks
  was seen and then is the correctly rounded mean of the last ticks, whatever came before and
  whatever non-finite ticks lie between.
\<close>

theorem sma_is_mean:
  assumes "sma_new n = Some s" "- 1074 \<le> e" "e \<le> 970" "0 < b" "(int n + 1) * b \<le> 2 ^ 53"
    "\<forall>x \<in> set xs. f64_ok x \<and> on_grid e b (fval x)"
  shows "sma_value (fold sma_update xs s) =
    (if n \<le> length (filter is_finite xs)
     then Some (flit (sum_list (map fval (lastn n (filter is_finite xs))) / of_nat n)) else None)"
proof -
  have s: "sma_period s = n" "sma_buf s = []" "sma_sum s = flit 0" "0 < n"
    using assms(1) flit_int [of 0] by (auto simp: sma_new_def split: if_splits)
  let ?t = "fold sma_update xs s"
  have inv: "sma_exact e b ?t" using assms s by (intro sma_exact_fold) (auto simp: sma_exact_def)
  have p: "sma_period ?t = n" using sw.fold_period s(1) by simp
  have w: "sma_buf ?t = lastn n (filter is_finite xs)" using sw.window_from_empty [of s xs] s by simp
  have n: "n \<le> 2 ^ 53"
  proof -
    have "int n + 1 \<le> (int n + 1) * b" using assms(4) by (simp add: mult_le_cancel_left1)
    then have "int n \<le> 2 ^ 53" using assms(5) by linarith
    then show ?thesis by simp
  qed
  have "on_grid e (int (length (sma_buf ?t)) * b) (sum_list (map fval (sma_buf ?t)))"
    using on_grid_sum [of b "map fval (sma_buf ?t)" e] inv assms(4) by (auto simp: sma_exact_def)
  moreover have "int (length (sma_buf ?t)) * b \<le> 2 ^ 53"
  proof -
    have "int (length (sma_buf ?t)) * b \<le> int n * b" using assms(4) by (simp add: w)
    moreover have "int n * b + b \<le> 2 ^ 53" using assms(5) by (simp add: distrib_right)
    ultimately show ?thesis using assms(4) by linarith
  qed
  ultimately have "fdiv (sma_sum ?t) (flit (of_nat n)) = flit (sum_list (map fval (sma_buf ?t)) / of_nat n)"
    using inv on_grid_exact assms(2,3) fdiv_flit_nat [OF _ _ s(4) n] by (metis sma_exact_def)
  then show ?thesis using p w by (auto simp: sma_value_def min_def)
qed

lemma small_int_ok [simp]: "f64_ok (FFin a 0)" "f64_ok (FFin a 1)" "numeral k \<le> (2::int) ^ 53 \<Longrightarrow> f64_ok (FFin a (numeral k))"
proof -
  show "f64_ok (FFin a 0)" "f64_ok (FFin a 1)" using rnd_int [of 1] by (simp_all add: f64_limit_def)
  assume k: "numeral k \<le> (2::int) ^ 53"
  have "(of_int (numeral k) :: rat) \<le> of_int (2 ^ 53)" using k by (simp only: of_int_le_iff)
  also have "\<dots> < f64_limit" by (simp add: f64_limit_def)
  finally show "f64_ok (FFin a (numeral k))" using rnd_int [of "numeral k"] k by simp
qed

definition grid_ticks :: "f64 list" where
  "grid_ticks = [FFin False 1, FFin False 3, FNan, FFin False 5]"

theorem sma_is_mean_witness:
  "sma_value (fold sma_update grid_ticks \<lparr>sma_period = 2, sma_buf = [], sma_sum = fzero\<rparr>) = Some (FFin False 4)"
proof -
  have g: "on_grid 0 10 1" "on_grid 0 10 3" "on_grid 0 10 5"
    unfolding on_grid_def by (rule exI [of _ 1], simp) (rule exI [of _ 3], simp, rule exI [of _ 5], simp)
  have "sma_new 2 = Some \<lparr>sma_period = 2, sma_buf = [], sma_sum = fzero\<rparr>" by (simp add: sma_new_def)
  from sma_is_mean [OF this, of 0 10 grid_ticks] g show ?thesis
    using flit_int [of 4] by (simp add: grid_ticks_def lastn_def del: f64_ok.simps(1))
qed

text \<open>
  An overflow poisons the average for good. Two ticks that are finite but whose sum overflows make
  every later value of the average infinite or NaN, also when the ticks that caused it have left the
  window; the guard against non-finite ticks does not prevent it.
\<close>

definition big_tick :: f64 where
  "big_tick = FFin False (2 ^ 1023)"

lemma sma_sum_poisoned: "\<not> is_finite (sma_sum s) \<Longrightarrow> \<not> is_finite (sma_sum (fold sma_update xs s))"
proof (induction xs arbitrary: s)
  case (Cons x xs)
  have "\<not> is_finite (fadd y x)" if "\<not> is_finite y" for x y using that by (cases y; cases x) auto
  then have "\<not> is_finite (sma_sum (sma_update x s))" using Cons.prems by (simp add: sma_update_def Let_def fsub_def)
  then show ?case using Cons.IH by simp
qed simp

lemma big_sum: "fadd big_tick big_tick = FInf False"
proof -
  have "rnd (2 powi 1024) = 2 powi 1024" by (rule rnd_pow2) simp
  then have "rnd (2 ^ 1023 + 2 ^ 1023) = f64_limit" unfolding power_int_numeral f64_limit_def by simp
  then show ?thesis by (simp add: big_tick_def round64_def del: power_numeral)
qed

lemma big_alone: "fadd fzero big_tick = big_tick"
proof -
  have "rnd (2 powi 1023) = 2 powi 1023" by (rule rnd_pow2) simp
  then have "rnd (2 ^ 1023) = 2 ^ 1023" unfolding power_int_numeral .
  then show ?thesis by (simp add: big_tick_def round64_def f64_limit_def)
qed

theorem sma_overflow_poisons:
  assumes "sma_new n = Some s" "2 \<le> n" "sma_value (fold sma_update (big_tick # big_tick # xs) s) = Some v"
  shows "\<not> is_finite v"
proof -
  let ?s2 = "sma_update big_tick (sma_update big_tick s)"
  have f: "is_finite big_tick" by (simp add: big_tick_def)
  have "sma_sum ?s2 = FInf False"
    using assms(1,2) f by (auto simp: sma_new_def sma_update_def Let_def big_sum big_alone split: if_splits)
  then have "\<not> is_finite (sma_sum (fold sma_update xs ?s2))" by (intro sma_sum_poisoned) simp
  moreover have "\<not> is_finite (fdiv y z)" if "\<not> is_finite y" for y z using that by (cases y; cases z) auto
  ultimately show ?thesis using assms(3) by (auto simp: sma_value_def split: if_splits)
qed


theorem sma_overflow_poisons_witness:
  "\<exists>v. sma_value (fold sma_update [big_tick, big_tick, FFin False 1, FFin False 1] \<lparr>sma_period = 2, sma_buf = [], sma_sum = fzero\<rparr>) = Some v \<and>
       \<not> is_finite v"
proof -
  let ?s = "\<lparr>sma_period = 2, sma_buf = [], sma_sum = fzero\<rparr>"
  let ?r = "fold sma_update [big_tick, big_tick, FFin False 1, FFin False 1] ?s"
  have n: "sma_new 2 = Some ?s" by (simp add: sma_new_def)
  have "length (sma_buf ?r) = 2" by (simp add: sma_update_def big_tick_def)
  then obtain v where "sma_value ?r = Some v" using sw.fold_period [of "[big_tick, big_tick, FFin False 1, FFin False 1]" ?s]
    by (simp add: sma_value_def)
  then show ?thesis using sma_overflow_poisons [OF n, of "[FFin False 1, FFin False 1]"] by auto
qed

section \<open>Bounded indicators\<close>

lemma flit_nat_ge1: "0 < n \<Longrightarrow> \<exists>x. (flit (of_nat n) = FInf False \<or> flit (of_nat n) = FFin False x \<and> 1 \<le> x)"
proof -
  assume n: "0 < n"
  have "fle (flit 1) (flit (of_nat n))" using n unfolding flit_def by (intro round64_mono) simp
  moreover have "flit 1 = FFin False 1" using flit_int [of 1] by simp
  moreover have "flit (of_nat n) = FInf False \<or> (\<exists>x. flit (of_nat n) = FFin False x)" using n by (auto simp: flit_def round64_def Let_def)
  ultimately show ?thesis by (auto simp: fle_def)
qed

lemma fnn_wilder:
  assumes "f64_ok avg" "f64_ok x" "fnn avg" "fnn x" "0 < n"
  shows "f64_ok (wilder n w avg x) \<and> fnn (wilder n w avg x)"
proof -
  obtain y where p: "flit (of_nat n) = FInf False \<or> flit (of_nat n) = FFin False y \<and> 1 \<le> y" using flit_nat_ge1 assms(5) by blast
  have one: "flit 1 = FFin False 1" using flit_int [of 1] by simp
  have q: "fnn (fsub (flit (of_nat n)) (flit 1))" "\<not> feq (flit (of_nat n)) fzero" "fnn (flit (of_nat n))"
    using p by (auto simp: fsub_def one)
  show ?thesis using assms q by (auto simp: wilder_def Let_def intro!: fnn_fadd fnn_fdiv fnn_fmul)
qed

definition rsi_ok :: "rsi \<Rightarrow> bool" where
  "rsi_ok s \<longleftrightarrow> 0 < rsi_period s \<and>
     f64_ok (rsi_avg_gain s) \<and> fnn (rsi_avg_gain s) \<and> f64_ok (rsi_avg_loss s) \<and> fnn (rsi_avg_loss s)"

lemma fnn_fneg: "\<not> fle fzero x \<Longrightarrow> fnn (fneg x)"
  by (cases x) (auto simp: fle_def)

lemma fnn_of_fle: "fle fzero x \<Longrightarrow> fnn x"
  by (simp add: fnn_def)

lemma rsi_ok_update: "rsi_ok s \<Longrightarrow> rsi_ok (rsi_update v s)"
proof (cases "rsi_prev s")
  case (Some p)
  assume ok: "rsi_ok s"
  show ?thesis
  proof (cases "is_finite v")
    case True
    obtain g l where gl: "(g, l) = (if fle fzero (fsub v p) then (fsub v p, fzero) else (fzero, fneg (fsub v p)))"
      by (metis prod.exhaust)
    have "f64_ok g \<and> fnn g \<and> f64_ok l \<and> fnn l"
      using gl fnn_fneg fnn_of_fle by (auto split: if_splits)
    then show ?thesis using ok True Some fnn_wilder
      by (simp add: rsi_update_def rsi_ok_def gl [symmetric] Let_def)
  qed (use ok in \<open>simp add: rsi_update_def\<close>)
qed (simp add: rsi_update_def rsi_ok_def)

lemma rsi_ok_fold: "rsi_ok s \<Longrightarrow> rsi_ok (fold rsi_update xs s)"
  by (induction xs arbitrary: s) (simp_all add: rsi_ok_update)

lemma hundred: "flit 100 = FFin False 100" "flit 1 = FFin False 1" "flit 0 = fzero"
  using flit_int [of 100] flit_int [of 1] flit_int [of 0] by simp_all

lemma rsi_level_bounds:
  assumes "fnn rs"
  shows "fsub (flit 100) (fdiv (flit 100) (fadd (flit 1) rs)) = FNan \<or>
    fle fzero (fsub (flit 100) (fdiv (flit 100) (fadd (flit 1) rs))) \<and>
    fle (fsub (flit 100) (fdiv (flit 100) (fadd (flit 1) rs))) (flit 100)"
proof -
  have sub: "fle fzero (fsub (flit 100) q) \<and> fle (fsub (flit 100) q) (flit 100)"
    if "q = FFin False m" "0 \<le> m" "m \<le> 100" for q m
    using that round64_ge_val [of False 0 "100 - m" False] round64_le_val [of False 100 "100 - m" False] small_int_ok(3) [of "num.Bit0 (num.Bit0 (num.Bit1 (num.Bit0 (num.Bit0 (num.Bit1 num.One)))))"]
    by (auto simp: hundred fsub_def)
  have div: "\<exists>m. fdiv (flit 100) (FFin False w) = FFin False m \<and> 0 \<le> m \<and> m \<le> 100" if "1 \<le> w" for w
  proof -
    have "0 \<le> 100 / w" "100 / w \<le> 100" using that by (simp_all add: field_simps)
    then have "0 \<le> rnd (100 / w)" "rnd (100 / w) \<le> 100" using rnd_mono [of "100 / w" 100] rnd_int [of 100] by simp_all
    moreover have "(100::rat) < f64_limit" by (simp add: f64_limit_def)
    ultimately show ?thesis using that by (auto simp: hundred round64_def)
  qed
  show ?thesis
  proof (cases rs)
    case (FFin a x)
    have "fle (flit 1) (fadd (flit 1) rs)"
      using assms round64_ge_val [of False 1 "1 + fval rs" False] small_int_ok(2) [of False] by (auto simp: FFin hundred)
    then consider "fadd (flit 1) rs = FInf False" | w where "fadd (flit 1) rs = FFin False w" "1 \<le> w"
      using assms by (cases "fadd (flit 1) rs") (auto simp: hundred fle_def FFin round64_def Let_def split: if_splits)
    then show ?thesis
    proof cases
      case 1
      then show ?thesis using sub [of fzero 0] by (simp add: hundred)
    next
      case 2
      then show ?thesis using div sub by metis
    qed
  qed (use assms sub [of fzero 0] in \<open>simp_all add: hundred fsub_def\<close>)
qed

text \<open>
  C34: the index stays in its range. Whatever ticks are fed, and with every rounding and overflow of
  floating point, a value of the relative strength index is NaN or lies between 0 and 100.
\<close>

theorem rsi_bounded:
  assumes "rsi_new n = Some s" "rsi_value (fold rsi_update xs s) = Some v"
  shows "v = FNan \<or> fle (flit 0) v \<and> fle v (flit 100)"
proof -
  let ?t = "fold rsi_update xs s"
  have ok: "rsi_ok ?t"
    using assms(1) by (intro rsi_ok_fold) (auto simp: rsi_new_def rsi_ok_def split: if_splits)
  show ?thesis
  proof (cases "feq (rsi_avg_loss ?t) fzero")
    case True
    then have "v = flit 100" using assms(2) by (simp add: rsi_value_def split: if_splits)
    then show ?thesis by (simp add: hundred fle_def)
  next
    case False
    then have "fnn (fdiv (rsi_avg_gain ?t) (rsi_avg_loss ?t))" using ok by (intro fnn_fdiv) (simp_all add: rsi_ok_def)
    then show ?thesis
      using assms(2) False rsi_level_bounds [of "fdiv (rsi_avg_gain ?t) (rsi_avg_loss ?t)"]
      by (auto simp: rsi_value_def Let_def hundred(3) split: if_splits)
  qed
qed

theorem rsi_bounded_witness:
  "\<exists>v. rsi_value (fold rsi_update [FFin False 3, FFin False 5, FNan, FFin False 4]
      \<lparr>rsi_period = 1, rsi_prev = None, rsi_avg_gain = fzero, rsi_avg_loss = fzero, rsi_count = 0\<rparr>) = Some v \<and>
    (v = FNan \<or> fle (flit 0) v \<and> fle v (flit 100))"
proof -
  let ?s = "\<lparr>rsi_period = 1, rsi_prev = None, rsi_avg_gain = fzero, rsi_avg_loss = fzero, rsi_count = 0\<rparr>"
  let ?t = "fold rsi_update [FFin False 3, FFin False 5, FNan, FFin False 4] ?s"
  have "rsi_count ?t = 2" "rsi_period ?t = 1" by (simp_all add: rsi_update_def Let_def split: prod.split)
  then obtain v where "rsi_value ?t = Some v" unfolding rsi_value_def Let_def by fastforce
  moreover have "rsi_new 1 = Some ?s" by (simp add: rsi_new_def)
  ultimately show ?thesis using rsi_bounded by blast
qed

lemma fadd_ge: "f64_ok m \<Longrightarrow> fnn d \<Longrightarrow> fadd m d = FNan \<or> fle m (fadd m d)"
  by (cases m; cases d) (auto simp: fle_refl simp del: fval.simps f64_ok.simps intro: round64_ge_val, simp_all add: fle_def)

lemma fsub_le: "f64_ok m \<Longrightarrow> fnn d \<Longrightarrow> fsub m d = FNan \<or> fle (fsub m d) m"
proof (cases m; cases d)
  fix a x b y
  assume m: "f64_ok m" "fnn d" "m = FFin a x" "d = FFin b y"
  have "fval (FFin a x) - fval (FFin b y) \<le> fval (FFin a x)" using m by simp
  then have "fle (round64 (a \<and> \<not> b) (fval (FFin a x) - fval (FFin b y))) (FFin a x)"
    using m(1,3) by (intro round64_le_val) simp_all
  moreover have "fsub m d = round64 (a \<and> \<not> b) (fval (FFin a x) - fval (FFin b y))"
    by (auto simp: m(3,4) fsub_def)
  ultimately show ?thesis using m(3) by simp
qed (auto simp: fsub_def fle_def)

lemma sqrt_rat_nonneg: "0 < m \<Longrightarrow> 0 \<le> sqrt_rat m"
proof -
  have "0 \<le> isqrt_bits k q r" if "0 \<le> r" for k q r using that by (induction k arbitrary: r) simp_all
  then show ?thesis by (auto simp: sqrt_rat_def Let_def)
qed

lemma fnn_fsqrt: "f64_ok x \<Longrightarrow> fnn (fsqrt x)"
  using sqrt_rat_nonneg by (cases x) auto

text \<open>
  The bands are in order. For a non-negative width factor the lower band is at most the mean and
  the upper band at least the mean, in every state of the indicator, unless the arithmetic left the
  finite values and the band is NaN.
\<close>

theorem bollinger_ordered:
  assumes "bollinger_value s = Some (lower, mid, upper)" "f64_ok (bb_k s)" "fnn (bb_k s)"
  shows "(lower = FNan \<or> fle lower mid) \<and> (upper = FNan \<or> fle mid upper)"
proof -
  define var where "var = fmax (fsub (fdiv (bb_sum_sq s) (flit (of_nat (bb_period s)))) (fmul mid mid)) (flit 0)"
  have v: "lower = fsub mid (fmul (bb_k s) (fsqrt var))" "upper = fadd mid (fmul (bb_k s) (fsqrt var))" "f64_ok mid"
    using assms(1) by (auto simp: bollinger_value_def Let_def var_def split: if_splits)
  have "f64_ok var" by (simp add: var_def)
  then have "fnn (fmul (bb_k s) (fsqrt var))" using assms(2,3) fnn_fsqrt by (intro fnn_fmul) simp_all
  then show ?thesis using v fadd_ge fsub_le by simp
qed

theorem bollinger_ordered_witness:
  "\<exists>lower mid upper.
     bollinger_value \<lparr>bb_period = 1, bb_k = FFin False 2, bb_buf = [FFin False 3], bb_sum = FFin False 3, bb_sum_sq = FFin False 9\<rparr> =
       Some (lower, mid, upper) \<and> (lower = FNan \<or> fle lower mid) \<and> (upper = FNan \<or> fle mid upper)"
proof -
  let ?s = "\<lparr>bb_period = 1, bb_k = FFin False 2, bb_buf = [FFin False 3], bb_sum = FFin False 3, bb_sum_sq = FFin False 9\<rparr>"
  obtain l m u where v: "bollinger_value ?s = Some (l, m, u)" by (simp add: bollinger_value_def Let_def)
  have "f64_ok (bb_k ?s)" using small_int_ok(3) [of "num.Bit0 num.One" False] by (simp del: f64_ok.simps)
  then show ?thesis using bollinger_ordered [OF v] v by auto
qed

section \<open>Warm-up\<close>

lemma ema_counts:
  "ema_count (fold ema_update xs s) = ema_count s + length (filter is_finite xs)"
  "ema_period (fold ema_update xs s) = ema_period s"
  by (induction xs arbitrary: s) (simp_all add: ema_update_def)

text \<open>An exponential average is ready exactly after as many finite ticks as its period.\<close>

lemma ema_ready:
  assumes "ema_new n = Some s"
  shows "ema_value (fold ema_update xs s) \<noteq> None \<longleftrightarrow> n \<le> length (filter is_finite xs)"
proof -
  have s: "ema_count s = 0" "ema_period s = n" "ema_current s = None" "0 < n" using assms by (auto simp: ema_new_def split: if_splits)
  have c: "ema_current (fold ema_update xs t) = None \<longleftrightarrow> ema_current t = None \<and> filter is_finite xs = []" for t
    by (induction xs arbitrary: t) (auto simp: ema_update_def)
  have "filter is_finite xs = [] \<longrightarrow> \<not> n \<le> length (filter is_finite xs)" using s(4) by simp
  then show ?thesis using s ema_counts [of xs s] c [of s] by (auto simp: ema_value_def simp del: not_None_eq)
qed

end
