(* ===== verification/Derivatives.thy ===== *)
theory Derivatives
  imports Float64
begin

text \<open>
  European option pricing of \<open>coinext-derivatives/src/lib.rs\<close> in floating point. The language fixes the
  result of the square root but leaves the precision of the exponential and the logarithm open: both
  are a parameter, and the theorems hold for every such pair of functions.
\<close>

record libm =
  lm_exp :: "f64 \<Rightarrow> f64"
  lm_ln :: "f64 \<Rightarrow> f64"

record bs_inputs =
  bsi_spot :: f64
  bsi_strike :: f64
  bsi_t_years :: f64
  bsi_rate :: f64
  bsi_vol :: f64

record greeks =
  g_delta :: f64
  g_gamma :: f64
  g_vega :: f64
  g_theta :: f64
  g_rho :: f64

section \<open>The normal distribution\<close>

definition PI :: f64 where
  "PI = flit (314159265358979323846264338327950288 / 10 ^ 35)"

definition SQRT_2 :: f64 where
  "SQRT_2 = flit (141421356237309504880168872420969807856967187537694 / 10 ^ 50)"

definition norm_pdf :: "libm \<Rightarrow> f64 \<Rightarrow> f64" where
  "norm_pdf L x = fdiv (lm_exp L (fmul (fmul (fneg (flit (1 / 2))) x) x)) (fsqrt (fmul (flit 2) PI))"

definition erf :: "libm \<Rightarrow> f64 \<Rightarrow> f64" where
  "erf L x0 =
     (let sign = if flt x0 fzero then fneg (flit 1) else flit 1;
          x = fabs x0;
          t = fdiv (flit 1) (fadd (flit 1) (fmul (flit (3275911 / 10 ^ 7)) x));
          p = fsub (fmul (flit (1061405429 / 10 ^ 9)) t) (flit (1453152027 / 10 ^ 9));
          p = fadd (fmul p t) (flit (1421413741 / 10 ^ 9));
          p = fsub (fmul p t) (flit (284496736 / 10 ^ 9));
          p = fadd (fmul p t) (flit (254829592 / 10 ^ 9));
          y = fsub (flit 1) (fmul (fmul p t) (lm_exp L (fmul (fneg x) x)))
      in fmul sign y)"

definition norm_cdf :: "libm \<Rightarrow> f64 \<Rightarrow> f64" where
  "norm_cdf L x = fmul (flit (1 / 2)) (fadd (flit 1) (erf L (fdiv x SQRT_2)))"

section \<open>Prices and sensitivities\<close>

definition bs_intrinsic :: "bs_inputs \<Rightarrow> bool \<Rightarrow> f64" where
  "bs_intrinsic i is_call =
     (if is_call then fmax (fsub (bsi_spot i) (bsi_strike i)) fzero else fmax (fsub (bsi_strike i) (bsi_spot i)) fzero)"

definition d1d2 :: "libm \<Rightarrow> bs_inputs \<Rightarrow> (f64 \<times> f64) option" where
  "d1d2 L i =
     (let vol_sqrt_t = fmul (bsi_vol i) (fsqrt (bsi_t_years i))
      in if fle vol_sqrt_t fzero \<or> fle (bsi_spot i) fzero \<or> fle (bsi_strike i) fzero then None
         else let d1 = fdiv (fadd (lm_ln L (fdiv (bsi_spot i) (bsi_strike i)))
                (fmul (fadd (bsi_rate i) (fmul (fmul (flit (1 / 2)) (bsi_vol i)) (bsi_vol i))) (bsi_t_years i))) vol_sqrt_t
              in Some (d1, fsub d1 vol_sqrt_t))"

definition disc_factor :: "libm \<Rightarrow> f64 \<Rightarrow> f64 \<Rightarrow> f64" where
  "disc_factor L rate t = lm_exp L (fmul (fneg rate) t)"

definition bs_price :: "libm \<Rightarrow> bs_inputs \<Rightarrow> bool \<Rightarrow> f64" where
  "bs_price L i is_call =
     (case d1d2 L i of
        None \<Rightarrow> bs_intrinsic i is_call
      | Some (d1, d2) \<Rightarrow>
          let disc = disc_factor L (bsi_rate i) (bsi_t_years i)
          in if is_call
             then fsub (fmul (bsi_spot i) (norm_cdf L d1)) (fmul (fmul (bsi_strike i) disc) (norm_cdf L d2))
             else fsub (fmul (fmul (bsi_strike i) disc) (norm_cdf L (fneg d2))) (fmul (bsi_spot i) (norm_cdf L (fneg d1))))"

definition bs_greeks :: "libm \<Rightarrow> bs_inputs \<Rightarrow> bool \<Rightarrow> greeks" where
  "bs_greeks L i is_call =
     (case d1d2 L i of
        None \<Rightarrow> \<lparr>g_delta = fzero, g_gamma = fzero, g_vega = fzero, g_theta = fzero, g_rho = fzero\<rparr>
      | Some (d1, d2) \<Rightarrow>
          let disc = disc_factor L (bsi_rate i) (bsi_t_years i);
              sqrt_t = fsqrt (bsi_t_years i);
              pdf_d1 = norm_pdf L d1;
              gamma = fdiv pdf_d1 (fmul (fmul (bsi_spot i) (bsi_vol i)) sqrt_t);
              vega = fmul (fmul (bsi_spot i) pdf_d1) sqrt_t;
              common_theta = fdiv (fneg (fmul (fmul (bsi_spot i) pdf_d1) (bsi_vol i))) (fmul (flit 2) sqrt_t)
          in if is_call
             then \<lparr>g_delta = norm_cdf L d1, g_gamma = gamma, g_vega = vega,
                   g_theta = fsub common_theta (fmul (fmul (fmul (bsi_rate i) (bsi_strike i)) disc) (norm_cdf L d2)),
                   g_rho = fmul (fmul (fmul (bsi_strike i) (bsi_t_years i)) disc) (norm_cdf L d2)\<rparr>
             else \<lparr>g_delta = fsub (norm_cdf L d1) (flit 1), g_gamma = gamma, g_vega = vega,
                   g_theta = fadd common_theta (fmul (fmul (fmul (bsi_rate i) (bsi_strike i)) disc) (norm_cdf L (fneg d2))),
                   g_rho = fmul (fmul (fmul (fneg (bsi_strike i)) (bsi_t_years i)) disc) (norm_cdf L (fneg d2))\<rparr>)"

section \<open>Implied volatility\<close>

text \<open>At most \<open>n\<close> Newton steps: the volatility found, or \<open>None\<close> when the search falls through to bisection.\<close>

primrec newton :: "nat \<Rightarrow> libm \<Rightarrow> (f64 \<Rightarrow> bs_inputs) \<Rightarrow> bool \<Rightarrow> f64 \<Rightarrow> f64 \<Rightarrow> f64 option" where
  "newton 0 L mk is_call market vol = None"
| "newton (Suc n) L mk is_call market vol =
     (let diff = fsub (bs_price L (mk vol) is_call) market; v = g_vega (bs_greeks L (mk vol) is_call)
      in if flt (fabs diff) (flit (1 / 10 ^ 8)) then Some vol
         else if flt v (flit (1 / 10 ^ 10)) then None
         else let vol' = fsub vol (fdiv diff v)
              in if fle (flit (1 / 10 ^ 9)) vol' \<and> fle vol' (flit 5) then newton n L mk is_call market vol' else None)"

definition midpoint :: "f64 \<Rightarrow> f64 \<Rightarrow> f64" where
  "midpoint lo hi = fmul (flit (1 / 2)) (fadd lo hi)"

primrec bisect :: "nat \<Rightarrow> libm \<Rightarrow> (f64 \<Rightarrow> bs_inputs) \<Rightarrow> bool \<Rightarrow> f64 \<Rightarrow> f64 \<Rightarrow> f64 \<Rightarrow> f64 \<Rightarrow> f64" where
  "bisect 0 L mk is_call market lo hi f_lo = midpoint lo hi"
| "bisect (Suc n) L mk is_call market lo hi f_lo =
     (let mid = midpoint lo hi; diff = fsub (bs_price L (mk mid) is_call) market
      in if flt (fabs diff) (flit (1 / 10 ^ 8)) then mid
         else if fle (fmul f_lo diff) fzero then bisect n L mk is_call market lo mid f_lo
         else bisect n L mk is_call market mid hi diff)"

definition implied_vol :: "libm \<Rightarrow> f64 \<Rightarrow> f64 \<Rightarrow> f64 \<Rightarrow> f64 \<Rightarrow> f64 \<Rightarrow> bool \<Rightarrow> f64 option" where
  "implied_vol L market spot strike t_years rate is_call =
     (if fle t_years fzero \<or> fle market fzero then None
      else let mk = (\<lambda>vol. \<lparr>bsi_spot = spot, bsi_strike = strike, bsi_t_years = t_years, bsi_rate = rate, bsi_vol = vol\<rparr>);
               disc_strike = fmul strike (disc_factor L rate t_years);
               disc_intrinsic = if is_call then fmax (fsub spot disc_strike) fzero else fmax (fsub disc_strike spot) fzero
           in if flt market (fsub disc_intrinsic (flit (1 / 10 ^ 9))) then None
              else case newton 100 L mk is_call market (flit (1 / 5)) of
                  Some vol \<Rightarrow> Some vol
                | None \<Rightarrow>
                    let lo = flit (1 / 10 ^ 6); hi = flit 5;
                        f_lo = fsub (bs_price L (mk lo) is_call) market;
                        f_hi = fsub (bs_price L (mk hi) is_call) market
                    in if flt fzero (fmul f_lo f_hi) then None
                       else Some (bisect 200 L mk is_call market lo hi f_lo))"

section \<open>The search stays in its interval\<close>

lemma rnd_double: "rnd m = m \<Longrightarrow> rnd (2 * m) = 2 * m"
proof -
  assume m: "rnd m = m"
  obtain k u where k: "m = of_int k * 2 powi u" "\<bar>k\<bar> \<le> 2 ^ 53" "- 1074 \<le> u" using rnd_on_grid ulp_exp_ge m by metis
  have "rnd (of_int k * 2 powi (u + 1)) = of_int k * 2 powi (u + 1)"
    using k(2,3) by (intro rnd_grid_le) linarith+
  moreover have "2 * m = of_int k * 2 powi (u + 1)" by (simp add: k(1) power_int_add)
  ultimately show ?thesis by simp
qed

definition in_range :: "f64 \<Rightarrow> f64 \<Rightarrow> f64 \<Rightarrow> bool" where
  "in_range a b x \<longleftrightarrow> fle a x \<and> fle x b"

lemma midpoint_in_range:
  assumes "lo = FFin False l" "hi = FFin False h" "f64_ok lo" "f64_ok hi" "l \<le> h" "2 * h < f64_limit"
  shows "\<exists>m. midpoint lo hi = FFin False m \<and> l \<le> m \<and> m \<le> h \<and> f64_ok (midpoint lo hi)"
proof -
  have half: "flit (1 / 2) = FFin False (1 / 2)"
    using rnd_pow2 [of "- 1"] by (simp add: flit_def round64_def f64_limit_def power_int_minus)
  have r: "rnd l = l" "rnd h = h" "0 \<le> l" using assms by simp_all
  define s where "s = rnd (l + h)"
  have s: "2 * l \<le> s" "s \<le> 2 * h"
    using rnd_ge [OF rnd_double [OF r(1)], of "l + h"] rnd_le [OF rnd_double [OF r(2)], of "l + h"] assms(5)
    by (simp_all add: s_def)
  then have "fadd lo hi = FFin False s" using assms(1,2,5,6) r(3) by (simp add: round64_def s_def [symmetric])
  moreover have "l \<le> rnd (s / 2)" "rnd (s / 2) \<le> h" using rnd_ge [OF r(1)] rnd_le [OF r(2)] s by simp_all
  moreover have "h < f64_limit" using assms(6,5) r(3) by linarith
  ultimately show ?thesis using r(3) s unfolding midpoint_def half by (auto simp: round64_def)
qed

lemma five: "flit 5 = FFin False 5"
  using flit_int [of 5] by simp

lemma bisect_in_range:
  assumes "lo = FFin False l" "hi = FFin False h" "f64_ok lo" "f64_ok hi" "l \<le> h" "h \<le> 5"
  shows "\<exists>m. bisect n L mk c market lo hi f = FFin False m \<and> l \<le> m \<and> m \<le> h"
  using assms
proof (induction n arbitrary: lo hi f l h)
  case 0
  have "2 * h < f64_limit" using 0(6) by (simp add: f64_limit_def)
  then show ?case using midpoint_in_range [OF 0(1-5)] by auto
next
  case (Suc n)
  have "2 * h < f64_limit" using Suc.prems(6) by (simp add: f64_limit_def)
  then obtain m where m: "midpoint lo hi = FFin False m" "l \<le> m" "m \<le> h" "f64_ok (midpoint lo hi)"
    using midpoint_in_range [OF Suc.prems(1-5)] by auto
  show ?case
  proof (cases "flt (fabs (fsub (bs_price L (mk (midpoint lo hi)) c) market)) (flit (1 / 10 ^ 8))")
    case True
    then show ?thesis using m by simp
  next
    case False
    have "\<exists>k. bisect n L mk c market lo (midpoint lo hi) f = FFin False k \<and> l \<le> k \<and> k \<le> m" for f
      using Suc.IH [OF Suc.prems(1) m(1) Suc.prems(3) m(4,2)] m(3) Suc.prems(6) by auto
    moreover have "\<exists>k. bisect n L mk c market (midpoint lo hi) hi f = FFin False k \<and> m \<le> k \<and> k \<le> h" for f
      using Suc.IH [OF m(1) Suc.prems(2) m(4) Suc.prems(4) m(3)] Suc.prems(6) by auto
    ultimately show ?thesis using False m by (auto simp: Let_def) (meson order_trans)+
  qed
qed

lemma newton_in_range:
  "in_range (flit (1 / 10 ^ 9)) (flit 5) vol \<Longrightarrow> newton n L mk c market vol = Some v \<Longrightarrow> in_range (flit (1 / 10 ^ 9)) (flit 5) v"
  by (induction n arbitrary: vol) (auto simp: in_range_def Let_def split: if_splits)

lemma implied_vol_some:
  assumes "\<not> fle t_years fzero"
  shows "\<exists>v. implied_vol L FNan spot strike t_years rate is_call = Some v"
proof -
  have nan: "fsub x FNan = FNan" "fmul FNan x = FNan" "fdiv FNan x = FNan" "\<not> fle FNan x" "\<not> flt FNan x" for x
    by (cases x; simp add: fsub_def fle_def)+
  have "newton n L mk c FNan vol = None" for n mk c vol
    by (induction n arbitrary: vol) (simp_all add: nan Let_def)
  then show ?thesis using assms by (simp add: implied_vol_def nan Let_def)
qed

section \<open>Properties of the option library\<close>

text \<open>
  C35: the implied volatility is a volatility the search allows. Whatever the inputs, NaN included, and
  however precise the exponential and the logarithm are, a returned volatility lies between
  \<open>1e-9\<close> and \<open>5\<close>; it is never zero, negative, infinite or NaN.
\<close>

theorem implied_vol_in_range:
  assumes "implied_vol L market spot strike t_years rate is_call = Some v"
  shows "fle (flit (1 / 10 ^ 9)) v \<and> fle v (flit 5)"
proof -
  let ?mk = "\<lambda>vol. \<lparr>bsi_spot = spot, bsi_strike = strike, bsi_t_years = t_years, bsi_rate = rate, bsi_vol = vol\<rparr>"
  let ?lo = "flit (1 / 10 ^ 6)" and ?f = "fsub (bs_price L (?mk (flit (1 / 10 ^ 6))) is_call) market"
  have "fle (flit (1 / 10 ^ 9)) (flit (1 / 5))" "fle (flit (1 / 5)) (flit 5)" "fle (flit (1 / 10 ^ 9)) ?lo" "fle ?lo (flit 5)"
    unfolding flit_def by (rule round64_mono, simp)+
  then have seed: "in_range (flit (1 / 10 ^ 9)) (flit 5) (flit (1 / 5))"
    and lo: "fle (flit (1 / 10 ^ 9)) ?lo" "fle ?lo (flit 5)" by (simp_all add: in_range_def)
  have "newton 100 L ?mk is_call market (flit (1 / 5)) = Some v \<or> v = bisect 200 L ?mk is_call market ?lo (flit 5) ?f"
    using assms by (auto simp: implied_vol_def Let_def split: if_splits option.splits)
  then show ?thesis
  proof
    assume "newton 100 L ?mk is_call market (flit (1 / 5)) = Some v"
    then show ?thesis using newton_in_range [OF seed] by (simp add: in_range_def)
  next
    assume v: "v = bisect 200 L ?mk is_call market ?lo (flit 5) ?f"
    have "rnd (1 / 10 ^ 6) \<le> 5" using rnd_le [of 5 "1 / 10 ^ 6"] rnd_int [of 5] by simp
    moreover have "(5::rat) < f64_limit" by (simp add: f64_limit_def)
    ultimately obtain l where l: "?lo = FFin False l" "l \<le> 5" by (simp add: flit_def round64_def)
    have "f64_ok ?lo" "f64_ok (flit 5)" by simp_all
    then obtain m where m: "v = FFin False m" "l \<le> m" "m \<le> 5"
      using bisect_in_range [OF l(1) five _ _ l(2)] v by blast
    have "fle ?lo v" "fle v (flit 5)" using m l by (simp_all add: l(1) five fle_fin)
    then show ?thesis using lo(1) fle_trans by blast
  qed
qed

text \<open>
  A NaN premium has an implied volatility. No volatility reproduces a market price that is NaN, yet
  for every positive time to expiry the search returns one instead of \<open>None\<close>, and it does not reprice
  the premium.
\<close>

theorem implied_vol_of_nan:
  assumes "\<not> fle t_years fzero"
  shows "\<exists>v. implied_vol L FNan spot strike t_years rate is_call = Some v \<and>
    \<not> flt (fabs (fsub (bs_price L \<lparr>bsi_spot = spot, bsi_strike = strike, bsi_t_years = t_years, bsi_rate = rate, bsi_vol = v\<rparr> is_call) FNan))
      (flit (1 / 10 ^ 8))"
proof -
  have "\<not> flt (fabs (fsub x FNan)) y" for x y by (cases x; cases y) (simp_all add: fsub_def)
  then show ?thesis using implied_vol_some [OF assms] by blast
qed

text \<open>
  An option past its expiry has no price. With a negative time to expiry the square root is NaN, the
  test for degenerate inputs does not catch it, and the price is NaN instead of the intrinsic value.
\<close>

theorem expired_price_is_nan:
  assumes "flt (bsi_t_years i) fzero" "flt fzero (bsi_spot i)" "flt fzero (bsi_strike i)" "f64_ok (bsi_t_years i)"
  shows "bs_price L i is_call = FNan"
proof -
  have nan: "fadd x FNan = FNan" "fsub x FNan = FNan" "fsub FNan x = FNan" "fmul x FNan = FNan" "fmul FNan x = FNan"
    "fdiv x FNan = FNan" "fdiv FNan x = FNan" "\<not> fle FNan x" "\<not> flt FNan x" for x
    by (cases x; simp add: fsub_def fle_def)+
  have "fsqrt (bsi_t_years i) = FNan" using assms(1,4) by (cases "bsi_t_years i") (auto split: if_splits)
  moreover have "\<not> fle (bsi_spot i) fzero" "\<not> fle (bsi_strike i) fzero"
    using assms(2,3) by (cases "bsi_spot i"; cases "bsi_strike i"; auto simp: fle_def)+
  ultimately have "d1d2 L i = Some (FNan, FNan)" by (simp add: d1d2_def nan Let_def)
  moreover have "norm_cdf L FNan = FNan" by (simp add: norm_cdf_def erf_def nan Let_def)
  ultimately show ?thesis by (simp add: bs_price_def nan Let_def)
qed

text \<open>An instance of the functions left open, for evaluation at concrete inputs.\<close>

definition flat_libm :: libm where
  "flat_libm = \<lparr>lm_exp = (\<lambda>_. flit 1), lm_ln = (\<lambda>_. fzero)\<rparr>"

theorem implied_vol_of_nan_witness:
  "\<exists>v. implied_vol flat_libm FNan (flit 100) (flit 100) (flit 1) fzero True = Some v"
proof -
  have "\<not> fle (flit 1) fzero" using flit_int [of 1] by (simp add: fle_def)
  from implied_vol_of_nan [OF this] show ?thesis by blast
qed

theorem implied_vol_in_range_witness:
  "\<exists>v. implied_vol flat_libm FNan (flit 100) (flit 90) (flit 1) fzero True = Some v \<and>
    fle (flit (1 / 10 ^ 9)) v \<and> fle v (flit 5)"
proof -
  obtain v where "implied_vol flat_libm FNan (flit 100) (flit 90) (flit 1) fzero True = Some v"
    using implied_vol_some flit_int [of 1] by (force simp: fle_def)
  then show ?thesis using implied_vol_in_range by blast
qed

theorem expired_price_is_nan_witness:
  "bs_price flat_libm \<lparr>bsi_spot = FFin False 110, bsi_strike = FFin False 100, bsi_t_years = FFin True 1, bsi_rate = fzero, bsi_vol = flit (1 / 5)\<rparr> True = FNan"
proof (rule expired_price_is_nan)
  show "f64_ok (bsi_t_years \<lparr>bsi_spot = FFin False 110, bsi_strike = FFin False 100, bsi_t_years = FFin True 1, bsi_rate = fzero, bsi_vol = flit (1 / 5)\<rparr>)"
    using rnd_int [of 1] by (simp add: f64_limit_def)
qed simp_all

end
