(* ===== verification/Bridge.thy ===== *)
theory Bridge
  imports Report Feed Indicators Derivatives
begin

text \<open>
  \<open>foundation/crates/coinext-py/src/lib.rs\<close>, the strategy side: the context a Python handler is
  given (\<open>PyCtx\<close>), the intents it queues, and \<open>PyStrategyAdapter\<close>, which runs a handler on a
  snapshot of the state and replays the queued intents onto the real \<open>StrategyContext\<close>.

  The Python object is user code behind the language boundary. A handler is a tree of the calls it
  makes on its context, each branching on the reply, which ends by returning or by raising; either
  way it leaves the object in a new state. Every error the bridge raises is a \<open>ValueError\<close>; its
  text is kept as the value it displays. Strings are ASCII.
\<close>

section \<open>Values handed to Python\<close>

record py_bar =
  yb_symbol :: string
  yb_close :: f64
  yb_open :: f64
  yb_high :: f64
  yb_low :: f64
  yb_volume :: f64
  yb_ts :: u64

record py_fill =
  yf_symbol :: string
  yf_side :: int
  yf_qty :: f64
  yf_price :: f64
  yf_client_order_id :: string

record py_order_event =
  ye_kind :: string
  ye_reason :: "reason option"

record py_timer =
  yt_name :: string
  yt_ts :: u64

record py_quote =
  yq_symbol :: string
  yq_bid :: f64
  yq_ask :: f64
  yq_bid_size :: f64
  yq_ask_size :: f64
  yq_ts :: u64

record py_trade =
  yr_symbol :: string
  yr_price :: f64
  yr_size :: f64
  yr_ts :: u64

record py_order_book =
  yo_symbol :: string
  yo_best_bid :: "f64 option"
  yo_best_ask :: "f64 option"
  yo_best_bid_size :: "f64 option"
  yo_best_ask_size :: "f64 option"
  yo_mid :: "f64 option"
  yo_bids :: "(f64 \<times> f64) list"
  yo_asks :: "(f64 \<times> f64) list"
  yo_ts :: u64

section \<open>The context of a handler\<close>

datatype py_error =
    ErrModel model_error
  | ErrUnknownSymbol string
  | ErrText string
  | ErrPort port_error

datatype py_intent =
    IntentSubmit string f64 "f64 option" "f64 option" "f64 option" "string option"
  | IntentCancel string
  | IntentSetTimer string u64

record py_ctx =
  px_now :: u64
  px_signed_positions :: "string \<rightharpoonup> f64"
  px_default_symbol :: string
  px_metas :: "string \<rightharpoonup> nat \<times> nat"
  px_strategy_id :: string
  px_base_seq :: u64
  px_submit_count :: u64
  px_outbox :: "py_intent list"

definition next_coid :: "py_ctx \<Rightarrow> client_order_id \<times> py_ctx" where
  "next_coid c =
     (let n = px_submit_count c + 1
      in (px_strategy_id c @ ''-'' @ fmt020 (unat (px_base_seq c + n)), c\<lparr>px_submit_count := n\<rparr>))"

definition py_resolve :: "string option \<Rightarrow> py_ctx \<Rightarrow> py_error + (string \<times> nat \<times> nat)" where
  "py_resolve sy c =
     (let s = (case sy of Some s \<Rightarrow> s | None \<Rightarrow> px_default_symbol c)
      in case px_metas c s of
           Some (pp, sp) \<Rightarrow> Ok (s, pp, sp)
         | None \<Rightarrow> Err (ErrUnknownSymbol s))"

definition py_position :: "string option \<Rightarrow> py_ctx \<Rightarrow> f64" where
  "py_position sy c =
     (case px_signed_positions c (case sy of Some s \<Rightarrow> s | None \<Rightarrow> px_default_symbol c) of
        Some q \<Rightarrow> q | None \<Rightarrow> fzero)"

definition vexc :: "model_error + 'a \<Rightarrow> py_error + 'a" where
  "vexc r = (case r of Inl e \<Rightarrow> Err (ErrModel e) | Inr x \<Rightarrow> Ok x)"

abbreviation px_of :: "float_env \<Rightarrow> f64 \<Rightarrow> nat \<Rightarrow> price mresult" where
  "px_of F \<equiv> price_from_f64 is_finite (fe_retain F) (fe_dec F)"

abbreviation qx_of :: "float_env \<Rightarrow> f64 \<Rightarrow> nat \<Rightarrow> quantity mresult" where
  "qx_of F \<equiv> qty_from_f64 is_finite (fe_retain F) (fe_dec F)"

text \<open>Queue an intent and answer with the id it will get.\<close>

definition py_queue :: "py_intent \<Rightarrow> py_ctx \<Rightarrow> client_order_id \<times> py_ctx" where
  "py_queue i c = next_coid (c\<lparr>px_outbox := px_outbox c @ [i]\<rparr>)"

definition py_submit_market ::
  "float_env \<Rightarrow> string \<Rightarrow> f64 \<Rightarrow> string option \<Rightarrow> py_ctx \<Rightarrow> py_error + client_order_id \<times> py_ctx" where
  "py_submit_market F side qty sy c =
     result_bind (py_resolve sy c) (\<lambda>(_, pp, sp).
     result_bind (vexc (qx_of F qty sp)) (\<lambda>_.
     Ok (py_queue (IntentSubmit side qty None None None sy) c)))"

definition py_submit_limit ::
  "float_env \<Rightarrow> string \<Rightarrow> f64 \<Rightarrow> f64 \<Rightarrow> string option \<Rightarrow> py_ctx \<Rightarrow> py_error + client_order_id \<times> py_ctx" where
  "py_submit_limit F side qty px sy c =
     result_bind (py_resolve sy c) (\<lambda>(_, pp, sp).
     result_bind (vexc (qx_of F qty sp)) (\<lambda>_.
     result_bind (vexc (px_of F px pp)) (\<lambda>_.
     Ok (py_queue (IntentSubmit side qty (Some px) None None sy) c))))"

definition py_submit_stop ::
  "float_env \<Rightarrow> string \<Rightarrow> f64 \<Rightarrow> f64 \<Rightarrow> string option \<Rightarrow> py_ctx \<Rightarrow> py_error + client_order_id \<times> py_ctx" where
  "py_submit_stop F side qty trig sy c =
     result_bind (py_resolve sy c) (\<lambda>(_, pp, sp).
     result_bind (vexc (qx_of F qty sp)) (\<lambda>_.
     result_bind (vexc (px_of F trig pp)) (\<lambda>_.
     Ok (py_queue (IntentSubmit side qty None (Some trig) None sy) c))))"

definition py_submit_stop_limit ::
  "float_env \<Rightarrow> string \<Rightarrow> f64 \<Rightarrow> f64 \<Rightarrow> f64 \<Rightarrow> string option \<Rightarrow> py_ctx \<Rightarrow> py_error + client_order_id \<times> py_ctx" where
  "py_submit_stop_limit F side qty trig px sy c =
     result_bind (py_resolve sy c) (\<lambda>(_, pp, sp).
     result_bind (vexc (qx_of F qty sp)) (\<lambda>_.
     result_bind (vexc (px_of F trig pp)) (\<lambda>_.
     result_bind (vexc (px_of F px pp)) (\<lambda>_.
     Ok (py_queue (IntentSubmit side qty (Some px) (Some trig) None sy) c)))))"

definition py_submit_trailing ::
  "float_env \<Rightarrow> string \<Rightarrow> f64 \<Rightarrow> f64 \<Rightarrow> string option \<Rightarrow> py_ctx \<Rightarrow> py_error + client_order_id \<times> py_ctx" where
  "py_submit_trailing F side qty off sy c =
     result_bind (py_resolve sy c) (\<lambda>(_, pp, sp).
     result_bind (vexc (qx_of F qty sp)) (\<lambda>_.
     result_bind (vexc (px_of F off pp)) (\<lambda>o'.
     if p_raw o' \<le> 0 then Err (ErrText ''trailing stop offset must be > 0'')
     else Ok (py_queue (IntentSubmit side qty None None (Some off) sy) c))))"

definition py_cancel :: "client_order_id \<Rightarrow> py_ctx \<Rightarrow> py_ctx" where
  "py_cancel i c = c\<lparr>px_outbox := px_outbox c @ [IntentCancel i]\<rparr>"

definition py_set_timer :: "string \<Rightarrow> u64 \<Rightarrow> py_ctx \<Rightarrow> py_ctx" where
  "py_set_timer nm t c = c\<lparr>px_outbox := px_outbox c @ [IntentSetTimer nm t]\<rparr>"

section \<open>Python code\<close>

datatype py_call =
    PyNow
  | PyPosition "string option"
  | PySubmitMarket string f64 "string option"
  | PySubmitLimit string f64 f64 "string option"
  | PySubmitStop string f64 f64 "string option"
  | PySubmitStopLimit string f64 f64 f64 "string option"
  | PySubmitTrailing string f64 f64 "string option"
  | PyCancel client_order_id
  | PySetTimer string u64

datatype py_reply = ReplyNow u64 | ReplyQty f64 | ReplyId client_order_id | ReplyRaised py_error | ReplyNone

fun id_reply :: "py_ctx \<Rightarrow> py_error + client_order_id \<times> py_ctx \<Rightarrow> py_reply \<times> py_ctx" where
  "id_reply c (Inl e) = (ReplyRaised e, c)"
| "id_reply c (Inr (i, c')) = (ReplyId i, c')"

text \<open>A method of the context as Python sees it: the reply and the context afterwards.\<close>

fun py_step :: "float_env \<Rightarrow> py_call \<Rightarrow> py_ctx \<Rightarrow> py_reply \<times> py_ctx" where
  "py_step F PyNow c = (ReplyNow (px_now c), c)"
| "py_step F (PyPosition sy) c = (ReplyQty (py_position sy c), c)"
| "py_step F (PySubmitMarket side q sy) c = id_reply c (py_submit_market F side q sy c)"
| "py_step F (PySubmitLimit side q px sy) c = id_reply c (py_submit_limit F side q px sy c)"
| "py_step F (PySubmitStop side q t sy) c = id_reply c (py_submit_stop F side q t sy c)"
| "py_step F (PySubmitStopLimit side q t px sy) c = id_reply c (py_submit_stop_limit F side q t px sy c)"
| "py_step F (PySubmitTrailing side q off sy) c = id_reply c (py_submit_trailing F side q off sy c)"
| "py_step F (PyCancel i) c = (ReplyNone, py_cancel i c)"
| "py_step F (PySetTimer nm t) c = (ReplyNone, py_set_timer nm t c)"

datatype 'p py_code = PyReturn 'p | PyRaise 'p | PyAsk py_call "py_reply \<Rightarrow> 'p py_code"

text \<open>The code against any interpretation of its calls: what it left, and the calls with their replies.\<close>

primrec run_code ::
  "(py_call \<Rightarrow> 'z \<Rightarrow> py_reply \<times> 'z) \<Rightarrow> 'p py_code \<Rightarrow> 'z \<Rightarrow> 'p \<times> (py_call \<times> py_reply) list \<times> 'z" where
  "run_code step (PyReturn p) z = (p, [], z)"
| "run_code step (PyRaise p) z = (p, [], z)"
| "run_code step (PyAsk c k) z =
     (let (r, z1) = step c z; (p, tr, z2) = run_code step (k r) z1 in (p, (c, r) # tr, z2))"

text \<open>A strategy object: one method per event. A missing method raises at once.\<close>

record 'p py_strategy =
  py_on_start :: "'p \<Rightarrow> 'p py_code"
  py_on_bar :: "py_bar \<Rightarrow> 'p \<Rightarrow> 'p py_code"
  py_on_quote :: "py_quote \<Rightarrow> 'p \<Rightarrow> 'p py_code"
  py_on_trade :: "py_trade \<Rightarrow> 'p \<Rightarrow> 'p py_code"
  py_on_book :: "py_order_book \<Rightarrow> 'p \<Rightarrow> 'p py_code"
  py_on_order_filled :: "py_fill \<Rightarrow> 'p \<Rightarrow> 'p py_code"
  py_on_order_event :: "py_order_event \<Rightarrow> 'p \<Rightarrow> 'p py_code"
  py_on_timer :: "py_timer \<Rightarrow> 'p \<Rightarrow> 'p py_code"
  py_on_stop :: "'p \<Rightarrow> 'p py_code"

section \<open>The adapter\<close>

record instrument_meta =
  im_iid :: instrument_id
  im_price_precision :: nat
  im_size_precision :: nat

record 'p py_adapter =
  ad_obj :: "'p py_strategy"
  ad_instruments :: "string \<rightharpoonup> instrument_meta"
  ad_default_symbol :: string
  ad_strategy_id :: string

definition signed_qty :: "float_env \<Rightarrow> strategy_context \<Rightarrow> instrument_id \<Rightarrow> f64" where
  "signed_qty F x i =
     (case cache_position (sx_cache x) i of
        Some p \<Rightarrow> (case ps_side p of
            Long \<Rightarrow> qx_f64 F (ps_quantity p)
          | Short \<Rightarrow> fneg (qx_f64 F (ps_quantity p))
          | Flat \<Rightarrow> fzero)
      | None \<Rightarrow> fzero)"

fun order_event_kind :: "order_event \<Rightarrow> string \<times> reason option" where
  "order_event_kind (EvInitialized _ _ _ _ _ _ _ _ _ _) = (''initialized'', None)"
| "order_event_kind (EvSubmitted _) = (''submitted'', None)"
| "order_event_kind (EvAccepted _ _) = (''accepted'', None)"
| "order_event_kind (EvPendingUpdate _) = (''pending_update'', None)"
| "order_event_kind (EvUpdated _ _ _) = (''updated'', None)"
| "order_event_kind (EvPendingCancel _) = (''pending_cancel'', None)"
| "order_event_kind (EvPartiallyFilled _) = (''partially_filled'', None)"
| "order_event_kind (EvFilled _) = (''filled'', None)"
| "order_event_kind (EvDenied r _) = (''denied'', Some r)"
| "order_event_kind (EvRejected r _) = (''rejected'', Some r)"
| "order_event_kind (EvCanceled _) = (''canceled'', None)"
| "order_event_kind (EvExpired _) = (''expired'', None)"

definition adapter_snapshot :: "float_env \<Rightarrow> 'p py_adapter \<Rightarrow> strategy_context \<Rightarrow> string \<rightharpoonup> f64" where
  "adapter_snapshot F a x s = map_option (\<lambda>m. signed_qty F x (im_iid m)) (ad_instruments a s)"

definition adapter_ctx :: "float_env \<Rightarrow> 'p py_adapter \<Rightarrow> strategy_context \<Rightarrow> py_ctx" where
  "adapter_ctx F a x =
     \<lparr>px_now = hc_now (sx_clock x), px_signed_positions = adapter_snapshot F a x,
      px_default_symbol = ad_default_symbol a,
      px_metas = (\<lambda>s. map_option (\<lambda>m. (im_price_precision m, im_size_precision m)) (ad_instruments a s)),
      px_strategy_id = ad_strategy_id a, px_base_seq = of_seq (sx_factory x), px_submit_count = 0, px_outbox = []\<rparr>"

definition py_side :: "string \<Rightarrow> order_side" where
  "py_side s = (if to_ascii_lowercase s = ''sell'' then Sell else Buy)"

text \<open>The call an intent becomes, if any.\<close>

definition replay_submit ::
  "float_env \<Rightarrow> instrument_meta \<Rightarrow> order_side \<Rightarrow> quantity \<Rightarrow> f64 option \<Rightarrow> f64 option \<Rightarrow> f64 option \<Rightarrow> ctx_call option" where
  "replay_submit F m side q limit_px trigger trail =
     (let mk = (\<lambda>v. result_ok (px_of F v (im_price_precision m)))
      in case trail of
           Some off \<Rightarrow> map_option (CallSubmitTrailingStop (im_iid m) side q) (mk off)
         | None \<Rightarrow> (case (trigger, limit_px) of
             (Some trig, Some px) \<Rightarrow> do { t \<leftarrow> mk trig; p \<leftarrow> mk px; Some (CallSubmitStopLimit (im_iid m) side q t p) }
           | (Some trig, None) \<Rightarrow> map_option (CallSubmitStopMarket (im_iid m) side q) (mk trig)
           | (None, Some px) \<Rightarrow> map_option (CallSubmitLimit (im_iid m) side q) (mk px)
           | (None, None) \<Rightarrow> Some (CallSubmitMarket (im_iid m) side q)))"

fun replay_intent :: "float_env \<Rightarrow> 'p py_adapter \<Rightarrow> py_intent \<Rightarrow> ctx_call option" where
  "replay_intent F a (IntentSubmit side qty limit_px trigger trail sy) = do {
     m \<leftarrow> ad_instruments a (case sy of Some s \<Rightarrow> s | None \<Rightarrow> ad_default_symbol a);
     q \<leftarrow> result_ok (qx_of F qty (im_size_precision m));
     replay_submit F m (py_side side) q limit_px trigger trail }"
| "replay_intent F a (IntentCancel i) = Some (CallCancel i)"
| "replay_intent F a (IntentSetTimer nm t) = Some (CallSetTimer nm t)"

definition py_replay :: "float_env \<Rightarrow> 'p py_adapter \<Rightarrow> py_intent list \<Rightarrow> ctx_call list" where
  "py_replay F a intents = List.map_filter (replay_intent F a) intents"

text \<open>\<open>run_handler\<close>: snapshot, run the method on a fresh context, replay its outbox.\<close>

definition run_handler :: "float_env \<Rightarrow> 'p py_adapter \<Rightarrow> ('p \<Rightarrow> 'p py_code) \<Rightarrow> 'p handler" where
  "run_handler F a call x st =
     (let (st', tr, c) = run_code (py_step F) (call st) (adapter_ctx F a x)
      in (py_replay F a (px_outbox c), st'))"

section \<open>The strategy trait\<close>

definition bar_view :: "float_env \<Rightarrow> bar \<Rightarrow> py_bar" where
  "bar_view F b =
     \<lparr>yb_symbol = ii_symbol (bt_instrument_id (b_bar_type b)), yb_close = px_f64 F (b_close b),
      yb_open = px_f64 F (b_open b), yb_high = px_f64 F (b_high b), yb_low = px_f64 F (b_low b),
      yb_volume = qx_f64 F (b_volume b), yb_ts = b_ts_event b\<rparr>"

definition quote_view :: "float_env \<Rightarrow> quote_tick \<Rightarrow> py_quote" where
  "quote_view F q =
     \<lparr>yq_symbol = ii_symbol (qt_instrument_id q), yq_bid = px_f64 F (qt_bid q), yq_ask = px_f64 F (qt_ask q),
      yq_bid_size = qx_f64 F (qt_bid_size q), yq_ask_size = qx_f64 F (qt_ask_size q), yq_ts = qt_ts_event q\<rparr>"

definition trade_view :: "float_env \<Rightarrow> trade_tick \<Rightarrow> py_trade" where
  "trade_view F t =
     \<lparr>yr_symbol = ii_symbol (tt_instrument_id t), yr_price = px_f64 F (tt_price t),
      yr_size = qx_f64 F (tt_size t), yr_ts = tt_ts_event t\<rparr>"

definition book_view :: "float_env \<Rightarrow> order_book \<Rightarrow> py_order_book" where
  "book_view F b =
     (let bb = best_bid b; ba = best_ask b; level = (\<lambda>(p, q). (px_f64 F p, qx_f64 F q))
      in \<lparr>yo_symbol = ii_symbol (ob_instrument_id b),
          yo_best_bid = map_option (\<lambda>(p, _). px_f64 F p) bb, yo_best_ask = map_option (\<lambda>(p, _). px_f64 F p) ba,
          yo_best_bid_size = map_option (\<lambda>(_, q). qx_f64 F q) bb, yo_best_ask_size = map_option (\<lambda>(_, q). qx_f64 F q) ba,
          yo_mid = map_option (px_f64 F) (book_mid b),
          yo_bids = map level (book_bids b), yo_asks = map level (book_asks b), yo_ts = ob_ts_last b\<rparr>)"

definition fill_view :: "float_env \<Rightarrow> fill \<Rightarrow> py_fill" where
  "fill_view F f =
     \<lparr>yf_symbol = ii_symbol (f_instrument_id f), yf_side = side_sign (f_side f), yf_qty = qx_f64 F (f_last_qty f),
      yf_price = px_f64 F (f_last_px f), yf_client_order_id = f_client_order_id f\<rparr>"

definition event_view :: "order_event \<Rightarrow> py_order_event" where
  "event_view e = (let (kind, reason) = order_event_kind e in \<lparr>ye_kind = kind, ye_reason = reason\<rparr>)"

definition timer_view :: "timer_event \<Rightarrow> py_timer" where
  "timer_view t = \<lparr>yt_name = te_name t, yt_ts = te_ts t\<rparr>"

definition adapter_strategy :: "float_env \<Rightarrow> 'p py_adapter \<Rightarrow> 'p strategy" where
  "adapter_strategy F a =
     (let run = run_handler F a; obj = ad_obj a
      in \<lparr>st_on_start = run (py_on_start obj),
          st_on_quote = (\<lambda>q. run (py_on_quote obj (quote_view F q))),
          st_on_trade = (\<lambda>t. run (py_on_trade obj (trade_view F t))),
          st_on_bar = (\<lambda>b. run (py_on_bar obj (bar_view F b))),
          st_on_book = (\<lambda>b. run (py_on_book obj (book_view F b))),
          st_on_order_event = (\<lambda>e. run (py_on_order_event obj (event_view e))),
          st_on_order_filled = (\<lambda>f. run (py_on_order_filled obj (fill_view F f))),
          st_on_timer = (\<lambda>t. run (py_on_timer obj (timer_view t))),
          st_on_stop = run (py_on_stop obj)\<rparr>)"

section \<open>The specification: Python code on the real context\<close>

text \<open>
  What the calls would mean if the handler held the real context: every submit that can be
  converted is executed at once, and reads look at the current state.
\<close>

definition direct_submit ::
  "float_env \<Rightarrow> 'p py_adapter \<Rightarrow> string option \<Rightarrow> f64 \<Rightarrow>
   (instrument_meta \<Rightarrow> quantity \<Rightarrow> py_error + (strategy_context \<Rightarrow> client_order_id \<times> strategy_context)) \<Rightarrow>
   strategy_context \<Rightarrow> py_reply \<times> strategy_context" where
  "direct_submit F a sy qty act x =
     (let s = (case sy of Some s \<Rightarrow> s | None \<Rightarrow> ad_default_symbol a)
      in case ad_instruments a s of
           None \<Rightarrow> (ReplyRaised (ErrUnknownSymbol s), x)
         | Some m \<Rightarrow>
             (case result_bind (vexc (qx_of F qty (im_size_precision m))) (act m) of
                Inl e \<Rightarrow> (ReplyRaised e, x)
              | Inr f \<Rightarrow> (let (i, x') = f x in (ReplyId i, x'))))"

fun direct_step :: "float_env \<Rightarrow> 'p py_adapter \<Rightarrow> py_call \<Rightarrow> strategy_context \<Rightarrow> py_reply \<times> strategy_context" where
  "direct_step F a PyNow x = (ReplyNow (hc_now (sx_clock x)), x)"
| "direct_step F a (PyPosition sy) x =
     (ReplyQty (case ad_instruments a (case sy of Some s \<Rightarrow> s | None \<Rightarrow> ad_default_symbol a) of
        Some m \<Rightarrow> signed_qty F x (im_iid m) | None \<Rightarrow> fzero), x)"
| "direct_step F a (PySubmitMarket side q sy) x =
     direct_submit F a sy q (\<lambda>m q. Ok (submit_market (im_iid m) (py_side side) q)) x"
| "direct_step F a (PySubmitLimit side q px sy) x =
     direct_submit F a sy q (\<lambda>m q.
       result_bind (vexc (px_of F px (im_price_precision m))) (\<lambda>p. Ok (submit_limit (im_iid m) (py_side side) q p))) x"
| "direct_step F a (PySubmitStop side q t sy) x =
     direct_submit F a sy q (\<lambda>m q.
       result_bind (vexc (px_of F t (im_price_precision m))) (\<lambda>t. Ok (submit_stop_market (im_iid m) (py_side side) q t))) x"
| "direct_step F a (PySubmitStopLimit side q t px sy) x =
     direct_submit F a sy q (\<lambda>m q.
       result_bind (vexc (px_of F t (im_price_precision m))) (\<lambda>t.
       result_bind (vexc (px_of F px (im_price_precision m))) (\<lambda>p.
         Ok (submit_stop_limit (im_iid m) (py_side side) q t p)))) x"
| "direct_step F a (PySubmitTrailing side q off sy) x =
     direct_submit F a sy q (\<lambda>m q.
       result_bind (vexc (px_of F off (im_price_precision m))) (\<lambda>p.
         if p_raw p \<le> 0 then Err (ErrText ''trailing stop offset must be > 0'')
         else Ok (submit_trailing_stop (im_iid m) (py_side side) q p))) x"
| "direct_step F a (PyCancel i) x = (ReplyNone, ctx_cancel i x)"
| "direct_step F a (PySetTimer nm t) x = (ReplyNone, snd (ctx_set_timer nm t x))"

section \<open>Replaying is executing\<close>

text \<open>
  A queued context \<open>c\<close> stands for the real context that replaying its outbox onto the context of
  the snapshot yields.
\<close>

definition stands_for :: "float_env \<Rightarrow> 'p py_adapter \<Rightarrow> strategy_context \<Rightarrow> py_ctx \<Rightarrow> strategy_context \<Rightarrow> bool" where
  "stands_for F a x0 c x \<longleftrightarrow>
     c\<lparr>px_submit_count := 0, px_outbox := []\<rparr> = adapter_ctx F a x0 \<and>
     fold run_call (py_replay F a (px_outbox c)) x0 = x \<and>
     of_strategy_id (sx_factory x) = ad_strategy_id a \<and> of_seq (sx_factory x) = px_base_seq c + px_submit_count c \<and>
     sx_cache x = sx_cache x0 \<and> hc_now (sx_clock x) = hc_now (sx_clock x0)"

lemma py_replay_snoc:
  "py_replay F a (is @ [i]) = py_replay F a is @ (case replay_intent F a i of None \<Rightarrow> [] | Some c \<Rightarrow> [c])"
  by (simp add: py_replay_def List.map_filter_def split: option.split)

lemma submit_simps:
  "sx_factory (ctx_submit o' x) = sx_factory x" "sx_cache (ctx_submit o' x) = sx_cache x"
  "sx_clock (ctx_submit o' x) = sx_clock x" "sx_outbox (ctx_submit o' x) = sx_outbox x @ [CmdSubmit o']"
  by (simp_all add: ctx_submit_def)

text \<open>Every submit of the context mints one id and appends one command that carries it.\<close>

definition one_submit :: "strategy_context \<Rightarrow> client_order_id \<times> strategy_context \<Rightarrow> bool" where
  "one_submit x r \<longleftrightarrow>
     fst r = fst (next_id (sx_factory x)) \<and> sx_factory (snd r) = snd (next_id (sx_factory x)) \<and>
     sx_cache (snd r) = sx_cache x \<and> sx_clock (snd r) = sx_clock x \<and>
     (\<exists>o'. sx_outbox (snd r) = sx_outbox x @ [CmdSubmit o'] \<and> o_client_order_id o' = fst r)"

lemmas submits = submit_market_def submit_limit_def submit_stop_market_def submit_stop_limit_def submit_trailing_stop_def

lemma submit_one:
  "one_submit x (submit_market i s q x)" "one_submit x (submit_limit i s q p x)"
  "one_submit x (submit_stop_market i s q p x)" "one_submit x (submit_stop_limit i s q p t x)"
  "one_submit x (submit_trailing_stop i s q p x)"
  by (simp_all add: one_submit_def submits Let_def split_beta submit_simps factory_ids)

lemma stands_fields:
  assumes "stands_for F a x0 c x"
  shows "px_now c = hc_now (sx_clock x)" "px_signed_positions c = adapter_snapshot F a x"
    "px_default_symbol c = ad_default_symbol a" "px_strategy_id c = ad_strategy_id a"
    "px_metas c = (\<lambda>s. map_option (\<lambda>m. (im_price_precision m, im_size_precision m)) (ad_instruments a s))"
proof -
  have e: "c\<lparr>px_submit_count := 0, px_outbox := []\<rparr> = adapter_ctx F a x0" and
    x: "sx_cache x = sx_cache x0" "hc_now (sx_clock x) = hc_now (sx_clock x0)"
    using assms by (simp_all add: stands_for_def)
  show "px_now c = hc_now (sx_clock x)" using arg_cong [OF e, of px_now] x by (simp add: adapter_ctx_def)
  show "px_signed_positions c = adapter_snapshot F a x"
    using arg_cong [OF e, of px_signed_positions] x by (simp add: adapter_ctx_def adapter_snapshot_def signed_qty_def fun_eq_iff)
  show "px_default_symbol c = ad_default_symbol a" using arg_cong [OF e, of px_default_symbol] by (simp add: adapter_ctx_def)
  show "px_strategy_id c = ad_strategy_id a" using arg_cong [OF e, of px_strategy_id] by (simp add: adapter_ctx_def)
  show "px_metas c = (\<lambda>s. map_option (\<lambda>m. (im_price_precision m, im_size_precision m)) (ad_instruments a s))"
    using arg_cong [OF e, of px_metas] by (simp add: adapter_ctx_def)
qed

lemma stands_resolve:
  assumes "stands_for F a x0 c x" "s = (case sy of Some s \<Rightarrow> s | None \<Rightarrow> ad_default_symbol a)"
  shows "py_resolve sy c =
    (case ad_instruments a s of
       None \<Rightarrow> Err (ErrUnknownSymbol s)
     | Some m \<Rightarrow> Ok (s, im_price_precision m, im_size_precision m))"
  using stands_fields [OF assms(1)] by (simp add: py_resolve_def Let_def assms(2) split: option.split)

lemma stands_queue:
  assumes "stands_for F a x0 c x" "replay_intent F a i = Some cl" "run_call cl x = snd r" "one_submit x r"
  shows "fst (py_queue i c) = fst r" "stands_for F a x0 (snd (py_queue i c)) (snd r)"
proof -
  note st = assms(1) [unfolded stands_for_def]
  show "fst (py_queue i c) = fst r"
    using st stands_fields(4) [OF assms(1)] assms(4)
    by (simp add: py_queue_def next_coid_def one_submit_def next_id_eq Let_def add.assoc)
  show "stands_for F a x0 (snd (py_queue i c)) (snd r)"
    using st assms(2-4)
    by (simp add: stands_for_def py_queue_def next_coid_def one_submit_def next_id_eq Let_def py_replay_snoc add.assoc)
qed

lemma stands_push:
  assumes "stands_for F a x0 c x" "replay_intent F a i = Some cl"
    "sx_factory (run_call cl x) = sx_factory x" "sx_cache (run_call cl x) = sx_cache x"
    "hc_now (sx_clock (run_call cl x)) = hc_now (sx_clock x)"
  shows "stands_for F a x0 (c\<lparr>px_outbox := px_outbox c @ [i]\<rparr>) (run_call cl x)"
  using assms by (simp add: stands_for_def py_replay_snoc)

text \<open>A queued submit against a direct one.\<close>

lemma stands_submit:
  assumes st: "stands_for F a x0 c x"
    and py: "\<And>m. ad_instruments a s = Some m \<Longrightarrow>
      sub = result_bind (vexc (qx_of F qty (im_size_precision m))) (\<lambda>q. result_bind (act m q) (\<lambda>_. Ok (py_queue i c)))"
    and unk: "ad_instruments a s = None \<Longrightarrow> sub = Err (ErrUnknownSymbol s)"
    and s: "s = (case sy of Some s \<Rightarrow> s | None \<Rightarrow> ad_default_symbol a)"
    and act: "\<And>m q f. ad_instruments a s = Some m \<Longrightarrow> qx_of F qty (im_size_precision m) = Ok q \<Longrightarrow> act m q = Ok f \<Longrightarrow>
      \<exists>cl. replay_intent F a i = Some cl \<and> run_call cl x = snd (f x) \<and> one_submit x (f x)"
  shows "fst (direct_submit F a sy qty act x) = fst (id_reply c sub) \<and>
    stands_for F a x0 (snd (id_reply c sub)) (snd (direct_submit F a sy qty act x))"
proof (cases "ad_instruments a s")
  case None
  then show ?thesis using unk st by (simp add: direct_submit_def s [symmetric])
next
  case (Some m)
  show ?thesis
  proof (cases "qx_of F qty (im_size_precision m)")
    case (Inl e)
    then show ?thesis using Some py st by (simp add: direct_submit_def s [symmetric] vexc_def)
  next
    case (Inr q)
    show ?thesis
    proof (cases "act m q")
      case (Inl e)
      then show ?thesis using Some Inr py st by (simp add: direct_submit_def s [symmetric] vexc_def)
    next
      fix f assume f: "act m q = Inr f"
      then obtain cl where "replay_intent F a i = Some cl" "run_call cl x = snd (f x)" "one_submit x (f x)"
        using act [OF Some Inr] by blast
      note qd = stands_queue [OF st this]
      obtain j c' where "py_queue i c = (j, c')" by (rule prod.exhaust)
      moreover obtain k x' where "f x = (k, x')" by (rule prod.exhaust)
      ultimately show ?thesis using Some Inr f py qd by (simp add: direct_submit_def s [symmetric] vexc_def)
    qed
  qed
qed

lemma stands_step:
  assumes st: "stands_for F a x0 c x"
  shows "fst (direct_step F a call x) = fst (py_step F call c) \<and>
    stands_for F a x0 (snd (py_step F call c)) (snd (direct_step F a call x))"
proof -
  note fields = stands_fields [OF st]
  note unfold = stands_resolve [OF st refl] Let_def vexc_def result_bind_def replay_submit_def
  show ?thesis
  proof (cases call)
    case (PySubmitMarket side q sy)
    show ?thesis unfolding PySubmitMarket py_step.simps direct_step.simps
      by (rule stands_submit [OF st _ _ refl])
        (auto simp: py_submit_market_def unfold submit_one result_ok_def split: sum.splits)
  next
    case (PySubmitLimit side q px sy)
    show ?thesis unfolding PySubmitLimit py_step.simps direct_step.simps
      by (rule stands_submit [OF st _ _ refl])
        (auto simp: py_submit_limit_def unfold submit_one result_ok_def split: sum.splits)
  next
    case (PySubmitStop side q t sy)
    show ?thesis unfolding PySubmitStop py_step.simps direct_step.simps
      by (rule stands_submit [OF st _ _ refl])
        (auto simp: py_submit_stop_def unfold submit_one result_ok_def split: sum.splits)
  next
    case (PySubmitStopLimit side q t px sy)
    show ?thesis unfolding PySubmitStopLimit py_step.simps direct_step.simps
      by (rule stands_submit [OF st _ _ refl])
        (auto simp: py_submit_stop_limit_def unfold submit_one result_ok_def split: sum.splits)
  next
    case (PySubmitTrailing side q off sy)
    show ?thesis unfolding PySubmitTrailing py_step.simps direct_step.simps
      by (rule stands_submit [OF st _ _ refl])
        (auto simp: py_submit_trailing_def unfold submit_one result_ok_def split: sum.splits if_splits)
  next
    case (PyCancel i)
    then show ?thesis using stands_push [OF st, of "IntentCancel i" "CallCancel i"]
      by (simp add: py_cancel_def ctx_cancel_def)
  next
    case (PySetTimer nm t)
    then show ?thesis using stands_push [OF st, of "IntentSetTimer nm t" "CallSetTimer nm t"]
      by (simp add: py_set_timer_def ctx_set_timer_def set_timer_def Let_def split_beta)
  next
    case (PyPosition sy)
    then show ?thesis using st
      by (simp add: py_position_def fields adapter_snapshot_def split: option.split)
  qed (use st fields in simp)
qed

lemma stands_run:
  "stands_for F a x0 c x \<Longrightarrow> run_code (py_step F) code c = (p, tr, c') \<Longrightarrow>
   \<exists>x'. run_code (direct_step F a) code x = (p, tr, x') \<and> stands_for F a x0 c' x'"
proof (induction code arbitrary: c x tr)
  case (PyAsk call k)
  obtain r c1 where s: "py_step F call c = (r, c1)" by (rule prod.exhaust)
  obtain r' x1 where d: "direct_step F a call x = (r', x1)" by (rule prod.exhaust)
  have e: "r' = r" "stands_for F a x0 c1 x1" using stands_step [OF PyAsk.prems(1), of call] by (simp_all add: s d)
  obtain tr1 where k: "run_code (py_step F) (k r) c1 = (p, tr1, c')" "tr = (call, r) # tr1"
    using PyAsk.prems(2) s by (auto split: prod.splits)
  then show ?case using PyAsk.IH [OF _ e(2) k(1)] d e by auto
qed auto

lemma stands_start: "of_strategy_id (sx_factory x) = ad_strategy_id a \<Longrightarrow> stands_for F a x (adapter_ctx F a x) x"
  by (simp add: stands_for_def adapter_ctx_def py_replay_def List.map_filter_simps)

lemma run_handler_direct:
  assumes "of_strategy_id (sx_factory x) = ad_strategy_id a"
    "run_code (py_step F) (call st) (adapter_ctx F a x) = (st', tr, c)"
  obtains x' where "run_code (direct_step F a) (call st) x = (st', tr, x')"
    "run_handler F a call x st = (py_replay F a (px_outbox c), st')"
    "fold run_call (py_replay F a (px_outbox c)) x = x'" "of_strategy_id (sx_factory x') = ad_strategy_id a"
  using stands_run [OF stands_start [OF assms(1)] assms(2)] assms(2) that
  by (auto simp: run_handler_def stands_for_def)

section \<open>Ids under any clock\<close>

text \<open>The ids of submitted orders, and the ids a handler was told.\<close>

definition submit_ids :: "strategy_command list \<Rightarrow> client_order_id list" where
  "submit_ids cmds = List.map_filter (\<lambda>cmd. case cmd of CmdSubmit o' \<Rightarrow> Some (o_client_order_id o') | _ \<Rightarrow> None) cmds"

definition replied_ids :: "(py_call \<times> py_reply) list \<Rightarrow> client_order_id list" where
  "replied_ids tr = List.map_filter (\<lambda>(_, r). case r of ReplyId i \<Rightarrow> Some i | _ \<Rightarrow> None) tr"

lemma ids_simps [simp]:
  "submit_ids [] = []" "submit_ids (CmdSubmit o' # cs) = o_client_order_id o' # submit_ids cs"
  "submit_ids (CmdCancel i # cs) = submit_ids cs" "submit_ids (cs @ ds) = submit_ids cs @ submit_ids ds"
  "replied_ids [] = []" "replied_ids ((c, ReplyId i) # tr) = i # replied_ids tr"
  "replied_ids ((c, ReplyNone) # tr) = replied_ids tr" "replied_ids ((c, ReplyRaised e) # tr) = replied_ids tr"
  "replied_ids ((c, ReplyNow t) # tr) = replied_ids tr" "replied_ids ((c, ReplyQty q) # tr) = replied_ids tr"
  by (simp_all add: submit_ids_def replied_ids_def List.map_filter_def)

fun mints :: "ctx_call \<Rightarrow> bool" where
  "mints (CallSubmitMarket _ _ _) \<longleftrightarrow> True"
| "mints (CallSubmitLimit _ _ _ _) \<longleftrightarrow> True"
| "mints (CallSubmitStopMarket _ _ _ _) \<longleftrightarrow> True"
| "mints (CallSubmitStopLimit _ _ _ _ _) \<longleftrightarrow> True"
| "mints (CallSubmitTrailingStop _ _ _ _) \<longleftrightarrow> True"
| "mints _ \<longleftrightarrow> False"

fun replayed :: "ctx_call \<Rightarrow> bool" where
  "replayed (CallCancel _) \<longleftrightarrow> True"
| "replayed (CallSetTimer _ _) \<longleftrightarrow> True"
| "replayed c \<longleftrightarrow> mints c"

lemma replay_replayed: "cl \<in> set (py_replay F a is) \<Longrightarrow> replayed cl"
proof -
  assume "cl \<in> set (py_replay F a is)"
  then obtain i where "replay_intent F a i = Some cl" by (auto simp: py_replay_def List.map_filter_def)
  then show ?thesis
    by (cases i) (auto simp: replay_submit_def Let_def bind_eq_Some split: option.splits)
qed

lemma one_submit_ids:
  assumes "one_submit x r"
  shows "sx_factory (snd r) = snd (next_id (sx_factory x))"
    "\<exists>cmds. sx_outbox (snd r) = sx_outbox x @ cmds \<and> submit_ids cmds = [fst (next_id (sx_factory x))]"
proof -
  show "sx_factory (snd r) = snd (next_id (sx_factory x))" using assms unfolding one_submit_def by blast
  obtain o' where "sx_outbox (snd r) = sx_outbox x @ [CmdSubmit o']" "o_client_order_id o' = fst (next_id (sx_factory x))"
    using assms unfolding one_submit_def by metis
  then show "\<exists>cmds. sx_outbox (snd r) = sx_outbox x @ cmds \<and> submit_ids cmds = [fst (next_id (sx_factory x))]"
    by (intro exI [of _ "[CmdSubmit o']"]) simp
qed

lemma run_call_factory:
  "replayed cl \<Longrightarrow> sx_factory (run_call cl x) = (if mints cl then snd (next_id (sx_factory x)) else sx_factory x)"
  by (cases cl) (simp_all add: one_submit_ids(1) submit_one ctx_cancel_def ctx_set_timer_def split_beta)

lemma run_call_outbox:
  "replayed cl \<Longrightarrow> \<exists>cmds. sx_outbox (run_call cl x) = sx_outbox x @ cmds \<and>
     submit_ids cmds = (if mints cl then [fst (next_id (sx_factory x))] else [])"
  by (cases cl) (simp_all add: one_submit_ids(2) submit_one ctx_cancel_def ctx_set_timer_def split_beta)

locale call_runner =
  fixes exec :: "ctx_call \<Rightarrow> 'z \<Rightarrow> 'z" and ctx :: "'z \<Rightarrow> strategy_context"
  assumes exec_ctx: "\<exists>clk. ctx (exec c z) = run_call c ((ctx z)\<lparr>sx_clock := clk\<rparr>)"
begin

lemma fold_ids:
  "(\<And>c. c \<in> set cs \<Longrightarrow> replayed c) \<Longrightarrow>
   \<exists>cmds. sx_outbox (ctx (fold exec cs z)) = sx_outbox (ctx z) @ cmds \<and>
     submit_ids cmds = minted (length (filter mints cs)) (sx_factory (ctx z))"
proof (induction cs arbitrary: z)
  case (Cons c cs)
  obtain clk where c: "ctx (exec c z) = run_call c ((ctx z)\<lparr>sx_clock := clk\<rparr>)" using exec_ctx by blast
  note ids = run_call_factory [of c "(ctx z)\<lparr>sx_clock := clk\<rparr>", folded c]
    run_call_outbox [of c "(ctx z)\<lparr>sx_clock := clk\<rparr>", folded c]
  obtain cmds where
    "sx_outbox (ctx (fold exec cs (exec c z))) = sx_outbox (ctx (exec c z)) @ cmds"
    "submit_ids cmds = minted (length (filter mints cs)) (sx_factory (ctx (exec c z)))"
    using Cons by (metis list.set_intros(2))
  then show ?case using ids Cons.prems by (fastforce simp: split_beta)
qed simp

end

interpretation backtest_calls: call_runner run_call "\<lambda>x. x"
proof
  fix c and z :: strategy_context
  have "z\<lparr>sx_clock := sx_clock z\<rparr> = z" by simp
  then show "\<exists>clk. run_call c z = run_call c (z\<lparr>sx_clock := clk\<rparr>)" by metis
qed

interpretation live_calls: call_runner "timed_call readings" fst for readings
  by unfold_locales (auto simp: timed_call_def)

lemma vexc_Inr [simp]: "vexc r = Inr x \<longleftrightarrow> r = Inr x"
  by (cases r) (simp_all add: vexc_def)

lemma vexc_Ok [simp]: "vexc (Inr x) = Inr x"
  by (simp add: vexc_def)

lemma direct_submit_ids:
  assumes "\<And>m q f. act m q = Ok f \<Longrightarrow> one_submit x (f x)"
  shows "\<exists>cmds. sx_outbox (snd (direct_submit F a sy qty act x)) = sx_outbox x @ cmds \<and>
    submit_ids cmds = replied_ids [(call, fst (direct_submit F a sy qty act x))]"
proof -
  let ?m = "ad_instruments a (case sy of Some s \<Rightarrow> s | None \<Rightarrow> ad_default_symbol a)"
  let ?r = "result_bind (vexc (qx_of F qty (im_size_precision (the ?m)))) (act (the ?m))"
  consider e where "direct_submit F a sy qty act x = (ReplyRaised e, x)"
    | m q f where "act m q = Ok f" "direct_submit F a sy qty act x = (ReplyId (fst (f x)), snd (f x))"
  proof (cases "?m = None \<or> (\<exists>e. ?r = Inl e)")
    case True
    then show ?thesis using that(1) by (cases ?m) (auto simp: direct_submit_def Let_def)
  next
    case False
    then obtain f where "?r = Inr f" by (cases ?r) auto
    then show ?thesis using that(2) False by (auto simp: direct_submit_def Let_def split_beta result_bind_Inr)
  qed
  then show ?thesis
  proof cases
    case (2 m q f)
    then show ?thesis using one_submit_ids [OF assms [OF 2(1)]] assms [OF 2(1)] by (simp add: one_submit_def)
  qed simp
qed

lemma direct_step_ids:
  "\<exists>cmds. sx_outbox (snd (direct_step F a call x)) = sx_outbox x @ cmds \<and>
    submit_ids cmds = replied_ids [(call, fst (direct_step F a call x))]"
  by (cases call)
    (auto intro!: direct_submit_ids simp: result_bind_Inr submit_one ctx_cancel_def ctx_set_timer_def split_beta split: if_splits)

lemma direct_ids:
  "run_code (direct_step F a) code x = (p, tr, x') \<Longrightarrow>
   \<exists>cmds. sx_outbox x' = sx_outbox x @ cmds \<and> submit_ids cmds = replied_ids tr"
proof (induction code arbitrary: x tr)
  case (PyAsk call k)
  obtain r x1 where d: "direct_step F a call x = (r, x1)" by (rule prod.exhaust)
  then obtain tr1 where k: "run_code (direct_step F a) (k r) x1 = (p, tr1, x')" "tr = (call, r) # tr1"
    using PyAsk.prems by (auto split: prod.splits)
  obtain cmds where "sx_outbox x' = sx_outbox x1 @ cmds" "submit_ids cmds = replied_ids tr1"
    using PyAsk.IH [OF _ k(1)] by blast
  then show ?case using direct_step_ids [of F a call x] by (cases r) (auto simp: d k(2))
qed auto

section \<open>The prefix of ids never changes\<close>

definition minted_by :: "strategy_id \<Rightarrow> ('s, 'h) kernel \<Rightarrow> bool" where
  "minted_by sid k \<longleftrightarrow> of_strategy_id (kn_factory k) = sid"

lemma run_call_strategy_id: "of_strategy_id (sx_factory (run_call c x)) = of_strategy_id (sx_factory x)"
proof -
  have "one_submit x r \<Longrightarrow> of_strategy_id (sx_factory (snd r)) = of_strategy_id (sx_factory x)" for r
    using one_submit_ids(1) [of x r] by (simp add: next_id_eq)
  then show ?thesis
    by (cases c)
      (simp_all add: submit_one ctx_submit_def ctx_cancel_def ctx_modify_def ctx_set_timer_def ctx_cancel_timer_def
        restore_seq_def next_id_eq split_beta)
qed

lemma fold_call_strategy_id: "of_strategy_id (sx_factory (fold run_call cs x)) = of_strategy_id (sx_factory x)"
  by (induction cs arbitrary: x) (simp_all add: run_call_strategy_id)

interpretation minter: kernel_invariant E "minted_by sid :: ('s, 'h) kernel \<Rightarrow> bool"
  for E :: "'s kernel_env" and sid
proof unfold_locales
  fix k :: "('s, 'h) kernel" and h
  assume "minted_by sid k"
  then show "minted_by sid (call_strategy E h k)"
    by (simp add: minted_by_def call_strategy_def Let_def split_beta fold_call_strategy_id kernel_ctx_def)
qed (auto simp: minted_by_def kernel_publish_def log_fill_def put_position_def feed_market_def bind_eq_Some split_beta Let_def)

section \<open>A sample strategy\<close>

text \<open>Conversions that know the number one; a handler that submits an order and cancels what it was told.\<close>

definition sample_floats :: float_env where
  "sample_floats =
     \<lparr>fe_dec = rdec, fe_retain = (\<lambda>x. if x = FFin False 1 then Some (dec_new 1 0) else None),
      fe_from = (\<lambda>x. if x = FFin False 1 then Some (dec_new 1 0) else None),
      fe_to = (\<lambda>d. if dval d = 1 then Some (FFin False 1) else None)\<rparr>"

definition buy_and_cancel :: "unit \<Rightarrow> unit py_code" where
  "buy_and_cancel _ =
     PyAsk (PySubmitMarket ''buy'' (FFin False 1) None) (\<lambda>r. case r of
       ReplyId i \<Rightarrow> PyAsk (PyCancel i) (\<lambda>_. PyReturn ())
     | _ \<Rightarrow> PyRaise ())"

definition sample_adapter :: "unit py_adapter" where
  "sample_adapter =
     \<lparr>ad_obj =
        \<lparr>py_on_start = PyReturn, py_on_bar = (\<lambda>_. buy_and_cancel), py_on_quote = (\<lambda>_. PyRaise), py_on_trade = (\<lambda>_. PyReturn),
         py_on_book = (\<lambda>_. PyReturn), py_on_order_filled = (\<lambda>_. PyReturn), py_on_order_event = (\<lambda>_. PyReturn),
         py_on_timer = (\<lambda>_. PyReturn), py_on_stop = PyReturn\<rparr>,
      ad_instruments = [''BTC'' \<mapsto> \<lparr>im_iid = InstrumentId ''BTC'' ''X'', im_price_precision = 2, im_size_precision = 3\<rparr>],
      ad_default_symbol = ''BTC'', ad_strategy_id = ''s1''\<rparr>"

lemma sample_one: "qx_of sample_floats (FFin False 1) 3 = Ok (Quantity 1000 3)"
  by code_simp

lemma sample_trace:
  assumes "of_seq (sx_factory x) = 0"
  shows "\<exists>c. run_code (py_step sample_floats) (buy_and_cancel ()) (adapter_ctx sample_floats sample_adapter x) =
    ((), [(PySubmitMarket ''buy'' (FFin False 1) None, ReplyId (''s1-'' @ fmt020 1)), (PyCancel (''s1-'' @ fmt020 1), ReplyNone)], c)"
  using assms
  by (simp add: buy_and_cancel_def py_submit_market_def py_resolve_def adapter_ctx_def sample_adapter_def sample_one
      vexc_def py_queue_def next_coid_def Let_def)

section \<open>Properties\<close>

text \<open>
  C9: a Python strategy is run as if it held the real context. Whatever a handler does, in any
  state a backtest reaches, recording its calls and replaying them afterwards leaves the kernel
  exactly where executing every call at once would: the same replies (ids, errors and reads) reach
  the Python code, the object ends in the same state, and clock, factory and outbox are the same.
\<close>

theorem python_handler_parity:
  assumes "process_outbox E (call_strategy E (st_on_start (ke_strategy E)) (build_kernel cfg (ad_strategy_id a) st0)) = Some k0"
    "turns E k0 n k" "run_code (py_step F) (call (kn_strategy k)) (adapter_ctx F a (kernel_ctx E k)) = (st, tr, c)"
  shows "\<exists>x. run_code (direct_step F a) (call (kn_strategy k)) (kernel_ctx E k) = (st, tr, x) \<and>
    call_strategy E (run_handler F a call) k =
      k\<lparr>kn_strategy := st, kn_clock := sx_clock x, kn_factory := sx_factory x, kn_outbox := sx_outbox x\<rparr>"
proof -
  have "minted_by (ad_strategy_id a) (build_kernel cfg (ad_strategy_id a) st0)"
    by (simp add: minted_by_def build_kernel_def factory_new_def)
  then have "minted_by (ad_strategy_id a) k0" by (rule minter.inv_process_outbox [OF minter.inv_call assms(1)])
  then have "minted_by (ad_strategy_id a) k" by (rule turns_invariant [OF minter.kernel_invariant_axioms assms(2)])
  then have "of_strategy_id (sx_factory (kernel_ctx E k)) = ad_strategy_id a" by (simp add: minted_by_def kernel_ctx_def)
  then show ?thesis
    by (rule run_handler_direct [where call = call and st = "kn_strategy k", OF _ assms(3)])
      (simp add: call_strategy_def Let_def)
qed

theorem python_handler_parity_witness:
  "\<exists>x. run_code (direct_step sample_floats sample_adapter) (buy_and_cancel ()) (kernel_ctx bt_env bt_kernel) =
      ((), [(PySubmitMarket ''buy'' (FFin False 1) None, ReplyId (''s1-'' @ fmt020 1)), (PyCancel (''s1-'' @ fmt020 1), ReplyNone)], x) \<and>
    kn_outbox (call_strategy bt_env (run_handler sample_floats sample_adapter buy_and_cancel) bt_kernel) = sx_outbox x"
proof -
  have start: "process_outbox bt_env (call_strategy bt_env (st_on_start (ke_strategy bt_env))
      (build_kernel bt_cfg (ad_strategy_id sample_adapter) ())) = Some bt_kernel"
    by (simp add: process_outbox_def bt_kernel_def build_kernel_def sample_adapter_def)
  have "of_seq (sx_factory (kernel_ctx bt_env bt_kernel)) = 0"
    by (simp add: kernel_ctx_def bt_kernel_def build_kernel_def factory_new_def)
  note tr = sample_trace [OF this]
  have u: "kn_strategy bt_kernel = ()" by simp
  show ?thesis
    using tr python_handler_parity [OF start turns_0, where F = sample_floats and call = buy_and_cancel] by (auto simp: u)
qed

text \<open>
  C10: predicted ids are the ids orders get. Also under a live clock that moves between calls, the
  commands a handler adds to the outbox submit exactly the orders whose ids the handler was told,
  in that order: no accepted submit is dropped and no id is off by one.
\<close>

theorem python_ids_match:
  assumes "of_strategy_id (lv_factory k) = ad_strategy_id a"
    "run_code (py_step F) (call (lv_strategy k)) (adapter_ctx F a (live_ctx E (le_readings E (lv_reads k)) k)) = (st, tr, c)"
  shows "\<exists>cmds. lv_outbox (live_call E (run_handler F a call) k) = lv_outbox k @ cmds \<and> submit_ids cmds = replied_ids tr"
proof -
  let ?x = "live_ctx E (le_readings E (lv_reads k)) k" and ?cs = "py_replay F a (px_outbox c)"
  have f: "of_strategy_id (sx_factory ?x) = ad_strategy_id a" using assms(1) by (simp add: live_ctx_def)
  obtain x' where d: "run_code (direct_step F a) (call (lv_strategy k)) ?x = (st, tr, x')"
    and h: "run_handler F a call ?x (lv_strategy k) = (?cs, st)" "fold run_call ?cs ?x = x'"
    by (rule run_handler_direct [where call = call and st = "lv_strategy k", OF f assms(2)])
  have r: "cl \<in> set ?cs \<Longrightarrow> replayed cl" for cl by (rule replay_replayed)
  obtain ds where "sx_outbox x' = sx_outbox ?x @ ds" "submit_ids ds = replied_ids tr" using direct_ids [OF d] by blast
  moreover obtain cmds where "sx_outbox x' = sx_outbox ?x @ cmds"
    "submit_ids cmds = minted (length (filter mints ?cs)) (sx_factory ?x)"
    using backtest_calls.fold_ids [OF r, of ?cs ?x] h(2) by auto
  ultimately have m: "replied_ids tr = minted (length (filter mints ?cs)) (sx_factory ?x)" by simp
  obtain cmds where "sx_outbox (fst (fold (timed_call (le_readings E)) ?cs (?x, Suc (lv_reads k)))) = lv_outbox k @ cmds"
    "submit_ids cmds = replied_ids tr"
    using live_calls.fold_ids [OF r, of ?cs "le_readings E" "(?x, Suc (lv_reads k))"] m by (auto simp: live_ctx_def)
  moreover have "live_ctx E t (k\<lparr>lv_reads := n\<rparr>) = live_ctx E t k" for t n by (simp add: live_ctx_def)
  ultimately show ?thesis using h(1) by (auto simp: live_call_def now_ns_def Let_def split_beta)
qed

theorem python_ids_match_witness:
  "\<exists>cmds. lv_outbox (live_call paper_env (run_handler sample_floats sample_adapter buy_and_cancel) paper_live) = cmds \<and>
    submit_ids cmds = [''s1-'' @ fmt020 1]"
proof -
  let ?x = "live_ctx paper_env (le_readings paper_env (lv_reads paper_live)) paper_live"
  have f: "of_strategy_id (lv_factory paper_live) = ad_strategy_id sample_adapter" "of_seq (sx_factory ?x) = 0" "lv_outbox paper_live = []"
    by (simp_all add: live_ctx_def paper_live_def build_live_def factory_new_def sample_adapter_def is_live_def)
  obtain c where "run_code (py_step sample_floats) (buy_and_cancel (lv_strategy paper_live)) (adapter_ctx sample_floats sample_adapter ?x) =
    ((), [(PySubmitMarket ''buy'' (FFin False 1) None, ReplyId (''s1-'' @ fmt020 1)), (PyCancel (''s1-'' @ fmt020 1), ReplyNone)], c)"
    using sample_trace [OF f(2)] by auto
  from python_ids_match [where call = buy_and_cancel, OF f(1) this] f(3) show ?thesis by simp
qed

end
