(* ===== verification/Daemons.thy ===== *)
theory Daemons
  imports Process Socket Bridge
begin

text \<open>
  The entry points around the ingestion daemon and the socket task: \<open>main\<close>, \<open>serve_metrics\<close> and the
  offline smoke run of \<open>coinext-ingest\<close>, and the handle \<open>WsClient\<close> of \<open>coinext-network/src/ws.rs\<close>.
\<close>

section \<open>The socket handle\<close>

text \<open>\<open>wsc_task\<close> is the task the handle owns and \<open>wsc_shutdown\<close> whether it holds the sender of its shutdown channel.\<close>

record ws_client =
  wsc_config :: ws_config
  wsc_shutdown :: bool
  wsc_task :: "ws_state option"

definition ws_client_new :: "ws_config \<Rightarrow> ws_client" where
  "ws_client_new cfg = \<lparr>wsc_config = cfg, wsc_shutdown = False, wsc_task = None\<rparr>"

definition ws_client_connect :: "ws_client \<Rightarrow> ws_client" where
  "ws_client_connect c = c\<lparr>wsc_shutdown := True, wsc_task := Some (ws_start (wsc_config c))\<rparr>"

definition ws_client_input :: "bool \<Rightarrow> ws_input \<Rightarrow> ws_client \<Rightarrow> ws_client" where
  "ws_client_input alive x c = c\<lparr>wsc_task := map_option (ws_step (wsc_config c) alive x) (wsc_task c)\<rparr>"

text \<open>The handle signals the task, which may or may not take the signal, and aborts it in any case.\<close>

definition ws_client_shutdown :: "ws_client \<Rightarrow> ws_client" where
  "ws_client_shutdown c = c\<lparr>wsc_shutdown := False, wsc_task := None\<rparr>"

datatype once_input = OnceText string | OncePing | OnceOther | OnceFailed string | OnceClosed | OnceTimeout

text \<open>
  \<open>connect_once_text\<close> after its connection, over what it meets; without a further input it still
  waits. The time limit is per frame.
\<close>

fun once_frames :: "u64 \<Rightarrow> once_input list \<Rightarrow> (net_error + string) option" where
  "once_frames ms [] = None"
| "once_frames ms (OnceText t # _) = Some (Inr t)"
| "once_frames ms (OnceFailed e # _) = Some (Inl (NetTransport e))"
| "once_frames ms (OnceClosed # _) = Some (Inl NetNotConnected)"
| "once_frames ms (OnceTimeout # _) = Some (Inl (NetTimeout ms))"
| "once_frames ms (OncePing # xs) = once_frames ms xs"
| "once_frames ms (OnceOther # xs) = once_frames ms xs"

definition connect_once_text :: "u64 \<Rightarrow> net_error + unit \<Rightarrow> once_input list \<Rightarrow> (net_error + string) option" where
  "connect_once_text ms conn xs = (case conn of Inl e \<Rightarrow> Some (Inl e) | Inr _ \<Rightarrow> once_frames ms xs)"

section \<open>The smoke run\<close>

definition smoke_ts :: "nat \<Rightarrow> u64" where
  "smoke_ts i = 1700000000000000000 + of_nat i * 60000000000"

definition smoke_px :: "nat \<Rightarrow> f64" where
  "smoke_px i = fadd (flit 50000) (flit (of_nat i))"

abbreviation unwrapped :: "model_error + 'a \<Rightarrow> 'a option" where
  "unwrapped r \<equiv> (case r of Inl _ \<Rightarrow> None | Inr x \<Rightarrow> Some x)"

definition smoke_quote :: "float_env \<Rightarrow> instrument_id \<Rightarrow> nat \<Rightarrow> market_event option" where
  "smoke_quote F iid i = do {
     bid \<leftarrow> unwrapped (px_of F (fsub (smoke_px i) (flit (1 / 2))) 2);
     ask \<leftarrow> unwrapped (px_of F (fadd (smoke_px i) (flit (1 / 2))) 2);
     size \<leftarrow> unwrapped (qx_of F (flit 1) 3);
     Some (MQuote \<lparr>qt_instrument_id = iid, qt_bid = bid, qt_ask = ask, qt_bid_size = size, qt_ask_size = size,
       qt_ts_event = smoke_ts i, qt_ts_init = smoke_ts i\<rparr>) }"

definition smoke_trade :: "float_env \<Rightarrow> instrument_id \<Rightarrow> nat \<Rightarrow> market_event option" where
  "smoke_trade F iid i = do {
     px \<leftarrow> unwrapped (px_of F (smoke_px i) 2);
     size \<leftarrow> unwrapped (qx_of F (flit (1 / 100)) 3);
     Some (MTrade \<lparr>tt_instrument_id = iid, tt_price = px, tt_size = size, tt_aggressor = Buy, tt_trade_id = ''T-'' @ show_nat i,
       tt_ts_event = smoke_ts i, tt_ts_init = smoke_ts i\<rparr>) }"

definition smoke_bar :: "float_env \<Rightarrow> instrument_id \<Rightarrow> nat \<Rightarrow> market_event option" where
  "smoke_bar F iid i = do {
     op' \<leftarrow> unwrapped (price_from_decimal (fe_dec F) (dec_int 50000) 2);
     hi \<leftarrow> unwrapped (price_from_decimal (fe_dec F) (dec_int 50100) 2);
     lo \<leftarrow> unwrapped (price_from_decimal (fe_dec F) (dec_int 49900) 2);
     cl \<leftarrow> unwrapped (px_of F (smoke_px i) 2);
     vol \<leftarrow> unwrapped (qx_of F (flit 10) 3);
     Some (MBar \<lparr>b_bar_type = \<lparr>bt_instrument_id = iid,
         bt_spec = \<lparr>bs_step = 1, bs_aggregation = AggMinute, bs_price_type = PtLast\<rparr>, bt_source = External\<rparr>,
       b_open = op', b_high = hi, b_low = lo, b_close = cl, b_volume = vol, b_ts_event = smoke_ts i, b_ts_init = smoke_ts i\<rparr>) }"

definition smoke_turn :: "'w ingest_env \<Rightarrow> float_env \<Rightarrow> instrument_id \<Rightarrow> nat \<Rightarrow> 'w ingest_sinks \<Rightarrow> 'w ingest_sinks option" where
  "smoke_turn E F iid i s = do {
     quote \<leftarrow> smoke_quote F iid i;
     let s = sinks_handle E quote s;
     trade \<leftarrow> smoke_trade F iid i;
     let s = sinks_handle E trade s;
     bar \<leftarrow> smoke_bar F iid i;
     Some (sinks_handle E bar s) }"

text \<open>\<open>None\<close> is a panic; \<open>ord\<close> is the order in which the flush visits the buffers.\<close>

definition process_offline_smoke ::
  "'w ingest_env \<Rightarrow> float_env \<Rightarrow> ((string \<times> bar list) list \<Rightarrow> string list) \<Rightarrow> nat \<Rightarrow> 'w ingest_sinks \<Rightarrow> 'w ingest_sinks option" where
  "process_offline_smoke E F ord n s = do {
     iid \<leftarrow> instrument_id_parse ''BTCUSDT.BINANCE'';
     s \<leftarrow> fold_opt (smoke_turn E F iid) [0..<n] s;
     Some (sinks_flush E (ord (is_bar_buf s)) s) }"

section \<open>The ingestion daemon\<close>

definition ingest_testnet :: "(string \<Rightarrow> string option) \<Rightarrow> bool" where
  "ingest_testnet env \<longleftrightarrow> to_ascii_lowercase (env_or env ''COINEXT__BINANCE__TESTNET'' ''false'') = ''true''"

definition ingest_symbols :: "(string \<Rightarrow> string option) \<Rightarrow> string list" where
  "ingest_symbols env =
     filter (\<lambda>s. s \<noteq> []) (map str_trim (split_on (CHR '','') (env_or env ''COINEXT__INGEST__SYMBOLS'' ''BTCUSDT.BINANCE,ETHUSDT.BINANCE'')))"

definition ingest_max_events :: "(string \<Rightarrow> string option) \<Rightarrow> (string \<Rightarrow> u64 option) \<Rightarrow> u64" where
  "ingest_max_events env parse = (case parse (env_or env ''COINEXT__INGEST__MAX_EVENTS'' ''0'') of Some n \<Rightarrow> n | None \<Rightarrow> 0)"

definition ingest_smoke_n :: "(string \<Rightarrow> string option) \<Rightarrow> (string \<Rightarrow> nat option) \<Rightarrow> nat" where
  "ingest_smoke_n env parse = (case parse (env_or env ''COINEXT__INGEST__SMOKE_N'' ''8'') of Some n \<Rightarrow> n | None \<Rightarrow> 8)"

definition ingest_metrics_body :: "ingest_metrics \<Rightarrow> string" where
  "ingest_metrics_body m =
     metric ''coinext_ingest_up'' ''1 if process is serving'' ''gauge'' 1 @
     metric ''coinext_ingest_events_logged_total'' ''NDJSON events written'' ''counter'' (unat (im_events_logged m)) @
     metric ''coinext_ingest_bars_flushed_total'' ''bars merged into lake Parquet'' ''counter'' (unat (im_bars_flushed m)) @
     metric ''coinext_ingest_redis_published_total'' ''market envelopes published'' ''counter'' (unat (im_redis_published m)) @
     metric ''coinext_ingest_redis_errors_total'' ''redis publish failures'' ''counter'' (unat (im_redis_errors m)) @
     metric ''coinext_ingest_ws_connects_total'' ''successful WS connects'' ''counter'' (unat (im_ws_connects m)) @
     metric ''coinext_ingest_ws_reconnects_total'' ''reconnect attempts after failure'' ''counter'' (unat (im_ws_reconnects m)) @
     metric ''coinext_ingest_ws_errors_total'' ''connect/stream errors'' ''counter'' (unat (im_ws_errors m)) @
     metric ''coinext_ingest_book_gaps_total'' ''depth sequence gaps observed'' ''counter'' (unat (im_book_gaps m))"

definition ingest_serve_metrics :: "ingest_metrics \<Rightarrow> string" where
  "ingest_serve_metrics m = http_response ''OK'' 200 ''text/plain; version=0.0.4'' (ingest_metrics_body m)"

text \<open>
  \<open>main\<close> of the live build, over the connections and streams the network gives it, and of the offline
  build: the adapter is built and subscribed, and whatever that answers the smoke run follows.
\<close>

definition ingest_main_live ::
  "'w ingest_env \<Rightarrow> (string \<Rightarrow> string option) \<Rightarrow> (string \<Rightarrow> bool) \<Rightarrow> (string \<Rightarrow> nat option) \<Rightarrow> (string \<Rightarrow> u64 option) \<Rightarrow>
   ((string \<times> bar list) list \<Rightarrow> string list) \<Rightarrow> attempt list \<Rightarrow> 'w \<Rightarrow> bool \<times> u64 \<times> 'w ingest_sinks" where
  "ingest_main_live E env redis_connects parse_usize parse_u64 ord attempts w =
     run_live E ord (ingest_max_events env parse_u64) attempts 0 0 (sinks_from_env env redis_connects parse_usize w)"

definition ingest_adapter :: "'v wire \<Rightarrow> (string \<Rightarrow> string option) \<Rightarrow> 'v \<Rightarrow> (port_error + 'v binance_data) option" where
  "ingest_adapter W env v =
     (case binance_data_new W (binance_public (ingest_testnet env)) v of
        None \<Rightarrow> None
      | Some (Inl e) \<Rightarrow> Some (Inl e)
      | Some (Inr x) \<Rightarrow> map_option Inr (data_take_stream (subscribe_all (ingest_symbols env) x)))"

definition ingest_main_offline ::
  "'v wire \<Rightarrow> 'w ingest_env \<Rightarrow> float_env \<Rightarrow> (string \<Rightarrow> string option) \<Rightarrow> (string \<Rightarrow> bool) \<Rightarrow> (string \<Rightarrow> nat option) \<Rightarrow>
   ((string \<times> bar list) list \<Rightarrow> string list) \<Rightarrow> 'v \<Rightarrow> 'w \<Rightarrow> ((u64 \<times> u64 \<times> u64) \<times> 'w ingest_sinks) option" where
  "ingest_main_offline W E F env redis_connects parse_usize ord v w = do {
     _ \<leftarrow> ingest_adapter W env v;
     s \<leftarrow> process_offline_smoke E F ord (ingest_smoke_n env parse_usize) (sinks_from_env env redis_connects parse_usize w);
     Some (sinks_stats s, s) }"

section \<open>Properties\<close>

lemma smoke_kinds:
  "smoke_quote F iid i = Some ev \<Longrightarrow> \<not> is_bar_event ev"
  "smoke_trade F iid i = Some ev \<Longrightarrow> \<not> is_bar_event ev"
  "smoke_bar F iid i = Some ev \<Longrightarrow> is_bar_event ev"
  by (auto simp: smoke_quote_def smoke_trade_def smoke_bar_def is_bar_event_def bind_eq_Some)

lemma smoke_turn_keeps:
  assumes "smoke_turn E F iid i s = Some t" "bars_kept s"
  shows "bars_kept t \<and> bars_seen t = bars_seen s + 1"
proof -
  obtain q tr b where e: "smoke_quote F iid i = Some q" "smoke_trade F iid i = Some tr" "smoke_bar F iid i = Some b"
    "t = fold (sinks_handle E) [q, tr, b] s"
    using assms(1) by (auto simp: smoke_turn_def bind_eq_Some)
  then have "length (filter is_bar_event [q, tr, b]) = 1" using smoke_kinds by simp
  then show ?thesis using run_keeps [OF assms(2), of E "[q, tr, b]"] e(4) by simp
qed

lemma smoke_turns_keep:
  "fold_opt (smoke_turn E F iid) is s = Some t \<Longrightarrow> bars_kept s \<Longrightarrow> bars_kept t \<and> bars_seen t = bars_seen s + of_nat (length is)"
proof (induction "is" arbitrary: s)
  case (Cons i "is")
  then obtain u where "smoke_turn E F iid i s = Some u" "fold_opt (smoke_turn E F iid) is u = Some t"
    by (auto simp: bind_eq_Some)
  then show ?case using Cons.IH [of u] smoke_turn_keeps Cons.prems(2) by fastforce
qed simp

text \<open>
  The smoke run reaches the lake: with a lake configured, whichever writes fail, its \<open>n\<close> bars are
  written or still buffered at the end.
\<close>

theorem smoke_accounts_bars:
  assumes "s = sinks_from_env env redis_connects parse_usize w" "is_lake_root s \<noteq> None"
    "process_offline_smoke E F ord n s = Some t"
  shows "bars_seen t = of_nat n"
proof -
  obtain iid u where u: "fold_opt (smoke_turn E F iid) [0..<n] s = Some u" "t = sinks_flush E (ord (is_bar_buf u)) u"
    using assms(3) by (auto simp: process_offline_smoke_def bind_eq_Some)
  have "bars_kept s" "bars_seen s = 0"
    using assms(1, 2) by (simp_all add: sinks_from_env_def Let_def bars_kept_def bars_seen_def buffered_def)
  then show ?thesis using smoke_turns_keep [OF u(1)] sinks_flush_keeps [of u E "ord (is_bar_buf u)"] u(2) by simp
qed

text \<open>A one-shot connection answers with the first text frame, whatever other frames come before it.\<close>

theorem once_first_text:
  "set pre \<subseteq> {OncePing, OnceOther} \<Longrightarrow> once_frames ms (pre @ OnceText t # post) = Some (Inr t)"
  by (induction pre) auto

end
