(* ===== verification/Bridge_Build.thy ===== *)
theory Bridge_Build
  imports Bridge Process
begin

text \<open>
  \<open>foundation/crates/coinext-py/src/lib.rs\<close>, the builders: the indicator classes, instruments and
  market events from Python arguments, \<open>run_backtest\<close> and \<open>run_backtest_multi\<close>, the sandbox, live
  and paper kernels, the \<open>Kernel\<close> handle, and the option-pricing functions.

  Reading a Python object is done by the binding package and is an argument: attributes, and the
  typed values that can be extracted from an object. Where a constructor of the core panics the
  outer \<open>None\<close> is a panic.
\<close>

section \<open>Indicator classes\<close>

record ('a, 'u, 's, 'v) py_class =
  cl_new :: "'a \<Rightarrow> (py_error + 's) option"
  cl_update :: "'u \<Rightarrow> 's \<Rightarrow> 's"
  cl_value :: "'s \<Rightarrow> 'v option"
  cl_is_ready :: "'s \<Rightarrow> bool"

definition py_sma :: "(nat, f64, sma, f64) py_class" where
  "py_sma =
     \<lparr>cl_new = (\<lambda>n. if n = 0 then Some (Err (ErrText ''SMA period must be > 0'')) else map_option Ok (sma_new n)),
      cl_update = sma_update, cl_value = sma_value, cl_is_ready = (\<lambda>s. sma_value s \<noteq> None)\<rparr>"

definition py_ema :: "(nat, f64, ema, f64) py_class" where
  "py_ema =
     \<lparr>cl_new = (\<lambda>n. if n = 0 then Some (Err (ErrText ''EMA period must be > 0'')) else map_option Ok (ema_new n)),
      cl_update = ema_update, cl_value = ema_value, cl_is_ready = (\<lambda>s. ema_value s \<noteq> None)\<rparr>"

definition py_rsi :: "(nat, f64, rsi, f64) py_class" where
  "py_rsi =
     \<lparr>cl_new = (\<lambda>n. if n = 0 then Some (Err (ErrText ''RSI period must be > 0'')) else map_option Ok (rsi_new n)),
      cl_update = rsi_update, cl_value = rsi_value, cl_is_ready = (\<lambda>s. rsi_value s \<noteq> None)\<rparr>"

definition py_atr :: "(nat, f64 \<times> f64 \<times> f64, atr, f64) py_class" where
  "py_atr =
     \<lparr>cl_new = (\<lambda>n. if n = 0 then Some (Err (ErrText ''ATR period must be > 0'')) else map_option Ok (atr_new n)),
      cl_update = (\<lambda>(high, low, close). update_hlc high low close), cl_value = atr_value,
      cl_is_ready = (\<lambda>s. atr_value s \<noteq> None)\<rparr>"

definition py_macd :: "(nat \<times> nat \<times> nat, f64, macd, f64 \<times> f64 \<times> f64) py_class" where
  "py_macd =
     \<lparr>cl_new = (\<lambda>(fast, slow, signal).
        if fast = 0 \<or> slow = 0 \<or> signal = 0 then Some (Err (ErrText ''MACD periods must be > 0''))
        else map_option Ok (macd_new fast slow signal)),
      cl_update = macd_update, cl_value = macd_value, cl_is_ready = (\<lambda>s. macd_value s \<noteq> None)\<rparr>"

definition py_bollinger :: "(nat \<times> f64, f64, bollinger, f64 \<times> f64 \<times> f64) py_class" where
  "py_bollinger =
     \<lparr>cl_new = (\<lambda>(n, k).
        if n = 0 then Some (Err (ErrText ''Bollinger period must be > 0'')) else map_option Ok (bollinger_new n k)),
      cl_update = bollinger_update, cl_value = bollinger_value, cl_is_ready = (\<lambda>s. bollinger_value s \<noteq> None)\<rparr>"

definition py_vwap :: "(nat, f64 \<times> f64, vwap_state, f64) py_class" where
  "py_vwap =
     \<lparr>cl_new = (\<lambda>n. if n = 0 then Some (Err (ErrText ''VWAP period must be > 0'')) else map_option Ok (vwap_new n)),
      cl_update = vwap_update, cl_value = vwap_value, cl_is_ready = (\<lambda>s. vwap_value s \<noteq> None)\<rparr>"

text \<open>
  What Python relies on: construction never panics, it raises exactly on a zero period, a fresh
  indicator has no value, and readiness announces a value.
\<close>

locale indicator_class =
  fixes C :: "('a, 'u, 's, 'v) py_class" and zero_period :: "'a \<Rightarrow> bool"
  assumes new_raises: "zero_period a \<Longrightarrow> \<exists>e. cl_new C a = Some (Err e)"
    and new_ok: "\<not> zero_period a \<Longrightarrow> \<exists>s. cl_new C a = Some (Ok s) \<and> cl_value C s = None"
    and ready: "cl_is_ready C s \<longleftrightarrow> cl_value C s \<noteq> None"
begin

lemma new_total: "\<exists>r. cl_new C a = Some r \<and> ((\<exists>e. r = Err e) \<longleftrightarrow> zero_period a)"
  using new_raises [of a] new_ok [of a] by fastforce

lemma fresh_not_ready: "cl_new C a = Some (Ok s) \<Longrightarrow> \<not> cl_is_ready C s"
  using new_raises [of a] new_ok [of a] ready [of s] by fastforce

end

interpretation py_sma: indicator_class py_sma "\<lambda>n. n = 0"
  by unfold_locales (auto simp: py_sma_def sma_new_def sma_value_def)

interpretation py_ema: indicator_class py_ema "\<lambda>n. n = 0"
  by unfold_locales (auto simp: py_ema_def ema_new_def ema_value_def)

interpretation py_rsi: indicator_class py_rsi "\<lambda>n. n = 0"
  by unfold_locales (auto simp: py_rsi_def rsi_new_def rsi_value_def)

interpretation py_atr: indicator_class py_atr "\<lambda>n. n = 0"
  by unfold_locales (auto simp: py_atr_def atr_new_def atr_value_def)

interpretation py_macd: indicator_class py_macd "\<lambda>(fast, slow, signal). fast = 0 \<or> slow = 0 \<or> signal = 0"
  by unfold_locales (auto simp: py_macd_def macd_new_def macd_value_def ema_new_def ema_value_def)

interpretation py_bollinger: indicator_class py_bollinger "\<lambda>(n, k). n = 0"
  by unfold_locales (auto simp: py_bollinger_def bollinger_new_def bollinger_value_def)

interpretation py_vwap: indicator_class py_vwap "\<lambda>n. n = 0"
  by unfold_locales (auto simp: py_vwap_def vwap_new_def vwap_value_def)

section \<open>Reading the configuration object\<close>

record 'o py_access =
  ac_getattr :: "'o \<Rightarrow> string \<Rightarrow> 'o option"
  ac_string :: "'o \<Rightarrow> string option"
  ac_f64 :: "'o \<Rightarrow> f64 option"
  ac_u8 :: "'o \<Rightarrow> nat option"
  ac_u32 :: "'o \<Rightarrow> nat option"
  ac_bool :: "'o \<Rightarrow> bool option"

definition parse_environment :: "string \<Rightarrow> py_error + environment" where
  "parse_environment env =
     (let s = to_ascii_lowercase env
      in if s = ''sandbox'' then Ok SandboxEnv
         else if s = ''live'' then Ok LiveEnv
         else if s = ''backtest'' then Ok BacktestEnv
         else Err (ErrText (''unknown kernel environment '' @ s)))"

definition or_default :: "'a option \<Rightarrow> 'a \<Rightarrow> 'a" where
  "or_default x d = (case x of Some v \<Rightarrow> v | None \<Rightarrow> d)"

definition nested_attr :: "'o py_access \<Rightarrow> 'o \<Rightarrow> string \<Rightarrow> string \<Rightarrow> 'o option" where
  "nested_attr A obj section field = Option.bind (ac_getattr A obj section) (\<lambda>s. ac_getattr A s field)"

definition attr_string :: "'o py_access \<Rightarrow> 'o \<Rightarrow> string \<Rightarrow> string \<Rightarrow> string" where
  "attr_string A obj nm d = or_default (Option.bind (ac_getattr A obj nm) (ac_string A)) d"

definition nested_string :: "'o py_access \<Rightarrow> 'o \<Rightarrow> string \<Rightarrow> string \<Rightarrow> string \<Rightarrow> string" where
  "nested_string A obj section field d = or_default (Option.bind (nested_attr A obj section field) (ac_string A)) d"

definition attr_f64 :: "'o py_access \<Rightarrow> 'o \<Rightarrow> string \<Rightarrow> f64 \<Rightarrow> f64" where
  "attr_f64 A obj nm d = or_default (Option.bind (ac_getattr A obj nm) (ac_f64 A)) d"

definition nested_f64 :: "'o py_access \<Rightarrow> 'o \<Rightarrow> string \<Rightarrow> string \<Rightarrow> f64 \<Rightarrow> f64" where
  "nested_f64 A obj section field d = or_default (Option.bind (nested_attr A obj section field) (ac_f64 A)) d"

definition nested_u8 :: "'o py_access \<Rightarrow> 'o \<Rightarrow> string \<Rightarrow> string \<Rightarrow> nat \<Rightarrow> nat" where
  "nested_u8 A obj section field d = or_default (Option.bind (nested_attr A obj section field) (ac_u8 A)) d"

definition nested_u32 :: "'o py_access \<Rightarrow> 'o \<Rightarrow> string \<Rightarrow> string \<Rightarrow> nat \<Rightarrow> nat" where
  "nested_u32 A obj section field d = or_default (Option.bind (nested_attr A obj section field) (ac_u32 A)) d"

definition nested_bool :: "'o py_access \<Rightarrow> 'o \<Rightarrow> string \<Rightarrow> string \<Rightarrow> bool \<Rightarrow> bool" where
  "nested_bool A obj section field d = or_default (Option.bind (nested_attr A obj section field) (ac_bool A)) d"

definition nonempty :: "string \<Rightarrow> string option" where
  "nonempty s = (let t = str_trim s in if t = [] then None else Some t)"

definition from_f64_or_zero :: "float_env \<Rightarrow> f64 \<Rightarrow> decimal" where
  "from_f64_or_zero F v = or_default (fe_from F v) dec_zero"

definition money_limit :: "float_env \<Rightarrow> f64 \<Rightarrow> currency \<Rightarrow> py_error + money option" where
  "money_limit F v settle =
     (if fle v fzero then Ok None
      else result_bind (vexc (money_from_decimal (fe_dec F) (from_f64_or_zero F v) settle)) (\<lambda>m. Ok (Some m)))"

section \<open>Instruments\<close>

definition build_pair ::
  "float_env \<Rightarrow> string \<Rightarrow> string \<Rightarrow> currency \<Rightarrow> nat \<Rightarrow> nat \<Rightarrow> f64 \<Rightarrow> f64 \<Rightarrow> py_error + instrument \<times> instrument_meta" where
  "build_pair F symbol venue quote pp sp maker taker =
     result_bind (vexc (currency_new ''BASE'' 8)) (\<lambda>base.
     result_bind (vexc (price_from_raw 1 pp)) (\<lambda>pinc.
     result_bind (vexc (qty_from_raw 1 sp)) (\<lambda>sinc.
       let iid = InstrumentId symbol venue
       in Ok (currency_pair_dyn
           \<lparr>cp_id = iid, cp_base = base, cp_quote = quote, cp_price_precision = pp, cp_size_precision = sp,
            cp_price_increment = pinc, cp_size_increment = sinc, cp_min_notional = None,
            cp_maker_fee = from_f64_or_zero F maker, cp_taker_fee = from_f64_or_zero F taker\<rparr>,
          \<lparr>im_iid = iid, im_price_precision = pp, im_size_precision = sp\<rparr>))))"

definition resolve_underlying :: "string \<Rightarrow> string \<Rightarrow> instrument_id" where
  "resolve_underlying u venue =
     (if CHR ''.'' \<in> set u
      then case instrument_id_parse u of Some i \<Rightarrow> i | None \<Rightarrow> InstrumentId u venue
      else InstrumentId u venue)"

fun parse_right :: "string \<Rightarrow> py_error + option_right" where
  "parse_right s =
     (let t = to_ascii_lowercase s
      in if t \<in> {''call'', ''c''} then Ok Call
         else if t \<in> {''put'', ''p''} then Ok Put
         else Err (ErrText (''option right must be call/put, got '' @ t)))"

record contract_args =
  ca_asset_class :: string
  ca_multiplier :: f64
  ca_strike :: "f64 option"
  ca_option_right :: "string option"
  ca_expiry_ns :: "u64 option"
  ca_underlying :: "string option"

definition build_future ::
  "string \<Rightarrow> string \<Rightarrow> currency \<Rightarrow> nat \<Rightarrow> nat \<Rightarrow> price \<Rightarrow> quantity \<Rightarrow> decimal \<Rightarrow> decimal \<Rightarrow> quantity \<Rightarrow> contract_args \<Rightarrow>
   py_error + instrument" where
  "build_future symbol venue settle pp sp pinc sinc mk tk mul' c =
     result_bind (ok_or (ca_expiry_ns c) (ErrText ''future requires expiry_ns'')) (\<lambda>expiry.
     Ok (futures_contract_dyn
       \<lparr>fu_id = InstrumentId symbol venue, fu_underlying = map_option (\<lambda>u. resolve_underlying u venue) (ca_underlying c),
        fu_quote = settle, fu_settlement = settle, fu_price_precision = pp, fu_size_precision = sp,
        fu_price_increment = pinc, fu_size_increment = sinc, fu_min_notional = None, fu_multiplier = mul',
        fu_maker_fee = mk, fu_taker_fee = tk, fu_expiry_ns = expiry\<rparr>))"

definition build_option ::
  "float_env \<Rightarrow> string \<Rightarrow> string \<Rightarrow> currency \<Rightarrow> nat \<Rightarrow> nat \<Rightarrow> price \<Rightarrow> quantity \<Rightarrow> decimal \<Rightarrow> decimal \<Rightarrow> quantity \<Rightarrow> contract_args \<Rightarrow>
   py_error + instrument" where
  "build_option F symbol venue settle pp sp pinc sinc mk tk mul' c =
     result_bind (ok_or (ca_strike c) (ErrText ''option requires strike'')) (\<lambda>strike.
     result_bind (ok_or (ca_expiry_ns c) (ErrText ''option requires expiry_ns'')) (\<lambda>expiry.
     result_bind (if to_ascii_lowercase (ca_asset_class c) = ''option''
                  then ok_or (ca_option_right c) (ErrText ''option requires right'')
                  else Ok (ca_asset_class c)) (\<lambda>right_str.
     result_bind (parse_right right_str) (\<lambda>right.
     result_bind (ok_or (ca_underlying c) (ErrText ''option requires underlying'')) (\<lambda>und.
     result_bind (vexc (px_of F strike pp)) (\<lambda>k.
     Ok (option_contract_dyn
       \<lparr>op_id = InstrumentId symbol venue, op_underlying = resolve_underlying und venue, op_quote = settle,
        op_settlement = settle, op_price_precision = pp, op_size_precision = sp, op_price_increment = pinc,
        op_size_increment = sinc, op_min_notional = None, op_multiplier = mul', op_maker_fee = mk, op_taker_fee = tk,
        op_strike = k, op_right = right, op_expiry_ns = expiry\<rparr>)))))))"

definition build_typed_instrument ::
  "float_env \<Rightarrow> string \<Rightarrow> string \<Rightarrow> currency \<Rightarrow> nat \<Rightarrow> nat \<Rightarrow> f64 \<Rightarrow> f64 \<Rightarrow> contract_args \<Rightarrow>
   py_error + instrument \<times> instrument_meta" where
  "build_typed_instrument F symbol venue settle pp sp maker taker c =
     (let cls = to_ascii_lowercase (ca_asset_class c)
      in if cls = ''spot'' then build_pair F symbol venue settle pp sp maker taker
         else
           result_bind (vexc (price_from_raw 1 pp)) (\<lambda>pinc.
           result_bind (vexc (qty_from_raw 1 sp)) (\<lambda>sinc.
             let mk = from_f64_or_zero F maker; tk = from_f64_or_zero F taker
             in result_bind (vexc (qx_of F (fmax (ca_multiplier c) fzero) 8)) (\<lambda>mul'.
                result_bind
                  (if cls = ''equity''
                   then Ok (equity_dyn
                     \<lparr>eq_id = InstrumentId symbol venue, eq_currency = settle, eq_price_precision = pp,
                      eq_size_precision = sp, eq_price_increment = pinc, eq_size_increment = sinc,
                      eq_min_notional = None, eq_maker_fee = mk, eq_taker_fee = tk\<rparr>)
                   else if cls \<in> {''future'', ''futures''}
                   then build_future symbol venue settle pp sp pinc sinc mk tk mul' c
                   else if cls \<in> {''option'', ''call'', ''put''}
                   then build_option F symbol venue settle pp sp pinc sinc mk tk mul' c
                   else Err (ErrText (''unknown asset_class '' @ cls))) (\<lambda>inst.
                Ok (inst, \<lparr>im_iid = InstrumentId symbol venue, im_price_precision = pp, im_size_precision = sp\<rparr>))))))"

section \<open>Market events\<close>

definition minute_spec :: bar_spec where
  "minute_spec = \<lparr>bs_step = 1, bs_aggregation = AggMinute, bs_price_type = PtLast\<rparr>"

definition minute_bars :: "instrument_id \<Rightarrow> bar_type" where
  "minute_bars i = \<lparr>bt_instrument_id = i, bt_spec = minute_spec, bt_source = External\<rparr>"

definition build_bar_event ::
  "float_env \<Rightarrow> instrument_meta \<Rightarrow> u64 \<Rightarrow> f64 \<Rightarrow> f64 \<Rightarrow> f64 \<Rightarrow> f64 \<Rightarrow> f64 \<Rightarrow> py_error + market_event" where
  "build_bar_event F m ts op' high low close volume =
     (let mk = (\<lambda>v. vexc (px_of F v (im_price_precision m)))
      in result_bind (mk op') (\<lambda>o'.
         result_bind (mk high) (\<lambda>h.
         result_bind (mk low) (\<lambda>l.
         result_bind (mk close) (\<lambda>c.
         result_bind (vexc (qx_of F (fmax volume fzero) (im_size_precision m))) (\<lambda>v.
         Ok (MBar \<lparr>b_bar_type = minute_bars (im_iid m), b_open = o', b_high = h, b_low = l, b_close = c,
                   b_volume = v, b_ts_event = ts, b_ts_init = ts\<rparr>)))))))"

definition build_quote_event ::
  "float_env \<Rightarrow> instrument_meta \<Rightarrow> u64 \<Rightarrow> f64 \<Rightarrow> f64 \<Rightarrow> f64 \<Rightarrow> f64 \<Rightarrow> py_error + market_event" where
  "build_quote_event F m ts bid ask bid_size ask_size =
     result_bind (vexc (px_of F bid (im_price_precision m))) (\<lambda>b.
     result_bind (vexc (px_of F ask (im_price_precision m))) (\<lambda>a.
     result_bind (vexc (qx_of F (fmax bid_size fzero) (im_size_precision m))) (\<lambda>bs.
     result_bind (vexc (qx_of F (fmax ask_size fzero) (im_size_precision m))) (\<lambda>as.
     Ok (MQuote \<lparr>qt_instrument_id = im_iid m, qt_bid = b, qt_ask = a, qt_bid_size = bs, qt_ask_size = as,
                 qt_ts_event = ts, qt_ts_init = ts\<rparr>)))))"

definition build_trade_event ::
  "float_env \<Rightarrow> instrument_meta \<Rightarrow> u64 \<Rightarrow> f64 \<Rightarrow> f64 \<Rightarrow> int \<Rightarrow> u64 \<Rightarrow> py_error + market_event" where
  "build_trade_event F m ts px sz side sq =
     result_bind (vexc (px_of F px (im_price_precision m))) (\<lambda>p.
     result_bind (vexc (qx_of F (fmax sz fzero) (im_size_precision m))) (\<lambda>q.
     Ok (MTrade \<lparr>tt_instrument_id = im_iid m, tt_price = p, tt_size = q,
                 tt_aggressor = (if side < 0 then Sell else Buy), tt_trade_id = ''T-'' @ fmt020 (unat sq),
                 tt_ts_event = ts, tt_ts_init = ts\<rparr>)))"

definition build_delta_event ::
  "float_env \<Rightarrow> instrument_meta \<Rightarrow> u64 \<Rightarrow> int \<Rightarrow> f64 \<Rightarrow> f64 \<Rightarrow> u64 \<Rightarrow> nat \<Rightarrow> py_error + market_event" where
  "build_delta_event F m ts side px sz sequence action =
     result_bind
       (if action = 0 then Ok BookAdd else if action = 1 then Ok BookUpdate else if action = 2 then Ok BookDelete
        else if action = 3 then Ok BookClear else Err (ErrText (''unknown book action '' @ show_nat action))) (\<lambda>act.
     result_bind (vexc (px_of F px (im_price_precision m))) (\<lambda>p.
     result_bind (vexc (qx_of F (fmax sz fzero) (im_size_precision m))) (\<lambda>q.
     Ok (MDelta \<lparr>bd_instrument_id = im_iid m, bd_action = act, bd_side = (if side < 0 then Sell else Buy),
                 bd_price = p, bd_size = q, bd_sequence = sequence, bd_ts_event = ts, bd_ts_init = ts\<rparr>))))"

section \<open>Running a backtest\<close>

type_synonym py_position_row = "string \<times> string \<times> f64 \<times> f64 \<times> f64 \<times> f64 \<times> f64 \<times> f64"

record py_portfolio =
  yp_cash_balance :: f64
  yp_realized_pnl :: f64
  yp_equity :: f64
  yp_gross_exposure :: f64
  yp_net_exposure :: f64
  yp_unrealized_pnl :: f64
  yp_positions :: "py_position_row list"

definition py_portfolio_snapshot :: "portfolio_view \<Rightarrow> py_portfolio" where
  "py_portfolio_snapshot v =
     \<lparr>yp_cash_balance = pv_cash_balance v, yp_realized_pnl = pv_realized_pnl v, yp_equity = pv_equity v,
      yp_gross_exposure = pv_gross_exposure v, yp_net_exposure = pv_net_exposure v,
      yp_unrealized_pnl = pv_unrealized_pnl v,
      yp_positions = map (\<lambda>p. (pw_symbol p, pw_venue p, pw_net_qty p, pw_avg_price p, pw_mark_price p,
        pw_realized_pnl p, pw_unrealized_pnl p, pw_notional p)) (pv_positions v)\<rparr>"

record py_result =
  yy_starting_equity :: f64
  yy_final_equity :: f64
  yy_total_return :: f64
  yy_fills :: u64
  yy_orders_submitted :: u64
  yy_orders_denied :: u64
  yy_realized_pnl :: f64
  yy_equity_curve :: "(u64 \<times> f64) list"
  yy_fills_log :: "(u64 \<times> string \<times> int \<times> f64 \<times> f64) list"
  yy_portfolio :: py_portfolio

definition py_result_of :: "run_view \<Rightarrow> py_portfolio \<Rightarrow> py_result" where
  "py_result_of r p =
     \<lparr>yy_starting_equity = rv_starting_equity r, yy_final_equity = rv_final_equity r,
      yy_total_return =
        (if \<not> feq (rv_starting_equity r) fzero
         then fsub (fdiv (rv_final_equity r) (rv_starting_equity r)) (flit 1) else fzero),
      yy_fills = rv_fills r, yy_orders_submitted = rv_orders_submitted r, yy_orders_denied = rv_orders_denied r,
      yy_realized_pnl = rv_realized_pnl r, yy_equity_curve = rv_equity_curve r, yy_fills_log = rv_fills_log r,
      yy_portfolio = p\<rparr>"

definition run_config ::
  "float_env \<Rightarrow> currency \<Rightarrow> money \<Rightarrow> instrument list \<Rightarrow> f64 \<Rightarrow> f64 \<Rightarrow> f64 \<Rightarrow> backtest_config" where
  "run_config F settle starting insts queue_ahead leverage margin_rate =
     (let cfg = config_new (fe_dec F) insts settle starting;
          cfg1 = (if flt fzero queue_ahead
            then cfg\<lparr>bc_brokerage := default_model (fe_dec F)
              (default_default\<lparr>db_queue_ahead_factor := from_f64_or_zero F queue_ahead\<rparr>)\<rparr> else cfg);
          cfg2 = (if flt fzero leverage then cfg1\<lparr>bc_risk := (bc_risk cfg1)\<lparr>rl_leverage := fe_from F leverage\<rparr>\<rparr> else cfg1)
      in if flt fzero margin_rate
         then cfg2\<lparr>bc_risk := (bc_risk cfg2)\<lparr>rl_maintenance_margin_rate := fe_from F margin_rate\<rparr>\<rparr> else cfg2)"

text \<open>
  \<open>H\<close> and \<open>G\<close> are the iteration orders of the hash maps, \<open>st\<close> the state of the Python object and
  \<open>n\<close> a bound on the turns of the kernel's loop.
\<close>

definition run_kernel ::
  "nat \<Rightarrow> float_env \<Rightarrow> (position list \<Rightarrow> position list) \<Rightarrow> (order list \<Rightarrow> order list) \<Rightarrow> 'p py_strategy \<Rightarrow> 'p \<Rightarrow> currency \<Rightarrow>
   money \<Rightarrow> instrument list \<Rightarrow> (string \<rightharpoonup> instrument_meta) \<Rightarrow> string \<Rightarrow> market_event list \<Rightarrow> f64 \<Rightarrow> f64 \<Rightarrow> f64 \<Rightarrow>
   py_result run_outcome" where
  "run_kernel n F H G obj st settle starting insts metas default_symbol events queue_ahead leverage margin_rate =
     (let cfg = run_config F settle starting insts queue_ahead leverage margin_rate;
          a = \<lparr>ad_obj = obj, ad_instruments = metas, ad_default_symbol = default_symbol, ad_strategy_id = ''py-strategy''\<rparr>;
          E = build_env (fe_dec F) H G cfg ''py-strategy'' (adapter_strategy F a) events;
          k = (build_kernel cfg ''py-strategy'' st :: ('p, unit) kernel)
      in case kernel_run n E k of
           OutOfFuel \<Rightarrow> OutOfFuel
         | Panicked \<Rightarrow> Panicked
         | Finished k' \<Rightarrow>
             (case snapshot_portfolio (fe_dec F) H (kn_cache k') settle of
                None \<Rightarrow> Panicked
              | Some s \<Rightarrow> Finished (py_result_of (run_view_of F cfg (kn_result k'))
                  (py_portfolio_snapshot (portfolio_view_of F s)))))"

fun collect_ok :: "('a \<Rightarrow> 'e + 'b) \<Rightarrow> 'a list \<Rightarrow> 'e + 'b list" where
  "collect_ok f [] = Ok []"
| "collect_ok f (x # xs) = result_bind (f x) (\<lambda>y. result_bind (collect_ok f xs) (\<lambda>ys. Ok (y # ys)))"

record backtest_args =
  ba_symbol :: string
  ba_venue :: string
  ba_starting_balance :: f64
  ba_bars :: "(u64 \<times> f64 \<times> f64 \<times> f64 \<times> f64 \<times> f64) list"
  ba_price_precision :: nat
  ba_size_precision :: nat
  ba_maker_fee :: f64
  ba_taker_fee :: f64
  ba_queue_ahead_factor :: f64
  ba_quotes :: "(u64 \<times> f64 \<times> f64 \<times> f64 \<times> f64) list"
  ba_trades :: "(u64 \<times> f64 \<times> f64 \<times> int) list"
  ba_deltas :: "(u64 \<times> int \<times> f64 \<times> f64 \<times> u64 \<times> nat) list"
  ba_contract :: contract_args
  ba_leverage :: f64
  ba_maintenance_margin_rate :: f64

definition backtest_events :: "float_env \<Rightarrow> instrument_meta \<Rightarrow> backtest_args \<Rightarrow> py_error + market_event list" where
  "backtest_events F m A =
     result_bind (collect_ok (\<lambda>(ts, o', h, l, c, v). build_bar_event F m ts o' h l c v) (ba_bars A)) (\<lambda>bars.
     result_bind (collect_ok (\<lambda>(ts, b, a, bs, as). build_quote_event F m ts b a bs as) (ba_quotes A)) (\<lambda>quotes.
     result_bind (collect_ok (\<lambda>(sq, ts, p, q, side). build_trade_event F m ts p q side (of_nat sq))
       (List.enumerate 0 (ba_trades A))) (\<lambda>trades.
     result_bind (collect_ok (\<lambda>(ts, side, p, q, sq, act). build_delta_event F m ts side p q sq act) (ba_deltas A)) (\<lambda>deltas.
     Ok (bars @ quotes @ trades @ deltas)))))"

definition settle_usdt :: "py_error + currency" where
  "settle_usdt = vexc (currency_new ''USDT'' 8)"

definition starting_money :: "float_env \<Rightarrow> f64 \<Rightarrow> currency \<Rightarrow> py_error + money" where
  "starting_money F v settle = vexc (money_from_decimal (fe_dec F) (from_f64_or_zero F v) settle)"

definition run_backtest ::
  "nat \<Rightarrow> float_env \<Rightarrow> (position list \<Rightarrow> position list) \<Rightarrow> (order list \<Rightarrow> order list) \<Rightarrow> 'p py_strategy \<Rightarrow> 'p \<Rightarrow> backtest_args \<Rightarrow>
   py_error + py_result run_outcome" where
  "run_backtest n F H G obj st A =
     result_bind settle_usdt (\<lambda>settle.
     result_bind (build_typed_instrument F (ba_symbol A) (ba_venue A) settle (ba_price_precision A) (ba_size_precision A)
       (ba_maker_fee A) (ba_taker_fee A) (ba_contract A)) (\<lambda>(inst, meta).
     result_bind (backtest_events F meta A) (\<lambda>events.
     result_bind (starting_money F (ba_starting_balance A) settle) (\<lambda>starting.
     Ok (run_kernel n F H G obj st settle starting [inst] [ba_symbol A \<mapsto> meta] (ba_symbol A) events
       (ba_queue_ahead_factor A) (ba_leverage A) (ba_maintenance_margin_rate A))))))"

definition build_pairs ::
  "float_env \<Rightarrow> string \<Rightarrow> currency \<Rightarrow> (string \<times> nat \<times> nat \<times> f64 \<times> f64) list \<Rightarrow>
   py_error + (string \<times> instrument \<times> instrument_meta) list" where
  "build_pairs F venue settle rows =
     collect_ok (\<lambda>(symbol, pp, sp, mk, tk).
       result_bind (build_pair F symbol venue settle pp sp mk tk) (\<lambda>im. Ok (symbol, im))) rows"

definition run_backtest_multi ::
  "nat \<Rightarrow> float_env \<Rightarrow> (position list \<Rightarrow> position list) \<Rightarrow> (order list \<Rightarrow> order list) \<Rightarrow> 'p py_strategy \<Rightarrow> 'p \<Rightarrow> string \<Rightarrow> f64 \<Rightarrow>
   (string \<times> nat \<times> nat \<times> f64 \<times> f64) list \<Rightarrow> (u64 \<times> string \<times> f64 \<times> f64 \<times> f64 \<times> f64 \<times> f64) list \<Rightarrow> f64 \<Rightarrow>
   py_error + py_result run_outcome" where
  "run_backtest_multi n F H G obj st venue starting_balance instruments bars queue_ahead =
     (case instruments of
        [] \<Rightarrow> Err (ErrText ''run_backtest_multi needs at least one instrument'')
      | (default_symbol, _) # _ \<Rightarrow>
          result_bind settle_usdt (\<lambda>settle.
          result_bind (build_pairs F venue settle instruments) (\<lambda>built.
            let metas = fold (\<lambda>(s, _, m) f. f(s \<mapsto> m)) built Map.empty
            in result_bind (collect_ok (\<lambda>(ts, symbol, o', h, l, c, v).
                 case metas symbol of
                   None \<Rightarrow> Err (ErrUnknownSymbol symbol)
                 | Some m \<Rightarrow> build_bar_event F m ts o' h l c v) bars) (\<lambda>events.
               result_bind (starting_money F starting_balance settle) (\<lambda>starting.
               Ok (run_kernel n F H G obj st settle starting (map (\<lambda>(_, i, _). i) built) metas default_symbol events
                 queue_ahead fzero fzero))))))"

section \<open>Sandbox, live and paper kernels\<close>

record ('s, 'h, 'x, 'd) py_kernel =
  pk_env :: "('s, 'x, 'd) live_env"
  pk_inner :: "('s, 'h, 'x, 'd) live option"
  pk_stop :: bool

definition py_kernel_new :: "('s, 'x, 'd) live_env \<Rightarrow> ('s, 'h, 'x, 'd) live \<Rightarrow> ('s, 'h, 'x, 'd) py_kernel" where
  "py_kernel_new E k = \<lparr>pk_env = E, pk_inner = Some k, pk_stop = lv_stop k\<rparr>"

definition kernel_risk :: "float_env \<Rightarrow> 'o py_access \<Rightarrow> 'o \<Rightarrow> currency \<Rightarrow> py_error + risk_limits" where
  "kernel_risk F A config settle =
     result_bind (money_limit F (nested_f64 A config ''risk'' ''max_position_notional'' fzero) settle) (\<lambda>pos.
     result_bind (money_limit F (nested_f64 A config ''risk'' ''max_order_notional'' fzero) settle) (\<lambda>ord.
       let v = nested_u32 A config ''risk'' ''max_orders_per_sec'' 0
       in result_bind (money_limit F (nested_f64 A config ''risk'' ''max_gross_exposure'' fzero) settle) (\<lambda>gross.
          Ok \<lparr>rl_max_position_qty = None, rl_max_position_notional = pos, rl_max_order_notional = ord,
              rl_max_orders_per_sec = (if v = 0 then None else Some v), rl_max_gross_exposure = gross,
              rl_leverage = None, rl_maintenance_margin_rate = None\<rparr>)))"

definition kernel_binance :: "'o py_access \<Rightarrow> 'o \<Rightarrow> environment \<Rightarrow> binance_config" where
  "kernel_binance A config env =
     \<lparr>bn_api_key = nonempty (nested_string A config ''binance'' ''api_key'' []),
      bn_api_secret = nonempty (nested_string A config ''binance'' ''api_secret'' []),
      bn_testnet = nested_bool A config ''binance'' ''testnet'' (env = SandboxEnv)\<rparr>"

definition kernel_subs :: "instrument_id \<Rightarrow> subscription list" where
  "kernel_subs i =
     map (\<lambda>kind. \<lparr>sub_instrument_id = i, sub_sub_kind = kind\<rparr>) [SubQuotes, SubTrades, SubBookL2 1000, SubBars minute_spec]"

text \<open>The configuration, instrument and venue settings of \<open>build_kernel\<close>, before any client is made.\<close>

definition kernel_setup ::
  "float_env \<Rightarrow> 'o py_access \<Rightarrow> 'o \<Rightarrow> environment \<Rightarrow>
   py_error + string \<times> instrument_meta \<times> backtest_config \<times> binance_config" where
  "kernel_setup F A config env =
     result_bind settle_usdt (\<lambda>settle.
       let symbol = attr_string A config ''symbol'' ''BTCUSDT'';
           venue = nested_string A config ''venue'' ''name'' ''BINANCE'';
           pp = nested_u8 A config ''venue'' ''price_precision'' 2;
           sp = nested_u8 A config ''venue'' ''size_precision'' 3;
           maker = nested_f64 A config ''venue'' ''maker_fee'' (flit (2 / 10000));
           taker = nested_f64 A config ''venue'' ''taker_fee'' (flit (4 / 10000));
           balance = attr_f64 A config ''starting_balance'' (flit 100000)
       in result_bind (build_pair F symbol venue settle pp sp maker taker) (\<lambda>(inst, meta).
          result_bind (starting_money F balance settle) (\<lambda>starting.
          result_bind (kernel_risk F A config settle) (\<lambda>risk.
            let bn = kernel_binance A config env
            in if \<not> has_credentials bn
               then Err (ErrText ''coinext_py.build_kernel requires config.binance.api_key and api_secret for sandbox/live execution'')
               else Ok (symbol, meta, (config_new (fe_dec F) [inst] settle starting)\<lparr>bc_risk := risk\<rparr>, bn)))))"

definition live_adapter :: "'p py_strategy \<Rightarrow> string \<Rightarrow> string \<Rightarrow> instrument_meta \<Rightarrow> 'p py_adapter" where
  "live_adapter obj sid symbol meta =
     \<lparr>ad_obj = obj, ad_instruments = [symbol \<mapsto> meta], ad_default_symbol = symbol, ad_strategy_id = sid\<rparr>"

definition lift_port :: "(port_error + 'a) option \<Rightarrow> ('a \<Rightarrow> (py_error + 'b) option) \<Rightarrow> (py_error + 'b) option" where
  "lift_port r f = (case r of None \<Rightarrow> None | Some (Inl e) \<Rightarrow> Some (Err (ErrPort e)) | Some (Inr x) \<Rightarrow> f x)"

text \<open>
  \<open>wd\<close> and \<open>wx\<close> are what the two clients see of the network, \<open>readings\<close> is the system clock and
  \<open>rt\<close> what building the runtime for the subscriptions answers: the text of an error, or nothing.
\<close>

definition build_py_kernel ::
  "string option \<Rightarrow> float_env \<Rightarrow> 'o py_access \<Rightarrow> 'w wire \<Rightarrow> (position list \<Rightarrow> position list) \<Rightarrow> (nat \<Rightarrow> unix_nanos) \<Rightarrow> 'w \<Rightarrow> 'w \<Rightarrow> string \<Rightarrow> 'o \<Rightarrow>
   ('p py_strategy \<times> 'p) option \<Rightarrow> (py_error + ('p, 'h, 'w binance_exec, 'w binance_data) py_kernel) option" where
  "build_py_kernel rt F A W H readings wd wx env config strategy =
     (case parse_environment env of
        Inl e \<Rightarrow> Some (Err e)
      | Inr e \<Rightarrow>
          if \<not> is_live e
          then Some (Err (ErrText ''coinext_py.build_kernel builds sandbox/live handles; use coinext_backtest.run for backtest''))
          else case strategy of
            None \<Rightarrow> Some (Err (ErrText ''coinext_py.build_kernel requires a Python Strategy instance for sandbox/live''))
          | Some (obj, st) \<Rightarrow>
              (case kernel_setup F A config e of
                 Inl err \<Rightarrow> Some (Err err)
               | Inr (symbol, meta, cfg, bn) \<Rightarrow>
                   lift_port (binance_data_new W bn wd) (\<lambda>dx.
                   lift_port (binance_exec_new W bn wx) (\<lambda>ex.
                   case rt of Some err \<Rightarrow> Some (Err (ErrText err)) | None \<Rightarrow>
                     let dx = fold data_subscribe (kernel_subs (im_iid meta)) dx;
                         E = live_env (fe_dec F) H e cfg ''py-strategy''
                           (adapter_strategy F (live_adapter obj ''py-strategy'' symbol meta))
                           (binance_exec_client W) binance_data_client readings None
                     in map_option (\<lambda>k. Ok (py_kernel_new E k)) (build_live e cfg ''py-strategy'' st ex dx)))))"

definition paper_bar :: "float_env \<Rightarrow> instrument_id \<Rightarrow> u64 \<times> f64 \<times> f64 \<times> f64 \<times> f64 \<times> f64 \<Rightarrow> py_error + market_event" where
  "paper_bar F iid row =
     (case row of (ts, o', h, l, c, v) \<Rightarrow>
        let mk = (\<lambda>v. vexc (px_of F v 2))
        in result_bind (mk o') (\<lambda>o'. result_bind (mk h) (\<lambda>h. result_bind (mk l) (\<lambda>l. result_bind (mk c) (\<lambda>c.
           Ok (MBar \<lparr>b_bar_type = minute_bars iid, b_open = o', b_high = h, b_low = l, b_close = c,
                     b_volume = unwrap_or (qx_of F v 3) (qty_zero 3), b_ts_event = ts, b_ts_init = ts\<rparr>))))))"

definition last_close :: "(u64 \<times> f64 \<times> f64 \<times> f64 \<times> f64 \<times> f64) list \<Rightarrow> f64" where
  "last_close bars = fold (\<lambda>(ts, o', h, l, c, v) _. c) bars fzero"

definition paper_default_price :: "float_env \<Rightarrow> (u64 \<times> f64 \<times> f64 \<times> f64 \<times> f64 \<times> f64) list \<Rightarrow> py_error + price" where
  "paper_default_price F bars =
     (if flt fzero (last_close bars) then vexc (px_of F (last_close bars) 2) else vexc (px_of F (flit 50000) 2))"

definition build_paper_kernel ::
  "float_env \<Rightarrow> (position list \<Rightarrow> position list) \<Rightarrow> (nat \<Rightarrow> unix_nanos) \<Rightarrow> 'p py_strategy \<Rightarrow> 'p \<Rightarrow>
   (u64 \<times> f64 \<times> f64 \<times> f64 \<times> f64 \<times> f64) list \<Rightarrow> string \<Rightarrow> string \<Rightarrow> f64 \<Rightarrow> string \<Rightarrow>
   (py_error + ('p, 'h, paper_client, replay_client) py_kernel) option" where
  "build_paper_kernel F H readings obj st bars symbol venue balance env =
     (case parse_environment env of
        Inl e \<Rightarrow> Some (Err e)
      | Inr e \<Rightarrow>
          if \<not> is_live e
          then Some (Err (ErrText ''coinext_py.build_paper_kernel requires env sandbox|live (paper uses LiveKernel)''))
          else case result_bind settle_usdt (\<lambda>settle.
                 result_bind (build_pair F symbol venue settle 2 3 (flit (2 / 10000)) (flit (4 / 10000))) (\<lambda>(inst, meta).
                 result_bind (starting_money F balance settle) (\<lambda>starting.
                 result_bind (collect_ok (paper_bar F (im_iid meta)) bars) (\<lambda>events.
                 result_bind (paper_default_price F bars) (\<lambda>px.
                 Ok (settle, inst, meta, starting, events, px)))))) of
            Inl err \<Rightarrow> Some (Err err)
          | Inr (settle, inst, meta, starting, events, px) \<Rightarrow>
              let cfg = config_new (fe_dec F) [inst] settle starting;
                  E = live_env (fe_dec F) H e cfg ''py-paper'' (adapter_strategy F (live_adapter obj ''py-paper'' symbol meta))
                    paper_exec_client replay_data_client readings None
              in map_option (\<lambda>k. Ok (py_kernel_new E k))
                   (build_live e cfg ''py-paper'' st (paper_new venue px settle) (replay_new events)))"

section \<open>The runs of a live kernel\<close>

text \<open>
  \<open>LiveKernel::run\<close> and its variants with a portfolio callback; a callback sees the snapshots so far
  and answers with the text of its error, if any.
\<close>

definition run_quietly :: "nat \<Rightarrow> ('s, 'x, 'd) live_env \<Rightarrow> ('s, 'h, 'x, 'd) live \<Rightarrow> ('s, 'h, 'x, 'd) live session" where
  "run_quietly n E k = live_run n (E\<lparr>le_on_portfolio := None\<rparr>) k"

definition try_run_with_portfolio_callback ::
  "nat \<Rightarrow> float_env \<Rightarrow> (portfolio_view list \<Rightarrow> string option) \<Rightarrow> ('s, 'x, 'd) live_env \<Rightarrow> ('s, 'h, 'x, 'd) live \<Rightarrow> ('s, 'h, 'x, 'd) live session" where
  "try_run_with_portfolio_callback n F callback E k =
     live_run n (E\<lparr>le_on_portfolio := Some (\<lambda>snaps. map_option (\<lambda>e. PortIo (''portfolio callback failed: '' @ e))
       (callback (map (portfolio_view_of F) snaps)))\<rparr>) k"

definition run_with_portfolio_callback ::
  "nat \<Rightarrow> float_env \<Rightarrow> ('s, 'x, 'd) live_env \<Rightarrow> ('s, 'h, 'x, 'd) live \<Rightarrow> ('s, 'h, 'x, 'd) live session" where
  "run_with_portfolio_callback n F E k = try_run_with_portfolio_callback n F (\<lambda>_. None) E k"

definition live_portfolio_snapshot :: "float_env \<Rightarrow> ('s, 'x, 'd) live_env \<Rightarrow> ('s, 'h, 'x, 'd) live \<Rightarrow> portfolio_view option" where
  "live_portfolio_snapshot F E k =
     map_option (portfolio_view_of F) (snapshot_portfolio (fe_dec F) (le_iter_positions E) (lv_cache k) (le_settle E))"

section \<open>The kernel handle\<close>

definition unavailable :: py_error where
  "unavailable = ErrText ''kernel is already running or unavailable''"

definition take_kernel ::
  "('s, 'h, 'x, 'd) py_kernel \<Rightarrow> py_error + ('s, 'h, 'x, 'd) live \<times> ('s, 'h, 'x, 'd) py_kernel" where
  "take_kernel pk = (case pk_inner pk of None \<Rightarrow> Err unavailable | Some k \<Rightarrow> Ok (k, pk\<lparr>pk_inner := None\<rparr>))"

definition restore_kernel :: "('s, 'h, 'x, 'd) live \<Rightarrow> ('s, 'h, 'x, 'd) py_kernel \<Rightarrow> ('s, 'h, 'x, 'd) py_kernel" where
  "restore_kernel k pk = pk\<lparr>pk_inner := Some k, pk_stop := lv_stop k\<rparr>"

definition py_environment :: "('s, 'h, 'x, 'd) py_kernel \<Rightarrow> py_error + string" where
  "py_environment pk =
     (case pk_inner pk of
        None \<Rightarrow> Err unavailable
      | Some _ \<Rightarrow> Ok (case le_environment (pk_env pk) of
          SandboxEnv \<Rightarrow> ''sandbox'' | LiveEnv \<Rightarrow> ''live'' | BacktestEnv \<Rightarrow> ''backtest''))"

definition py_kernel_snapshot :: "float_env \<Rightarrow> ('s, 'h, 'x, 'd) py_kernel \<Rightarrow> (py_error + py_portfolio) option" where
  "py_kernel_snapshot F pk =
     (case pk_inner pk of
        None \<Rightarrow> Some (Err unavailable)
      | Some k \<Rightarrow> map_option (\<lambda>v. Ok (py_portfolio_snapshot v)) (live_portfolio_snapshot F (pk_env pk) k))"

text \<open>The stop handle is shared with the kernel inside.\<close>

definition py_request_stop :: "('s, 'h, 'x, 'd) py_kernel \<Rightarrow> ('s, 'h, 'x, 'd) py_kernel" where
  "py_request_stop pk = pk\<lparr>pk_stop := True, pk_inner := map_option request_stop (pk_inner pk)\<rparr>"

definition py_stop_requested :: "('s, 'h, 'x, 'd) py_kernel \<Rightarrow> bool" where
  "py_stop_requested pk = pk_stop pk"

datatype ('r, 'k) py_outcome = PyDone 'r 'k | PyPanic 'k | PyBlocked 'k | PyOutOfFuel

text \<open>\<open>rt\<close> is again what building the runtime answers.\<close>

definition run_taken ::
  "string option \<Rightarrow> (('s, 'h, 'x, 'd) live \<Rightarrow> ('s, 'h, 'x, 'd) live session) \<Rightarrow> ('s, 'h, 'x, 'd) py_kernel \<Rightarrow>
   (py_error + unit, ('s, 'h, 'x, 'd) py_kernel) py_outcome" where
  "run_taken rt go pk =
     (case take_kernel pk of
        Inl e \<Rightarrow> PyDone (Err e) pk
      | Inr (k, pk1) \<Rightarrow>
          (case rt of Some e \<Rightarrow> PyDone (Err (ErrText e)) pk1 | None \<Rightarrow>
           case go k of
             Ended (LOk k') \<Rightarrow> PyDone (Ok ()) (restore_kernel k' pk1)
           | Ended (LErr e k') \<Rightarrow> PyDone (Err (ErrPort e)) (restore_kernel k' pk1)
           | Ended LPanic \<Rightarrow> PyPanic pk1
           | Ended LBlock \<Rightarrow> PyBlocked pk1
           | Stalled _ \<Rightarrow> PyBlocked pk1
           | Exhausted \<Rightarrow> PyOutOfFuel))"

definition py_run ::
  "nat \<Rightarrow> string option \<Rightarrow> ('s, 'h, 'x, 'd) py_kernel \<Rightarrow> (py_error + unit, ('s, 'h, 'x, 'd) py_kernel) py_outcome" where
  "py_run n rt pk = run_taken rt (run_quietly n (pk_env pk)) pk"

text \<open>A Python callback answers with the text of the exception it raises, if any.\<close>

definition py_run_with_portfolio_callback ::
  "nat \<Rightarrow> string option \<Rightarrow> float_env \<Rightarrow> (py_portfolio list \<Rightarrow> string option) \<Rightarrow> ('s, 'h, 'x, 'd) py_kernel \<Rightarrow>
   (py_error + unit, ('s, 'h, 'x, 'd) py_kernel) py_outcome" where
  "py_run_with_portfolio_callback n rt F callback pk =
     run_taken rt (try_run_with_portfolio_callback n F (\<lambda>vs. callback (map py_portfolio_snapshot vs)) (pk_env pk)) pk"

section \<open>Option pricing\<close>

definition py_bs_inputs :: "f64 \<Rightarrow> f64 \<Rightarrow> f64 \<Rightarrow> f64 \<Rightarrow> f64 \<Rightarrow> bs_inputs" where
  "py_bs_inputs spot strike t_years rate vol =
     \<lparr>bsi_spot = spot, bsi_strike = strike, bsi_t_years = t_years, bsi_rate = rate, bsi_vol = vol\<rparr>"

definition py_bs_price :: "libm \<Rightarrow> f64 \<Rightarrow> f64 \<Rightarrow> f64 \<Rightarrow> f64 \<Rightarrow> f64 \<Rightarrow> bool \<Rightarrow> f64" where
  "py_bs_price L spot strike t_years rate vol is_call = bs_price L (py_bs_inputs spot strike t_years rate vol) is_call"

definition py_bs_greeks :: "libm \<Rightarrow> f64 \<Rightarrow> f64 \<Rightarrow> f64 \<Rightarrow> f64 \<Rightarrow> f64 \<Rightarrow> bool \<Rightarrow> f64 \<times> f64 \<times> f64 \<times> f64 \<times> f64" where
  "py_bs_greeks L spot strike t_years rate vol is_call =
     (let g = bs_greeks L (py_bs_inputs spot strike t_years rate vol) is_call
      in (g_delta g, g_gamma g, g_vega g, g_theta g, g_rho g))"

definition py_implied_vol :: "libm \<Rightarrow> f64 \<Rightarrow> f64 \<Rightarrow> f64 \<Rightarrow> f64 \<Rightarrow> f64 \<Rightarrow> bool \<Rightarrow> f64 option" where
  "py_implied_vol L market_price spot strike t_years rate is_call = implied_vol L market_price spot strike t_years rate is_call"

section \<open>Handlers that only look\<close>

primrec reads_only :: "'p py_code \<Rightarrow> bool" where
  "reads_only (PyReturn p) \<longleftrightarrow> True"
| "reads_only (PyRaise p) \<longleftrightarrow> True"
| "reads_only (PyAsk c k) \<longleftrightarrow> (case c of PyNow \<Rightarrow> True | PyPosition _ \<Rightarrow> True | _ \<Rightarrow> False) \<and> (\<forall>r. reads_only (k r))"

definition acts_on_market_data :: "'p py_strategy \<Rightarrow> bool" where
  "acts_on_market_data obj \<longleftrightarrow>
     (\<forall>e p. reads_only (py_on_order_event obj e p)) \<and> (\<forall>f p. reads_only (py_on_order_filled obj f p)) \<and>
     (\<forall>t p. reads_only (py_on_timer obj t p))"

lemma reads_only_run: "reads_only code \<Longrightarrow> snd (snd (run_code (py_step F) code c)) = c"
proof (induction code arbitrary: c)
  case (PyAsk call k)
  then show ?case by (cases call) (auto simp: split_beta)
qed auto

lemma reads_only_quiet: "(\<And>p. reads_only (call p)) \<Longrightarrow> quiet (run_handler F a call)"
  by (simp add: quiet_def run_handler_def split_beta reads_only_run adapter_ctx_def py_replay_def List.map_filter_simps)

lemma adapter_market_driven: "acts_on_market_data (ad_obj a) \<Longrightarrow> market_driven (adapter_strategy F a)"
  by (simp add: market_driven_def adapter_strategy_def Let_def acts_on_market_data_def reads_only_quiet)

lemma run_kernel_ends:
  assumes "acts_on_market_data obj"
  shows "\<exists>n r. r \<noteq> OutOfFuel \<and>
    (\<forall>m. run_kernel (n + m) F H G obj st settle starting insts metas dflt events qa lev mm = r)"
proof -
  let ?a = "\<lparr>ad_obj = obj, ad_instruments = metas, ad_default_symbol = dflt, ad_strategy_id = ''py-strategy''\<rparr>"
  let ?cfg = "run_config F settle starting insts qa lev mm"
  have "market_driven (adapter_strategy F ?a)" using assms by (simp add: adapter_market_driven)
  from market_driven_run_ends [OF this, of "fe_dec F" H G ?cfg "''py-strategy''" events st]
  obtain n and r :: "('a, unit) kernel run_outcome" where "r \<noteq> OutOfFuel"
    "\<forall>m. kernel_run (n + m) (build_env (fe_dec F) H G ?cfg ''py-strategy'' (adapter_strategy F ?a) events)
       (build_kernel ?cfg ''py-strategy'' st) = r" by blast
  then show ?thesis
    by (intro exI [of _ n] exI conjI allI, unfold run_kernel_def Let_def) (auto split: run_outcome.split option.split)
qed

section \<open>Paper sessions\<close>

interpretation spent: live_invariant "E\<lparr>le_data := replay_data_client\<rparr>" "\<lambda>c e g x d. \<not> rp_sender d"
  for E :: "('s, 'x, replay_client) live_env"
  by unfold_locales
    (auto simp: replay_data_client_def replay_connect_def replay_take_stream_def Let_def split_beta lres_all_const split: if_split_asm)

lemma session_spends_feed:
  assumes "le_data E = replay_data_client" "live_run n E k = Ended r"
  shows "lres_all (\<lambda>k. \<not> rp_sender (lv_data_client k)) r"
proof -
  have E: "E\<lparr>le_data := replay_data_client\<rparr> = E" using assms(1) by simp
  have "lres_all (spent.I) (on_data (dc_connect (le_data E)) k)"
    by (rule lres_all_data) (auto simp: assms(1) replay_data_client_def replay_connect_def spent.I_def split: option.split)
  from spent.run_I [of E, unfolded E, OF this assms(2)] show ?thesis by (simp add: spent.I_def [abs_def])
qed

lemma spent_feed_panics:
  "le_data E = replay_data_client \<Longrightarrow> \<not> rp_sender (lv_data_client k) \<Longrightarrow> live_run n E k = Ended LPanic"
  by (simp add: live_run_def live_start_def on_data_def replay_data_client_def replay_connect_def)

lemma paper_built:
  assumes "build_paper_kernel F H readings obj st bars symbol venue balance env = Some (Ok pk)"
  obtains k px settle events where "pk_inner pk = Some k" "paper_default_price F bars = Ok px"
    "lv_exec_client k = paper_new venue px settle" "lv_data_client k = replay_new events"
    "le_data (pk_env pk) = replay_data_client" "le_exec (pk_env pk) = paper_exec_client"
  using assms
  by (auto simp: build_paper_kernel_def build_live_def py_kernel_new_def live_env_def result_bind_Inr Let_def
      split: sum.split_asm if_split_asm)

interpretation priced: live_invariant "E\<lparr>le_exec := paper_exec_client\<rparr>" "\<lambda>c e g x d. pc_default_price x = px"
  for E :: "('s, paper_client, 'd) live_env" and px
  by unfold_locales
    (auto simp: paper_exec_client_def paper_submit_order_def paper_cancel_order_def paper_take_reports_def
      paper_send_def Let_def split_beta lres_all_const split: option.split if_split_asm)

lemma last_close_snoc: "last_close (bars @ [(ts, o', h, l, c, v)]) = c"
  by (simp add: last_close_def)

text \<open>A call that, with enough turns, has an outcome which further turns do not change.\<close>

definition ends :: "(nat \<Rightarrow> 'e + 'r run_outcome) \<Rightarrow> bool" where
  "ends f \<longleftrightarrow> (\<exists>n r. r \<noteq> Ok OutOfFuel \<and> (\<forall>m. f (n + m) = r))"

lemma ends_bind: "(\<And>x. r = Inr x \<Longrightarrow> ends (\<lambda>n. f n x)) \<Longrightarrow> ends (\<lambda>n. result_bind r (f n))"
  by (cases r) (auto simp: ends_def)

lemma ends_Ok: "\<exists>n r. r \<noteq> OutOfFuel \<and> (\<forall>m. f (n + m) = r) \<Longrightarrow> ends (\<lambda>n. Ok (f n))"
  by (auto simp: ends_def)

lemma new_client_config:
  "binance_exec_new W cfg w = Some (Inr x) \<Longrightarrow> bx_config x = cfg"
  "binance_data_new W cfg w = Some (Inr d) \<Longrightarrow> dx_config d = cfg"
  by (cases "per_minute 1200"; auto simp: binance_exec_new_def binance_data_new_def Let_def split: sum.split_asm)+

lemma subscribe_config: "dx_config (fold data_subscribe ss d) = dx_config d"
  by (induction ss arbitrary: d) (simp_all add: data_subscribe_def)

section \<open>Sample calls\<close>

abbreviation one_f64 :: f64 where
  "one_f64 \<equiv> FFin False 1"

definition plain_floats :: float_env where
  "plain_floats = sample_floats\<lparr>fe_from := \<lambda>_. None\<rparr>"

definition sample_paper :: "(py_error + (unit, unit, paper_client, replay_client) py_kernel) option" where
  "sample_paper =
     build_paper_kernel plain_floats (\<lambda>x. x) of_nat (ad_obj sample_adapter) ()
       [(7, one_f64, one_f64, one_f64, one_f64, one_f64)] ''BTC'' ''X'' one_f64 ''sandbox''"

definition plain_pair :: "string \<Rightarrow> string \<Rightarrow> currency \<Rightarrow> nat \<Rightarrow> nat \<Rightarrow> py_error + instrument \<times> instrument_meta" where
  "plain_pair sy v q pp sp = build_pair plain_floats sy v q pp sp fzero fzero"

lemma plain_eqs:
  "build_pair plain_floats sy v q pp sp mk tk = plain_pair sy v q pp sp"
  "starting_money plain_floats x q = vexc (money_from_decimal rdec dec_zero q)"
  by (simp_all add: build_pair_def plain_pair_def starting_money_def from_f64_or_zero_def plain_floats_def sample_floats_def or_default_def)

lemma sample_paper_runs:
  "case sample_paper of Some (Inr pk) \<Rightarrow> (case py_run 9 None pk of PyDone r pk1 \<Rightarrow> True | _ \<Rightarrow> False) | _ \<Rightarrow> False"
  unfolding sample_paper_def build_paper_kernel_def plain_eqs by code_simp

lemma sample_paper_starts:
  "case sample_paper of
     Some (Inr pk) \<Rightarrow> (case live_start (pk_env pk) (the (pk_inner pk)) of LOk _ \<Rightarrow> pk_inner pk \<noteq> None | _ \<Rightarrow> False)
   | _ \<Rightarrow> False"
  unfolding sample_paper_def build_paper_kernel_def plain_eqs by code_simp

text \<open>A configuration object with a key and a secret and nothing else.\<close>

definition sample_access :: "string py_access" where
  "sample_access =
     \<lparr>ac_getattr = (\<lambda>obj nm. if nm \<in> {''binance'', ''api_key'', ''api_secret''} then Some nm else None), ac_string = Some,
      ac_f64 = (\<lambda>_. None), ac_u8 = (\<lambda>_. None), ac_u32 = (\<lambda>_. None), ac_bool = (\<lambda>_. None)\<rparr>"

lemma sample_setup:
  "case kernel_setup plain_floats sample_access ''cfg'' SandboxEnv of Inr _ \<Rightarrow> True | _ \<Rightarrow> False"
  unfolding kernel_setup_def plain_eqs Let_def by code_simp

lemma sample_clients:
  "case binance_data_new venue_wire bn ([], Map.empty) of Some (Inr _) \<Rightarrow> True | _ \<Rightarrow> False"
  "case binance_exec_new venue_wire bn ([], Map.empty) of Some (Inr _) \<Rightarrow> True | _ \<Rightarrow> False"
  by (simp_all add: binance_data_new_def binance_exec_new_def per_minute_def limiter_new_def rest_client_new_def
      venue_wire_def script_env_def)

lemma sample_kernel_built:
  "\<exists>pk :: (unit, unit, _, _) py_kernel.
     build_py_kernel None plain_floats sample_access venue_wire (\<lambda>x. x) of_nat ([], Map.empty) ([], Map.empty) ''sandbox'' ''cfg''
       (Some (ad_obj sample_adapter, ())) = Some (Ok pk) \<and> le_environment (pk_env pk) = SandboxEnv"
proof -
  obtain symbol meta cfg bn where s: "kernel_setup plain_floats sample_access ''cfg'' SandboxEnv = Ok (symbol, meta, cfg, bn)"
    using sample_setup by (auto split: sum.split_asm)
  obtain dx ex where c: "binance_data_new venue_wire bn ([], Map.empty) = Some (Inr dx)"
    "binance_exec_new venue_wire bn ([], Map.empty) = Some (Inr ex)"
    using sample_clients [of bn] by (auto split: option.split_asm sum.split_asm)
  have e: "parse_environment ''sandbox'' = Ok SandboxEnv" by code_simp
  show ?thesis
    using s c e by (simp add: build_py_kernel_def lift_port_def is_live_def build_live_def py_kernel_new_def live_env_def)
qed

definition sample_args :: backtest_args where
  "sample_args =
     \<lparr>ba_symbol = ''BTC'', ba_venue = ''X'', ba_starting_balance = one_f64,
      ba_bars = [(7, one_f64, one_f64, one_f64, one_f64, one_f64)], ba_price_precision = 2, ba_size_precision = 3,
      ba_maker_fee = fzero, ba_taker_fee = fzero, ba_queue_ahead_factor = fzero, ba_quotes = [], ba_trades = [],
      ba_deltas = [],
      ba_contract = \<lparr>ca_asset_class = ''Future'', ca_multiplier = one_f64, ca_strike = None, ca_option_right = None,
        ca_expiry_ns = Some 9, ca_underlying = Some ''ETH.Y''\<rparr>,
      ba_leverage = fzero, ba_maintenance_margin_rate = fzero\<rparr>"

lemma sample_acts: "acts_on_market_data (ad_obj sample_adapter)"
  by (simp add: acts_on_market_data_def sample_adapter_def)

section \<open>Properties\<close>

text \<open>
  C11: backtests of Python strategies end. For every Python object whose order and timer handlers
  only look, and every set of arguments, there is a number of kernel turns with which
  \<open>run_backtest\<close> has returned (or raised, or panicked), and more turns change nothing.
\<close>

theorem python_backtest_ends:
  assumes "acts_on_market_data obj"
  shows "\<exists>n r. r \<noteq> Ok OutOfFuel \<and> (\<forall>m. run_backtest (n + m) F H G obj st A = r)"
proof -
  have "ends (\<lambda>n. run_backtest n F H G obj st A)"
    unfolding run_backtest_def split_beta
    by (intro ends_bind ends_Ok run_kernel_ends assms)
  then show ?thesis by (simp add: ends_def)
qed

theorem python_backtest_ends_witness:
  "\<exists>n r. r \<noteq> Ok OutOfFuel \<and>
    (\<forall>m. run_backtest (n + m) sample_floats rev rev (ad_obj sample_adapter) () sample_args = r)"
  by (rule python_backtest_ends [OF sample_acts])

text \<open>
  Instruments built from Python are well formed. Whatever the arguments, an instrument that
  \<open>build_typed_instrument\<close> returns carries the id and the precisions the adapter keeps for it,
  valid increments of one unit, and the contract data its class needs: an expiry for a future, and
  a strike at the instrument's precision, a right, an expiry and an underlying for an option.
\<close>

theorem typed_instrument_ok:
  assumes "build_typed_instrument F symbol venue settle pp sp maker taker c = Ok (inst, meta)"
  shows "inst_id inst = InstrumentId symbol venue \<and> im_iid meta = inst_id inst \<and>
    im_price_precision meta = pp \<and> im_size_precision meta = sp \<and>
    inst_price_increment inst = Price 1 pp \<and> inst_size_increment inst = Quantity 1 sp \<and>
    valid_price (inst_price_increment inst) \<and> valid_qty (inst_size_increment inst) \<and>
    inst_price_precision inst = pp \<and> inst_size_precision inst = sp \<and>
    (inst_asset_class inst = Future \<longrightarrow> inst_expiry_ns inst = ca_expiry_ns c \<and> ca_expiry_ns c \<noteq> None) \<and>
    (inst_asset_class inst = AssetOption \<longrightarrow>
       inst_expiry_ns inst = ca_expiry_ns c \<and> ca_expiry_ns c \<noteq> None \<and> inst_option_right inst \<noteq> None \<and>
       inst_underlying inst \<noteq> None \<and> (\<exists>k. inst_strike inst = Some k \<and> p_prec k = pp))"
proof -
  have px: "p_prec p = n" if "px_of F v n = Ok p" for v n p
    using that by (auto simp: price_from_f64_def price_from_decimal_def price_from_raw_def result_bind_Inr split: if_split_asm)
  have inc: "valid_price (Price 1 n)" "valid_qty (Quantity 1 n)" if "n \<le> MAX_PRECISION" for n
    using that by (simp_all add: valid_price_def valid_qty_def in_i64_def)
  show ?thesis
    using assms
    by (auto simp: build_typed_instrument_def build_pair_def build_future_def build_option_def Let_def result_bind_Inr
        price_from_raw_def qty_from_raw_def check_precision_def currency_pair_dyn_def equity_dyn_def
        futures_contract_dyn_def option_contract_dyn_def inc dest!: px split: if_split_asm)
qed

theorem typed_instrument_ok_witness:
  "\<exists>inst meta. build_typed_instrument sample_floats ''BTC'' ''X'' usdt 2 3 fzero fzero (ba_contract sample_args) = Ok (inst, meta) \<and>
     inst_asset_class inst = Future \<and> inst_expiry_ns inst = Some 9 \<and> inst_underlying inst = Some (InstrumentId ''ETH'' ''Y'') \<and>
     im_iid meta = InstrumentId ''BTC'' ''X'' \<and> valid_price (inst_price_increment inst)"
proof -
  have "case build_typed_instrument sample_floats ''BTC'' ''X'' usdt 2 3 fzero fzero (ba_contract sample_args) of
      Inl e \<Rightarrow> False
    | Inr (inst, meta) \<Rightarrow> inst_asset_class inst = Future \<and> inst_expiry_ns inst = Some 9 \<and>
        inst_underlying inst = Some (InstrumentId ''ETH'' ''Y'')"
    by code_simp
  then obtain inst meta where
    b: "build_typed_instrument sample_floats ''BTC'' ''X'' usdt 2 3 fzero fzero (ba_contract sample_args) = Ok (inst, meta)"
    "inst_asset_class inst = Future" "inst_expiry_ns inst = Some 9" "inst_underlying inst = Some (InstrumentId ''ETH'' ''Y'')"
    by (auto split: sum.split_asm)
  with typed_instrument_ok [OF b(1)] show ?thesis by auto
qed

text \<open>
  A paper session fills at the close of its last bar. In every state a paper kernel reaches,
  from the first bar on, an order without a price is filled at the close of the final bar of the
  series that is still being replayed.
\<close>

theorem paper_fills_at_final_close:
  assumes "build_paper_kernel F H readings obj st (bars @ [(ts, o', h, l, c, v)]) symbol venue balance env = Some (Ok pk)"
    "pk_inner pk = Some k0" "flt fzero c" "live_start (pk_env pk) k0 = LOk k1"
    "live_steps (pk_env pk) (\<lambda>_ _. False) (\<lambda>_ _. False) k1 k" "o_price ord = None"
  shows "px_of F c 2 = Ok (f_last_px (paper_fill ord sq (lv_exec_client k)))"
proof -
  let ?E = "pk_env pk"
  obtain px settle events where b: "paper_default_price F (bars @ [(ts, o', h, l, c, v)]) = Ok px"
    "lv_exec_client k0 = paper_new venue px settle" "le_exec ?E = paper_exec_client"
    using paper_built [OF assms(1)] assms(2) by (metis option.inject)
  have E: "?E\<lparr>le_exec := paper_exec_client\<rparr> = ?E" using b(3) by simp
  have "priced.I px k0" using b(2) by (simp add: priced.I_def paper_new_def)
  then have "priced.I px k1" using priced.start_I [of px k0 ?E, unfolded E] assms(4) by simp
  then have "priced.I px k" by (rule priced.steps_I [of ?E, unfolded E, OF assms(5)]) simp_all
  then show ?thesis using b(1) assms(3, 6) by (simp add: priced.I_def paper_fill_def paper_default_price_def last_close_snoc)
qed

theorem paper_fills_at_final_close_witness:
  "\<exists>pk k0 k. sample_paper = Some (Ok pk) \<and> pk_inner pk = Some k0 \<and> live_start (pk_env pk) k0 = LOk k \<and>
     px_of plain_floats one_f64 2 =
       Ok (f_last_px (paper_fill (order_new ''py-paper'' ''i'' (InstrumentId ''BTC'' ''X'') Buy Market (Quantity 1 3) None None Ioc flags_default 0)
         1 (lv_exec_client k)))"
proof -
  obtain pk where p: "sample_paper = Some (Ok pk)" using sample_paper_starts by (auto split: option.split_asm sum.split_asm)
  have "case live_start (pk_env pk) (the (pk_inner pk)) of LOk _ \<Rightarrow> pk_inner pk \<noteq> None | _ \<Rightarrow> False"
    using sample_paper_starts by (simp add: p)
  then obtain k0 k1 where s: "pk_inner pk = Some k0" "live_start (pk_env pk) k0 = LOk k1" by (auto split: lres.split_asm)
  have b: "build_paper_kernel plain_floats (\<lambda>x. x) of_nat (ad_obj sample_adapter) () ([] @ [(7, one_f64, one_f64, one_f64, one_f64, one_f64)])
      ''BTC'' ''X'' one_f64 ''sandbox'' = Some (Ok pk)"
    using p by (simp add: sample_paper_def)
  have f: "flt fzero one_f64" by simp
  let ?o = "order_new ''py-paper'' ''i'' (InstrumentId ''BTC'' ''X'') Buy Market (Quantity 1 3) None None Ioc flags_default 0"
  have "o_price ?o = None" by (simp add: order_new_def)
  from paper_fills_at_final_close [OF b s(1) f s(2) steps_refl this, of 1] show ?thesis using p s by blast
qed

text \<open>
  C39: a paper kernel runs once. After a run of a paper kernel that returned, with or without an
  error, a second run panics, and from then on the handle has no kernel.
\<close>

theorem paper_kernel_runs_once:
  assumes "build_paper_kernel F H readings obj st bars symbol venue balance env = Some (Ok pk)"
    "py_run n None pk = PyDone r pk1"
  shows "\<exists>pk2. py_run m None pk1 = PyPanic pk2 \<and> py_environment pk2 = Err unavailable"
proof -
  let ?E = "(pk_env pk)\<lparr>le_on_portfolio := None\<rparr>"
  obtain k where k: "pk_inner pk = Some k" "le_data (pk_env pk) = replay_data_client"
    using paper_built [OF assms(1)] by metis
  then have d: "le_data ?E = replay_data_client" by simp
  obtain k' where k': "pk_inner pk1 = Some k'" "pk_env pk1 = pk_env pk" "\<not> rp_sender (lv_data_client k')"
    using assms(2) k session_spends_feed [OF d, of n k]
    by (auto simp: py_run_def run_quietly_def run_taken_def take_kernel_def restore_kernel_def split: session.split_asm lres.split_asm)
  then have "live_run m ?E k' = Ended LPanic" by (intro spent_feed_panics d)
  then show ?thesis
    using k' by (simp add: py_run_def run_quietly_def run_taken_def take_kernel_def py_environment_def)
qed

theorem paper_kernel_runs_once_witness:
  "\<exists>pk r pk1 pk2. sample_paper = Some (Ok pk) \<and> py_run 9 None pk = PyDone r pk1 \<and> py_run 9 None pk1 = PyPanic pk2"
proof -
  obtain pk r pk1 where b: "sample_paper = Some (Ok pk)" "py_run 9 None pk = PyDone r pk1"
    using sample_paper_runs by (auto split: option.split_asm sum.split_asm py_outcome.split_asm)
  with paper_kernel_runs_once [OF b(1) [unfolded sample_paper_def] b(2), of 9] show ?thesis by blast
qed

text \<open>
  A sandbox or live kernel is only built with credentials, and a sandbox stays on the test
  network. When \<open>build_kernel\<close> returns a handle, both clients carry the same configuration with a
  non-blank key and secret; and for \<open>sandbox\<close>, unless the configuration says otherwise, that
  configuration is the test network's.
\<close>

theorem kernel_needs_credentials:
  assumes "build_py_kernel rt F A W H readings wd wx env config strategy = Some (Ok pk)"
  shows "\<exists>k. pk_inner pk = Some k \<and> has_credentials (bx_config (lv_exec_client k)) \<and>
    dx_config (lv_data_client k) = bx_config (lv_exec_client k) \<and> is_live (le_environment (pk_env pk)) \<and>
    (le_environment (pk_env pk) = SandboxEnv \<and> nested_attr A config ''binance'' ''testnet'' = None \<longrightarrow>
       bn_testnet (bx_config (lv_exec_client k)))"
proof -
  obtain e obj st symbol meta cfg bn dx ex k where
    e: "is_live e" and s: "kernel_setup F A config e = Ok (symbol, meta, cfg, bn)"
    and c: "binance_data_new W bn wd = Some (Inr dx)" "binance_exec_new W bn wx = Some (Inr ex)"
    and k: "build_live e cfg ''py-strategy'' st ex (fold data_subscribe (kernel_subs (im_iid meta)) dx) = Some k"
    and pk: "pk_inner pk = Some k" "le_environment (pk_env pk) = e"
    using assms
    by (auto simp: build_py_kernel_def lift_port_def Let_def py_kernel_new_def live_env_def
        split: sum.split_asm option.split_asm if_split_asm)
  have "bn = kernel_binance A config e" "has_credentials bn"
    using s by (auto simp: kernel_setup_def Let_def result_bind_Inr split: if_split_asm)
  moreover have "bx_config ex = bn" "dx_config dx = bn" using c by (simp_all add: new_client_config)
  moreover have "lv_exec_client k = ex" "lv_data_client k = fold data_subscribe (kernel_subs (im_iid meta)) dx"
    using k by (auto simp: build_live_def split: if_split_asm)
  ultimately show ?thesis using e pk by (auto simp: subscribe_config kernel_binance_def nested_bool_def or_default_def)
qed

theorem kernel_needs_credentials_witness:
  "\<exists>(pk :: (unit, unit, _, _) py_kernel) k.
     build_py_kernel None plain_floats sample_access venue_wire (\<lambda>x. x) of_nat ([], Map.empty) ([], Map.empty) ''sandbox'' ''cfg''
       (Some (ad_obj sample_adapter, ())) = Some (Ok pk) \<and>
     pk_inner pk = Some k \<and> has_credentials (bx_config (lv_exec_client k)) \<and> bn_testnet (bx_config (lv_exec_client k))"
proof -
  obtain pk :: "(unit, unit, _, _) py_kernel" where
    b: "build_py_kernel None plain_floats sample_access venue_wire (\<lambda>x. x) of_nat ([], Map.empty) ([], Map.empty) ''sandbox'' ''cfg''
       (Some (ad_obj sample_adapter, ())) = Some (Ok pk)" "le_environment (pk_env pk) = SandboxEnv"
    using sample_kernel_built by blast
  have "nested_attr sample_access ''cfg'' ''binance'' ''testnet'' = None"
    by (simp add: nested_attr_def sample_access_def)
  with kernel_needs_credentials [OF b(1)] b show ?thesis by auto
qed

end
