(* ===== verification/Testkit.thy ===== *)
theory Testkit
  imports Daemons Bridge_Build
begin

text \<open>
  The fixtures of \<open>coinext-testkit\<close>: the two sample instruments and the series of bars that the tests of
  the other crates are fed with. A fixture that cannot be built panics (\<open>None\<close>); the sine is the
  language's, a parameter.
\<close>

section \<open>Fixtures\<close>

definition sample_increments :: "dec_ops \<Rightarrow> (price \<times> quantity) option" where
  "sample_increments D = do {
     p \<leftarrow> unwrapped (price_from_decimal D (dec_new 1 2) 2);
     q \<leftarrow> unwrapped (qty_from_decimal D (dec_new 1 3) 3);
     Some (p, q) }"

definition sample_spot :: "dec_ops \<Rightarrow> string \<Rightarrow> instrument option" where
  "sample_spot D venue = do {
     usdt \<leftarrow> unwrapped (currency_new ''USDT'' 8);
     btc \<leftarrow> unwrapped (currency_new ''BTC'' 8);
     iid \<leftarrow> instrument_id_parse (''BTCUSDT.'' @ venue);
     (pinc, sinc) \<leftarrow> sample_increments D;
     Some (currency_pair_dyn
       \<lparr>cp_id = iid, cp_base = btc, cp_quote = usdt, cp_price_precision = 2, cp_size_precision = 3, cp_price_increment = pinc,
        cp_size_increment = sinc, cp_min_notional = None, cp_maker_fee = dec_new 2 4, cp_taker_fee = dec_new 4 4\<rparr>) }"

definition sample_perp :: "dec_ops \<Rightarrow> string \<Rightarrow> instrument option" where
  "sample_perp D venue = do {
     usdt \<leftarrow> unwrapped (currency_new ''USDT'' 8);
     btc \<leftarrow> unwrapped (currency_new ''BTC'' 8);
     iid \<leftarrow> instrument_id_parse (''BTCUSDT-PERP.'' @ venue);
     (pinc, sinc) \<leftarrow> sample_increments D;
     one \<leftarrow> unwrapped (qty_from_raw 1 0);
     Some (crypto_perpetual_dyn
       \<lparr>pp_id = iid, pp_base = btc, pp_quote = usdt, pp_settlement = usdt, pp_price_precision = 2, pp_size_precision = 3,
        pp_price_increment = pinc, pp_size_increment = sinc, pp_min_notional = None, pp_multiplier = one,
        pp_maker_fee = dec_new 2 4, pp_taker_fee = dec_new 4 4, pp_is_inverse = False, pp_funding_interval_ns = 28800000000000\<rparr>) }"

definition close_bar :: "float_env \<Rightarrow> instrument_id \<Rightarrow> u64 \<Rightarrow> u64 \<Rightarrow> nat \<times> f64 \<Rightarrow> market_event option" where
  "close_bar F iid start step x = do {
     px \<leftarrow> unwrapped (px_of F (snd x) 2);
     vol \<leftarrow> unwrapped (qx_of F (flit 10) 3);
     let ts = start + of_nat (fst x) * step;
     Some (MBar \<lparr>b_bar_type = minute_bars iid, b_open = px, b_high = px, b_low = px, b_close = px, b_volume = vol,
       b_ts_event = ts, b_ts_init = ts\<rparr>) }"

definition bars_from_closes :: "float_env \<Rightarrow> instrument_id \<Rightarrow> u64 \<Rightarrow> u64 \<Rightarrow> f64 list \<Rightarrow> market_event list option" where
  "bars_from_closes F iid start step closes = those (map (close_bar F iid start step) (List.enumerate 0 closes))"

definition sine_closes :: "(f64 \<Rightarrow> f64) \<Rightarrow> f64 \<Rightarrow> nat \<Rightarrow> f64 \<Rightarrow> f64 \<Rightarrow> nat \<Rightarrow> f64 list" where
  "sine_closes fsin tau n base amplitude period =
     map (\<lambda>i. fadd base (fmul amplitude (fsin (fmul (fdiv (flit (of_nat i)) (flit (of_nat period))) tau)))) [0..<n]"

section \<open>Properties\<close>

lemma unat_of_nat64: "n < 2 ^ 64 \<Longrightarrow> unat (of_nat n :: u64) = n"
  by (simp add: unsigned_of_nat take_bit_nat_eq_self)

lemma those_length: "those xs = Some ys \<Longrightarrow> length ys = length xs \<and> (\<forall>i < length xs. xs ! i = Some (ys ! i))"
proof (induction xs arbitrary: ys)
  case (Cons x xs)
  then obtain y zs where "x = Some y" "those xs = Some zs" "ys = y # zs" by (auto split: option.split_asm)
  then show ?case using Cons.IH by (auto simp: nth_Cons split: nat.split)
qed simp

lemma close_bar_ts:
  assumes "close_bar F iid start step (i, c) = Some ev" "unat start + i * unat step < 2 ^ 64"
  shows "unat (mev_ts_event ev) = unat start + i * unat step"
proof -
  have "mev_ts_event ev = start + of_nat i * step" using assms(1) by (auto simp: close_bar_def bind_eq_Some Let_def)
  also have "\<dots> = of_nat (unat start + i * unat step)" by simp
  finally show ?thesis using assms(2) by (simp only: unat_of_nat64)
qed

text \<open>
  A series of bars is a feed: one bar per close, at the given distance from one another, in strictly
  increasing time as long as the last one fits the clock.
\<close>

theorem closes_are_ordered:
  assumes "bars_from_closes F iid start step closes = Some evs" "0 < step"
    "unat start + length closes * unat step < 2 ^ 64"
  shows "length evs = length closes \<and> sorted_wrt (<) (map mev_ts_event evs)"
proof -
  note l = those_length [OF assms(1) [unfolded bars_from_closes_def]]
  have t: "unat (mev_ts_event (evs ! i)) = unat start + i * unat step" if "i < length closes" for i
  proof (rule close_bar_ts)
    show "close_bar F iid start step (i, closes ! i) = Some (evs ! i)" using l that by (simp add: nth_enumerate_eq)
    have "i * unat step \<le> length closes * unat step" using that by (intro mult_right_mono) simp_all
    then show "unat start + i * unat step < 2 ^ 64" using assms(3) by linarith
  qed
  have "0 < unat step" using assms(2) by (simp add: word_less_nat_alt)
  then show ?thesis using l t by (auto simp: sorted_wrt_iff_nth_less word_less_nat_alt)
qed

end
