(* ===== verification/Stop_Signal.thy ===== *)
theory Stop_Signal
  imports Live
begin

text \<open>
  The stop handle between threads: \<open>LiveKernelStopHandle\<close> of \<open>coinext-kernel/src/types.rs\<close> and the
  head of the live loop in \<open>live.rs\<close>. The theory of the live kernel reads the flag once at the start
  of a round; here the flag, the notification and the waiting of \<open>select!\<close> are separate steps that
  a thread asking for the stop may interleave with.

  \<open>Notify::notify_waiters\<close> wakes the waiters that exist when it is called and leaves no permit for
  later ones, so it reaches the kernel exactly while it waits.
\<close>

section \<open>The two threads\<close>

datatype kernel_pc = LoopTop | Checking | Arming | Waiting | Handling | LoopLeft

datatype stopper_pc = NotAsked | FlagSet | Asked

record stop_state =
  sg_requested :: bool
  sg_woken :: bool
  sg_kernel :: kernel_pc
  sg_stopper :: stopper_pc
  sg_handled :: nat

text \<open>\<open>sg_handled\<close> counts the reports and market events taken since the flag was set.\<close>

definition stop_init :: stop_state where
  "stop_init = \<lparr>sg_requested = False, sg_woken = False, sg_kernel = LoopTop, sg_stopper = NotAsked, sg_handled = 0\<rparr>"

inductive stop_step :: "stop_state \<Rightarrow> stop_state \<Rightarrow> bool" where
  top_break: "sg_kernel s = LoopTop \<Longrightarrow> sg_requested s \<Longrightarrow> stop_step s (s\<lparr>sg_kernel := LoopLeft\<rparr>)"
| top_go: "sg_kernel s = LoopTop \<Longrightarrow> \<not> sg_requested s \<Longrightarrow> stop_step s (s\<lparr>sg_kernel := Checking\<rparr>)"
| check_break: "sg_kernel s = Checking \<Longrightarrow> sg_requested s \<Longrightarrow> stop_step s (s\<lparr>sg_kernel := LoopLeft\<rparr>)"
| check_go: "sg_kernel s = Checking \<Longrightarrow> \<not> sg_requested s \<Longrightarrow> stop_step s (s\<lparr>sg_kernel := Arming\<rparr>)"
| arm: "sg_kernel s = Arming \<Longrightarrow> stop_step s (s\<lparr>sg_kernel := Waiting, sg_woken := False\<rparr>)"
| wake: "sg_kernel s = Waiting \<Longrightarrow> sg_woken s \<Longrightarrow> stop_step s (s\<lparr>sg_kernel := LoopLeft\<rparr>)"
| event: "sg_kernel s = Waiting \<Longrightarrow> \<not> sg_woken s \<Longrightarrow>
    stop_step s (s\<lparr>sg_kernel := Handling, sg_handled := (if sg_requested s then Suc (sg_handled s) else 0)\<rparr>)"
| handled: "sg_kernel s = Handling \<Longrightarrow> stop_step s (s\<lparr>sg_kernel := LoopTop\<rparr>)"
| set_flag: "sg_stopper s \<noteq> FlagSet \<Longrightarrow> stop_step s (s\<lparr>sg_requested := True, sg_stopper := FlagSet\<rparr>)"
| notify: "sg_stopper s = FlagSet \<Longrightarrow>
    stop_step s (s\<lparr>sg_woken := sg_woken s \<or> sg_kernel s = Waiting, sg_stopper := Asked\<rparr>)"

inductive_cases stop_stepE: "stop_step s t"

abbreviation stop_reach :: "stop_state \<Rightarrow> bool" where
  "stop_reach \<equiv> stop_step\<^sup>*\<^sup>* stop_init"

section \<open>Invariants\<close>

text \<open>
  At most one event is taken after the flag is set, and none if the kernel still has to look at the
  flag; a kernel that left the loop, or that was woken, was asked to.
\<close>

definition stop_inv :: "stop_state \<Rightarrow> bool" where
  "stop_inv s \<longleftrightarrow>
     (sg_kernel s = LoopLeft \<or> sg_woken s \<or> sg_stopper s \<noteq> NotAsked \<longrightarrow> sg_requested s) \<and>
     sg_handled s \<le> 1 \<and> (sg_kernel s \<in> {Arming, Waiting} \<or> \<not> sg_requested s \<longrightarrow> sg_handled s = 0)"

lemma stop_inv_step: "stop_step s t \<Longrightarrow> stop_inv s \<Longrightarrow> stop_inv t"
  by (induction rule: stop_step.induct) (auto simp: stop_inv_def)

lemma stop_inv_reach: "stop_reach s \<Longrightarrow> stop_inv s"
proof (induction rule: rtranclp_induct)
  case base
  show ?case by (simp add: stop_init_def stop_inv_def)
qed (rule stop_inv_step)

section \<open>A lost notification\<close>

definition slept :: stop_state where
  "slept = \<lparr>sg_requested = True, sg_woken = False, sg_kernel = Waiting, sg_stopper = Asked, sg_handled = 0\<rparr>"

lemma slept_reached: "stop_reach slept"
proof -
  let ?a = "stop_init\<lparr>sg_kernel := Checking\<rparr>" and ?b = "stop_init\<lparr>sg_kernel := Arming\<rparr>"
  let ?c = "?b\<lparr>sg_requested := True, sg_stopper := FlagSet\<rparr>" and ?d = "?b\<lparr>sg_requested := True, sg_stopper := Asked\<rparr>"
  have "stop_step stop_init ?a" "stop_step ?a ?b" "stop_step ?b ?c" "stop_step ?c ?d" "stop_step ?d slept"
    using top_go [of stop_init] check_go [of ?a] set_flag [of ?b] notify [of ?c] arm [of ?d]
    by (simp_all add: stop_init_def slept_def)
  then show ?thesis by (meson rtranclp.rtrancl_into_rtrancl rtranclp.rtrancl_refl)
qed

section \<open>Properties\<close>




end
