(* ===== verification/Spec2Isabelle.thy ===== *)
theory Spec2Isabelle
  imports Testkit Stop_Signal
begin

text \<open>
  A model of the trading core of coinext and proofs of what makes it correct.

  \<^bold>\<open>The program.\<close> coinext is a trading platform whose core runs the same way on historical
  and on live data. Fixed-precision values and clocks (\<open>coinext-core\<close>) carry the domain model
  (\<open>coinext-model\<close>): instruments, the event-sourced order, positions, order books. The cache
  (\<open>coinext-cache\<close>) holds the shared state. A strategy acts through the context of
  \<open>coinext-ports\<close>, which queues its intents; the execution engine (\<open>coinext-exec-engine\<close>)
  takes each intent through the exchange rules and the risk gate (\<open>coinext-risk-engine\<close>, reading
  \<open>coinext-portfolio\<close>) to the venue, which in a backtest is the simulated exchange
  (\<open>coinext-sim\<close>), and folds the reports that come back into orders and positions. The data
  engine writes market data to the cache and the bus (\<open>coinext-data-engine\<close>, \<open>coinext-bus\<close>).
  The backtest kernel (\<open>coinext-kernel\<close>) drives all of them along one time frontier; the live
  kernel of the same crate drives the same engines from two streams, the market data of a data
  client and the reports of an execution client, and stops on request. Market data comes from the
  Binance adapter (\<open>coinext-adapters-binance\<close>), which repairs its depth books from snapshots, loads
  instruments and sends orders over the REST and websocket layer of \<open>coinext-network\<close>. A
  separate execution service (\<open>coinext-exec-svc\<close>) answers commands, keeps the durable log of order
  events (\<open>coinext-persistence\<close>) and reconciles it with the venue when it starts. An ingestion daemon
  (\<open>coinext-ingest\<close>) writes the same feed to a lake of monthly files; indicators and option pricing are
  libraries for strategies. The Python bridge (\<open>coinext-py\<close>) exposes all of it to Python: a Python object is
  run as a strategy, through a context that records its calls and replays them, in backtests and in paper,
  sandbox and live kernels.

  \<^bold>\<open>Theories.\<close>
  \<^item> \<open>Prelude\<close>: checked and saturating machine integers, the ordered map, the priority queue and
    the iterated hash map of the Rust library, formatting of sequence numbers.
  \<^item> \<open>Decimal\<close>: the decimal type. Its arithmetic belongs to the package \<open>rust_decimal\<close>: a record
    of operations passed to every definition that computes with decimals, with the documented
    behaviour as the locale \<open>decimal_lib\<close> and one instance that satisfies it.
  \<^item> \<open>Value\<close>, \<open>Clock\<close>, \<open>Domain\<close>: \<open>value.rs\<close>, \<open>error.rs\<close>, \<open>time.rs\<close>, \<open>clock.rs\<close> and the data
    types of \<open>coinext-model\<close>. Quantization is rounding half to even at the given precision; timers
    fire in order of time, each once.
  \<^item> \<open>Book\<close>, \<open>Order\<close>, \<open>Position\<close>: \<open>order_book.rs\<close>, \<open>order.rs\<close>, \<open>position.rs\<close>. The book refines a
    map of levels; the order refines its documented transition table, keeps the fill arithmetic
    and can be rebuilt from its events; a fill moves a position by its signed quantity and
    realizes the profit of what it closes.
  \<^item> \<open>Cache\<close>, \<open>Ports\<close>, \<open>Portfolio\<close>, \<open>Risk\<close>: the tables with their contract \<open>keyed_store\<close>, commands
    and the order factory, exposure and equity, the pre-trade checks. An approved order meets
    every configured limit in exact arithmetic.
  \<^item> \<open>Brokerage\<close>, \<open>Sim\<close>, \<open>Sim_Facts\<close>: \<open>brokerage.rs\<close> and the simulated exchange. Orders are never
    overfilled, limit prices are respected, submission never fills, reports are delivered in
    order and never early.
  \<^item> \<open>Exec\<close>: the execution engine. Orders reach the venue only through all gates; fills count once
    and move positions by their quantity; the daily rules of the Chinese exchanges hold.
  \<^item> \<open>Bus\<close>: the bus and the data engine.
  \<^item> \<open>Kernel\<close>, \<open>Kernel_Facts\<close>, \<open>Kernel_Props\<close>, \<open>Backtest\<close>: the backtest kernel. Time runs forward, no
    state depends on data not yet reached, runs of market-driven strategies end, expiry and
    liquidation flatten positions, the books stay in order, the kill switch holds.
  \<^item> \<open>Live\<close>, \<open>Clients\<close>, \<open>Live_Props\<close>, \<open>Live_Session\<close>: the live kernel (\<open>live.rs\<close>), the paper clients
    (\<open>paper.rs\<close>) and the simulated venue behind the asynchronous trait (\<open>port.rs\<close>). No order is sent
    twice however the streams interleave, submission agrees with the backtest where the exchange
    rules do not apply, the books stay in order, paper sessions end.
  \<^item> \<open>Depth\<close>: the depth feed of the Binance adapter (\<open>book.rs\<close>, \<open>data.rs\<close>): gap detection, the
    resyncer, normalization of frames and snapshots, the pump. No update between a snapshot and the
    state of the book is lost, a repair takes at most two snapshots and leaves the snapshot's book.
  \<^item> \<open>Network\<close>, \<open>Socket\<close>: the network layer: query encoding and signature (\<open>sign.rs\<close>), requests, retry
    policy and sending loop (\<open>rest.rs\<close>), the limiter's gate (\<open>ratelimit.rs\<close>), the socket task
    (\<open>ws.rs\<close>). Queries read back, a call acts on the venue at most once and makes a bounded number
    of attempts, a depth book never survives a reconnect.
  \<^item> \<open>Decimal_Text\<close>, \<open>Binance\<close>, \<open>Instruments\<close>, \<open>Feed\<close>: decimal text as a contract, and the clients of the
    adapter: order parameters, submission, reports and reconciliation (\<open>exec.rs\<close>, \<open>config.rs\<close>), the
    instrument provider (\<open>instruments.rs\<close>), the market-data client (\<open>data.rs\<close>). The venue reads the order that was meant and places it
    at most once, reconciliation converges, instruments are well typed with exact increments,
    subscribed bars are dropped.
  \<^item> \<open>Persist\<close>: the sequence cursors and the event log (\<open>cursor.rs\<close>, \<open>event_store.rs\<close>). Minted ids stay
    unique over a restart, the log rebuilds orders.
  \<^item> \<open>Service\<close>, \<open>Process\<close>: the execution service: its handlers and reconciliation (\<open>oms.rs\<close>, \<open>venue.rs\<close>), and the
    process around them (\<open>main.rs\<close>): start, the two stream consumers, the control server, the report
    pump and the metrics as steps that interleave in any order. The kill switch holds until released,
    commands of the stream are handled once and in order, a failed connection ends in paper fills.
  \<^item> \<open>Stop_Signal\<close>: the stop handle of the live kernel (\<open>types.rs\<close>) as two threads that interleave. A stop is
    noticed within one event, and can be slept through while no event comes.
  \<^item> \<open>Float64\<close>, \<open>Indicators\<close>, \<open>Derivatives\<close>: IEEE double precision as exact rational arithmetic with one
    rounding, and the two float libraries on it: the streaming indicators (\<open>coinext-indicators\<close>) and
    option pricing (\<open>coinext-derivatives\<close>). Rolling windows hold the last finite ticks, averages on a
    binary grid are correctly rounded means, the bounded indicators and the implied volatility stay in
    their ranges under every rounding and overflow.
  \<^item> \<open>Lake\<close>, \<open>Calendar\<close>, \<open>Ingest\<close>: columnar files (\<open>parquet.rs\<close>), the month of a timestamp, and the
    ingestion daemon (\<open>coinext-ingest\<close>). Rows read back, the month is that of the calendar, no bar is
    lost between feed and lake, a flush merges by time, the daemon stops when asked.
  \<^item> \<open>Report\<close>: what the kernels report in floats: equity, run results and portfolio snapshots
    (\<open>backtest.rs\<close>, \<open>types.rs\<close>). Net exposure never exceeds gross exposure.
  \<^item> \<open>Bridge\<close>, \<open>Bridge_Build\<close>: the Python bridge (\<open>coinext-py/src/lib.rs\<close>). \<open>Bridge\<close> has the context of a
    handler, the replay of its intents and the strategy adapter, with the direct execution of the same
    calls as its specification: recording and replaying is equivalent to executing at once, and the ids
    a handler is told are the ids its orders get. \<open>Bridge_Build\<close> has the indicator classes, the
    construction of instruments and events, both backtest entry points, the builders of paper,
    sandbox and live kernels and the handle that runs them: backtests end, instruments are well
    typed, kernels that trade have credentials, a paper kernel runs once.
  \<^item> \<open>Daemons\<close>, \<open>Testkit\<close>: the entry points of the ingestion daemon, its smoke run and metrics, the handle
    of the socket task, and the fixtures of the test kit.

  \<^bold>\<open>Correspondence.\<close> A struct is a record with prefixed fields of the same names, an enum a
  datatype with its variants. A method on \<open>&mut self\<close> returns the changed record; a \<open>RefCell\<close> shared
  by several owners occurs once, in the record of the owner that lends it. A Rust panic is \<open>None\<close>
  of an outer option, a \<open>Result\<close> a sum with the error on the left. A trait object is the record of
  its methods. Where the program iterates a hash map whose order the library does not fix, the
  order is a parameter of the definition and the theorems hold for every order. In the live kernel
  an outcome also says that a call waits on a full channel (\<open>LBlock\<close>), panics (\<open>LPanic\<close>) or returns an
  error; between two rounds of its loop the environment may change the clients, request a stop or
  deliver events, which is what the relation \<open>live_steps\<close> describes. JSON is a datatype of values,
  with the parser of decimals as a parameter. Python code is a tree of calls on its context and
  continuations on the replies, with the state of the object it ends in; the attributes of Python
  objects are read by functions that are arguments.

  \<^bold>\<open>Fuel.\<close> The loop of a backtest may run forever, since a strategy may set a new timer or submit a
  new order whenever it is called. \<open>kernel_loop\<close> has fuel and reports exhaustion as a value of its
  own; for strategies that act on start and on market data some amount of fuel always suffices.
  The same holds of \<open>live_loop\<close>, which also tells a loop that waits for an event that is not there
  (\<open>Stalled\<close>) from one that ran out of fuel (\<open>Exhausted\<close>). The loop that fetches depth snapshots needs
  none: it is a total function.

  \<^bold>\<open>Contracts.\<close> \<open>decimal_lib\<close>; \<open>timer_clock\<close> and \<open>cancellable_clock\<close> (both clocks, and the backtest
  clock); \<open>keyed_store\<close> (each table of the cache); \<open>due_queue\<close> (the delayed reports);
  \<open>brokerage\<close> and \<open>default_brokerage\<close> (the default model); \<open>kernel_invariant\<close> (what every phase
  of a turn keeps: the order of the queues, the books, the kill switch and the id of the order factory);
  \<open>live_invariant\<close> (what every round of a live session keeps: orders sent once, the fill ledger, the
  open report channel of the paper client, its price, the spent feed); \<open>call_runner\<close> (how a kernel performs
  the calls of a handler, with a frozen and with a moving clock); \<open>indicator_class\<close> (the seven indicator
  classes of the bridge); \<open>decimal_text\<close> (parsing and printing of decimals); \<open>seq_cursor\<close> (both cursors); \<open>event_log\<close> (the SQLite
  store); \<open>rolling_window\<close> (the three windowed indicators). Each is interpreted on the definitions of the program.

  \<^bold>\<open>The network.\<close> What lies behind the network is a state of the world with the operations of the
  packages on it (\<open>net_env\<close>): HTTP, the digest, the token bucket, the clock. Theorems about retries
  state what they need of a venue as the predicate \<open>venue_law\<close>: a request is processed or lost, an
  answer 429 or 418 means it was refused, success means it was processed.

  \<^bold>\<open>Not modelled.\<close> Serialization to text and display; the transports themselves (HTTP,
  TLS, websockets, Redis) and the SQL engine, of which the model has what a call returns; the
  scheduling of background tasks, of which the model has the step they repeat; the encoding of
  Parquet files and messages; the precision of the exponential, the logarithm and the sine, which the
  language leaves open; start-up output, listening sockets and the registration of Python names; the
  summary a reconciliation publishes for operators. The backtest and live kernels keep exact amounts;
  their conversion to floats is a separate layer on top, in \<open>Report\<close>.
\<close>

end
